(* ===== verification/Prelude.thy ===== *)
theory Prelude
  imports
    Complex_Main
    "HOL-Library.Char_ord"
    "HOL-Library.List_Lexorder"
    "HOL-Library.Product_Lexorder"
    "HOL-Library.Word"
begin

text \<open>
  The shared layer of the development: the C++ standard-library objects the sources are
  written with, and the lemmas about them that every component uses.

  \<^item> \<open>omap\<close> is \<^verbatim>\<open>std::map\<close>: an association list in strictly increasing key order, so that a
    range-based \<^verbatim>\<open>for\<close> over the map is a recursion over the list. \<open>mput\<close> is \<^verbatim>\<open>m[k] = v\<close>,
    \<open>mdel\<close> is \<^verbatim>\<open>m.erase(k)\<close>, \<open>map_of\<close> is \<^verbatim>\<open>m.find(k)\<close>, \<open>mgetd\<close> reads \<^verbatim>\<open>m[k]\<close> of a map whose
    mapped type is value-initialised to \<open>d\<close>.
  \<^item> \<open>oset\<close> is \<^verbatim>\<open>std::set\<close>: a strictly increasing list, with \<open>sput\<close> and \<open>sdel\<close>.
  \<^item> \<open>double\<close> is the type \<open>real\<close>: exact arithmetic, no rounding, no NaN. An infinity that
    the code uses as the start of a minimum search is an option or a first candidate.
  \<^item> \<^verbatim>\<open>uint64_t\<close> is a 64-bit word, with the wrap-around of the C++ type; \<^verbatim>\<open>int\<close> and \<^verbatim>\<open>size_t\<close>
    are \<open>int\<close> and \<open>nat\<close> (identifiers and counters far below their widths).
  \<^item> an exception is the left side of a sum over \<open>exn\<close>.
\<close>

section \<open>Types of the model\<close>

type_synonym double = real
type_synonym uint64 = "64 word"
type_synonym ('k, 'v) omap = "('k \<times> 'v) list"
type_synonym 'a oset = "'a list"
type_synonym cpu_mask = "int list"

text \<open>The exceptions the sources throw, with their standard type and message.\<close>

datatype exn =
    Runtime_Error string
  | Logic_Error string
  | Invalid_Argument string
  | Out_Of_Range string

type_synonym 'a result = "exn + 'a"

section \<open>Ordered maps and sets\<close>

fun mput :: "'k::linorder \<Rightarrow> 'v \<Rightarrow> ('k, 'v) omap \<Rightarrow> ('k, 'v) omap" where
  "mput k v [] = [(k, v)]"
| "mput k v (e # m) =
     (if fst e < k then e # mput k v m
      else if fst e = k then (k, v) # m
      else (k, v) # e # m)"

definition mdel :: "'k \<Rightarrow> ('k, 'v) omap \<Rightarrow> ('k, 'v) omap" where
  "mdel k m = filter (\<lambda>e. fst e \<noteq> k) m"

definition mhas :: "('k, 'v) omap \<Rightarrow> 'k \<Rightarrow> bool" where
  "mhas m k = (map_of m k \<noteq> None)"

definition mgetd :: "'v \<Rightarrow> ('k, 'v) omap \<Rightarrow> 'k \<Rightarrow> 'v" where
  "mgetd d m k = (case map_of m k of None \<Rightarrow> d | Some v \<Rightarrow> v)"

definition mkeys :: "('k, 'v) omap \<Rightarrow> 'k list" where
  "mkeys m = map fst m"

definition mwf :: "('k::linorder, 'v) omap \<Rightarrow> bool" where
  "mwf m = sorted_wrt (<) (map fst m)"

text \<open>\<^verbatim>\<open>m[k] += v\<close> on a map whose values start at zero.\<close>

definition madd :: "'k::linorder \<Rightarrow> 'v::monoid_add \<Rightarrow> ('k, 'v) omap \<Rightarrow> ('k, 'v) omap" where
  "madd k v m = mput k (mgetd 0 m k + v) m"

text \<open>\<^verbatim>\<open>m[k].push_back(v)\<close> on a map of vectors.\<close>

definition mpush :: "'k::linorder \<Rightarrow> 'v \<Rightarrow> ('k, 'v list) omap \<Rightarrow> ('k, 'v list) omap" where
  "mpush k v m = mput k (mgetd [] m k @ [v]) m"

fun sput :: "'a::linorder \<Rightarrow> 'a oset \<Rightarrow> 'a oset" where
  "sput x [] = [x]"
| "sput x (y # s) = (if y < x then y # sput x s else if y = x then y # s else x # y # s)"

definition sdel :: "'a \<Rightarrow> 'a oset \<Rightarrow> 'a oset" where
  "sdel x s = filter (\<lambda>y. y \<noteq> x) s"

definition swf :: "'a::linorder oset \<Rightarrow> bool" where
  "swf s = sorted_wrt (<) s"

text \<open>The set built by inserting the elements of a range one after the other.\<close>

definition sfrom :: "'a::linorder list \<Rightarrow> 'a oset" where
  "sfrom xs = fold sput xs []"

text \<open>\<^verbatim>\<open>std::sort\<close> followed by \<^verbatim>\<open>std::unique\<close> and \<^verbatim>\<open>erase\<close>.\<close>

definition sort_unique :: "'a::linorder list \<Rightarrow> 'a list" where
  "sort_unique xs = remdups_adj (sort xs)"

text \<open>\<^verbatim>\<open>std::set_intersection\<close> over two sorted ranges, as the library walks them.\<close>

fun set_intersection :: "'a::linorder list \<Rightarrow> 'a list \<Rightarrow> 'a list" where
  "set_intersection [] ys = []"
| "set_intersection (x # xs) [] = []"
| "set_intersection (x # xs) (y # ys) =
     (if x < y then set_intersection xs (y # ys)
      else if y < x then set_intersection (x # xs) ys
      else x # set_intersection xs ys)"

section \<open>Collections of facts\<close>

named_theorems omap_simps "lookup, membership and well-formedness of the ordered containers"

section \<open>Lemmas on ordered maps\<close>

lemma map_of_mput [simp, omap_simps]: "map_of (mput k v m) = (map_of m)(k \<mapsto> v)"
  by (induction m) (auto simp: fun_eq_iff)

lemma map_of_mdel [simp, omap_simps]: "map_of (mdel k m) = (map_of m)(k := None)"
  by (induction m) (auto simp: mdel_def fun_eq_iff)

lemma keys_mput [omap_simps]: "fst ` set (mput k v m) = insert k (fst ` set m)"
  by (induction m) auto

lemma set_mput_subset: "set (mput k v m) \<subseteq> insert (k, v) (set m)"
  by (induction m) auto

lemma mwf_Nil [simp, omap_simps]: "mwf []"
  by (simp add: mwf_def)

lemma mwf_mput [simp, omap_simps]:
  assumes "mwf m" shows "mwf (mput k v m)"
  using assms
proof (induction m)
  case Nil
  then show ?case by (simp add: mwf_def)
next
  case (Cons e m)
  from Cons.prems have low: "\<And>e'. e' \<in> set m \<Longrightarrow> fst e < fst e'" and wf: "mwf m"
    by (auto simp: mwf_def)
  show ?case
  proof (cases "fst e < k")
    case True
    have "mwf (mput k v m)" using Cons.IH wf by blast
    moreover have "fst e < fst e'" if "e' \<in> set (mput k v m)" for e'
    proof -
      have "fst e' \<in> insert k (fst ` set m)"
        using that keys_mput [of k v m] by (metis image_eqI)
      then show ?thesis using True low by auto
    qed
    ultimately show ?thesis using True by (auto simp: mwf_def)
  next
    case False
    then show ?thesis using Cons.prems low by (fastforce simp: mwf_def)
  qed
qed

lemma mwf_mdel [simp, omap_simps]: "mwf m \<Longrightarrow> mwf (mdel k m)"
  by (induction m) (auto simp: mwf_def mdel_def)

lemma mwf_distinct: "mwf m \<Longrightarrow> distinct (map fst m)"
  unfolding mwf_def by (simp add: strict_sorted_iff)

lemma mwf_entry: "mwf m \<Longrightarrow> (k, v) \<in> set m \<longleftrightarrow> map_of m k = Some v"
  by (meson map_of_SomeD map_of_is_SomeI mwf_distinct)

lemma mhas_dom [omap_simps]: "mhas m k \<longleftrightarrow> k \<in> dom (map_of m)"
  by (auto simp: mhas_def)

lemma mhas_keys: "mhas m k \<longleftrightarrow> k \<in> fst ` set m"
  by (simp add: mhas_def map_of_eq_None_iff)

lemma mkeys_dom [simp, omap_simps]: "set (mkeys m) = dom (map_of m)"
  by (simp add: mkeys_def dom_map_of_conv_image_fst)

lemma mgetd_mput [simp, omap_simps]:
  "mgetd d (mput k v m) k' = (if k' = k then v else mgetd d m k')"
  by (simp add: mgetd_def)

lemma mgetd_Nil [simp, omap_simps]: "mgetd d [] k = d"
  by (simp add: mgetd_def)

lemma mgetd_madd [simp, omap_simps]:
  "mgetd 0 (madd k v m) k' = (if k' = k then mgetd 0 m k + v else mgetd 0 m k')"
  by (simp add: madd_def)

lemma mwf_madd [simp, omap_simps]: "mwf m \<Longrightarrow> mwf (madd k v m)"
  by (simp add: madd_def)

lemma dom_madd [simp, omap_simps]: "dom (map_of (madd k v m)) = insert k (dom (map_of m))"
  by (simp add: madd_def)

text \<open>Two ordered maps with the same lookups are the same list.\<close>

lemma mwf_eqI:
  assumes "mwf m" "mwf n" "map_of m = map_of n"
  shows "m = n"
proof -
  have keys: "set (map fst m) = set (map fst n)"
    using assms(3) by (metis dom_map_of_conv_image_fst list.set_map)
  then have "map fst m = map fst n"
    using assms(1,2) by (simp add: mwf_def strict_sorted_equal)
  moreover have same: "set m = set n"
    using assms map_of_inject_set mwf_distinct by blast
  moreover have "inj_on fst (set m \<union> set n)"
    using mwf_distinct [OF assms(1)] same by (simp add: distinct_map)
  ultimately show ?thesis by (metis map_inj_on)
qed

text \<open>Maps that a loop fills or empties.\<close>

lemma map_of_fold_mput:
  assumes "distinct (map (fst \<circ> h) xs)"
  shows "map_of (fold (\<lambda>a m. mput (fst (h a)) (snd (h a)) m) xs m0) t =
    (case map_of (map h xs) t of None \<Rightarrow> map_of m0 t | Some v \<Rightarrow> Some v)"
  using assms
proof (induction xs arbitrary: m0)
  case (Cons x xs)
  have "map_of (map h xs) (fst (h x)) = None"
    using Cons.prems by (simp add: map_of_eq_None_iff image_image)
  then show ?case using Cons by (auto split: option.splits simp: prod.expand)
qed simp

lemma mwf_fold_mput: "mwf m0 \<Longrightarrow> mwf (fold (\<lambda>a m. mput (k a) (v a) m) xs m0)"
  by (induction xs arbitrary: m0) simp_all

lemma mwf_filter: "mwf m \<Longrightarrow> mwf (filter P m)"
  unfolding mwf_def by (metis sorted_wrt_filter sorted_wrt_map)

lemma map_of_fold_mdel: "map_of (fold mdel ts m) t = (if t \<in> set ts then None else map_of m t)"
  by (induction ts arbitrary: m) auto

lemma mwf_fold_mdel: "mwf m \<Longrightarrow> mwf (fold mdel ts m)"
  by (induction ts arbitrary: m) auto

lemma mwf_ConsD: "mwf ((k, v) # m) \<Longrightarrow> mwf m \<and> map_of m k = None \<and> (\<forall>e \<in> set m. k < fst e)"
  by (auto simp: mwf_def map_of_eq_None_iff)

lemma map_of_filter_key:
  "map_of (filter (\<lambda>(k, v). P k) m) k = (if P k then map_of m k else None)"
  by (induction m) auto

lemma dom_mput [simp, omap_simps]: "dom (map_of (mput k v m)) = insert k (dom (map_of m))"
  by simp

section \<open>Lemmas on ordered sets and sorted vectors\<close>

lemma set_sput [simp, omap_simps]: "set (sput x s) = insert x (set s)"
  by (induction s) auto

lemma set_sdel [simp, omap_simps]: "set (sdel x s) = set s - {x}"
  by (auto simp: sdel_def)

lemma swf_Nil [simp, omap_simps]: "swf []"
  by (simp add: swf_def)

lemma swf_sput [simp, omap_simps]: "swf s \<Longrightarrow> swf (sput x s)"
  by (induction s) (auto simp: swf_def)

lemma swf_sdel [simp, omap_simps]: "swf s \<Longrightarrow> swf (sdel x s)"
  by (simp add: swf_def sdel_def sorted_wrt_filter)

lemma swf_distinct: "swf s \<Longrightarrow> distinct s"
  by (simp add: swf_def strict_sorted_iff)

lemma swf_length_card: "swf s \<Longrightarrow> length s = card (set s)"
  by (simp add: distinct_card swf_distinct)

lemma length_sput: "swf s \<Longrightarrow> length (sput x s) = (if x \<in> set s then length s else Suc (length s))"
  by (simp add: swf_length_card insert_absorb)

lemma swf_eqI: "swf s \<Longrightarrow> swf t \<Longrightarrow> set s = set t \<Longrightarrow> s = t"
  by (simp add: swf_def strict_sorted_equal)

lemma set_fold_sput [simp]: "set (fold sput xs s) = set xs \<union> set s"
  by (induction xs arbitrary: s) auto

lemma swf_fold_sput [simp]: "swf s \<Longrightarrow> swf (fold sput xs s)"
  by (induction xs arbitrary: s) auto

lemma set_sfrom [simp, omap_simps]: "set (sfrom xs) = set xs"
  by (simp add: sfrom_def)

lemma swf_sfrom [simp, omap_simps]: "swf (sfrom xs)"
  by (simp add: sfrom_def)

lemma sput_idle: "swf s \<Longrightarrow> x \<in> set s \<Longrightarrow> sput x s = s"
  by (rule swf_eqI) auto

lemma sorted_distinct_swf: "swf s \<longleftrightarrow> sorted s \<and> distinct s"
  by (simp add: swf_def strict_sorted_iff)

lemma set_sort_unique [simp]: "set (sort_unique xs) = set xs"
  by (simp add: sort_unique_def)

lemma remdups_adj_swf: "sorted xs \<Longrightarrow> swf (remdups_adj xs)"
proof (induction xs rule: remdups_adj.induct)
  case (3 x y xs)
  show ?case
  proof (cases "x = y")
    case True
    with 3 show ?thesis by simp
  next
    case False
    with "3.prems" have "x < z" if "z \<in> set (y # xs)" for z
      using that by (auto simp: order.strict_iff_order)
    then have "\<forall>z \<in> set (remdups_adj (y # xs)). x < z" by simp
    moreover have "swf (remdups_adj (y # xs))" using 3 False by simp
    ultimately show ?thesis using False by (simp add: swf_def)
  qed
qed (auto simp: swf_def)

lemma swf_sort_unique [simp]: "swf (sort_unique xs)"
  by (simp add: sort_unique_def remdups_adj_swf)

lemma sort_unique_idle: "swf xs \<Longrightarrow> sort_unique xs = xs"
  by (rule swf_eqI) auto

lemma sfrom_eq_sort_unique: "sfrom xs = sort_unique xs"
  by (rule swf_eqI) auto

lemma set_set_intersection:
  "sorted xs \<Longrightarrow> sorted ys \<Longrightarrow> set (set_intersection xs ys) = set xs \<inter> set ys"
proof (induction xs ys rule: set_intersection.induct)
  case (3 x xs y ys)
  consider "x < y" | "y < x" | "x = y" by fastforce
  then show ?case
  proof cases
    case 1
    with 3 have "x \<notin> set (y # ys)" by auto
    with 1 3 show ?thesis by auto
  next
    case 2
    with 3 have "y \<notin> set (x # xs)" by auto
    with 2 3 show ?thesis by auto
  next
    case eq: 3
    with 3 have "set (set_intersection xs ys) = set xs \<inter> set ys" by simp
    with eq show ?thesis by (cases "x \<in> set ys \<or> x \<in> set xs") auto
  qed
qed auto

lemma set_intersection_subset: "set (set_intersection xs ys) \<subseteq> set xs \<inter> set ys"
  by (induction xs ys rule: set_intersection.induct) auto

lemma sorted_set_intersection: "sorted xs \<Longrightarrow> sorted (set_intersection xs ys)"
proof (induction xs ys rule: set_intersection.induct)
  case (3 x xs y ys)
  have "\<forall>z \<in> set (set_intersection xs ys). x \<le> z"
    using set_intersection_subset [of xs ys] "3.prems" by auto
  then show ?case using 3 by auto
qed auto

lemma swf_set_intersection: "swf xs \<Longrightarrow> swf (set_intersection xs ys)"
proof (induction xs ys rule: set_intersection.induct)
  case (3 x xs y ys)
  have "\<forall>z \<in> set (set_intersection xs ys). x < z"
    using set_intersection_subset [of xs ys] "3.prems" by (auto simp: swf_def)
  then show ?case using 3 by (auto simp: swf_def)
qed auto

lemma mem_UN_pairs: "x \<in> (\<Union>(k, v) \<in> A. F v) \<longleftrightarrow> (\<exists>k v. (k, v) \<in> A \<and> x \<in> F v)"
  by auto

section \<open>Top-k selections\<close>

text \<open>
  An element is among the first \<open>k\<close> of a sorted vector exactly when fewer than \<open>k\<close> elements
  come before it in the order.
\<close>

lemma sort_key_strict:
  assumes "distinct (map f xs)"
  shows "sorted_wrt (\<lambda>x y. f x < f y) (sort_key f xs)"
proof -
  have "distinct (map f (sort_key f xs))" "sorted (map f (sort_key f xs))"
    using assms by (simp_all add: distinct_map)
  then have "sorted_wrt (<) (map f (sort_key f xs))" by (simp add: strict_sorted_iff)
  then show ?thesis by (simp add: sorted_wrt_map)
qed

lemma in_take_sorted_iff:
  assumes "sorted_wrt (\<lambda>x y. f x < (f y :: 'k::linorder)) ys" "x \<in> set ys"
  shows "x \<in> set (take k ys) \<longleftrightarrow> card {y \<in> set ys. f y < f x} < k"
proof -
  obtain i where i: "i < length ys" "x = ys ! i" using assms(2) by (metis in_set_conv_nth)
  have less: "f (ys ! a) < f (ys ! b) \<longleftrightarrow> a < b" if "a < length ys" "b < length ys" for a b
    using that assms(1) by (metis linorder_neqE_nat order_less_asym sorted_wrt_nth_less)
  have inj: "inj_on ((!) ys) {..<length ys}" using less by (metis inj_onI lessThan_iff linorder_neqE_nat order_less_irrefl)
  have "{y \<in> set ys. f y < f x} = (!) ys ` {..<i}"
  proof (intro set_eqI iffI)
    fix y assume "y \<in> {y \<in> set ys. f y < f x}"
    then obtain j where "j < length ys" "y = ys ! j" "f y < f x" by (auto simp: in_set_conv_nth)
    then show "y \<in> (!) ys ` {..<i}" using less i by auto
  qed (use i less in auto)
  then have "card {y \<in> set ys. f y < f x} = i"
    using i(1) inj by (simp add: card_image inj_on_subset)
  moreover have "x \<in> set (take k ys) \<longleftrightarrow> i < k"
  proof
    assume "x \<in> set (take k ys)"
    then obtain j where "j < k" "j < length ys" "ys ! j = x" by (auto simp: in_set_conv_nth)
    then show "i < k" using i inj by (metis inj_on_contraD lessThan_iff)
  qed (use i in \<open>auto simp: in_set_conv_nth\<close>)
  ultimately show ?thesis by simp
qed

lemma in_take_sort_key:
  assumes "distinct (map f xs)"
  shows "x \<in> set (take k (sort_key f xs)) \<longleftrightarrow> x \<in> set xs \<and> card {y \<in> set xs. f y < f x} < k"
proof (cases "x \<in> set xs")
  case True
  then show ?thesis using in_take_sorted_iff [OF sort_key_strict [OF assms], of x k] by simp
next
  case False
  then show ?thesis using in_set_takeD [of x k "sort_key f xs"] by auto
qed

section \<open>Scans for a best candidate\<close>

text \<open>
  The loops that keep the best candidate so far: \<open>better x y\<close> is the test that replaces the
  kept \<open>y\<close> by \<open>x\<close>, and \<open>blank\<close> recognises the initial value, which every candidate replaces.
\<close>

locale best_scan =
  fixes better :: "'a \<Rightarrow> 'a \<Rightarrow> bool"
    and blank :: "'a \<Rightarrow> bool"
    and key :: "'a \<Rightarrow> 'k::linorder"
  assumes better_iff: "better x y \<longleftrightarrow> blank y \<or> key x < key y"
begin

definition keep :: "'a \<Rightarrow> 'a \<Rightarrow> 'a" where
  "keep x y = (if better x y then x else y)"

lemma scan_from:
  assumes "\<not> blank b" "\<forall>x \<in> set xs. \<not> blank x"
  shows "fold keep xs b \<in> insert b (set xs) \<and> (\<forall>x \<in> insert b (set xs). key (fold keep xs b) \<le> key x)"
  using assms
proof (induction xs arbitrary: b)
  case (Cons x xs)
  have "\<not> blank (keep x b)" "key (keep x b) \<le> key b" "key (keep x b) \<le> key x" "keep x b \<in> {x, b}"
    using Cons.prems by (auto simp: keep_def better_iff not_less)
  then show ?case using Cons.IH [of "keep x b"] Cons.prems(2) by fastforce
qed simp

lemma scan_best:
  assumes "blank b" "\<forall>x \<in> set xs. \<not> blank x" "xs \<noteq> []"
  shows "fold keep xs b \<in> set xs \<and> (\<forall>x \<in> set xs. key (fold keep xs b) \<le> key x)"
proof (cases xs)
  case (Cons x ys)
  then have "keep x b = x" using assms(1) by (simp add: keep_def better_iff)
  then show ?thesis using scan_from [of x ys] assms(2) Cons by simp
qed (use assms(3) in simp)

end

text \<open>
  The scans without an initial blank: \<open>scan_min\<close> starts from a candidate and replaces it by
  every strictly smaller one, \<open>min_element\<close> is \<^verbatim>\<open>std::min_element\<close> on a range that is not empty.
\<close>

definition scan_min :: "('a \<Rightarrow> 'k::linorder) \<Rightarrow> 'a list \<Rightarrow> 'a \<Rightarrow> 'a" where
  "scan_min key xs b = fold (\<lambda>x b. if key x < key b then x else b) xs b"

definition min_element :: "('a \<Rightarrow> 'k::linorder) \<Rightarrow> 'a list \<Rightarrow> 'a" where
  "min_element key xs = scan_min key (tl xs) (hd xs)"

interpretation min_scan: best_scan "\<lambda>x y. key x < key y" "\<lambda>_. False" key for key :: "'a \<Rightarrow> 'k::linorder"
  by unfold_locales simp

lemma scan_min_keep: "scan_min key xs b = fold (best_scan.keep (\<lambda>x y. key x < key y)) xs b"
  unfolding scan_min_def by (rule fold_cong) (simp_all add: min_scan.keep_def fun_eq_iff)

lemma scan_min_best:
  "scan_min key xs b \<in> insert b (set xs)" "x \<in> insert b (set xs) \<Longrightarrow> key (scan_min key xs b) \<le> key x"
  using min_scan.scan_from [where b = b and xs = xs and key = key] by (auto simp: scan_min_keep)

lemma min_element_best:
  assumes "xs \<noteq> []"
  shows "min_element key xs \<in> set xs" "x \<in> set xs \<Longrightarrow> key (min_element key xs) \<le> key x"
  using scan_min_best [where key = key and xs = "tl xs" and b = "hd xs"] assms
  by (cases xs; force simp: min_element_def)+

text \<open>Steps that may throw, one after the other, and a loop that collects their results.\<close>

definition rbind :: "'a result \<Rightarrow> ('a \<Rightarrow> 'b result) \<Rightarrow> 'b result" where
  "rbind m f = (case m of Inl e \<Rightarrow> Inl e | Inr x \<Rightarrow> f x)"

lemma rbind_Inr [simp]: "rbind (Inr x) f = f x"
  by (simp add: rbind_def)

lemma rbind_Inl [simp]: "rbind (Inl e) f = Inl e"
  by (simp add: rbind_def)

lemma rbind_result: "rbind m f = Inr y \<longleftrightarrow> (\<exists>x. m = Inr x \<and> f x = Inr y)"
  by (cases m) simp_all

fun rmap :: "('a \<Rightarrow> 'b result) \<Rightarrow> 'a list \<Rightarrow> 'b list result" where
  "rmap f [] = Inr []"
| "rmap f (x # xs) = rbind (f x) (\<lambda>y. rbind (rmap f xs) (\<lambda>ys. Inr (y # ys)))"

text \<open>A loop whose body may throw.\<close>

fun rfold :: "('x \<Rightarrow> 's \<Rightarrow> 's result) \<Rightarrow> 'x list \<Rightarrow> 's \<Rightarrow> 's result" where
  "rfold f [] s = Inr s"
| "rfold f (x # xs) s = (case f x s of Inl e \<Rightarrow> Inl e | Inr s' \<Rightarrow> rfold f xs s')"

lemma rfold_inv:
  assumes "rfold f xs s = Inr s'" "P s" "\<And>x s s'. x \<in> set xs \<Longrightarrow> P s \<Longrightarrow> f x s = Inr s' \<Longrightarrow> P s'"
  shows "P s'"
  using assms
proof (induction xs arbitrary: s)
  case (Cons x xs)
  then obtain t where t: "f x s = Inr t" "rfold f xs t = Inr s'" by (auto split: sum.splits)
  then have "P t" using Cons.prems by auto
  then show ?case using Cons.IH [OF t(2)] Cons.prems(3) by (meson list.set_intros(2))
qed simp

lemma rfold_total:
  assumes "P s" "\<And>x s. x \<in> set xs \<Longrightarrow> P s \<Longrightarrow> \<exists>s'. f x s = Inr s' \<and> P s'"
  shows "\<exists>s'. rfold f xs s = Inr s' \<and> P s'"
  using assms
proof (induction xs arbitrary: s)
  case (Cons x xs)
  then obtain t where "f x s = Inr t" "P t" by (meson list.set_intros(1))
  then show ?case using Cons.IH [of t] Cons.prems(2) by (simp add: list.set_intros(2))
qed simp

section \<open>Sub-vectors\<close>

lemma sorted_wrt_subseqs: "ys \<in> set (subseqs xs) \<Longrightarrow> sorted_wrt P xs \<Longrightarrow> sorted_wrt P ys"
proof (induction xs arbitrary: ys)
  case (Cons x xs)
  then obtain zs where zs: "zs \<in> set (subseqs xs)" "ys = x # zs \<or> ys = zs" by (auto simp: Let_def)
  have "set zs \<subseteq> set xs" using zs(1) subseqs_powset by (metis PowD image_eqI)
  then have "\<forall>z \<in> set zs. P x z" using Cons.prems(2) by auto
  then show ?case using zs Cons.IH [OF zs(1)] Cons.prems(2) by auto
qed simp

lemma swf_subseqs: "swf xs \<Longrightarrow> ys \<in> set (subseqs xs) \<longleftrightarrow> swf ys \<and> set ys \<subseteq> set xs"
proof
  assume "swf xs" "ys \<in> set (subseqs xs)"
  then show "swf ys \<and> set ys \<subseteq> set xs"
    using sorted_wrt_subseqs subseqs_powset unfolding swf_def by (metis PowD image_eqI)
next
  assume wf: "swf xs" and ys: "swf ys \<and> set ys \<subseteq> set xs"
  then obtain zs where "zs \<in> set (subseqs xs)" "set zs = set ys"
    using subseqs_powset [of xs] by (metis Pow_iff imageE)
  moreover from this wf have "swf zs" using sorted_wrt_subseqs unfolding swf_def by blast
  ultimately show "ys \<in> set (subseqs xs)" using ys swf_eqI by metis
qed

end
