(* ===== verification/Cpu_List.thy ===== *)
theory Cpu_List
  imports Prelude
begin

text \<open>
  The string helpers and the CPU-list syntax of \<^verbatim>\<open>src/config.cpp\<close>: \<open>trim\<close>, \<open>unquote\<close>, \<open>boolean\<close>,
  \<open>parse_cpu_list\<close> and \<open>format_cpu_list\<close>, with the parts of the standard library they rest on
  (\<^verbatim>\<open>std::isspace\<close> in the C locale, \<^verbatim>\<open>std::stoi\<close>, \<^verbatim>\<open>std::getline\<close> with a delimiter, \<^verbatim>\<open>operator<<\<close>
  for integers). The properties: a parsed envelope is a strictly increasing, non-empty list
  of CPU numbers in the supported range, and formatting followed by parsing gives back the
  same set of CPUs.
\<close>

section \<open>Characters and numbers of the standard library\<close>

definition isspace :: "char \<Rightarrow> bool" where
  "isspace c = (of_char c = (32::nat) \<or> (9 \<le> (of_char c :: nat) \<and> of_char c \<le> (13::nat)))"

definition isdigit :: "char \<Rightarrow> bool" where
  "isdigit c = (48 \<le> (of_char c :: nat) \<and> of_char c \<le> (57::nat))"

definition digit_value :: "char \<Rightarrow> int" where
  "digit_value c = int (of_char c) - 48"

definition digits_value :: "string \<Rightarrow> int" where
  "digits_value s = foldl (\<lambda>a c. 10 * a + digit_value c) 0 s"

definition int_max :: int where
  "int_max = 2147483647"

definition int_min :: int where
  "int_min = - 2147483648"

text \<open>
  \<^verbatim>\<open>std::stoi\<close>: leading white space, an optional sign, then at least one digit; what follows
  the digits is ignored. No digits is \<^verbatim>\<open>std::invalid_argument\<close>, a value outside \<^verbatim>\<open>int\<close> is
  \<^verbatim>\<open>std::out_of_range\<close>.
\<close>

definition stoi :: "string \<Rightarrow> int result" where
  "stoi s =
     (let t = dropWhile isspace s;
          neg = (t \<noteq> [] \<and> hd t = CHR ''-'');
          u = (if t \<noteq> [] \<and> (hd t = CHR ''-'' \<or> hd t = CHR ''+'') then tl t else t);
          ds = takeWhile isdigit u;
          v = (if neg then - digits_value ds else digits_value ds)
      in if ds = [] then Inl (Invalid_Argument ''stoi'')
         else if v < int_min \<or> int_max < v then Inl (Out_Of_Range ''stoi'')
         else Inr v)"

text \<open>
  The parts \<^verbatim>\<open>while (std::getline(input, part, delim))\<close> yields: a trailing delimiter does not
  start a last empty part.
\<close>

function getline_parts :: "char \<Rightarrow> string \<Rightarrow> string list" where
  "getline_parts d s =
     (if s = [] then []
      else case dropWhile (\<lambda>c. c \<noteq> d) s of
        [] \<Rightarrow> [s]
      | _ # r \<Rightarrow> takeWhile (\<lambda>c. c \<noteq> d) s # getline_parts d r)"
  by pat_completeness auto
termination
proof (relation "measure (\<lambda>(d, s). length s)", goal_cases)
  case (2 d s x r)
  have "length (dropWhile (\<lambda>c. c \<noteq> d) s) \<le> length s" by (rule length_dropWhile_le)
  with 2 show ?case by simp
qed simp

declare getline_parts.simps [simp del]

text \<open>\<^verbatim>\<open>out << n\<close> for integers.\<close>

definition digit_char :: "nat \<Rightarrow> char" where
  "digit_char d = char_of (48 + d)"

fun show_nat :: "nat \<Rightarrow> string" where
  "show_nat n = (if n < 10 then [digit_char n] else show_nat (n div 10) @ [digit_char (n mod 10)])"

declare show_nat.simps [simp del]

definition show_int :: "int \<Rightarrow> string" where
  "show_int i = (if i < 0 then CHR ''-'' # show_nat (nat (- i)) else show_nat (nat i))"

section \<open>Helpers of the configuration reader\<close>

definition trim :: "string \<Rightarrow> string" where
  "trim value = rev (dropWhile isspace (rev (dropWhile isspace value)))"

definition unquote :: "string \<Rightarrow> string result" where
  "unquote value =
     (if 2 \<le> length value \<and> hd value = CHR 0x22 \<and> last value = CHR 0x22
      then Inr (butlast (tl value))
      else Inl (Runtime_Error (''expected quoted TOML string: '' @ value)))"

definition boolean :: "string \<Rightarrow> bool result" where
  "boolean value =
     (if value = ''true'' then Inr True
      else if value = ''false'' then Inr False
      else Inl (Runtime_Error (''expected TOML boolean: '' @ value)))"

section \<open>CPU lists\<close>

definition max_cpu :: int where
  "max_cpu = 1048575"

text \<open>One element of the list: a CPU number or a range.\<close>

definition parse_cpu_part :: "string \<Rightarrow> (int \<times> int) result" where
  "parse_cpu_part raw =
     (let part = trim raw in
      if part = [] then Inl (Runtime_Error ''empty CPU-list element'')
      else
        let dash = takeWhile (\<lambda>c. c \<noteq> CHR ''-'') part;
            after = dropWhile (\<lambda>c. c \<noteq> CHR ''-'') part
        in case stoi dash of
             Inl e \<Rightarrow> Inl e
           | Inr first \<Rightarrow>
               (case (if after = [] then Inr first else stoi (tl after)) of
                  Inl e \<Rightarrow> Inl e
                | Inr last' \<Rightarrow>
                    if first < 0 \<or> last' < first \<or> max_cpu < last'
                    then Inl (Runtime_Error (''invalid CPU range: '' @ part))
                    else Inr (first, last')))"

fun parse_cpu_parts :: "string list \<Rightarrow> int oset \<Rightarrow> int oset result" where
  "parse_cpu_parts [] result = Inr result"
| "parse_cpu_parts (p # ps) result =
     (case parse_cpu_part p of
        Inl e \<Rightarrow> Inl e
      | Inr (first, last') \<Rightarrow> parse_cpu_parts ps (fold sput [first..last'] result))"

definition parse_cpu_list :: "string \<Rightarrow> int list result" where
  "parse_cpu_list text =
     (case parse_cpu_parts (getline_parts CHR '','' text) [] of
        Inl e \<Rightarrow> Inl e
      | Inr result \<Rightarrow>
          if result = [] then Inl (Runtime_Error ''CPU envelope must not be empty'')
          else Inr result)"

text \<open>The inner loop of the formatter: the last CPU of the run that starts at \<open>c\<close>, and what follows.\<close>

fun run_end :: "int \<Rightarrow> int list \<Rightarrow> int \<times> int list" where
  "run_end c [] = (c, [])"
| "run_end c (d # ds) = (if d = c + 1 then run_end d ds else (c, d # ds))"

lemma run_end_length: "length (snd (run_end c ds)) \<le> length ds"
  by (induction c ds rule: run_end.induct) auto

function format_runs :: "bool \<Rightarrow> int list \<Rightarrow> string" where
  "format_runs first [] = []"
| "format_runs first (c # cs) =
     (let (l, rest) = run_end c cs in
      (if first then [] else '','') @ show_int c @
      (if l \<noteq> c then CHR ''-'' # show_int l else []) @ format_runs False rest)"
  by pat_completeness auto
termination
proof (relation "measure (\<lambda>(first, cs). length cs)", goal_cases)
  case (2 first c cs r l rest)
  then show ?case using run_end_length [of c cs] by (cases "run_end c cs") auto
qed simp

definition format_cpu_list :: "int list \<Rightarrow> string" where
  "format_cpu_list input = (if input = [] then [] else format_runs True (sort_unique input))"

section \<open>Printing and reading a number\<close>

lemma show_nat_nonempty [simp]: "show_nat n \<noteq> []"
  by (subst show_nat.simps) simp

lemma isdigit_digit_char [simp]: "d < 10 \<Longrightarrow> isdigit (digit_char d)"
  by (simp add: isdigit_def digit_char_def)

lemma digit_value_digit_char [simp]: "d < 10 \<Longrightarrow> digit_value (digit_char d) = int d"
  by (simp add: digit_value_def digit_char_def)

lemma digits_value_snoc: "digits_value (s @ [c]) = 10 * digits_value s + digit_value c"
  by (simp add: digits_value_def)

lemma show_nat_digits: "\<forall>c \<in> set (show_nat n). isdigit c"
proof (induction n rule: show_nat.induct)
  case (1 n)
  then show ?case by (subst show_nat.simps) auto
qed

lemma digits_value_show_nat: "digits_value (show_nat n) = int n"
proof (induction n rule: show_nat.induct)
  case (1 n)
  show ?case
  proof (cases "n < 10")
    case True
    then show ?thesis by (subst show_nat.simps) (simp add: digits_value_def)
  next
    case False
    then have "digits_value (show_nat n) = 10 * int (n div 10) + int (n mod 10)"
      using 1 by (subst show_nat.simps) (simp add: digits_value_snoc)
    then show ?thesis by (simp add: zdiv_int zmod_int)
  qed
qed

lemma isdigit_facts:
  assumes "isdigit c"
  shows "\<not> isspace c" "c \<noteq> CHR ''-''" "c \<noteq> CHR ''+''" "c \<noteq> CHR '',''"
  using assms by (auto simp: isdigit_def isspace_def)

lemma stoi_digits:
  assumes ds: "ds \<noteq> []" "\<forall>c \<in> set ds. isdigit c" and le: "digits_value ds \<le> int_max"
    and nonneg: "0 \<le> digits_value ds"
  shows "stoi ds = Inr (digits_value ds)"
proof -
  obtain c cs where cs: "ds = c # cs" using ds(1) by (cases ds) auto
  have c: "isdigit c" using ds(2) cs by simp
  have "takeWhile isdigit ds = ds" using ds(2) by (simp add: takeWhile_eq_all_conv)
  then show ?thesis
    using le nonneg cs isdigit_facts [OF c] by (simp add: stoi_def Let_def int_min_def)
qed

lemma stoi_show_int: "0 \<le> i \<Longrightarrow> i \<le> int_max \<Longrightarrow> stoi (show_int i) = Inr i"
  using stoi_digits [OF show_nat_nonempty show_nat_digits, of "nat i"]
  by (simp add: show_int_def digits_value_show_nat)

lemma show_int_digits: "0 \<le> i \<Longrightarrow> c \<in> set (show_int i) \<Longrightarrow> isdigit c"
  using show_nat_digits by (auto simp: show_int_def)

lemma show_int_nonempty [simp]: "show_int i \<noteq> []"
  by (simp add: show_int_def)

section \<open>What a parsed list looks like\<close>

lemma stoi_bounds: "stoi s = Inr v \<Longrightarrow> int_min \<le> v \<and> v \<le> int_max"
  by (auto simp: stoi_def Let_def split: if_splits)

lemma parse_cpu_part_bounds:
  "parse_cpu_part raw = Inr (a, b) \<Longrightarrow> 0 \<le> a \<and> a \<le> b \<and> b \<le> max_cpu"
  by (auto simp: parse_cpu_part_def Let_def split: if_splits sum.splits)

lemma parse_cpu_parts_inv:
  assumes "parse_cpu_parts ps acc = Inr r" "swf acc" "set acc \<subseteq> {0..max_cpu}"
  shows "swf r \<and> set r \<subseteq> {0..max_cpu} \<and> set acc \<subseteq> set r"
  using assms
proof (induction ps arbitrary: acc)
  case (Cons p ps)
  then obtain a b where ab: "parse_cpu_part p = Inr (a, b)"
    and rest: "parse_cpu_parts ps (fold sput [a..b] acc) = Inr r"
    by (auto split: sum.splits)
  from parse_cpu_part_bounds [OF ab] Cons.prems(3)
  have "set (fold sput [a..b] acc) \<subseteq> {0..max_cpu}" by auto
  from Cons.IH [OF rest _ this] Cons.prems(2) show ?case by auto
qed auto

section \<open>The formatter printed as a list of elements\<close>

text \<open>The element the formatter prints for a run, and the runs of an increasing list.\<close>

definition show_run :: "int \<times> int \<Rightarrow> string" where
  "show_run r = show_int (fst r) @ (if snd r \<noteq> fst r then CHR ''-'' # show_int (snd r) else [])"

function runs :: "int list \<Rightarrow> (int \<times> int) list" where
  "runs [] = []"
| "runs (c # cs) = (let (l, rest) = run_end c cs in (c, l) # runs rest)"
  by pat_completeness auto
termination
proof (relation "measure length", goal_cases)
  case (2 c cs r l rest)
  then show ?case using run_end_length [of c cs] by (cases "run_end c cs") auto
qed simp

fun join_commas :: "string list \<Rightarrow> string" where
  "join_commas [] = []"
| "join_commas [p] = p"
| "join_commas (p # q # ps) = p @ CHR '','' # join_commas (q # ps)"

lemma run_end_split:
  "run_end c ds = (l, rest) \<Longrightarrow> c \<le> l \<and> c # ds = [c..l] @ rest"
proof (induction c ds rule: run_end.induct)
  case (2 c d ds)
  show ?case
  proof (cases "d = c + 1")
    case True
    with 2 have "d \<le> l" "d # ds = [d..l] @ rest" by auto
    with True show ?thesis by (simp add: upto_rec1)
  next
    case False
    with 2 show ?thesis by auto
  qed
qed auto

lemma runs_concat: "concat (map (\<lambda>r. [fst r..snd r]) (runs cs)) = cs"
proof (induction cs rule: runs.induct)
  case (2 c cs)
  obtain l rest where lr: "run_end c cs = (l, rest)" by fastforce
  with 2 have "concat (map (\<lambda>r. [fst r..snd r]) (runs (c # cs))) = [c..l] @ rest" by simp
  also have "\<dots> = c # cs" using run_end_split [OF lr] by simp
  finally show ?case .
qed simp

lemma runs_ordered: "r \<in> set (runs cs) \<Longrightarrow> fst r \<le> snd r"
proof (induction cs rule: runs.induct)
  case (2 c cs)
  obtain l rest where lr: "run_end c cs = (l, rest)" by fastforce
  have "c \<le> l" using run_end_split [OF lr] by simp
  with 2 lr show ?case by auto
qed simp

lemma runs_mem: "r \<in> set (runs cs) \<Longrightarrow> fst r \<in> set cs \<and> snd r \<in> set cs"
proof -
  assume r: "r \<in> set (runs cs)"
  then have "fst r \<in> set [fst r..snd r]" "snd r \<in> set [fst r..snd r]"
    using runs_ordered by auto
  moreover have "set [fst r..snd r] \<subseteq> set cs"
    using r runs_concat [of cs] by (metis (no_types, lifting) UN_upper set_concat set_map image_image)
  ultimately show ?thesis by blast
qed

lemma format_runs_join:
  "format_runs first cs =
     (if first \<or> cs = [] then [] else '','') @ join_commas (map show_run (runs cs))"
proof (induction first cs rule: format_runs.induct)
  case (2 first c cs)
  obtain l rest where lr: "run_end c cs = (l, rest)" by fastforce
  have IH: "format_runs False rest =
      (if rest = [] then [] else '','') @ join_commas (map show_run (runs rest))"
    using 2 [OF lr [symmetric] refl] by simp
  show ?case
  proof (cases rest)
    case Nil
    then show ?thesis using lr by (simp add: show_run_def)
  next
    case (Cons d ds)
    obtain l' rest' where "run_end d ds = (l', rest')" by fastforce
    then have "runs (c # cs) = (c, l) # (d, l') # runs rest'"
      and "runs rest = (d, l') # runs rest'"
      using lr Cons by simp_all
    then show ?thesis using lr IH Cons by (simp add: show_run_def [of "(c, l)"])
  qed
qed simp

lemma getline_parts_Nil [simp]: "getline_parts d [] = []"
  by (simp add: getline_parts.simps)

lemma getline_parts_last: "p \<noteq> [] \<Longrightarrow> d \<notin> set p \<Longrightarrow> getline_parts d p = [p]"
  by (subst getline_parts.simps) (metis (mono_tags, lifting) dropWhile_eq_Nil_conv list.case(1))

lemma getline_parts_step: "d \<notin> set p \<Longrightarrow> getline_parts d (p @ d # r) = p # getline_parts d r"
proof -
  assume "d \<notin> set p"
  then have "\<And>x. x \<in> set p \<Longrightarrow> x \<noteq> d" by blast
  then have "dropWhile (\<lambda>c. c \<noteq> d) (p @ d # r) = d # r" "takeWhile (\<lambda>c. c \<noteq> d) (p @ d # r) = p"
    by (simp_all add: dropWhile_append2 takeWhile_append2)
  then show ?thesis by (subst getline_parts.simps) simp
qed

lemma getline_parts_join:
  "\<forall>p \<in> set ps. p \<noteq> [] \<and> CHR '','' \<notin> set p \<Longrightarrow> getline_parts CHR '','' (join_commas ps) = ps"
  by (induction ps rule: join_commas.induct) (auto simp: getline_parts_last getline_parts_step)

lemma trim_idle:
  assumes "s \<noteq> []" "\<not> isspace (hd s)" "\<not> isspace (last s)"
  shows "trim s = s"
proof -
  have "dropWhile isspace s = s" using assms(1,2) by (cases s) auto
  moreover have "dropWhile isspace (rev s) = rev s"
    using assms(1,3) by (cases s rule: rev_cases) auto
  ultimately show ?thesis by (simp add: trim_def)
qed

lemma show_run_chars:
  assumes "0 \<le> a" "0 \<le> b" "c \<in> set (show_run (a, b))"
  shows "isdigit c \<or> c = CHR ''-''"
  using assms show_int_digits by (auto simp: show_run_def split: if_splits)

lemma show_run_part:
  assumes "0 \<le> fst r" "fst r \<le> snd r"
  shows "show_run r \<noteq> [] \<and> CHR '','' \<notin> set (show_run r)"
proof -
  have "\<not> isdigit CHR '',''" by (simp add: isdigit_def)
  then have "CHR '','' \<notin> set (show_run r)"
    using show_run_chars [of "fst r" "snd r" "CHR '',''"] assms by auto
  then show ?thesis by (simp add: show_run_def)
qed

lemma show_run_trim:
  assumes "0 \<le> a" "0 \<le> b"
  shows "trim (show_run (a, b)) = show_run (a, b)"
proof (rule trim_idle)
  show ne: "show_run (a, b) \<noteq> []" by (simp add: show_run_def)
  show "\<not> isspace (hd (show_run (a, b)))"
    using show_run_chars [OF assms hd_in_set [OF ne]] isdigit_facts(1) by (auto simp: isspace_def)
  show "\<not> isspace (last (show_run (a, b)))"
    using show_run_chars [OF assms last_in_set [OF ne]] isdigit_facts(1) by (auto simp: isspace_def)
qed

lemma parse_cpu_part_show_run:
  assumes "0 \<le> a" "a \<le> b" "b \<le> max_cpu"
  shows "parse_cpu_part (show_run (a, b)) = Inr (a, b)"
proof -
  have pos: "0 \<le> b" "b \<le> int_max" "a \<le> int_max"
    using assms by (auto simp: max_cpu_def int_max_def)
  have nodash: "CHR ''-'' \<notin> set (show_int a)"
    using show_int_digits [OF assms(1)] isdigit_facts(2) by blast
  have "takeWhile (\<lambda>c. c \<noteq> CHR ''-'') (show_run (a, b)) = show_int a"
    and "dropWhile (\<lambda>c. c \<noteq> CHR ''-'') (show_run (a, b)) = (if b = a then [] else CHR ''-'' # show_int b)"
    using nodash by (auto simp: show_run_def takeWhile_eq_all_conv takeWhile_tail dropWhile_append3)
  moreover have "show_run (a, b) \<noteq> []" by (simp add: show_run_def)
  ultimately show ?thesis
    using assms pos show_run_trim [OF assms(1) pos(1)] stoi_show_int [of a] stoi_show_int [of b]
    by (auto simp: parse_cpu_part_def Let_def)
qed

lemma parse_cpu_parts_runs:
  assumes "\<forall>r \<in> set rs. 0 \<le> fst r \<and> fst r \<le> snd r \<and> snd r \<le> max_cpu"
  shows "parse_cpu_parts (map show_run rs) acc =
    Inr (fold sput (concat (map (\<lambda>r. [fst r..snd r]) rs)) acc)"
  using assms
proof (induction rs arbitrary: acc)
  case (Cons r rs)
  have "parse_cpu_part (show_run r) = Inr r"
    using Cons.prems parse_cpu_part_show_run [of "fst r" "snd r"] by auto
  with Cons show ?case by (cases r) (auto simp: fold_append)
qed simp

lemma parse_cpu_list_swf:
  assumes "parse_cpu_list text = Inr cpus"
  shows "cpus \<noteq> [] \<and> swf cpus \<and> set cpus \<subseteq> {0..max_cpu}"
proof -
  from assms have "parse_cpu_parts (getline_parts CHR '','' text) [] = Inr cpus" "cpus \<noteq> []"
    by (auto simp: parse_cpu_list_def split: sum.splits if_splits)
  then show ?thesis
    using parse_cpu_parts_inv [of "getline_parts CHR '','' text" "[]" cpus] by simp
qed

section \<open>Properties of the CPU-list syntax\<close>

text \<open>whatever text \<open>parse_cpu_list\<close> accepts, the resulting CPU envelope is non-empty,
  strictly increasing (no duplicates) and every CPU number lies in the supported range
  \<open>0..1048575\<close>.\<close>

theorem parse_cpu_list_envelope:
  assumes "parse_cpu_list text = Inr cpus"
  shows "cpus \<noteq> [] \<and> sorted_wrt (<) cpus \<and> set cpus \<subseteq> {0..1048575}"
  using parse_cpu_list_swf [OF assms] by (simp add: swf_def max_cpu_def)

theorem parse_cpu_list_envelope_witness:
  "parse_cpu_list ''3,0-1'' = Inr [0, 1, 3] \<and> sorted_wrt (<) [0, 1, 3 :: int]"
proof -
  have run: "parse_cpu_list ''3,0-1'' = Inr [0, 1, 3]" by code_simp
  from parse_cpu_list_envelope [OF this] run show ?thesis by simp
qed

text \<open>C4. Formatting and parsing are inverse up to order and duplicates: for every non-empty
  list of supported CPU numbers, parsing the formatted list returns exactly its sorted,
  duplicate-free form (so the masks written to logs and profiles read back unchanged).\<close>

theorem parse_format_cpu_list:
  assumes "cpus \<noteq> []" "set cpus \<subseteq> {0..1048575}"
  shows "parse_cpu_list (format_cpu_list cpus) = Inr (sort_unique cpus)"
proof -
  let ?s = "sort_unique cpus"
  have range: "\<forall>r \<in> set (runs ?s). 0 \<le> fst r \<and> fst r \<le> snd r \<and> snd r \<le> max_cpu"
    using assms(2) runs_mem [of _ ?s] runs_ordered by (fastforce simp: max_cpu_def)
  have "\<forall>p \<in> set (map show_run (runs ?s)). p \<noteq> [] \<and> CHR '','' \<notin> set p"
    using range show_run_part by auto
  then have "getline_parts CHR '','' (format_cpu_list cpus) = map show_run (runs ?s)"
    using assms(1) by (simp add: format_cpu_list_def format_runs_join getline_parts_join)
  moreover have "fold sput ?s [] = ?s"
    by (rule swf_eqI) auto
  moreover have "?s \<noteq> []"
    using assms(1) by (metis set_empty set_sort_unique)
  ultimately show ?thesis
    using parse_cpu_parts_runs [OF range, of "[]"] by (simp add: parse_cpu_list_def runs_concat)
qed

theorem parse_format_cpu_list_witness:
  "parse_cpu_list (format_cpu_list [3, 2, 1, 0, 6]) = Inr [0, 1, 2, 3, 6] \<and>
   format_cpu_list [3, 2, 1, 0, 6] = ''0-3,6''"
proof -
  have "parse_cpu_list (format_cpu_list [3, 2, 1, 0, 6]) = Inr (sort_unique [3, 2, 1, 0, 6])"
    by (rule parse_format_cpu_list) auto
  moreover have "sort_unique [3, 2, 1, 0, 6 :: int] = [0, 1, 2, 3, 6]" by code_simp
  moreover have "format_cpu_list [3, 2, 1, 0, 6] = ''0-3,6''" by code_simp
  ultimately show ?thesis by simp
qed

end
