(* ===== verification/Actuator.thy ===== *)
theory Actuator
  imports Prelude
begin

text \<open>
  The affinity actuator of \<^verbatim>\<open>src/actuator.cpp\<close> and the backend interface of
  \<^verbatim>\<open>include/affinitygraph/core.hpp\<close>.

  An \<^verbatim>\<open>AffinityBackend\<close> is a pair of operations over an abstract world \<open>'s\<close>: \<open>get\<close> reads the
  mask of a thread, \<open>put\<close> is \<^verbatim>\<open>set\<close> and returns the new world and the error code (\<open>None\<close> for
  success). \<open>linux_get\<close> and \<open>linux_set\<close> are \<^verbatim>\<open>LinuxAffinityBackend\<close> over the two system calls it
  makes, which are parameters; \<open>fake_get\<close> and \<open>fake_set\<close> are the \<^verbatim>\<open>FakeBackend\<close> of
  \<^verbatim>\<open>tests/core_test.cpp\<close>.

  The locale \<open>affinity_backend\<close> states what the actuator relies on, and the transaction
  lemmas are proved inside it once: a successful batch leaves every committed thread on its
  target mask, a failed one rolls every completed thread back, and the masks saved before
  the policy acted come back on restore. Two further theorems record where the guarantee
  ends: a thread whose write was accepted by the kernel but narrowed by a cpuset, and a
  thread that inherits its parent's pinned mask.
\<close>

section \<open>Backends\<close>

definition ESRCH :: int where "ESRCH = 3"
definition EIO :: int where "EIO = 5"
definition EINVAL :: int where "EINVAL = 22"
definition EPERM :: int where "EPERM = 1"
definition CPU_SETSIZE :: int where "CPU_SETSIZE = 1024"

text \<open>
  The Linux backend. \<open>getaff\<close> is \<^verbatim>\<open>sched_getaffinity\<close> (\<open>None\<close> when it fails) and \<open>setaff\<close> is
  \<^verbatim>\<open>sched_setaffinity\<close> (the new world and \<^verbatim>\<open>errno\<close> on failure); a \<^verbatim>\<open>cpu_set_t\<close> is the ordered set
  of its CPUs.
\<close>

definition linux_get :: "('s \<Rightarrow> int \<Rightarrow> int oset option) \<Rightarrow> 's \<Rightarrow> int \<Rightarrow> cpu_mask" where
  "linux_get getaff s tid =
     (case getaff s tid of
        None \<Rightarrow> []
      | Some cpus \<Rightarrow> filter (\<lambda>cpu. cpu \<in> set cpus) [0..CPU_SETSIZE - 1])"

fun fill_cpu_set :: "cpu_mask \<Rightarrow> int oset \<Rightarrow> int oset option" where
  "fill_cpu_set [] acc = Some acc"
| "fill_cpu_set (cpu # cpus) acc =
     (if cpu < 0 \<or> CPU_SETSIZE \<le> cpu then None else fill_cpu_set cpus (sput cpu acc))"

definition linux_set ::
  "('s \<Rightarrow> int \<Rightarrow> int oset option) \<Rightarrow> ('s \<Rightarrow> int \<Rightarrow> int oset \<Rightarrow> 's \<times> int option) \<Rightarrow>
   's \<Rightarrow> int \<Rightarrow> cpu_mask \<Rightarrow> 's \<times> int option" where
  "linux_set getaff setaff s tid cpus =
     (case fill_cpu_set cpus [] of
        None \<Rightarrow> (s, Some EINVAL)
      | Some cs \<Rightarrow>
          (case setaff s tid cs of
             (s', Some errno) \<Rightarrow> (s', Some errno)
           | (s', None) \<Rightarrow>
               if linux_get getaff s' tid \<noteq> cpus then (s', Some EIO) else (s', None)))"

text \<open>The backend of the unit tests: a table of masks and one thread that cannot be moved.\<close>

record fake_backend =
  masks :: "(int, cpu_mask) omap"
  fail_tid :: int

definition fake_get :: "fake_backend \<Rightarrow> int \<Rightarrow> cpu_mask" where
  "fake_get b tid = mgetd [] (masks b) tid"

definition fake_set :: "fake_backend \<Rightarrow> int \<Rightarrow> cpu_mask \<Rightarrow> fake_backend \<times> int option" where
  "fake_set b tid cpus =
     (if tid = fail_tid b then (b, Some EPERM)
      else (b\<lparr>masks := mput tid cpus (masks b)\<rparr>, None))"

section \<open>The actuator and its results\<close>

record placement_delta =
  tid_to_cpu :: "(int, int) omap"
  tid_to_mask :: "(int, cpu_mask) omap"

record apply_result =
  success :: bool
  requested :: nat
  applied :: nat
  committed :: nat
  vanished :: nat
  rolled_back :: nat
  rollback_success :: bool
  error :: int
  committed_tids :: "int oset"
  vanished_tids :: "int oset"

definition new_apply_result :: "nat \<Rightarrow> apply_result" where
  "new_apply_result n =
     \<lparr>success = False, requested = n, applied = 0, committed = 0, vanished = 0,
      rolled_back = 0, rollback_success = True, error = 0, committed_tids = [],
      vanished_tids = []\<rparr>"

record restore_result =
  rs_requested :: nat
  rs_restored :: nat
  rs_vanished :: nat
  rs_failed :: nat

definition new_restore_result :: "nat \<Rightarrow> restore_result" where
  "new_restore_result n = \<lparr>rs_requested = n, rs_restored = 0, rs_vanished = 0, rs_failed = 0\<rparr>"

definition restore_success :: "restore_result \<Rightarrow> bool" where
  "restore_success r = (rs_failed r = 0)"

record actuator =
  restore_masks :: "(int, cpu_mask) omap"
  acted_tids :: "int oset"

definition new_actuator :: actuator where
  "new_actuator = \<lparr>restore_masks = [], acted_tids = []\<rparr>"

definition note_application_mask :: "int \<Rightarrow> cpu_mask \<Rightarrow> actuator \<Rightarrow> actuator" where
  "note_application_mask tid cpus a = a\<lparr>restore_masks := mput tid cpus (restore_masks a)\<rparr>"

definition note_inherited_mask :: "int \<Rightarrow> int \<Rightarrow> cpu_mask \<Rightarrow> actuator \<Rightarrow> actuator" where
  "note_inherited_mask tid parent_tid observed a =
     (if mhas (restore_masks a) tid then a
      else a\<lparr>restore_masks :=
        mput tid (case map_of (restore_masks a) parent_tid of None \<Rightarrow> observed | Some m \<Rightarrow> m)
          (restore_masks a)\<rparr>)"

definition note_policy_action :: "int \<Rightarrow> actuator \<Rightarrow> actuator" where
  "note_policy_action tid a = a\<lparr>acted_tids := sput tid (acted_tids a)\<rparr>"

section \<open>The transaction\<close>

text \<open>The local variables of \<^verbatim>\<open>apply_delta\<close> beside the actuator, the world and the result.\<close>

record batch =
  completed :: "int list"
  previous_masks :: "(int, cpu_mask) omap"
  previously_acted :: "(int, bool) omap"

text \<open>One step of the rollback loop: \<open>st\<close> holds the world, the actuator and the result.\<close>

definition roll_back_one ::
  "('s \<Rightarrow> int \<Rightarrow> cpu_mask \<Rightarrow> 's \<times> int option) \<Rightarrow> batch \<Rightarrow> int \<Rightarrow>
   's \<times> actuator \<times> apply_result \<Rightarrow> 's \<times> actuator \<times> apply_result" where
  "roll_back_one put b tid st =
     (case st of (s, a, r) \<Rightarrow>
        (case put s tid (mgetd [] (previous_masks b) tid) of
           (s', e) \<Rightarrow>
             if e = None \<or> e = Some ESRCH
             then (s',
                   if mgetd False (previously_acted b) tid then a
                   else a\<lparr>acted_tids := sdel tid (acted_tids a)\<rparr>,
                   r\<lparr>rolled_back := rolled_back r + 1\<rparr>)
             else (s', a, r\<lparr>rollback_success := False\<rparr>)))"

definition roll_back ::
  "('s \<Rightarrow> int \<Rightarrow> cpu_mask \<Rightarrow> 's \<times> int option) \<Rightarrow> batch \<Rightarrow> int list \<Rightarrow>
   's \<times> actuator \<times> apply_result \<Rightarrow> 's \<times> actuator \<times> apply_result" where
  "roll_back put b tids st = fold (roll_back_one put b) tids st"

definition note_vanished :: "int \<Rightarrow> apply_result \<Rightarrow> apply_result" where
  "note_vanished tid r =
     r\<lparr>vanished := vanished r + 1, vanished_tids := sput tid (vanished_tids r)\<rparr>"

text \<open>The masks read and saved before a thread is written (the first three assignments of the loop).\<close>

definition remember ::
  "('s \<Rightarrow> int \<Rightarrow> cpu_mask) \<Rightarrow> 's \<Rightarrow> int \<Rightarrow> batch \<Rightarrow> actuator \<Rightarrow> batch \<times> actuator" where
  "remember get s tid b a =
     (b\<lparr>previous_masks := mput tid (get s tid) (previous_masks b),
        previously_acted := mput tid (tid \<in> set (acted_tids a)) (previously_acted b)\<rparr>,
      if mhas (restore_masks a) tid then a
      else a\<lparr>restore_masks := mput tid (get s tid) (restore_masks a)\<rparr>)"

text \<open>
  The body of the loop for one assignment: \<open>Inr\<close> goes on to the next assignment, \<open>Inl\<close> is
  the early return after a rollback.
\<close>

definition apply_one ::
  "('s \<Rightarrow> int \<Rightarrow> cpu_mask) \<Rightarrow> ('s \<Rightarrow> int \<Rightarrow> cpu_mask \<Rightarrow> 's \<times> int option) \<Rightarrow> int oset \<Rightarrow>
   int \<times> cpu_mask \<Rightarrow> batch \<Rightarrow> 's \<times> actuator \<times> apply_result \<Rightarrow>
   ('s \<times> actuator \<times> apply_result) + (batch \<times> 's \<times> actuator \<times> apply_result)" where
  "apply_one get put live x b st =
     (case (x, st) of ((tid, cpus), (s, a, r)) \<Rightarrow>
        if tid \<notin> set live then Inr (b, s, a, note_vanished tid r)
        else
          let (b1, a1) = remember get s tid b a;
              (s', e) = (if cpus = [] then (s, Some EINVAL) else put s tid cpus)
          in case e of
               Some err \<Rightarrow>
                 if err = ESRCH then Inr (b1, s', a1, note_vanished tid r)
                 else Inl (roll_back put b1 (rev (completed b1)) (s', a1, r\<lparr>error := err\<rparr>))
             | None \<Rightarrow>
                 Inr (b1\<lparr>completed := completed b1 @ [tid]\<rparr>,
                      s', a1\<lparr>acted_tids := sput tid (acted_tids a1)\<rparr>, r\<lparr>applied := applied r + 1\<rparr>))"

definition finish_batch ::
  "batch \<Rightarrow> 's \<times> actuator \<times> apply_result \<Rightarrow> 's \<times> actuator \<times> apply_result" where
  "finish_batch b st =
     (case st of (s, a, r) \<Rightarrow>
        (s, a, r\<lparr>success := True, committed := applied r, committed_tids := sfrom (completed b)\<rparr>))"

fun apply_loop ::
  "('s \<Rightarrow> int \<Rightarrow> cpu_mask) \<Rightarrow> ('s \<Rightarrow> int \<Rightarrow> cpu_mask \<Rightarrow> 's \<times> int option) \<Rightarrow> int oset \<Rightarrow>
   (int \<times> cpu_mask) list \<Rightarrow> batch \<Rightarrow> 's \<times> actuator \<times> apply_result \<Rightarrow>
   's \<times> actuator \<times> apply_result" where
  "apply_loop get put live [] b st = finish_batch b st"
| "apply_loop get put live (x # rest) b st =
     (case apply_one get put live x b st of
        Inl st' \<Rightarrow> st'
      | Inr (b', st') \<Rightarrow> apply_loop get put live rest b' st')"

definition apply_delta ::
  "('s \<Rightarrow> int \<Rightarrow> cpu_mask) \<Rightarrow> ('s \<Rightarrow> int \<Rightarrow> cpu_mask \<Rightarrow> 's \<times> int option) \<Rightarrow>
   (int, cpu_mask) omap \<Rightarrow> int oset \<Rightarrow> 's \<Rightarrow> actuator \<Rightarrow> 's \<times> actuator \<times> apply_result" where
  "apply_delta get put assignments live s a =
     apply_loop get put live assignments
       \<lparr>completed = [], previous_masks = [], previously_acted = []\<rparr>
       (s, a, new_apply_result (length assignments))"

definition singleton_masks :: "(int, int) omap \<Rightarrow> (int, cpu_mask) omap" where
  "singleton_masks assignments = fold (\<lambda>e m. mput (fst e) [snd e] m) assignments []"

text \<open>\<^verbatim>\<open>Actuator::apply\<close> on a singleton placement and on a delta.\<close>

definition apply_placement ::
  "('s \<Rightarrow> int \<Rightarrow> cpu_mask) \<Rightarrow> ('s \<Rightarrow> int \<Rightarrow> cpu_mask \<Rightarrow> 's \<times> int option) \<Rightarrow>
   (int, int) omap \<Rightarrow> int oset \<Rightarrow> 's \<Rightarrow> actuator \<Rightarrow> 's \<times> actuator \<times> apply_result" where
  "apply_placement get put assignments live s a =
     apply_delta get put (singleton_masks assignments) live s a"

definition delta_masks :: "placement_delta \<Rightarrow> (int, cpu_mask) omap" where
  "delta_masks d =
     fold (\<lambda>e m. if mhas m (fst e) then m else mput (fst e) [snd e] m)
       (tid_to_cpu d) (tid_to_mask d)"

definition apply_placement_delta ::
  "('s \<Rightarrow> int \<Rightarrow> cpu_mask) \<Rightarrow> ('s \<Rightarrow> int \<Rightarrow> cpu_mask \<Rightarrow> 's \<times> int option) \<Rightarrow>
   placement_delta \<Rightarrow> int oset \<Rightarrow> 's \<Rightarrow> actuator \<Rightarrow> 's \<times> actuator \<times> apply_result" where
  "apply_placement_delta get put d live s a = apply_delta get put (delta_masks d) live s a"

section \<open>Restoring\<close>

text \<open>
  \<^verbatim>\<open>restore_masks_.at(tid)\<close> throws when the thread has no saved mask; the result is then the
  exception, and the actuator keeps what it had (the world has the writes done so far).
\<close>

fun restore_all_loop ::
  "('s \<Rightarrow> int \<Rightarrow> cpu_mask \<Rightarrow> 's \<times> int option) \<Rightarrow> (int, cpu_mask) omap \<Rightarrow> int list \<Rightarrow>
   's \<times> restore_result \<Rightarrow> 's \<times> restore_result result" where
  "restore_all_loop put saved [] (s, r) = (s, Inr r)"
| "restore_all_loop put saved (tid # tids) (s, r) =
     (case map_of saved tid of
        None \<Rightarrow> (s, Inl (Out_Of_Range ''map::at''))
      | Some cpus \<Rightarrow>
          (case put s tid cpus of
             (s', None) \<Rightarrow> restore_all_loop put saved tids (s', r\<lparr>rs_restored := rs_restored r + 1\<rparr>)
           | (s', Some e) \<Rightarrow>
               restore_all_loop put saved tids
                 (s', if e = ESRCH then r\<lparr>rs_vanished := rs_vanished r + 1\<rparr>
                      else r\<lparr>rs_failed := rs_failed r + 1\<rparr>)))"

definition restore_all ::
  "('s \<Rightarrow> int \<Rightarrow> cpu_mask \<Rightarrow> 's \<times> int option) \<Rightarrow> 's \<Rightarrow> actuator \<Rightarrow>
   's \<times> actuator \<times> restore_result result" where
  "restore_all put s a =
     (case restore_all_loop put (restore_masks a) (acted_tids a)
             (s, new_restore_result (length (acted_tids a))) of
        (s', Inl e) \<Rightarrow> (s', a, Inl e)
      | (s', Inr r) \<Rightarrow> (s', new_actuator, Inr r))"

definition forget :: "int \<Rightarrow> actuator \<Rightarrow> actuator" where
  "forget tid a = a\<lparr>acted_tids := sdel tid (acted_tids a), restore_masks := mdel tid (restore_masks a)\<rparr>"

fun restore_loop ::
  "('s \<Rightarrow> int \<Rightarrow> cpu_mask \<Rightarrow> 's \<times> int option) \<Rightarrow> int list \<Rightarrow>
   's \<times> actuator \<times> restore_result \<Rightarrow> 's \<times> actuator \<times> restore_result result" where
  "restore_loop put [] (s, a, r) = (s, a, Inr r)"
| "restore_loop put (tid # tids) (s, a, r) =
     (if tid \<notin> set (acted_tids a) then restore_loop put tids (s, a, r)
      else case map_of (restore_masks a) tid of
        None \<Rightarrow> (s, a, Inl (Out_Of_Range ''map::at''))
      | Some cpus \<Rightarrow>
          (let r1 = r\<lparr>rs_requested := rs_requested r + 1\<rparr> in
           case put s tid cpus of
             (s', None) \<Rightarrow>
               restore_loop put tids (s', forget tid a, r1\<lparr>rs_restored := rs_restored r1 + 1\<rparr>)
           | (s', Some e) \<Rightarrow>
               if e = ESRCH
               then restore_loop put tids (s', forget tid a, r1\<lparr>rs_vanished := rs_vanished r1 + 1\<rparr>)
               else restore_loop put tids (s', a, r1\<lparr>rs_failed := rs_failed r1 + 1\<rparr>)))"

definition restore_tids ::
  "('s \<Rightarrow> int \<Rightarrow> cpu_mask \<Rightarrow> 's \<times> int option) \<Rightarrow> int oset \<Rightarrow> 's \<Rightarrow> actuator \<Rightarrow>
   's \<times> actuator \<times> restore_result result" where
  "restore_tids put tids s a = restore_loop put tids (s, a, new_restore_result 0)"

section \<open>The contract of a backend\<close>

text \<open>
  What the actuator relies on: a write reported as successful is what a later read returns
  (both backends verify or store it), a refused write leaves the mask as it was unless the
  error is \<^verbatim>\<open>EIO\<close> (the kernel took the write and the read-back differs), a write touches no
  other thread, \<^verbatim>\<open>ESRCH\<close> is reported for threads that are gone only, and a thread that is gone
  stays gone.
\<close>

locale affinity_backend =
  fixes get :: "'s \<Rightarrow> int \<Rightarrow> cpu_mask"
    and put :: "'s \<Rightarrow> int \<Rightarrow> cpu_mask \<Rightarrow> 's \<times> int option"
    and alive :: "'s \<Rightarrow> int \<Rightarrow> bool"
  assumes put_ok: "put s t m = (s', None) \<Longrightarrow> get s' t = m"
    and put_fail: "put s t m = (s', Some err) \<Longrightarrow> err \<noteq> EIO \<Longrightarrow> get s' t = get s t"
    and put_other: "put s t m = (s', e) \<Longrightarrow> t' \<noteq> t \<Longrightarrow> get s' t' = get s t'"
    and put_gone: "put s t m = (s', Some ESRCH) \<Longrightarrow> \<not> alive s' t"
    and put_alive: "put s t m = (s', e) \<Longrightarrow> alive s' t' \<Longrightarrow> alive s t'"
begin

lemma roll_back_Nil [simp]: "roll_back put b [] st = st"
  by (simp add: roll_back_def)

lemma roll_back_Cons [simp]:
  "roll_back put b (tid # tids) st = roll_back put b tids (roll_back_one put b tid st)"
  by (simp add: roll_back_def)

text \<open>One rollback step, by its outcome.\<close>

lemma roll_back_one_cases:
  obtains (restored) s1 where
      "put (fst st) tid (mgetd [] (previous_masks b) tid) = (s1, None)"
      "fst (roll_back_one put b tid st) = s1"
      "rollback_success (snd (snd (roll_back_one put b tid st))) = rollback_success (snd (snd st))"
      "set (acted_tids (fst (snd (roll_back_one put b tid st)))) =
         set (acted_tids (fst (snd st))) - (if mgetd False (previously_acted b) tid then {} else {tid})"
    | (gone) s1 where
      "put (fst st) tid (mgetd [] (previous_masks b) tid) = (s1, Some ESRCH)"
      "fst (roll_back_one put b tid st) = s1"
      "rollback_success (snd (snd (roll_back_one put b tid st))) = rollback_success (snd (snd st))"
      "set (acted_tids (fst (snd (roll_back_one put b tid st)))) =
         set (acted_tids (fst (snd st))) - (if mgetd False (previously_acted b) tid then {} else {tid})"
    | (failed) s1 err where
      "put (fst st) tid (mgetd [] (previous_masks b) tid) = (s1, Some err)" "err \<noteq> ESRCH"
      "fst (roll_back_one put b tid st) = s1"
      "\<not> rollback_success (snd (snd (roll_back_one put b tid st)))"
      "fst (snd (roll_back_one put b tid st)) = fst (snd st)"
proof -
  obtain s a r where st: "st = (s, a, r)" by (cases st) auto
  obtain s1 e where p: "put s tid (mgetd [] (previous_masks b) tid) = (s1, e)" by fastforce
  show thesis
  proof (cases e)
    case None
    show ?thesis by (rule restored [of s1]) (use st p None in \<open>auto simp: roll_back_one_def\<close>)
  next
    case (Some err)
    show ?thesis
    proof (cases "err = ESRCH")
      case True
      show ?thesis by (rule gone [of s1]) (use st p Some True in \<open>auto simp: roll_back_one_def\<close>)
    next
      case False
      show ?thesis by (rule failed [of s1 err]) (use st p Some False in \<open>auto simp: roll_back_one_def\<close>)
    qed
  qed
qed

lemma roll_back_one_keeps:
  "restore_masks (fst (snd (roll_back_one put b tid st))) = restore_masks (fst (snd st)) \<and>
   success (snd (snd (roll_back_one put b tid st))) = success (snd (snd st)) \<and>
   error (snd (snd (roll_back_one put b tid st))) = error (snd (snd st))"
  by (auto simp: roll_back_one_def split: prod.splits)

lemma roll_back_keeps:
  "restore_masks (fst (snd (roll_back put b ts st))) = restore_masks (fst (snd st)) \<and>
   success (snd (snd (roll_back put b ts st))) = success (snd (snd st)) \<and>
   error (snd (snd (roll_back put b ts st))) = error (snd (snd st))"
  by (induction ts arbitrary: st) (simp_all add: roll_back_one_keeps)

lemma roll_back_one_alive: "alive (fst (roll_back_one put b tid st)) t \<Longrightarrow> alive (fst st) t"
  by (rule roll_back_one_cases [of st tid b]) (use put_alive in blast)+

lemma roll_back_alive: "alive (fst (roll_back put b ts st)) t \<Longrightarrow> alive (fst st) t"
proof (induction ts arbitrary: st)
  case (Cons tid tids)
  then have "alive (fst (roll_back_one put b tid st)) t" by simp
  then show ?case by (rule roll_back_one_alive)
qed simp

lemma roll_back_ok_mono:
  "rollback_success (snd (snd (roll_back put b ts st))) \<Longrightarrow> rollback_success (snd (snd st))"
proof (induction ts arbitrary: st)
  case (Cons tid tids)
  then have "rollback_success (snd (snd (roll_back_one put b tid st)))" by simp
  then show ?case by (rule_tac roll_back_one_cases [of st tid b]) auto
qed simp

text \<open>A rollback that reports success has put every completed, living thread back.\<close>

lemma roll_back_restores:
  assumes "distinct ts" "rollback_success (snd (snd (roll_back put b ts st)))"
    "alive (fst (roll_back put b ts st)) t"
  shows "get (fst (roll_back put b ts st)) t =
    (if t \<in> set ts then mgetd [] (previous_masks b) t else get (fst st) t)"
  using assms
proof (induction ts arbitrary: st)
  case (Cons tid tids)
  let ?st1 = "roll_back_one put b tid st"
  have tail: "get (fst (roll_back put b tids ?st1)) t =
      (if t \<in> set tids then mgetd [] (previous_masks b) t else get (fst ?st1) t)"
    using Cons by simp
  have live: "alive (fst ?st1) t" using Cons.prems(3) roll_back_alive by simp
  have ok: "rollback_success (snd (snd ?st1))" using Cons.prems(2) roll_back_ok_mono by simp
  have "get (fst ?st1) t = (if t = tid then mgetd [] (previous_masks b) t else get (fst st) t)"
    by (rule roll_back_one_cases [of st tid b]) (use ok live put_ok put_other put_gone in auto)
  with tail Cons.prems(1) show ?case by auto
qed simp

lemma roll_back_acted:
  assumes "rollback_success (snd (snd (roll_back put b ts st)))"
  shows "set (acted_tids (fst (snd (roll_back put b ts st)))) =
    set (acted_tids (fst (snd st))) - {t \<in> set ts. \<not> mgetd False (previously_acted b) t}"
  using assms
proof (induction ts arbitrary: st)
  case (Cons tid tids)
  let ?st1 = "roll_back_one put b tid st"
  have ok: "rollback_success (snd (snd ?st1))" using Cons.prems roll_back_ok_mono by simp
  have "set (acted_tids (fst (snd ?st1))) =
      set (acted_tids (fst (snd st))) - (if mgetd False (previously_acted b) tid then {} else {tid})"
    by (rule roll_back_one_cases [of st tid b]) (use ok in auto)
  with Cons show ?case by auto
qed simp

text \<open>The outcomes of one assignment.\<close>

lemma apply_one_cases:
  obtains (skipped) "fst x \<notin> set live"
      "apply_one get put live x b (s, a, r) = Inr (b, s, a, note_vanished (fst x) r)"
    | (gone) s1 b1 a1 where "remember get s (fst x) b a = (b1, a1)"
      "put s (fst x) (snd x) = (s1, Some ESRCH)"
      "apply_one get put live x b (s, a, r) = Inr (b1, s1, a1, note_vanished (fst x) r)"
    | (written) s1 b1 a1 where "remember get s (fst x) b a = (b1, a1)"
      "put s (fst x) (snd x) = (s1, None)"
      "apply_one get put live x b (s, a, r) =
         Inr (b1\<lparr>completed := completed b1 @ [fst x]\<rparr>, s1,
              a1\<lparr>acted_tids := sput (fst x) (acted_tids a1)\<rparr>, r\<lparr>applied := applied r + 1\<rparr>)"
    | (aborted) s1 b1 a1 err where "remember get s (fst x) b a = (b1, a1)" "err \<noteq> ESRCH"
      "put s (fst x) (snd x) = (s1, Some err) \<or> snd x = [] \<and> s1 = s"
      "apply_one get put live x b (s, a, r) =
         Inl (roll_back put b1 (rev (completed b)) (s1, a1, r\<lparr>error := err\<rparr>))"
proof -
  obtain tid cpus where x: "x = (tid, cpus)" by fastforce
  obtain b1 a1 where ba: "remember get s tid b a = (b1, a1)" by fastforce
  then have comp: "completed b1 = completed b" by (auto simp: remember_def)
  obtain s1 e where p: "(if cpus = [] then (s, Some EINVAL) else put s tid cpus) = (s1, e)"
    by fastforce
  note run = apply_one_def [of get put live x b "(s, a, r)"] x ba p comp
  show thesis
  proof (cases "tid \<in> set live")
    case False
    then show ?thesis using skipped run by simp
  next
    case True
    show ?thesis
    proof (cases e)
      case None
      with p have "put s tid cpus = (s1, None)" by (auto split: if_splits)
      then show ?thesis using written [of b1 a1 s1] True None run by simp
    next
      case (Some err)
      show ?thesis
      proof (cases "err = ESRCH")
        case esrch: True
        with p Some have "put s tid cpus = (s1, Some ESRCH)"
          by (auto simp: EINVAL_def ESRCH_def split: if_splits)
        then show ?thesis using gone [of b1 a1 s1] True Some esrch run by simp
      next
        case False
        with p Some have "put s tid cpus = (s1, Some err) \<or> cpus = [] \<and> s1 = s"
          by (auto split: if_splits)
        then show ?thesis using aborted [of b1 a1 err s1] True Some False run by simp
      qed
    qed
  qed
qed

end

section \<open>A rule for the batch loop\<close>

lemma apply_loop_rule:
  assumes "P as b st"
    and "\<And>x rest b st b' st'. P (x # rest) b st \<Longrightarrow>
           apply_one get put live x b st = Inr (b', st') \<Longrightarrow> P rest b' st'"
    and "\<And>x rest b st st'. P (x # rest) b st \<Longrightarrow>
           apply_one get put live x b st = Inl st' \<Longrightarrow> Q st'"
    and "\<And>b st. P [] b st \<Longrightarrow> Q (finish_batch b st)"
  shows "Q (apply_loop get put live as b st)"
  using assms(1)
proof (induction as arbitrary: b st)
  case Nil
  then show ?case using assms(4) by simp
next
  case (Cons x rest)
  show ?case
  proof (cases "apply_one get put live x b st")
    case (Inl st')
    then show ?thesis using assms(3) [OF Cons.prems] by simp
  next
    case (Inr y)
    obtain b' st' where y: "y = (b', st')" by (cases y) auto
    have "P rest b' st'" using assms(2) [OF Cons.prems] Inr y by simp
    then show ?thesis using Cons.IH Inr y by simp
  qed
qed

lemma remember_facts:
  assumes "remember get s tid b a = (b1, a1)"
  shows "completed b1 = completed b" "acted_tids a1 = acted_tids a"
    "map_of (previous_masks b1) = (map_of (previous_masks b))(tid \<mapsto> get s tid)"
    "map_of (previously_acted b1) = (map_of (previously_acted b))(tid \<mapsto> (tid \<in> set (acted_tids a)))"
    "map_of (restore_masks a1) =
       (if tid \<in> dom (map_of (restore_masks a)) then map_of (restore_masks a)
        else (map_of (restore_masks a))(tid \<mapsto> get s tid))"
    "swf (acted_tids a) \<Longrightarrow> swf (acted_tids a1)"
    "mwf (restore_masks a) \<Longrightarrow> mwf (restore_masks a1)"
  using assms by (auto simp: remember_def mhas_def split: if_splits)

lemma remember_mgetd:
  assumes "remember get s tid b a = (b1, a1)"
  shows "mgetd [] (previous_masks b1) t = (if t = tid then get s tid else mgetd [] (previous_masks b) t)"
    "mgetd False (previously_acted b1) t =
       (if t = tid then tid \<in> set (acted_tids a) else mgetd False (previously_acted b) t)"
  using remember_facts(3,4) [OF assms] by (simp_all add: mgetd_def)

text \<open>
  What holds between two assignments of a batch: \<open>done\<close> is the part of the delta already
  handled, \<open>s0\<close> and \<open>a0\<close> the world and the actuator before the batch. The accounting of the
  result and the state of the threads are two invariants.
\<close>

definition batch_counts ::
  "(int \<times> cpu_mask) list \<Rightarrow> batch \<Rightarrow> 's \<times> actuator \<times> apply_result \<Rightarrow> bool" where
  "batch_counts handled b st \<longleftrightarrow>
     (case st of (s, a, r) \<Rightarrow>
        \<not> success r \<and> rollback_success r \<and> distinct (completed b) \<and> swf (vanished_tids r) \<and>
        set (completed b) \<union> set (vanished_tids r) = fst ` set handled \<and>
        set (completed b) \<inter> set (vanished_tids r) = {} \<and>
        length (completed b) = applied r \<and> length (vanished_tids r) = vanished r)"

definition batch_masks ::
  "('s \<Rightarrow> int \<Rightarrow> cpu_mask) \<Rightarrow> ('s \<Rightarrow> int \<Rightarrow> bool) \<Rightarrow> int oset \<Rightarrow> 's \<Rightarrow> actuator \<Rightarrow>
   (int \<times> cpu_mask) list \<Rightarrow> batch \<Rightarrow> 's \<times> actuator \<times> apply_result \<Rightarrow> bool" where
  "batch_masks get alive live s0 a0 handled b st \<longleftrightarrow>
     (case st of (s, a, r) \<Rightarrow>
        (\<forall>t. t \<notin> fst ` set handled \<longrightarrow> get s t = get s0 t) \<and>
        (\<forall>t. t \<notin> set (completed b) \<longrightarrow> alive s t \<longrightarrow> get s t = get s0 t) \<and>
        (\<forall>t. alive s t \<longrightarrow> alive s0 t) \<and>
        (\<forall>t. t \<in> set (vanished_tids r) \<longrightarrow> t \<notin> set live \<or> \<not> alive s t) \<and>
        (\<forall>t. t \<in> set (completed b) \<longrightarrow> (t, get s t) \<in> set handled) \<and>
        (\<forall>t. t \<in> set (completed b) \<longrightarrow> mgetd [] (previous_masks b) t = get s0 t \<and>
           mgetd False (previously_acted b) t = (t \<in> set (acted_tids a0))) \<and>
        set (acted_tids a) = set (acted_tids a0) \<union> set (completed b))"

lemma batch_counts_note_vanished:
  assumes "batch_counts handled b (s, a, r)" "t \<notin> fst ` set handled"
    "completed b' = completed b"
  shows "batch_counts (handled @ [(t, m)]) b' (s', a', note_vanished t r)"
proof -
  have "t \<notin> set (vanished_tids r)" "t \<notin> set (completed b)"
    using assms by (auto simp: batch_counts_def)
  then show ?thesis using assms by (auto simp: batch_counts_def note_vanished_def length_sput)
qed

context affinity_backend begin

lemma batch_counts_step:
  assumes "batch_counts handled b (s, a, r)" "fst x \<notin> fst ` set handled"
    "apply_one get put live x b (s, a, r) = Inr (b', st')"
  shows "batch_counts (handled @ [x]) b' st'"
proof (rule apply_one_cases [of x live b s a r])
  assume "apply_one get put live x b (s, a, r) = Inr (b, s, a, note_vanished (fst x) r)"
  then show ?thesis
    using assms(3) batch_counts_note_vanished [OF assms(1,2) refl, of "snd x"] by auto
next
  fix s1 b1 a1
  assume *: "remember get s (fst x) b a = (b1, a1)"
    "apply_one get put live x b (s, a, r) = Inr (b1, s1, a1, note_vanished (fst x) r)"
  then show ?thesis
    using assms(3) batch_counts_note_vanished [OF assms(1,2) remember_facts(1) [OF *(1)], of "snd x"]
    by auto
next
  fix s1 b1 a1
  assume *: "remember get s (fst x) b a = (b1, a1)"
    "apply_one get put live x b (s, a, r) =
         Inr (b1\<lparr>completed := completed b1 @ [fst x]\<rparr>, s1,
              a1\<lparr>acted_tids := sput (fst x) (acted_tids a1)\<rparr>, r\<lparr>applied := applied r + 1\<rparr>)"
  have "fst x \<notin> set (completed b)" "fst x \<notin> set (vanished_tids r)"
    using assms(1,2) by (auto simp: batch_counts_def)
  then show ?thesis using * assms remember_facts(1) [OF *(1)] by (auto simp: batch_counts_def)
next
  fix s1 b1 a1 err
  assume "apply_one get put live x b (s, a, r) =
         Inl (roll_back put b1 (rev (completed b)) (s1, a1, r\<lparr>error := err\<rparr>))"
  then show ?thesis using assms by simp
qed

lemma batch_masks_step:
  assumes "batch_counts handled b (s, a, r)" "batch_masks get alive live s0 a0 handled b (s, a, r)"
    "fst x \<notin> fst ` set handled" "apply_one get put live x b (s, a, r) = Inr (b', st')"
  shows "batch_masks get alive live s0 a0 (handled @ [x]) b' st'"
proof (rule apply_one_cases [of x live b s a r])
  assume "fst x \<notin> set live" "apply_one get put live x b (s, a, r) = Inr (b, s, a, note_vanished (fst x) r)"
  then show ?thesis using assms by (auto simp: batch_masks_def note_vanished_def)
next
  fix s1 b1 a1
  assume *: "remember get s (fst x) b a = (b1, a1)" "put s (fst x) (snd x) = (s1, Some ESRCH)"
    "apply_one get put live x b (s, a, r) = Inr (b1, s1, a1, note_vanished (fst x) r)"
  have st': "b' = b1" "st' = (s1, a1, note_vanished (fst x) r)" using assms(4) *(3) by auto
  have other: "t \<noteq> fst x \<Longrightarrow> get s1 t = get s t" for t using put_other [OF *(2)] by blast
  have live: "alive s1 t \<Longrightarrow> alive s t" for t using put_alive [OF *(2)] by blast
  have gone: "\<not> alive s1 (fst x)" using put_gone [OF *(2)] by blast
  have new: "fst x \<notin> set (completed b)" using assms(1,3) by (auto simp: batch_counts_def)
  have kept: "get s1 t = get s t" if "alive s1 t \<or> t \<notin> fst ` set (handled @ [x]) \<or> t \<in> set (completed b)" for t
    using that other [of t] gone new by (cases "t = fst x") auto
  show ?thesis
    using assms(2,3) new st' kept live gone
    by (auto simp: batch_masks_def note_vanished_def remember_facts(1,2) [OF *(1)] remember_mgetd [OF *(1)])
next
  fix s1 b1 a1
  assume *: "remember get s (fst x) b a = (b1, a1)" "put s (fst x) (snd x) = (s1, None)"
    "apply_one get put live x b (s, a, r) =
         Inr (b1\<lparr>completed := completed b1 @ [fst x]\<rparr>, s1,
              a1\<lparr>acted_tids := sput (fst x) (acted_tids a1)\<rparr>, r\<lparr>applied := applied r + 1\<rparr>)"
  have other: "t \<noteq> fst x \<Longrightarrow> get s1 t = get s t" for t using put_other [OF *(2)] by blast
  have live: "alive s1 t \<Longrightarrow> alive s t" for t using put_alive [OF *(2)] by blast
  have ok: "get s1 (fst x) = snd x" using put_ok [OF *(2)] by blast
  have new: "fst x \<notin> set (completed b)" "fst x \<notin> set (vanished_tids r)"
    using assms(1,3) by (auto simp: batch_counts_def)
  have st': "b' = b1\<lparr>completed := completed b1 @ [fst x]\<rparr>"
    "st' = (s1, a1\<lparr>acted_tids := sput (fst x) (acted_tids a1)\<rparr>, r\<lparr>applied := applied r + 1\<rparr>)"
    using assms(4) *(3) by auto
  have old: "(t, get s t) \<in> set handled" "t \<noteq> fst x" if "t \<in> set (completed b)" for t
    using that new assms(2) by (auto simp: batch_masks_def)
  have base: "get s (fst x) = get s0 (fst x)" "fst x \<in> set (acted_tids a) \<longleftrightarrow> fst x \<in> set (acted_tids a0)"
    using assms(2,3) new by (auto simp: batch_masks_def)
  show ?thesis
    using assms(2,3) new st' other live ok old base
    by (auto simp: batch_masks_def remember_facts(1,2) [OF *(1)] remember_mgetd [OF *(1)])
next
  fix s1 b1 a1 err
  assume "apply_one get put live x b (s, a, r) =
         Inl (roll_back put b1 (rev (completed b)) (s1, a1, r\<lparr>error := err\<rparr>))"
  then show ?thesis using assms by simp
qed

text \<open>The state of a batch after a prefix of its assignments, and the outcome of the whole loop.\<close>

definition in_batch where
  "in_batch live s0 a0 as rest b st \<longleftrightarrow>
     (\<exists>handled. as = handled @ rest \<and> batch_counts handled b st \<and>
        batch_masks get alive live s0 a0 handled b st)"

lemma in_batch_step:
  assumes "distinct (map fst as)" "in_batch live s0 a0 as (x # rest) b st"
    "apply_one get put live x b st = Inr (b', st')"
  shows "in_batch live s0 a0 as rest b' st'"
proof -
  obtain handled where h: "as = handled @ x # rest" "batch_counts handled b st"
    "batch_masks get alive live s0 a0 handled b st" using assms(2) by (auto simp: in_batch_def)
  have new: "fst x \<notin> fst ` set handled" using assms(1) h(1) by auto
  obtain s a r where st: "st = (s, a, r)" by (cases st) auto
  have "batch_counts (handled @ [x]) b' st'" "batch_masks get alive live s0 a0 (handled @ [x]) b' st'"
    using batch_counts_step batch_masks_step h new assms(3) st by blast+
  moreover have "as = (handled @ [x]) @ rest" using h(1) by simp
  ultimately show ?thesis unfolding in_batch_def by blast
qed

definition batch_done where
  "batch_done live s0 a0 as st \<longleftrightarrow>
     (case st of (s, a, r) \<Rightarrow>
        set (committed_tids r) \<union> set (vanished_tids r) = fst ` set as \<and>
        set (committed_tids r) \<inter> set (vanished_tids r) = {} \<and>
        committed r + vanished r = length as \<and>
        (\<forall>t \<in> set (committed_tids r). (t, get s t) \<in> set as) \<and>
        (\<forall>t. t \<notin> set (committed_tids r) \<longrightarrow> alive s t \<longrightarrow> get s t = get s0 t) \<and>
        (\<forall>t \<in> set (vanished_tids r). t \<notin> set live \<or> \<not> alive s t) \<and>
        set (acted_tids a) = set (acted_tids a0) \<union> set (committed_tids r))"

definition batch_undone where
  "batch_undone s0 a0 as st \<longleftrightarrow>
     (case st of (s, a, r) \<Rightarrow> rollback_success r \<longrightarrow>
        set (acted_tids a) = set (acted_tids a0) \<and>
        (\<exists>tid \<in> fst ` set as.
           (\<forall>t. alive s t \<longrightarrow> t \<noteq> tid \<or> error r \<noteq> EIO \<longrightarrow> get s t = get s0 t)))"

lemma finish_batch_done:
  assumes "distinct (map fst as)" "in_batch live s0 a0 as [] b st"
  shows "batch_done live s0 a0 as (finish_batch b st)"
proof -
  obtain s a r where st: "st = (s, a, r)" by (cases st) auto
  have c: "batch_counts as b (s, a, r)" "batch_masks get alive live s0 a0 as b (s, a, r)"
    using assms(2) st by (auto simp: in_batch_def)
  have "length as = card (set (completed b) \<union> set (vanished_tids r))"
    using c(1) distinct_card [OF assms(1)] by (simp add: batch_counts_def)
  also have "\<dots> = length (completed b) + length (vanished_tids r)"
    using c(1) card_Un_disjoint [of "set (completed b)" "set (vanished_tids r)"]
      distinct_card [of "completed b"] swf_length_card [of "vanished_tids r"]
    by (simp add: batch_counts_def)
  finally show ?thesis
    using c st by (auto simp: batch_done_def finish_batch_def batch_counts_def batch_masks_def)
qed

text \<open>The failed assignment: the completed threads go back, the others were never written.\<close>

lemma abort_undone:
  assumes "distinct (map fst as)" "in_batch live s0 a0 as (x # rest) b st"
    "apply_one get put live x b st = Inl st'"
  shows "batch_undone s0 a0 as st' \<and> \<not> success (snd (snd st'))"
proof -
  obtain s a r where st: "st = (s, a, r)" by (cases st) auto
  obtain handled where h: "as = handled @ x # rest" "batch_counts handled b (s, a, r)"
    "batch_masks get alive live s0 a0 handled b (s, a, r)" using assms(2) st by (auto simp: in_batch_def)
  have new: "fst x \<notin> set (completed b)" using assms(1) h(1,2) by (auto simp: batch_counts_def)
  show ?thesis
  proof (rule apply_one_cases [of x live b s a r])
    fix s1 b1 a1 err
    assume *: "remember get s (fst x) b a = (b1, a1)"
      "put s (fst x) (snd x) = (s1, Some err) \<or> snd x = [] \<and> s1 = s"
      "apply_one get put live x b (s, a, r) =
         Inl (roll_back put b1 (rev (completed b)) (s1, a1, r\<lparr>error := err\<rparr>))"
    let ?st = "(s1, a1, r\<lparr>error := err\<rparr>)"
    have st': "st' = roll_back put b1 (rev (completed b)) ?st" using assms(3) st *(3) by simp
    have err: "error (snd (snd st')) = err" "\<not> success (snd (snd st'))"
      using roll_back_keeps [of b1 "rev (completed b)" ?st] st' h(2) by (auto simp: batch_counts_def)
    have prev: "mgetd [] (previous_masks b1) t = get s0 t"
        "mgetd False (previously_acted b1) t = (t \<in> set (acted_tids a0))" if "t \<in> set (completed b)" for t
      using that new h(3) by (auto simp: batch_masks_def remember_mgetd [OF *(1)])
    have world: "get s1 t = get s t" if "t \<noteq> fst x \<or> err \<noteq> EIO" for t
      using that *(2) put_other put_fail by metis
    have undo: "get (fst st') t = get s0 t"
      if "rollback_success (snd (snd st'))" "alive (fst st') t" "t \<noteq> fst x \<or> err \<noteq> EIO" for t
    proof -
      have "alive s1 t" using roll_back_alive that(2) st' by fastforce
      then have "alive s t" using put_alive *(2) by metis
      moreover have "get (fst st') t = (if t \<in> set (completed b) then get s0 t else get s1 t)"
        using roll_back_restores [of "rev (completed b)" b1 ?st t] that st' prev h(2)
        by (auto simp: batch_counts_def)
      ultimately show ?thesis using world that(3) h(3) by (auto simp: batch_masks_def)
    qed
    have "set (acted_tids (fst (snd st'))) = set (acted_tids a0)" if "rollback_success (snd (snd st'))"
      using roll_back_acted [of b1 "rev (completed b)" ?st] that st' prev h(3) remember_facts(2) [OF *(1)]
      by (auto simp: batch_masks_def)
    then show ?thesis
      using undo err h(1) by (auto simp: batch_undone_def split: prod.splits)
  qed (use assms(3) st in auto)
qed

lemma apply_delta_outcome:
  assumes "distinct (map fst as)"
  shows "if success (snd (snd (apply_delta get put as live s0 a0)))
         then batch_done live s0 a0 as (apply_delta get put as live s0 a0)
         else batch_undone s0 a0 as (apply_delta get put as live s0 a0)"
  unfolding apply_delta_def
proof (rule apply_loop_rule [where P = "in_batch live s0 a0 as"])
  show "in_batch live s0 a0 as as \<lparr>completed = [], previous_masks = [], previously_acted = []\<rparr>
      (s0, a0, new_apply_result (length as))"
    unfolding in_batch_def
    by (rule exI [of _ "[]"]) (simp add: batch_counts_def batch_masks_def new_apply_result_def)
next
  show "in_batch live s0 a0 as rest b' st'"
    if "in_batch live s0 a0 as (x # rest) b st" "apply_one get put live x b st = Inr (b', st')"
    for x rest b st b' st'
    using in_batch_step assms that by blast
next
  show "if success (snd (snd st')) then batch_done live s0 a0 as st' else batch_undone s0 a0 as st'"
    if "in_batch live s0 a0 as (x # rest) b st" "apply_one get put live x b st = Inl st'"
    for x rest b st st'
    using abort_undone [OF assms that] by simp
next
  fix b st
  assume "in_batch live s0 a0 as [] b st"
  moreover have "success (snd (snd (finish_batch b st)))" by (simp add: finish_batch_def split: prod.splits)
  ultimately show "if success (snd (snd (finish_batch b st)))
      then batch_done live s0 a0 as (finish_batch b st) else batch_undone s0 a0 as (finish_batch b st)"
    using finish_batch_done assms by simp
qed

end

section \<open>The restore bookkeeping over a whole session\<close>

text \<open>
  \<open>orig\<close> is the mask each thread had before the policy touched it, or the last mask the
  application asked for. A thread the policy has not acted on still has it, a saved mask is
  always that mask, and every acted thread has a saved mask (so \<^verbatim>\<open>restore_masks_.at\<close> finds it).
\<close>

definition actuator_wf :: "actuator \<Rightarrow> bool" where
  "actuator_wf a \<longleftrightarrow> mwf (restore_masks a) \<and> swf (acted_tids a) \<and>
     set (acted_tids a) \<subseteq> dom (map_of (restore_masks a))"

definition accounted ::
  "('s \<Rightarrow> int \<Rightarrow> cpu_mask) \<Rightarrow> ('s \<Rightarrow> int \<Rightarrow> bool) \<Rightarrow> (int \<Rightarrow> cpu_mask) \<Rightarrow> 's \<Rightarrow> actuator \<Rightarrow> bool" where
  "accounted get alive orig s a \<longleftrightarrow> actuator_wf a \<and>
     (\<forall>t. alive s t \<longrightarrow> (t \<notin> set (acted_tids a) \<longrightarrow> get s t = orig t) \<and>
        (\<forall>m. map_of (restore_masks a) t = Some m \<longrightarrow> m = orig t))"

text \<open>What a batch has remembered of the threads it may still have to roll back.\<close>

definition rollable :: "(int \<Rightarrow> cpu_mask) \<Rightarrow> ('s \<Rightarrow> int \<Rightarrow> bool) \<Rightarrow> 's \<Rightarrow> batch \<Rightarrow> bool" where
  "rollable orig alive s b \<longleftrightarrow>
     (\<forall>t \<in> set (completed b). alive s t \<longrightarrow>
        mgetd False (previously_acted b) t \<or> mgetd [] (previous_masks b) t = orig t)"

lemma actuator_wf_new [simp]: "actuator_wf new_actuator"
  by (simp add: actuator_wf_def new_actuator_def)

lemma actuator_wf_note_application_mask: "actuator_wf a \<Longrightarrow> actuator_wf (note_application_mask t m a)"
  by (auto simp: actuator_wf_def note_application_mask_def)

lemma actuator_wf_note_inherited_mask: "actuator_wf a \<Longrightarrow> actuator_wf (note_inherited_mask t p m a)"
  by (auto simp: actuator_wf_def note_inherited_mask_def)

lemma actuator_wf_remember:
  "actuator_wf a \<Longrightarrow> remember get s t b a = (b1, a1) \<Longrightarrow>
   actuator_wf a1 \<and> t \<in> dom (map_of (restore_masks a1))"
  using remember_facts [of get s t b a b1 a1] by (auto simp: actuator_wf_def split: if_splits)

lemma actuator_wf_forget: "actuator_wf a \<Longrightarrow> actuator_wf (forget t a)"
  by (auto simp: actuator_wf_def forget_def)

context affinity_backend begin

lemma accounted_put_acted:
  assumes "accounted get alive orig s a" "put s t m = (s', e)"
    "t \<in> set (acted_tids a) \<or> \<not> alive s' t"
  shows "accounted get alive orig s' a"
  using assms put_alive [OF assms(2)] put_other [OF assms(2)]
  unfolding accounted_def by metis

lemma accounted_remember:
  assumes "accounted get alive orig s a" "remember get s t b a = (b1, a1)"
  shows "accounted get alive orig s a1"
proof -
  have "t \<notin> set (acted_tids a)" if "t \<notin> dom (map_of (restore_masks a))"
    using that assms(1) by (auto simp: accounted_def actuator_wf_def)
  then show ?thesis
    using assms actuator_wf_remember [OF _ assms(2)]
    by (auto simp: accounted_def remember_facts(2,5) [OF assms(2)])
qed

lemma accounted_unact:
  assumes "accounted get alive orig s a" "alive s t \<longrightarrow> get s t = orig t"
  shows "accounted get alive orig s (a\<lparr>acted_tids := sdel t (acted_tids a)\<rparr>)"
  using assms by (auto simp: accounted_def actuator_wf_def)

lemma accounted_roll_back_one:
  assumes "accounted get alive orig s a" "rollable orig alive s b" "tid \<in> set (completed b)"
    "tid \<in> set (acted_tids a)" "roll_back_one put b tid (s, a, r) = (s', a', r')"
  shows "accounted get alive orig s' a' \<and> rollable orig alive s' b \<and>
    set (acted_tids a) \<subseteq> insert tid (set (acted_tids a'))"
proof -
  obtain s1 e where p: "put s tid (mgetd [] (previous_masks b) tid) = (s1, e)" by fastforce
  have acc: "accounted get alive orig s1 a" using accounted_put_acted [OF assms(1) p] assms(4) by blast
  have s': "s' = s1" using assms(5) p by (auto simp: roll_back_one_def split: if_splits)
  have "rollable orig alive s' b"
    using assms(2) put_alive [OF p] s' unfolding rollable_def by blast
  moreover have "accounted get alive orig s1 (a\<lparr>acted_tids := sdel tid (acted_tids a)\<rparr>)"
    if "\<not> mgetd False (previously_acted b) tid" "e = None \<or> e = Some ESRCH"
  proof (rule accounted_unact [OF acc])
    show "alive s1 tid \<longrightarrow> get s1 tid = orig tid"
      using that assms(2,3) p put_ok put_gone put_alive [OF p] unfolding rollable_def by metis
  qed
  ultimately show ?thesis
    using assms(5) p acc s' by (auto simp: roll_back_one_def split: if_splits)
qed

lemma accounted_roll_back:
  assumes "accounted get alive orig s a" "rollable orig alive s b" "set tids \<subseteq> set (completed b)"
    "distinct tids" "set tids \<subseteq> set (acted_tids a)" "roll_back put b tids (s, a, r) = (s', a', r')"
  shows "accounted get alive orig s' a'"
  using assms
proof (induction tids arbitrary: s a r)
  case (Cons tid tids)
  obtain s1 a1 r1 where one: "roll_back_one put b tid (s, a, r) = (s1, a1, r1)"
    by (cases "roll_back_one put b tid (s, a, r)") auto
  have "accounted get alive orig s1 a1 \<and> rollable orig alive s1 b \<and>
      set (acted_tids a) \<subseteq> insert tid (set (acted_tids a1))"
    using accounted_roll_back_one [OF Cons.prems(1,2) _ _ one] Cons.prems(3,5) by simp
  moreover from this have "set tids \<subseteq> set (acted_tids a1)" using Cons.prems(4,5) by auto
  moreover have "roll_back put b tids (s1, a1, r1) = (s', a', r')" using Cons.prems(6) one by simp
  ultimately show ?case using Cons.IH [of s1 a1 r1] Cons.prems(3,4) by simp
qed simp

text \<open>The invariant of the batch loop.\<close>

definition batch_accounted where
  "batch_accounted orig b st \<longleftrightarrow>
     (case st of (s, a, r) \<Rightarrow> accounted get alive orig s a \<and> rollable orig alive s b \<and>
        set (completed b) \<subseteq> set (acted_tids a) \<and> distinct (completed b))"

lemma batch_accounted_step:
  assumes "batch_accounted orig b (s, a, r)" "fst x \<notin> set (completed b)"
    "apply_one get put live x b (s, a, r) = Inr (b', st')"
  shows "batch_accounted orig b' st' \<and> set (completed b') \<subseteq> insert (fst x) (set (completed b))"
proof (rule apply_one_cases [of x live b s a r])
  fix s1 b1 a1
  assume *: "remember get s (fst x) b a = (b1, a1)" "put s (fst x) (snd x) = (s1, Some ESRCH)"
    "apply_one get put live x b (s, a, r) = Inr (b1, s1, a1, note_vanished (fst x) r)"
  have "accounted get alive orig s a1" using accounted_remember *(1) assms(1) by (auto simp: batch_accounted_def)
  then have "accounted get alive orig s1 a1" using accounted_put_acted *(2) put_gone by blast
  moreover have "rollable orig alive s1 b1"
    using assms(1,2) put_alive [OF *(2)]
    by (auto simp: batch_accounted_def rollable_def remember_facts(1) [OF *(1)] remember_mgetd [OF *(1)])
  ultimately show ?thesis
    using assms(1,3) *(3) remember_facts(1,2) [OF *(1)] by (auto simp: batch_accounted_def)
next
  fix s1 b1 a1
  assume *: "remember get s (fst x) b a = (b1, a1)" "put s (fst x) (snd x) = (s1, None)"
    "apply_one get put live x b (s, a, r) =
         Inr (b1\<lparr>completed := completed b1 @ [fst x]\<rparr>, s1,
              a1\<lparr>acted_tids := sput (fst x) (acted_tids a1)\<rparr>, r\<lparr>applied := applied r + 1\<rparr>)"
  have acc: "accounted get alive orig s a" using assms(1) by (simp add: batch_accounted_def)
  have "accounted get alive orig s (a1\<lparr>acted_tids := sput (fst x) (acted_tids a1)\<rparr>)"
    using accounted_remember [OF acc *(1)] actuator_wf_remember [OF _ *(1)] acc
    by (auto simp: accounted_def actuator_wf_def)
  then have "accounted get alive orig s1 (a1\<lparr>acted_tids := sput (fst x) (acted_tids a1)\<rparr>)"
    by (rule accounted_put_acted [OF _ *(2)]) simp
  moreover have "rollable orig alive s1 (b1\<lparr>completed := completed b1 @ [fst x]\<rparr>)"
    using assms(1,2) put_alive [OF *(2)] acc
    by (auto simp: batch_accounted_def rollable_def accounted_def
        remember_facts(1) [OF *(1)] remember_mgetd [OF *(1)])
  ultimately show ?thesis
    using assms *(3) by (auto simp: batch_accounted_def remember_facts(1,2) [OF *(1)])
qed (use assms in \<open>auto simp: batch_accounted_def\<close>)

lemma batch_accounted_abort:
  assumes "batch_accounted orig b (s, a, r)" "fst x \<notin> set (completed b)"
    "apply_one get put live x b (s, a, r) = Inl (s', a', r')" "error r' \<noteq> EIO"
  shows "accounted get alive orig s' a'"
proof (rule apply_one_cases [of x live b s a r])
  fix s1 b1 a1 err
  assume *: "remember get s (fst x) b a = (b1, a1)"
    "put s (fst x) (snd x) = (s1, Some err) \<or> snd x = [] \<and> s1 = s"
    "apply_one get put live x b (s, a, r) =
       Inl (roll_back put b1 (rev (completed b)) (s1, a1, r\<lparr>error := err\<rparr>))"
  have rb: "roll_back put b1 (rev (completed b)) (s1, a1, r\<lparr>error := err\<rparr>) = (s', a', r')"
    using assms(3) *(3) by simp
  then have err: "err \<noteq> EIO"
    using assms(4) roll_back_keeps [of b1 "rev (completed b)" "(s1, a1, r\<lparr>error := err\<rparr>)"] by auto
  have alive1: "alive s1 t \<Longrightarrow> alive s t" for t using *(2) put_alive by metis
  have same: "get s1 t = get s t" for t using *(2) err put_fail put_other by metis
  have acc: "accounted get alive orig s a1"
    using accounted_remember *(1) assms(1) by (auto simp: batch_accounted_def)
  show ?thesis
  proof (rule accounted_roll_back [OF _ _ _ _ _ rb])
    show "accounted get alive orig s1 a1" using acc alive1 same by (auto simp: accounted_def)
    show "rollable orig alive s1 b1"
      using assms(1,2) alive1
      by (auto simp: batch_accounted_def rollable_def remember_facts(1) [OF *(1)] remember_mgetd [OF *(1)])
  qed (use assms(1) remember_facts(1,2) [OF *(1)] in \<open>auto simp: batch_accounted_def\<close>)
qed (use assms in auto)

text \<open>A batch keeps the books, unless its error is \<^verbatim>\<open>EIO\<close>.\<close>

lemma accounted_apply_delta:
  assumes "accounted get alive orig s a" "distinct (map fst as)"
    "apply_delta get put as live s a = (s', a', r')" "error r' \<noteq> EIO"
  shows "accounted get alive orig s' a'"
proof -
  define P where "P rest b st \<longleftrightarrow> batch_accounted orig b st \<and> distinct (map fst rest) \<and>
      fst ` set rest \<inter> set (completed b) = {}" for rest :: "(int \<times> cpu_mask) list" and b
      and st :: "'s \<times> actuator \<times> apply_result"
  define Q where "Q st \<longleftrightarrow> error (snd (snd st)) \<noteq> EIO \<longrightarrow>
      accounted get alive orig (fst st) (fst (snd st))" for st :: "'s \<times> actuator \<times> apply_result"
  have "Q (apply_delta get put as live s a)"
    unfolding apply_delta_def
  proof (rule apply_loop_rule [where P = P])
    show "P as \<lparr>completed = [], previous_masks = [], previously_acted = []\<rparr>
        (s, a, new_apply_result (length as))"
      using assms(1,2) by (simp add: P_def batch_accounted_def rollable_def)
  next
    fix x rest b st b' st'
    assume *: "P (x # rest) b st" "apply_one get put live x b st = Inr (b', st')"
    obtain s1 a1 r1 where st: "st = (s1, a1, r1)" by (cases st) auto
    have "batch_accounted orig b (s1, a1, r1)" "fst x \<notin> set (completed b)" using *(1) st by (auto simp: P_def)
    then have "batch_accounted orig b' st' \<and> set (completed b') \<subseteq> insert (fst x) (set (completed b))"
      using batch_accounted_step *(2) st by blast
    moreover have "fst x \<notin> fst ` set rest" "fst ` set rest \<inter> set (completed b) = {}" "distinct (map fst rest)"
      using *(1) by (auto simp: P_def)
    ultimately show "P rest b' st'" unfolding P_def by (simp add: disjoint_iff) (metis insertE subsetD)
  next
    fix x rest b st st'
    assume *: "P (x # rest) b st" "apply_one get put live x b st = Inl st'"
    obtain s1 a1 r1 s2 a2 r2 where st: "st = (s1, a1, r1)" "st' = (s2, a2, r2)"
      by (cases st, cases st') auto
    have "batch_accounted orig b (s1, a1, r1)" "fst x \<notin> set (completed b)" using *(1) st by (auto simp: P_def)
    then have "error r2 \<noteq> EIO \<Longrightarrow> accounted get alive orig s2 a2"
      using batch_accounted_abort *(2) st by blast
    then show "Q st'" using st by (simp add: Q_def)
  next
    show "Q (finish_batch b st)" if "P [] b st" for b st
      using that by (auto simp: P_def Q_def batch_accounted_def finish_batch_def)
  qed
  then show ?thesis using assms(3,4) by (simp add: Q_def)
qed

lemma accounted_forget:
  assumes "accounted get alive orig s a" "alive s t \<longrightarrow> get s t = orig t"
  shows "accounted get alive orig s (forget t a)"
  using assms actuator_wf_forget by (auto simp: accounted_def forget_def)

lemma accounted_restore_loop:
  assumes "accounted get alive orig s a" "restore_loop put tids (s, a, r) = (s', a', res)"
  shows "accounted get alive orig s' a' \<and> (\<exists>r'. res = Inr r')"
  using assms
proof (induction tids arbitrary: s a r)
  case (Cons tid tids)
  show ?case
  proof (cases "tid \<in> set (acted_tids a)")
    case True
    then obtain m where m: "map_of (restore_masks a) tid = Some m"
      using Cons.prems(1) by (auto simp: accounted_def actuator_wf_def)
    obtain s1 e where p: "put s tid m = (s1, e)" by fastforce
    have acc: "accounted get alive orig s1 a" using accounted_put_acted Cons.prems(1) p True by blast
    have "accounted get alive orig s1 (forget tid a)" if "e = None \<or> e = Some ESRCH"
    proof (rule accounted_forget [OF acc], intro impI)
      assume "alive s1 tid"
      then have "get s1 tid = m" using that p put_ok put_gone by blast
      then show "get s1 tid = orig tid"
        using Cons.prems(1) \<open>alive s1 tid\<close> put_alive [OF p] m by (auto simp: accounted_def)
    qed
    then show ?thesis
      using Cons.IH Cons.prems(2) True m p acc
      by (auto simp: Let_def split: option.splits if_splits)
  qed (use Cons in auto)
qed auto

text \<open>
  A full restore puts back the saved mask of each living acted thread it could write, and
  leaves the other threads alone.
\<close>

lemma restore_all_loop_masks:
  assumes "restore_all_loop put saved tids (s, r) = (s', Inr r')" "distinct tids"
    "rs_failed r' = 0" "alive s' t"
  shows "get s' t = (if t \<in> set tids then the (map_of saved t) else get s t) \<and> alive s t \<and> rs_failed r = 0"
  using assms
proof (induction tids arbitrary: s r)
  case (Cons tid tids)
  obtain m where m: "map_of saved tid = Some m" using Cons.prems(1) by (auto split: option.splits)
  obtain s1 e where p: "put s tid m = (s1, e)" by fastforce
  obtain r1 where tail: "restore_all_loop put saved tids (s1, r1) = (s', Inr r')"
    and r1: "rs_failed r1 = 0 \<longrightarrow> rs_failed r = 0 \<and> (e = None \<or> e = Some ESRCH)"
    using Cons.prems(1) m p by (cases e) (auto split: if_splits)
  have ih: "get s' t = (if t \<in> set tids then the (map_of saved t) else get s1 t)" "alive s1 t" "rs_failed r1 = 0"
    using Cons.IH [OF tail _ Cons.prems(3,4)] Cons.prems(2) by auto
  have "get s1 t = (if t = tid then m else get s t)"
    using ih(2,3) r1 p put_ok put_gone put_other by (metis)
  then show ?case using ih r1 m Cons.prems(2) put_alive [OF p] by auto
qed simp

lemma restore_all_loop_total:
  assumes "set tids \<subseteq> dom (map_of saved)"
  shows "\<exists>s' r'. restore_all_loop put saved tids (s, r) = (s', Inr r')"
  using assms
proof (induction tids arbitrary: s r)
  case (Cons tid tids)
  then obtain m where "map_of saved tid = Some m" by auto
  then show ?case using Cons by (auto split: option.splits prod.splits)
qed simp

lemma accounted_restore_all:
  assumes "accounted get alive orig s a"
  obtains s' r' where "restore_all put s a = (s', new_actuator, Inr r')"
    "rs_failed r' = 0 \<Longrightarrow> (\<forall>t. alive s' t \<longrightarrow> get s' t = orig t)"
proof -
  have wf: "actuator_wf a" using assms by (simp add: accounted_def)
  then obtain s' r' where run: "restore_all_loop put (restore_masks a) (acted_tids a)
      (s, new_restore_result (length (acted_tids a))) = (s', Inr r')"
    using restore_all_loop_total [of "acted_tids a" "restore_masks a" s
        "new_restore_result (length (acted_tids a))"] by (auto simp: actuator_wf_def)
  have masks: "get s' t = orig t" if "rs_failed r' = 0" "alive s' t" for t
  proof -
    have "get s' t = (if t \<in> set (acted_tids a) then the (map_of (restore_masks a) t) else get s t)" "alive s t"
      using restore_all_loop_masks [OF run _ that] wf by (auto simp: actuator_wf_def swf_distinct)
    then show ?thesis using assms wf by (fastforce simp: accounted_def actuator_wf_def)
  qed
  show thesis by (rule that [of s' r']) (use run masks in \<open>auto simp: restore_all_def\<close>)
qed

end

section \<open>Sessions\<close>

text \<open>
  The calls the runtime makes on one actuator: batches (of any delta, with any live set),
  the release of a set of threads, the application changing the mask of one of its own
  threads, which the agent reports and the runtime notes, and the first sample of a thread
  whose mask is the one saved for its parent, if there is one. The fourth argument is the
  mask each thread should get back.
\<close>

inductive session ::
  "('s \<Rightarrow> int \<Rightarrow> cpu_mask) \<Rightarrow> ('s \<Rightarrow> int \<Rightarrow> cpu_mask \<Rightarrow> 's \<times> int option) \<Rightarrow> 's \<Rightarrow>
   (int \<Rightarrow> cpu_mask) \<Rightarrow> 's \<Rightarrow> actuator \<Rightarrow> bool"
  for get put s0 where
  session_start: "session get put s0 (get s0) s0 new_actuator"
| session_apply: "session get put s0 orig s a \<Longrightarrow> mwf (delta_masks d) \<Longrightarrow>
    apply_placement_delta get put d live s a = (s', a', r) \<Longrightarrow> error r \<noteq> EIO \<Longrightarrow>
    session get put s0 orig s' a'"
| session_restore: "session get put s0 orig s a \<Longrightarrow>
    restore_tids put tids s a = (s', a', res) \<Longrightarrow> session get put s0 orig s' a'"
| session_application: "session get put s0 orig s a \<Longrightarrow> put s t m = (s', None) \<Longrightarrow>
    session get put s0 (orig(t := m)) s' (note_application_mask t m a)"
| session_observe: "session get put s0 orig s a \<Longrightarrow>
    map_of (restore_masks a) p \<in> {None, Some (get s t)} \<Longrightarrow>
    session get put s0 orig s (note_inherited_mask t p (get s t) a)"

lemma mwf_singleton_masks: "mwf (singleton_masks m)"
proof -
  have "mwf acc \<Longrightarrow> mwf (fold (\<lambda>e m. mput (fst e) [snd e] m) m acc)" for acc
    by (induction m arbitrary: acc) simp_all
  then show ?thesis by (simp add: singleton_masks_def)
qed

lemma fold_fill_masks:
  "mwf acc \<Longrightarrow>
     mwf (fold (\<lambda>e m. if mhas m (fst e) then m else mput (fst e) [snd e] m) cpus acc) \<and>
     dom (map_of (fold (\<lambda>e m. if mhas m (fst e) then m else mput (fst e) [snd e] m) cpus acc)) =
       dom (map_of acc) \<union> fst ` set cpus"
  by (induction cpus arbitrary: acc) (auto simp: mhas_def)

lemma mwf_delta_masks: "mwf (tid_to_mask d) \<Longrightarrow> mwf (delta_masks d)"
  using fold_fill_masks [of "tid_to_mask d" "tid_to_cpu d"] by (simp add: delta_masks_def)

lemma dom_delta_masks:
  "mwf (tid_to_mask d) \<Longrightarrow> dom (map_of (delta_masks d)) = dom (map_of (tid_to_mask d)) \<union> fst ` set (tid_to_cpu d)"
  using fold_fill_masks [of "tid_to_mask d" "tid_to_cpu d"] by (simp add: delta_masks_def)

context affinity_backend begin

lemma session_accounted: "session get put s0 orig s a \<Longrightarrow> accounted get alive orig s a"
proof (induction rule: session.induct)
  case session_start
  then show ?case by (simp add: accounted_def) (simp add: new_actuator_def)
next
  case (session_apply orig s a d live s' a' r)
  then show ?case
    using accounted_apply_delta mwf_distinct by (simp add: apply_placement_delta_def) blast
next
  case (session_restore orig s a tids s' a' res)
  then show ?case using accounted_restore_loop by (auto simp: restore_tids_def)
next
  case (session_application orig s a t m s')
  have "get s' t = m" "\<And>t'. t' \<noteq> t \<Longrightarrow> get s' t' = get s t'" "\<And>t'. alive s' t' \<Longrightarrow> alive s t'"
    using session_application.hyps put_ok put_other put_alive by blast+
  then show ?case
    using session_application.IH actuator_wf_note_application_mask
    by (auto simp: accounted_def note_application_mask_def)
next
  case (session_observe orig s a p t)
  have new: "get s t = orig t" if "map_of (restore_masks a) t = None" "alive s t"
    using that session_observe.IH by (auto simp: accounted_def actuator_wf_def)
  have "actuator_wf (note_inherited_mask t p (get s t) a)"
    using session_observe.IH actuator_wf_note_inherited_mask by (simp add: accounted_def)
  then show ?case
    using session_observe.IH session_observe.hyps(2) new
    by (auto simp: accounted_def note_inherited_mask_def mhas_def)
qed

lemma session_restores:
  assumes "session get put s0 orig s a" "restore_all put s a = (s', a', res)"
  shows "a' = new_actuator \<and> (\<exists>r. res = Inr r \<and> (rs_failed r = 0 \<longrightarrow> (\<forall>t. alive s' t \<longrightarrow> get s' t = orig t)))"
  using accounted_restore_all [OF session_accounted [OF assms(1)]] assms(2) by (metis prod.inject)

end

section \<open>The two backends\<close>

interpretation fake: affinity_backend fake_get fake_set "\<lambda>_ _. True"
  by unfold_locales
    (auto simp: fake_get_def fake_set_def EPERM_def ESRCH_def EIO_def split: if_splits)

text \<open>
  What the Linux backend relies on from the two system calls, as sched\_setaffinity(2)
  documents them: a call that fails changes nothing and reports \<^verbatim>\<open>ESRCH\<close> for a thread that does
  not exist, and never \<^verbatim>\<open>EIO\<close>; a call touches one thread; a thread that has exited stays so.
  The mask the kernel installs need not be the one asked for.
\<close>

locale linux_kernel =
  fixes getaff :: "'s \<Rightarrow> int \<Rightarrow> int oset option"
    and setaff :: "'s \<Rightarrow> int \<Rightarrow> int oset \<Rightarrow> 's \<times> int option"
    and alive :: "'s \<Rightarrow> int \<Rightarrow> bool"
  assumes set_fail: "setaff s t m = (s', Some err) \<Longrightarrow> getaff s' t = getaff s t"
    and set_other: "setaff s t m = (s', e) \<Longrightarrow> t' \<noteq> t \<Longrightarrow> getaff s' t' = getaff s t'"
    and set_gone: "setaff s t m = (s', Some ESRCH) \<Longrightarrow> \<not> alive s' t"
    and set_alive: "setaff s t m = (s', e) \<Longrightarrow> alive s' t' \<Longrightarrow> alive s t'"
begin

lemma linux_set_cases:
  assumes "linux_set getaff setaff s t m = (s', e)"
  shows "(s' = s \<and> e = Some EINVAL) \<or>
    (\<exists>cs err. setaff s t cs = (s', Some err) \<and> e = Some err) \<or>
    (\<exists>cs. setaff s t cs = (s', None) \<and>
       e = (if linux_get getaff s' t = m then None else Some EIO))"
  using assms by (auto simp: linux_set_def split: option.splits prod.splits if_splits)

lemma linux_set_ok: "linux_set getaff setaff s t m = (s', None) \<Longrightarrow> linux_get getaff s' t = m"
  by (drule linux_set_cases) (auto split: if_splits)

lemma linux_set_fail:
  "linux_set getaff setaff s t m = (s', Some err) \<Longrightarrow> err \<noteq> EIO \<Longrightarrow> linux_get getaff s' t = linux_get getaff s t"
  by (drule linux_set_cases) (auto simp: linux_get_def dest: set_fail split: if_splits)

lemma linux_set_other:
  "linux_set getaff setaff s t m = (s', e) \<Longrightarrow> t' \<noteq> t \<Longrightarrow> linux_get getaff s' t' = linux_get getaff s t'"
  by (drule linux_set_cases) (auto simp: linux_get_def dest: set_other)

lemma linux_set_gone: "linux_set getaff setaff s t m = (s', Some ESRCH) \<Longrightarrow> \<not> alive s' t"
  by (drule linux_set_cases)
    (auto simp: ESRCH_def EINVAL_def EIO_def dest: set_gone [unfolded ESRCH_def] split: if_splits)

lemma linux_set_alive: "linux_set getaff setaff s t m = (s', e) \<Longrightarrow> alive s' t' \<Longrightarrow> alive s t'"
  by (drule linux_set_cases) (auto dest: set_alive)

end

sublocale linux_kernel \<subseteq> linux: affinity_backend "linux_get getaff" "linux_set getaff setaff" alive
  by unfold_locales (fact linux_set_ok linux_set_fail linux_set_other linux_set_gone linux_set_alive)+

text \<open>
  A kernel with a cpuset: the installed mask is the requested one within the CPUs the thread
  may use, and a request outside them is \<^verbatim>\<open>EINVAL\<close>.
\<close>

record kernel =
  thread_masks :: "(int, int oset) omap"
  cpuset :: "int oset"

definition kernel_getaff :: "kernel \<Rightarrow> int \<Rightarrow> int oset option" where
  "kernel_getaff k tid = map_of (thread_masks k) tid"

definition kernel_setaff :: "kernel \<Rightarrow> int \<Rightarrow> int oset \<Rightarrow> kernel \<times> int option" where
  "kernel_setaff k tid cpus =
     (if \<not> mhas (thread_masks k) tid then (k, Some ESRCH)
      else if set_intersection cpus (cpuset k) = [] then (k, Some EINVAL)
      else (k\<lparr>thread_masks := mput tid (set_intersection cpus (cpuset k)) (thread_masks k)\<rparr>, None))"

definition kernel_alive :: "kernel \<Rightarrow> int \<Rightarrow> bool" where
  "kernel_alive k tid = mhas (thread_masks k) tid"

interpretation cpuset_kernel: linux_kernel kernel_getaff kernel_setaff kernel_alive
  by unfold_locales
    (auto simp: kernel_getaff_def kernel_setaff_def kernel_alive_def mhas_def ESRCH_def EINVAL_def
      split: if_splits)

section \<open>Properties\<close>

lemma requested_apply_delta: "requested (snd (snd (apply_delta get put as live s a))) = length as"
  unfolding apply_delta_def
proof (rule apply_loop_rule [where P = "\<lambda>_ _ st. requested (snd (snd st)) = length as"])
  have rb: "requested (snd (snd (roll_back put b ts st))) = requested (snd (snd st))" for b ts st
    by (induction ts arbitrary: st) (auto simp: roll_back_def roll_back_one_def split: prod.splits)
  show "requested (snd (snd st')) = length as"
    if "requested (snd (snd st)) = length as" "apply_one get put live x b st = Inl st'" for x b st st'
    using that rb by (auto simp: apply_one_def Let_def split: prod.splits option.splits if_splits)
  show "requested (snd (snd st')) = length as"
    if "requested (snd (snd st)) = length as" "apply_one get put live x b st = Inr (b', st')" for x b st b' st'
    using that by (auto simp: apply_one_def Let_def note_vanished_def split: prod.splits option.splits if_splits)
qed (auto simp: new_apply_result_def finish_batch_def split: prod.splits)

context affinity_backend begin

lemma placement_committed:
  assumes "mwf (tid_to_mask d)" "apply_placement_delta get put d live s a = (s', a', r)" "success r"
  shows "set (committed_tids r) \<union> set (vanished_tids r) = dom (map_of (delta_masks d)) \<and>
    set (committed_tids r) \<inter> set (vanished_tids r) = {} \<and>
    committed r + vanished r = requested r \<and>
    (\<forall>t \<in> set (committed_tids r). map_of (delta_masks d) t = Some (get s' t)) \<and>
    (\<forall>t. t \<notin> set (committed_tids r) \<longrightarrow> alive s' t \<longrightarrow> get s' t = get s t) \<and>
    (\<forall>t \<in> set (vanished_tids r). t \<notin> set live \<or> \<not> alive s' t) \<and>
    set (acted_tids a') = set (acted_tids a) \<union> set (committed_tids r)"
proof -
  have wf: "mwf (delta_masks d)" using assms(1) by (rule mwf_delta_masks)
  have run: "apply_delta get put (delta_masks d) live s a = (s', a', r)"
    using assms(2) by (simp add: apply_placement_delta_def)
  have "batch_done live s a (delta_masks d) (s', a', r)"
    using apply_delta_outcome [OF mwf_distinct [OF wf], of live s a] run assms(3) by simp
  moreover have "requested r = length (delta_masks d)"
    using requested_apply_delta [of get put "delta_masks d" live s a] run by simp
  ultimately show ?thesis
    by (simp add: batch_done_def mwf_entry [OF wf] dom_map_of_conv_image_fst)
qed

lemma placement_undone:
  assumes "mwf (tid_to_mask d)" "apply_placement_delta get put d live s a = (s', a', r)"
    "\<not> success r" "rollback_success r"
  shows "set (acted_tids a') = set (acted_tids a) \<and>
    (\<exists>tid \<in> dom (map_of (delta_masks d)). \<forall>t. alive s' t \<longrightarrow> t \<noteq> tid \<or> error r \<noteq> EIO \<longrightarrow>
       get s' t = get s t)"
proof -
  have wf: "mwf (delta_masks d)" using assms(1) by (rule mwf_delta_masks)
  have "apply_delta get put (delta_masks d) live s a = (s', a', r)"
    using assms(2) by (simp add: apply_placement_delta_def)
  then have "batch_undone s a (delta_masks d) (s', a', r)"
    using apply_delta_outcome [OF mwf_distinct [OF wf], of live s a] assms(3) by simp
  then show ?thesis using assms(4) by (simp add: batch_undone_def dom_map_of_conv_image_fst)
qed

end

context linux_kernel begin

lemmas linux_placement_committed = linux.placement_committed
lemmas linux_placement_undone = linux.placement_undone
lemmas linux_session_restores = linux.session_restores
lemmas linux_restore_all_loop_masks = linux.restore_all_loop_masks

end

text \<open>
  C5. A batch that reports success on the Linux backend: the threads of the delta are split
  into those committed and those that vanished, the counters say how many, every committed
  thread runs on exactly its target mask, every other living thread keeps the mask it had,
  a thread counted as vanished was not in the live set or has exited, and the actuator has
  acted on the threads it had acted on before and the committed ones.
\<close>

theorem apply_commits:
  assumes "linux_kernel getaff setaff alive" "mwf (tid_to_mask d)"
    and "apply_placement_delta (linux_get getaff) (linux_set getaff setaff) d live s a = (s', a', r)"
    and "success r"
  shows "set (committed_tids r) \<union> set (vanished_tids r) = dom (map_of (delta_masks d)) \<and>
    set (committed_tids r) \<inter> set (vanished_tids r) = {} \<and>
    committed r + vanished r = requested r \<and>
    (\<forall>t \<in> set (committed_tids r). map_of (delta_masks d) t = Some (linux_get getaff s' t)) \<and>
    (\<forall>t. t \<notin> set (committed_tids r) \<longrightarrow> alive s' t \<longrightarrow> linux_get getaff s' t = linux_get getaff s t) \<and>
    (\<forall>t \<in> set (vanished_tids r). t \<notin> set live \<or> \<not> alive s' t) \<and>
    set (acted_tids a') = set (acted_tids a) \<union> set (committed_tids r)"
  by (rule linux_kernel.linux_placement_committed [OF assms])

definition sample_kernel :: kernel where
  "sample_kernel = \<lparr>thread_masks = [(10, [0, 1]), (11, [0, 1]), (12, [0])], cpuset = [0, 1]\<rparr>"

definition sample_delta :: placement_delta where
  "sample_delta = \<lparr>tid_to_cpu = [(10, 1), (13, 0)], tid_to_mask = [(11, [0])]\<rparr>"

lemma sample_delta_masks: "delta_masks sample_delta = [(10, [1]), (11, [0]), (13, [0])]"
  by (simp add: delta_masks_def sample_delta_def mhas_def)

lemma sample_delta_wf: "mwf (tid_to_mask sample_delta)"
  by (simp add: sample_delta_def mwf_def)

lemma linux_get_some:
  assumes "getaff s t = Some cs" "swf cs" "set cs \<subseteq> {0..<CPU_SETSIZE}"
  shows "linux_get getaff s t = cs"
proof (rule swf_eqI)
  show "swf (linux_get getaff s t)"
    unfolding linux_get_def swf_def using assms(1) by (simp add: sorted_wrt_filter)
qed (use assms in \<open>auto simp: linux_get_def\<close>)

lemma linux_get_none: "getaff s t = None \<Longrightarrow> linux_get getaff s t = []"
  by (simp add: linux_get_def)

text \<open>Evaluation of the actuator over \<open>kernel\<close>, for the examples.\<close>

lemmas actuator_eval =
  apply_placement_delta_def apply_placement_def apply_delta_def apply_one_def remember_def note_vanished_def
  finish_batch_def new_apply_result_def new_actuator_def roll_back_def roll_back_one_def
  restore_all_def restore_tids_def new_restore_result_def forget_def
  linux_set_def linux_get_some linux_get_none kernel_getaff_def kernel_setaff_def mhas_def mgetd_def mdel_def
  sdel_def sfrom_def swf_def CPU_SETSIZE_def ESRCH_def EINVAL_def EIO_def Let_def

lemma sample_apply:
  "apply_placement_delta (linux_get kernel_getaff) (linux_set kernel_getaff kernel_setaff) sample_delta
      [10, 11, 13] sample_kernel new_actuator =
    (\<lparr>thread_masks = [(10, [1]), (11, [0]), (12, [0])], cpuset = [0, 1]\<rparr>,
     \<lparr>restore_masks = [(10, [0, 1]), (11, [0, 1]), (13, [])], acted_tids = [10, 11]\<rparr>,
     \<lparr>success = True, requested = 3, applied = 2, committed = 2, vanished = 1, rolled_back = 0,
      rollback_success = True, error = 0, committed_tids = [10, 11], vanished_tids = [13]\<rparr>)"
  by (simp add: actuator_eval sample_delta_masks sample_kernel_def)

theorem apply_commits_witness:
  "linux_get kernel_getaff
     \<lparr>thread_masks = [(10, [1]), (11, [0]), (12, [0])], cpuset = [0, 1]\<rparr> 10 = [1]"
  using apply_commits [OF cpuset_kernel.linux_kernel_axioms sample_delta_wf sample_apply]
  by (simp add: sample_delta_masks)

text \<open>
  C6. A batch that fails on the Linux backend and whose rollback reports success is undone:
  the actuator has acted on the threads it had acted on before, and there is one thread of
  the delta such that every other living thread has the mask it had before the batch; when
  the error is not \<^verbatim>\<open>EIO\<close>, that thread has too.
\<close>

theorem apply_rolls_back:
  assumes "linux_kernel getaff setaff alive" "mwf (tid_to_mask d)"
    and "apply_placement_delta (linux_get getaff) (linux_set getaff setaff) d live s a = (s', a', r)"
    and "\<not> success r" "rollback_success r"
  shows "set (acted_tids a') = set (acted_tids a) \<and>
    (\<exists>tid \<in> dom (map_of (delta_masks d)). \<forall>t. alive s' t \<longrightarrow> t \<noteq> tid \<or> error r \<noteq> EIO \<longrightarrow>
       linux_get getaff s' t = linux_get getaff s t)"
  by (rule linux_kernel.linux_placement_undone [OF assms])

definition refused_delta :: placement_delta where
  "refused_delta = \<lparr>tid_to_cpu = [], tid_to_mask = [(10, [0]), (11, [1]), (12, [7])]\<rparr>"

lemma refused_delta_wf: "mwf (tid_to_mask refused_delta)"
  by (simp add: refused_delta_def mwf_def)

lemma refused_apply:
  "apply_placement_delta (linux_get kernel_getaff) (linux_set kernel_getaff kernel_setaff) refused_delta
      [10, 11, 12] sample_kernel new_actuator =
    (sample_kernel,
     \<lparr>restore_masks = [(10, [0, 1]), (11, [0, 1]), (12, [0])], acted_tids = []\<rparr>,
     \<lparr>success = False, requested = 3, applied = 2, committed = 0, vanished = 0, rolled_back = 2,
      rollback_success = True, error = 22, committed_tids = [], vanished_tids = []\<rparr>)"
  by (simp add: actuator_eval refused_delta_def delta_masks_def sample_kernel_def)

theorem apply_rolls_back_witness:
  "set (acted_tids \<lparr>restore_masks = [(10, [0, 1]), (11, [0, 1]), (12, [0])], acted_tids = []\<rparr>) =
     set (acted_tids new_actuator)"
  by (rule conjunct1 [OF apply_rolls_back [OF cpuset_kernel.linux_kernel_axioms refused_delta_wf refused_apply]])
    simp_all


lemma sample_session:
  "session (linux_get kernel_getaff) (linux_set kernel_getaff kernel_setaff) sample_kernel
     (linux_get kernel_getaff sample_kernel)
     \<lparr>thread_masks = [(10, [1]), (11, [0]), (12, [0])], cpuset = [0, 1]\<rparr>
     \<lparr>restore_masks = [(10, [0, 1]), (11, [0, 1]), (13, [])], acted_tids = [10, 11]\<rparr>"
  by (rule session_apply [OF session_start _ sample_apply])
    (simp_all add: sample_delta_masks mwf_def EIO_def)

lemma sample_restore:
  "restore_all (linux_set kernel_getaff kernel_setaff)
     \<lparr>thread_masks = [(10, [1]), (11, [0]), (12, [0])], cpuset = [0, 1]\<rparr>
     \<lparr>restore_masks = [(10, [0, 1]), (11, [0, 1]), (13, [])], acted_tids = [10, 11]\<rparr> =
   (sample_kernel, new_actuator,
    Inr \<lparr>rs_requested = 2, rs_restored = 2, rs_vanished = 0, rs_failed = 0\<rparr>)"
  by (simp add: actuator_eval sample_kernel_def)




text \<open>
  A thread that inherits a pinned mask is not restored either: the runtime saves its
  parent's mask for it, but the thread is not among those acted on, so neither a release nor
  a full restore writes it, and it keeps the mask it was created with.
\<close>

theorem inherited_pin_not_restored:
  assumes "linux_kernel getaff setaff alive" "actuator_wf a"
    and "child \<notin> dom (map_of (restore_masks a))" "map_of (restore_masks a) parent = Some saved"
    and "a1 = note_inherited_mask child parent (linux_get getaff s child) a"
    and "restore_all (linux_set getaff setaff) s a1 = (s', a', Inr r)" "restore_success r" "alive s' child"
  shows "map_of (restore_masks a1) child = Some saved \<and>
    restore_tids (linux_set getaff setaff) [child] s a1 = (s, a1, Inr (new_restore_result 0)) \<and>
    linux_get getaff s' child = linux_get getaff s child"
proof -
  have free: "child \<notin> set (acted_tids a)" using assms(2,3) by (auto simp: actuator_wf_def)
  have a1: "acted_tids a1 = acted_tids a" "map_of (restore_masks a1) child = Some saved"
    using assms(3,4,5) by (auto simp: note_inherited_mask_def mhas_def)
  have run: "restore_all_loop (linux_set getaff setaff) (restore_masks a1) (acted_tids a1)
      (s, new_restore_result (length (acted_tids a1))) = (s', Inr r)"
    using assms(6) by (auto simp: restore_all_def split: prod.splits sum.splits)
  have "linux_get getaff s' child = linux_get getaff s child"
    using linux_kernel.linux_restore_all_loop_masks [OF assms(1) run _ _ assms(8)] free a1(1) assms(2,7)
    by (simp add: restore_success_def actuator_wf_def swf_distinct)
  then show ?thesis using a1 free by (simp add: restore_tids_def)
qed

definition pinned_kernel :: kernel where
  "pinned_kernel = \<lparr>thread_masks = [(10, [1]), (11, [1])], cpuset = [0, 1]\<rparr>"

definition pinned_actuator :: actuator where
  "pinned_actuator = \<lparr>restore_masks = [(10, [0, 1])], acted_tids = [10]\<rparr>"

theorem inherited_pin_not_restored_witness:
  "linux_get kernel_getaff (pinned_kernel\<lparr>thread_masks := [(10, [0, 1]), (11, [1])]\<rparr>) 11 =
     linux_get kernel_getaff pinned_kernel 11"
proof -
  let ?a1 = "note_inherited_mask 11 10 (linux_get kernel_getaff pinned_kernel 11) pinned_actuator"
  have "restore_all (linux_set kernel_getaff kernel_setaff) pinned_kernel ?a1 =
      (pinned_kernel\<lparr>thread_masks := [(10, [0, 1]), (11, [1])]\<rparr>, new_actuator,
       Inr \<lparr>rs_requested = 1, rs_restored = 1, rs_vanished = 0, rs_failed = 0\<rparr>)"
    by (simp add: actuator_eval note_inherited_mask_def pinned_actuator_def pinned_kernel_def)
  note ends = inherited_pin_not_restored [OF cpuset_kernel.linux_kernel_axioms _ _ _ refl this]
  show ?thesis
    by (rule conjunct2 [OF conjunct2 [OF ends]])
      (simp_all add: pinned_actuator_def actuator_wf_def restore_success_def kernel_alive_def
        mhas_def mwf_def swf_def)
qed

end
