(* ===== verification/Core_Types.thy ===== *)
theory Core_Types
  imports Prelude
begin

text \<open>
  The data that several components of \<^verbatim>\<open>include/affinitygraph/core.hpp\<close> exchange: identities and
  samples of threads, demands, relation edges and the hardware graph. The records that belong
  to one component are in its theory.

  \<^verbatim>\<open>ThreadIdentity\<close> has an ordering of its own in the code, by thread group, thread and start
  time; it is an instance of \<open>linorder\<close> here, so that the sorted containers apply to it.
\<close>

section \<open>Thread identities\<close>

datatype thread_identity = Identity (tgid: int) (tid: int) (starttime: uint64)

definition identity_key :: "thread_identity \<Rightarrow> int \<times> int \<times> uint64" where
  "identity_key i = (tgid i, tid i, starttime i)"

lemma identity_key_inject: "identity_key i = identity_key j \<longleftrightarrow> i = j"
  by (auto simp: identity_key_def intro: thread_identity.expand)

instantiation thread_identity :: linorder
begin

definition less_eq_thread_identity :: "thread_identity \<Rightarrow> thread_identity \<Rightarrow> bool" where
  "i \<le> j \<longleftrightarrow> identity_key i \<le> identity_key j"

definition less_thread_identity :: "thread_identity \<Rightarrow> thread_identity \<Rightarrow> bool" where
  "i < j \<longleftrightarrow> identity_key i < identity_key j"

instance
proof
  fix x y z :: thread_identity
  show "x < y \<longleftrightarrow> x \<le> y \<and> \<not> y \<le> x"
    by (simp add: less_eq_thread_identity_def less_thread_identity_def less_le_not_le)
  show "x \<le> x" "x \<le> y \<or> y \<le> x"
    by (simp_all add: less_eq_thread_identity_def linear)
  show "x \<le> y \<Longrightarrow> y \<le> z \<Longrightarrow> x \<le> z" by (simp add: less_eq_thread_identity_def)
  show "x \<le> y \<Longrightarrow> y \<le> x \<Longrightarrow> x = y"
    by (simp add: less_eq_thread_identity_def flip: identity_key_inject)
qed

end

lemma thread_identity_less:
  "Identity g t s < Identity g' t' s' \<longleftrightarrow> g < g' \<or> g = g' \<and> (t < t' \<or> t = t' \<and> s < s')"
  by (auto simp: less_thread_identity_def identity_key_def)

section \<open>Samples, demands and relations\<close>

record thread_sample =
  ts_identity :: thread_identity
  timestamp_ns :: uint64
  runtime_ns :: uint64
  runqueue_ns :: uint64
  voluntary_switches :: uint64
  involuntary_switches :: uint64
  recent_cpu :: int
  ts_state :: char
  comm :: string
  cgroups :: "string list"
  allowed_cpus :: cpu_mask
  parent_tid :: int
  start_routine :: uint64
  start_symbol :: string

record relation_observation =
  ro_from_tid :: int
  ro_to_tid :: int
  from_starttime :: uint64
  to_starttime :: uint64
  ro_timestamp_ns :: uint64
  futex_per_second :: double
  ro_shared_vfs_seconds :: double
  ro_active_overlap :: double

record thread_demand =
  td_identity :: thread_identity
  group :: string
  demand :: double
  confidence :: double
  current_cpu :: int

abbreviation td_tid :: "thread_demand \<Rightarrow> int" where
  "td_tid d \<equiv> tid (td_identity d)"

record relation_edge =
  from_tid :: int
  to_tid :: int
  activity :: double
  sync :: double
  share :: double
  stability :: double
  score :: double
  handoff_rate :: double
  shared_vfs_seconds :: double
  active_overlap :: double
  observation_count :: nat
  coverage :: double
  coefficient_of_variation :: double

record graph_delta =
  upsert_threads :: "thread_demand list"
  removed_threads :: "thread_identity list"
  upsert_edges :: "relation_edge list"
  removed_edges :: "(int \<times> int) list"

definition dirty_tids :: "graph_delta \<Rightarrow> int oset" where
  "dirty_tids d =
     (let r1 = fold (\<lambda>t r. sput (td_tid t) r) (upsert_threads d) [];
          r2 = fold (\<lambda>t r. sput (tid t) r) (removed_threads d) r1;
          r3 = fold (\<lambda>e r. sput (to_tid e) (sput (from_tid e) r)) (upsert_edges d) r2
      in fold (\<lambda>p r. sput (snd p) (sput (fst p) r)) (removed_edges d) r3)"

section \<open>The hardware graph\<close>

record cpu =
  cpu_id :: int
  cpu_node :: int
  online :: bool

record node_calibration =
  handoff_mean_ns :: double
  handoff_p95_ns :: double
  memory_load_mean_ns :: double
  memory_load_cv :: double
  stream_2t_triad_mbps :: double
  stream_32t_triad_mbps :: double

record hardware_graph =
  cpus :: "cpu list"
  cpu_latency :: "(int \<times> int, double) omap"
  node_distance :: "(int \<times> int, double) omap"
  node_calibrations :: "(int \<times> int, node_calibration) omap"

end
