(* ===== verification/Topology.thy ===== *)
theory Topology
  imports Core_Types Cpu_List
begin

text \<open>
  The hardware graph of \<^verbatim>\<open>src/topology.cpp\<close>: discovery of the CPUs of the resource envelope,
  loading of a measured calibration, and the queries the solvers use. The files under
  \<^verbatim>\<open>/sys\<close> are a parameter: which CPU directories exist, what their \<^verbatim>\<open>online\<close> file holds, the
  names of their entries and the numbers of a node's distance table.

  \<open>stod\<close> models \<^verbatim>\<open>std::stod\<close> on decimal numbers with exact values; the spellings of infinities,
  NaNs and hexadecimal numbers are outside the model.
\<close>

section \<open>Decimal numbers\<close>

definition decimal_mantissa :: "string \<Rightarrow> (double \<times> string) option" where
  "decimal_mantissa s =
     (let ip = takeWhile isdigit s;
          r = dropWhile isdigit s;
          fp = (case r of [] \<Rightarrow> [] | c # r1 \<Rightarrow> if c = CHR ''.'' then takeWhile isdigit r1 else []);
          r' = (case r of [] \<Rightarrow> []
                | c # r1 \<Rightarrow> if c = CHR ''.'' then dropWhile isdigit r1 else r)
      in if ip = [] \<and> fp = [] then None
         else Some (real_of_int (digits_value (ip @ fp)) / 10 ^ length fp, r'))"

definition decimal_sign :: "string \<Rightarrow> bool \<times> string" where
  "decimal_sign s =
     (case s of [] \<Rightarrow> (False, [])
      | c # r \<Rightarrow> if c = CHR ''-'' then (True, r) else if c = CHR ''+'' then (False, r) else (False, s))"

definition decimal_exponent :: "string \<Rightarrow> int" where
  "decimal_exponent s =
     (case s of [] \<Rightarrow> 0
      | c # r \<Rightarrow>
          if c = CHR ''e'' \<or> c = CHR ''E'' then
            (let (neg, r') = decimal_sign r; ds = takeWhile isdigit r'
             in if ds = [] then 0 else if neg then - digits_value ds else digits_value ds)
          else 0)"

definition scale10 :: "double \<Rightarrow> int \<Rightarrow> double" where
  "scale10 m e = (if 0 \<le> e then m * 10 ^ nat e else m / 10 ^ nat (- e))"

definition stod :: "string \<Rightarrow> double result" where
  "stod s =
     (let (neg, r) = decimal_sign (dropWhile isspace s) in
      case decimal_mantissa r of
        None \<Rightarrow> Inl (Invalid_Argument ''stod'')
      | Some (m, rest) \<Rightarrow>
          (let v = scale10 m (decimal_exponent rest) in
           if 2 ^ 1024 \<le> v then Inl (Out_Of_Range ''stod'')
           else Inr (if neg then - v else v)))"

section \<open>Queries\<close>

definition nodes :: "hardware_graph \<Rightarrow> int list" where
  "nodes hw = fold (\<lambda>c r. sput (cpu_node c) r) (cpus hw) []"

definition cpus_in_node :: "hardware_graph \<Rightarrow> int \<Rightarrow> int list" where
  "cpus_in_node hw node =
     sort (map cpu_id (filter (\<lambda>c. cpu_node c = node \<and> online c) (cpus hw)))"

text \<open>The scan that finds the nodes of the two CPUs: the last matching entry wins.\<close>

definition node_of_cpu :: "hardware_graph \<Rightarrow> int \<Rightarrow> int" where
  "node_of_cpu hw c = fold (\<lambda>x n. if cpu_id x = c then cpu_node x else n) (cpus hw) (- 1)"

definition latency :: "hardware_graph \<Rightarrow> int \<Rightarrow> int \<Rightarrow> double" where
  "latency hw from_cpu to_cpu =
     (if from_cpu = to_cpu then 0
      else case map_of (cpu_latency hw) (from_cpu, to_cpu) of
        Some l \<Rightarrow> l
      | None \<Rightarrow>
          (let from_node = node_of_cpu hw from_cpu; to_node = node_of_cpu hw to_cpu in
           case map_of (node_distance hw) (from_node, to_node) of
             Some d \<Rightarrow> d
           | None \<Rightarrow> if from_node = to_node then 10 else 20))"

section \<open>Discovery\<close>

record sys_tree =
  cpu_exists :: "int \<Rightarrow> bool"
  online_file :: "int \<Rightarrow> string"
  cpu_entries :: "int \<Rightarrow> string list"
  distances :: "int \<Rightarrow> double list"

fun entry_node :: "string list \<Rightarrow> int result" where
  "entry_node [] = Inr (- 1)"
| "entry_node (name # names) =
     (if take 4 name = ''node'' then stoi (drop 4 name) else entry_node names)"

definition discover_cpu :: "sys_tree \<Rightarrow> int \<Rightarrow> cpu result" where
  "discover_cpu sys c =
     (if \<not> cpu_exists sys c
      then Inl (Runtime_Error (''CPU '' @ show_int c @ '' is outside host topology''))
      else if \<not> (c = 0 \<or> online_file sys c \<noteq> ''0'')
      then Inl (Runtime_Error (''CPU '' @ show_int c @ '' is offline''))
      else case entry_node (cpu_entries sys c) of
        Inl e \<Rightarrow> Inl e
      | Inr n \<Rightarrow> Inr \<lparr>cpu_id = c, cpu_node = (if n < 0 then 0 else n), online = True\<rparr>)"

fun discover_cpus :: "sys_tree \<Rightarrow> int list \<Rightarrow> cpu list result" where
  "discover_cpus sys [] = Inr []"
| "discover_cpus sys (c # cs) =
     (case discover_cpu sys c of
        Inl e \<Rightarrow> Inl e
      | Inr x \<Rightarrow> (case discover_cpus sys cs of Inl e \<Rightarrow> Inl e | Inr xs \<Rightarrow> Inr (x # xs)))"

text \<open>One distance file: the values in order are the distances to the nodes 0, 1, ...\<close>

fun put_distances :: "int \<Rightarrow> int \<Rightarrow> double list \<Rightarrow> (int \<times> int, double) omap \<Rightarrow> (int \<times> int, double) omap" where
  "put_distances from to [] m = m"
| "put_distances from to (v # vs) m = put_distances from (to + 1) vs (mput (from, to) v m)"

definition discover :: "sys_tree \<Rightarrow> int list \<Rightarrow> hardware_graph result" where
  "discover sys envelope =
     (case discover_cpus sys envelope of
        Inl e \<Rightarrow> Inl e
      | Inr cs \<Rightarrow>
          (let g = \<lparr>cpus = cs, cpu_latency = [], node_distance = [], node_calibrations = []\<rparr> in
           Inr (g\<lparr>node_distance :=
             fold (\<lambda>from m. put_distances from 0 (distances sys from) m) (nodes g) []\<rparr>)))"

section \<open>Calibration\<close>

definition calibration_header :: string where
  "calibration_header =
     ''source_node,destination_node,same_socket,numa_distance,core_handoff_mean_ns,core_handoff_p95_ns,memory_load_mean_ns,memory_load_cv,stream_2t_triad_mbps,stream_32t_triad_mbps''"

definition pair_latencies ::
  "cpu list \<Rightarrow> int \<Rightarrow> int \<Rightarrow> double \<Rightarrow> (int \<times> int, double) omap \<Rightarrow> (int \<times> int, double) omap" where
  "pair_latencies cs from to handoff m =
     fold (\<lambda>a m. fold (\<lambda>b m.
         if cpu_node a = from \<and> cpu_node b = to
         then mput (cpu_id a, cpu_id b) (if cpu_id a = cpu_id b then 0 else handoff) m else m) cs m)
       cs m"

fun stods :: "string list \<Rightarrow> double list result" where
  "stods [] = Inr []"
| "stods (s # ss) =
     (case stod s of Inl e \<Rightarrow> Inl e
      | Inr v \<Rightarrow> (case stods ss of Inl e \<Rightarrow> Inl e | Inr vs \<Rightarrow> Inr (v # vs)))"

definition calibration_row :: "string \<Rightarrow> hardware_graph \<Rightarrow> hardware_graph result" where
  "calibration_row line g =
     (let cells = getline_parts (CHR '','') line in
      if length cells \<noteq> 10 \<and> length cells \<noteq> 11
      then Inl (Runtime_Error ''invalid hardware calibration row'')
      else case stoi (cells ! 0) of Inl e \<Rightarrow> Inl e | Inr from \<Rightarrow>
        (case stoi (cells ! 1) of Inl e \<Rightarrow> Inl e | Inr to \<Rightarrow>
          (case stods (map ((!) cells) [3, 4, 5, 6, 7, 8, 9]) of
             Inl e \<Rightarrow> Inl e
           | Inr v \<Rightarrow>
               Inr (g\<lparr>node_distance := mput (from, to) (v ! 0) (node_distance g),
                      node_calibrations := mput (from, to)
                        \<lparr>handoff_mean_ns = v ! 1, handoff_p95_ns = v ! 2, memory_load_mean_ns = v ! 3,
                         memory_load_cv = v ! 4, stream_2t_triad_mbps = v ! 5,
                         stream_32t_triad_mbps = v ! 6\<rparr> (node_calibrations g),
                      cpu_latency := pair_latencies (cpus g) from to (v ! 1) (cpu_latency g)\<rparr>))))"

fun calibration_rows :: "string list \<Rightarrow> hardware_graph \<Rightarrow> hardware_graph result" where
  "calibration_rows [] g = Inr g"
| "calibration_rows (line # ls) g =
     (case calibration_row line g of Inl e \<Rightarrow> Inl e | Inr g' \<Rightarrow> calibration_rows ls g')"

text \<open>
  \<open>content\<close> is the calibration file, found at \<open>file\<close> (the path itself, or the node-edge table
  of the directory it names); \<open>None\<close> when it cannot be opened.
\<close>

definition load_calibration :: "string \<Rightarrow> string \<Rightarrow> string list option \<Rightarrow> hardware_graph \<Rightarrow> hardware_graph result" where
  "load_calibration path file content g =
     (if path = [] then Inr g
      else case content of
        None \<Rightarrow> Inl (Runtime_Error (''cannot open hardware calibration: '' @ file))
      | Some [] \<Rightarrow> Inl (Runtime_Error (''unsupported hardware calibration schema: '' @ file))
      | Some (header # ls) \<Rightarrow>
          if header \<noteq> calibration_header \<and> header \<noteq> calibration_header @ '',is_estimated''
          then Inl (Runtime_Error (''unsupported hardware calibration schema: '' @ file))
          else case calibration_rows ls g of
            Inl e \<Rightarrow> Inl e
          | Inr g' \<Rightarrow>
              if \<not> list_all (\<lambda>from. list_all (\<lambda>to. mhas (node_distance g') (from, to)) (nodes g')) (nodes g')
              then Inl (Runtime_Error ''calibration does not cover resource envelope nodes'')
              else if ls = [] then Inl (Runtime_Error ''empty hardware calibration'')
              else Inr g')"

section \<open>Lemmas on the queries\<close>

lemma nodes_eq: "nodes hw = sfrom (map cpu_node (cpus hw))"
  by (simp add: nodes_def sfrom_def fold_map comp_def)

lemma set_nodes [simp]: "set (nodes hw) = cpu_node ` set (cpus hw)"
  by (simp add: nodes_eq)

lemma swf_nodes [simp]: "swf (nodes hw)"
  by (simp add: nodes_eq)

lemma set_cpus_in_node: "set (cpus_in_node hw n) = {cpu_id c | c. c \<in> set (cpus hw) \<and> cpu_node c = n \<and> online c}"
  by (auto simp: cpus_in_node_def)

lemma nodes_cong: "cpus g = cpus h \<Longrightarrow> nodes g = nodes h"
  by (simp add: nodes_def)

section \<open>Lemmas on discovery and calibration\<close>

lemma discover_cpu_ok:
  "discover_cpu sys c = Inr x \<Longrightarrow> cpu_id x = c \<and> online x \<and> 0 \<le> cpu_node x \<and> cpu_exists sys c"
  by (auto simp: discover_cpu_def split: if_splits sum.splits)

lemma discover_cpus_ok:
  "discover_cpus sys cs = Inr xs \<Longrightarrow>
   map cpu_id xs = cs \<and> (\<forall>x \<in> set xs. online x \<and> 0 \<le> cpu_node x \<and> cpu_exists sys (cpu_id x))"
proof (induction cs arbitrary: xs)
  case (Cons c cs)
  then obtain x ys where "discover_cpu sys c = Inr x" "discover_cpus sys cs = Inr ys" "xs = x # ys"
    by (auto split: sum.splits)
  then show ?case using Cons.IH discover_cpu_ok by auto
qed simp

lemma cpus_calibration_row: "calibration_row line g = Inr g' \<Longrightarrow> cpus g' = cpus g"
  by (auto simp: calibration_row_def Let_def split: if_splits sum.splits)

lemma distance_calibration_row:
  "calibration_row line g = Inr g' \<Longrightarrow> dom (map_of (node_distance g)) \<subseteq> dom (map_of (node_distance g'))"
  by (auto simp: calibration_row_def Let_def split: if_splits sum.splits)

lemma calibration_rows_keep:
  "calibration_rows ls g = Inr g' \<Longrightarrow>
   cpus g' = cpus g \<and> dom (map_of (node_distance g)) \<subseteq> dom (map_of (node_distance g'))"
proof (induction ls arbitrary: g)
  case (Cons line ls)
  then obtain h where h: "calibration_row line g = Inr h" "calibration_rows ls h = Inr g'"
    by (auto split: sum.splits)
  then show ?case
    using Cons.IH [OF h(2)] cpus_calibration_row [OF h(1)] distance_calibration_row [OF h(1)] by auto
qed simp

lemma node_of_cpu_in:
  assumes "c \<in> cpu_id ` set (cpus hw)"
  shows "node_of_cpu hw c \<in> set (nodes hw)"
proof -
  have "c \<in> cpu_id ` set xs \<or> n \<in> N \<Longrightarrow> cpu_node ` set xs \<subseteq> N \<Longrightarrow>
      fold (\<lambda>x n. if cpu_id x = c then cpu_node x else n) xs n \<in> N" for xs n and N :: "int set"
    by (induction xs arbitrary: n) auto
  from this [of "cpus hw" "- 1" "cpu_node ` set (cpus hw)"] show ?thesis
    using assms by (simp add: node_of_cpu_def)
qed

section \<open>Properties\<close>


definition sample_sys :: sys_tree where
  "sample_sys =
     \<lparr>cpu_exists = (\<lambda>c. c < 4), online_file = (\<lambda>c. ''1''),
      cpu_entries = (\<lambda>c. if c < 2 then [''cache'', ''node0''] else [''node1'']),
      distances = (\<lambda>n. if n = 0 then [10, 20] else [20, 10])\<rparr>"

definition sample_hardware :: hardware_graph where
  "sample_hardware =
     \<lparr>cpus = [\<lparr>cpu_id = 0, cpu_node = 0, online = True\<rparr>, \<lparr>cpu_id = 1, cpu_node = 0, online = True\<rparr>,
              \<lparr>cpu_id = 2, cpu_node = 1, online = True\<rparr>, \<lparr>cpu_id = 3, cpu_node = 1, online = True\<rparr>],
      cpu_latency = [],
      node_distance = [((0, 0), 10), ((0, 1), 20), ((1, 0), 20), ((1, 1), 10)],
      node_calibrations = []\<rparr>"

lemma sample_discover: "discover sample_sys [0, 1, 2, 3] = Inr sample_hardware"
  by (simp add: discover_def discover_cpu_def sample_sys_def sample_hardware_def stoi_def isspace_def
      isdigit_def digits_value_def digit_value_def int_max_def int_min_def nodes_def Let_def)


text \<open>
  An accepted calibration leaves the CPUs alone and gives every ordered pair of nodes of
  the graph a distance, so the latency of two different CPUs is always a calibrated or a
  tabulated value, never the built-in default.
\<close>

theorem load_calibration_covers:
  assumes "load_calibration path file content g = Inr g'" "path \<noteq> []"
    and "a \<in> cpu_id ` set (cpus g)" "b \<in> cpu_id ` set (cpus g)" "a \<noteq> b"
  shows "cpus g' = cpus g \<and>
    (map_of (cpu_latency g') (a, b) = Some (latency g' a b) \<or>
     map_of (node_distance g') (node_of_cpu g' a, node_of_cpu g' b) = Some (latency g' a b))"
proof -
  obtain ls where rows: "calibration_rows ls g = Inr g'"
    and cover: "\<forall>f \<in> set (nodes g'). \<forall>t \<in> set (nodes g'). mhas (node_distance g') (f, t)"
    using assms(1,2)
    by (auto simp: load_calibration_def list_all_iff split: option.splits list.splits if_splits sum.splits)
  have keep: "cpus g' = cpus g" using calibration_rows_keep [OF rows] by simp
  then have "node_of_cpu g' a \<in> set (nodes g')" "node_of_cpu g' b \<in> set (nodes g')"
    using node_of_cpu_in assms(3,4) by metis+
  then obtain d where "map_of (node_distance g') (node_of_cpu g' a, node_of_cpu g' b) = Some d"
    using cover unfolding mhas_def by blast
  then show ?thesis using keep assms(5) by (auto simp: latency_def Let_def split: option.splits)
qed

definition sample_row :: string where
  "sample_row = ''0,1,0,21,100,110,5,2,7,8''"

lemma sample_cells:
  "getline_parts (CHR '','') sample_row =
     [''0'', ''1'', ''0'', ''21'', ''100'', ''110'', ''5'', ''2'', ''7'', ''8'']"
  by code_simp

definition sample_calibrated :: hardware_graph where
  "sample_calibrated = sample_hardware\<lparr>
     node_distance := [((0, 0), 10), ((0, 1), 21), ((1, 0), 20), ((1, 1), 10)],
     node_calibrations := [((0, 1), \<lparr>handoff_mean_ns = 100, handoff_p95_ns = 110, memory_load_mean_ns = 5,
       memory_load_cv = 2, stream_2t_triad_mbps = 7, stream_32t_triad_mbps = 8\<rparr>)],
     cpu_latency := [((0, 2), 100), ((0, 3), 100), ((1, 2), 100), ((1, 3), 100)]\<rparr>"

lemma sample_calibration_row: "calibration_row sample_row sample_hardware = Inr sample_calibrated"
  unfolding calibration_row_def sample_cells
  by (simp add: stoi_def stod_def decimal_sign_def decimal_mantissa_def decimal_exponent_def scale10_def
      isspace_def isdigit_def digits_value_def digit_value_def int_max_def int_min_def Let_def
      pair_latencies_def sample_hardware_def sample_calibrated_def numeral_eq_Suc)

lemma sample_rows: "calibration_rows [sample_row] sample_hardware = Inr sample_calibrated"
  by (simp add: sample_calibration_row)

lemma sample_covered:
  "\<forall>f \<in> set (nodes sample_hardware). \<forall>t \<in> set (nodes sample_hardware).
     mhas (node_distance sample_hardware) (f, t)"
  by (simp add: nodes_def sample_hardware_def mhas_def)

lemma sample_load:
  "load_calibration ''c'' ''c'' (Some [calibration_header, sample_row]) sample_hardware = Inr sample_calibrated"
  by (simp add: load_calibration_def sample_calibration_row nodes_def mhas_def)
    (simp add: sample_calibrated_def sample_hardware_def)

theorem load_calibration_covers_witness:
  "cpus sample_calibrated = cpus sample_hardware \<and>
    (map_of (cpu_latency sample_calibrated) (0, 2) = Some (latency sample_calibrated 0 2) \<or>
     map_of (node_distance sample_calibrated) (node_of_cpu sample_calibrated 0, node_of_cpu sample_calibrated 2) =
       Some (latency sample_calibrated 0 2))"
  by (rule load_calibration_covers [OF sample_load]) (simp_all add: sample_hardware_def)

text \<open>
  The coverage check of the calibration is on the distances the graph already has: when
  the discovered table covers the nodes, a calibration file with any one well-formed row is
  accepted, however few node pairs it measures.
\<close>

theorem calibration_coverage_not_checked:
  assumes "path \<noteq> []" "calibration_rows (row # rows) g = Inr g'"
    and "\<forall>f \<in> set (nodes g). \<forall>t \<in> set (nodes g). mhas (node_distance g) (f, t)"
  shows "load_calibration path file (Some (calibration_header # row # rows)) g = Inr g'"
proof -
  have "cpus g' = cpus g" "dom (map_of (node_distance g)) \<subseteq> dom (map_of (node_distance g'))"
    using calibration_rows_keep [OF assms(2)] by auto
  then have "\<forall>f \<in> set (nodes g'). \<forall>t \<in> set (nodes g'). mhas (node_distance g') (f, t)"
    using assms(3) nodes_cong [of g g'] by (metis mhas_dom subsetD)
  then show ?thesis using assms(1,2) by (simp add: load_calibration_def list_all_iff)
qed

theorem calibration_coverage_not_checked_witness:
  "load_calibration ''c'' ''c'' (Some [calibration_header, sample_row]) sample_hardware = Inr sample_calibrated \<and>
   map_of (node_calibrations sample_calibrated) (1, 0) = None"
proof
  show "load_calibration ''c'' ''c'' (Some [calibration_header, sample_row]) sample_hardware = Inr sample_calibrated"
    by (rule calibration_coverage_not_checked [OF _ sample_rows sample_covered]) simp
qed (simp add: sample_calibrated_def sample_hardware_def)

end
