(* ===== verification/Node_Planner.thy ===== *)
theory Node_Planner
  imports Topology Actuator
begin

text \<open>
  The stateless half of \<^verbatim>\<open>src/domain_solver.cpp\<close>: mask algebra, the bounded family graph and the
  choice of a node set for a domain.

  \<^verbatim>\<open>choose_nodes\<close> enumerates the subsets of the NUMA nodes by recursion and keeps the best one
  so far. The locale \<open>best_scan\<close> is the contract of such a scan - the comparison is a strict
  order by a key - and gives the optimality of the result; it is interpreted on the code's
  five-level comparison, so that the documented lexicographic rule is what the enumeration
  computes.
\<close>

section \<open>Records\<close>

record family_metric =
  fm_name :: string
  thread_count :: nat
  fm_demand :: double
  internal_relation :: double
  external_relation :: double
  self_containment :: double
  relative_internal :: double
  demand_eligible :: bool
  internal_relation_eligible :: bool
  self_containment_eligible :: bool
  relative_internal_eligible :: bool
  cohesive_eligible :: bool
  fm_confirmation :: int
  seed_confirmation :: int
  cohesive_anchor :: bool
  cross_pending :: bool
  cross_seed :: bool
  anchor :: bool

record family_pair_metric =
  fp_left :: string
  fp_right :: string
  cross_relation :: double
  fp_denominator :: double
  merge_ratio :: double
  endpoints_eligible :: bool
  qualifies :: bool
  fp_confirmation :: int
  confirmed :: bool

record numa_domain =
  nd_id :: string
  families :: "string list"
  tids :: "int list"
  target_nodes :: "int list"
  target_mask :: "int list"
  nd_demand :: double
  previous_nodes :: "int list"
  nd_online_cpu_count :: nat
  nd_capacity_limit :: double
  nd_capacity_headroom :: double
  nd_relation_latency :: double
  nd_background_demand :: double
  nd_initial_migrations :: int
  expand_confirmation :: int
  shrink_confirmation :: int
  node_decision :: string
  nd_confirmation :: int
  nd_valid :: bool
  nd_invalid_reason :: string

type_synonym family_pair = "string \<times> string"
type_synonym placed_domain = "string list \<times> int list"

section \<open>Masks and signatures\<close>

definition intersect_masks :: "cpu_mask \<Rightarrow> cpu_mask \<Rightarrow> cpu_mask" where
  "intersect_masks left right = set_intersection (sort left) (sort right)"

fun domain_id :: "string list \<Rightarrow> string" where
  "domain_id [] = []"
| "domain_id [f] = f"
| "domain_id (f # g # fs) = f @ ''+'' @ domain_id (g # fs)"

definition domain_signature :: "numa_domain \<Rightarrow> string" where
  "domain_signature d =
     nd_id d @ '':'' @ concat (map (\<lambda>n. show_int n @ '','') (target_nodes d)) @ '':'' @
     (if nd_valid d then ''valid'' else nd_invalid_reason d) @ '';''"

definition plan_signature :: "numa_domain list \<Rightarrow> string" where
  "plan_signature ds = concat (map domain_signature ds)"

definition mask_for_nodes :: "hardware_graph \<Rightarrow> int list \<Rightarrow> cpu_mask" where
  "mask_for_nodes hw ns = sort_unique (concat (map (cpus_in_node hw) ns))"

section \<open>The bounded family graph\<close>

definition incident_edges :: "(family_pair, double) omap \<Rightarrow> (string, (double \<times> family_pair) list) omap" where
  "incident_edges cross =
     fold (\<lambda>(p, w) m. mpush (snd p) (w, p) (mpush (fst p) (w, p) m)) cross []"

definition select_family_edges :: "(family_pair, double) omap \<Rightarrow> nat \<Rightarrow> family_pair oset" where
  "select_family_edges cross edges_per_family =
     fold (\<lambda>(name, candidates) selected.
         fold (\<lambda>c s. sput (snd c) s)
           (take edges_per_family (sort_key (\<lambda>c. (- fst c, snd c)) candidates)) selected)
       (incident_edges cross) []"

section \<open>Evaluation of a node set\<close>

definition cpu_in_nodes :: "hardware_graph \<Rightarrow> int \<Rightarrow> int list \<Rightarrow> bool" where
  "cpu_in_nodes hw c ns =
     (case find (\<lambda>x. cpu_id x = c) (cpus hw) of None \<Rightarrow> False | Some x \<Rightarrow> cpu_node x \<in> set ns)"

record node_choice =
  choice_nodes :: "int list"
  online_cpu_count :: nat
  capacity_limit :: double
  capacity_headroom :: double
  relation_latency :: double
  background_demand :: double
  initial_migrations :: int

definition empty_choice :: node_choice where
  "empty_choice =
     \<lparr>choice_nodes = [], online_cpu_count = 0, capacity_limit = 0, capacity_headroom = 0,
      relation_latency = 0, background_demand = 0, initial_migrations = 0\<rparr>"

definition minmax :: "'a::linorder \<Rightarrow> 'a \<Rightarrow> 'a \<times> 'a" where
  "minmax a b = (if b < a then (b, a) else (a, b))"

definition pair_weight :: "string list \<Rightarrow> string list \<Rightarrow> (family_pair, double) omap \<Rightarrow> double" where
  "pair_weight fams others cross =
     fold (\<lambda>f w. fold (\<lambda>g w. case map_of cross (minmax f g) of None \<Rightarrow> w | Some v \<Rightarrow> w + v) others w)
       fams 0"

definition node_set_distance :: "hardware_graph \<Rightarrow> int list \<Rightarrow> int list \<Rightarrow> double" where
  "node_set_distance hw ns others =
     fold (\<lambda>n d. fold (\<lambda>m d. min d (case map_of (node_distance hw) (n, m) of
         None \<Rightarrow> 10 ^ 6 | Some v \<Rightarrow> v)) others d) ns (10 ^ 30)"

definition evaluate_nodes ::
  "hardware_graph \<Rightarrow> int list \<Rightarrow> double \<Rightarrow> double \<Rightarrow> thread_demand list \<Rightarrow> thread_demand list \<Rightarrow>
   placed_domain list \<Rightarrow> string list \<Rightarrow> (family_pair, double) omap \<Rightarrow> node_choice" where
  "evaluate_nodes hw ns dem capacity_ratio members all_threads placed fams cross =
     (let count = length (mask_for_nodes hw ns);
          limit = real count * capacity_ratio;
          member_tids = fold (\<lambda>m s. sput (td_tid m) s) members [];
          migrations = fold (\<lambda>t n. if \<not> cpu_in_nodes hw (current_cpu t) ns then n + 1 else n) members 0;
          background = fold (\<lambda>t b.
              if td_tid t \<notin> set member_tids \<and> cpu_in_nodes hw (current_cpu t) ns
              then b + demand t else b) all_threads 0;
          latency = fold (\<lambda>(others, other_nodes) l.
              l + pair_weight fams others cross *
                (let d = node_set_distance hw ns other_nodes in if d = 10 ^ 30 then 0 else d)) placed 0
      in \<lparr>choice_nodes = ns, online_cpu_count = count, capacity_limit = limit,
          capacity_headroom = limit - dem, relation_latency = latency,
          background_demand = background, initial_migrations = migrations\<rparr>)"

section \<open>The choice of nodes\<close>

definition better_choice :: "node_choice \<Rightarrow> node_choice \<Rightarrow> bool" where
  "better_choice current best \<longleftrightarrow>
     choice_nodes best = [] \<or>
     length (choice_nodes current) < length (choice_nodes best) \<or>
     (length (choice_nodes current) = length (choice_nodes best) \<and>
      relation_latency current < relation_latency best) \<or>
     (length (choice_nodes current) = length (choice_nodes best) \<and>
      relation_latency current = relation_latency best \<and>
      background_demand current < background_demand best) \<or>
     (length (choice_nodes current) = length (choice_nodes best) \<and>
      relation_latency current = relation_latency best \<and>
      background_demand current = background_demand best \<and>
      initial_migrations current < initial_migrations best) \<or>
     (length (choice_nodes current) = length (choice_nodes best) \<and>
      relation_latency current = relation_latency best \<and>
      background_demand current = background_demand best \<and>
      initial_migrations current = initial_migrations best \<and>
      choice_nodes current < choice_nodes best)"

definition consider_nodes :: "(int list \<Rightarrow> node_choice) \<Rightarrow> int list \<Rightarrow> node_choice \<Rightarrow> node_choice" where
  "consider_nodes eval candidate best =
     (if candidate = [] then best
      else let current = eval candidate in
        if capacity_headroom current + 1 / 10 ^ 12 < 0 then best
        else if better_choice current best then current else best)"

fun visit :: "(int list \<Rightarrow> node_choice) \<Rightarrow> int list \<Rightarrow> int list \<Rightarrow> node_choice \<Rightarrow> node_choice" where
  "visit eval [] candidate best = consider_nodes eval candidate best"
| "visit eval (n # ns) candidate best =
     visit eval ns candidate (visit eval ns (candidate @ [n]) best)"

definition choose_nodes ::
  "hardware_graph \<Rightarrow> double \<Rightarrow> double \<Rightarrow> thread_demand list \<Rightarrow> thread_demand list \<Rightarrow>
   placed_domain list \<Rightarrow> string list \<Rightarrow> (family_pair, double) omap \<Rightarrow> node_choice" where
  "choose_nodes hw dem capacity_ratio members all_threads placed fams cross =
     (if nodes hw = [] then empty_choice
      else visit
        (\<lambda>ns. evaluate_nodes hw ns dem capacity_ratio members all_threads placed fams cross)
        (nodes hw) [] empty_choice)"

section \<open>Lemmas on masks\<close>

lemma set_intersect_masks [simp]: "set (intersect_masks a b) = set a \<inter> set b"
  by (simp add: intersect_masks_def set_set_intersection)

lemma sorted_intersect_masks: "sorted (intersect_masks a b)"
  by (simp add: intersect_masks_def sorted_set_intersection)

lemma swf_intersect_masks: "distinct a \<Longrightarrow> swf (intersect_masks a b)"
  unfolding intersect_masks_def by (rule swf_set_intersection) (simp add: sorted_distinct_swf)

lemma set_mask_for_nodes: "set (mask_for_nodes hw ns) = (\<Union>n \<in> set ns. set (cpus_in_node hw n))"
  by (simp add: mask_for_nodes_def)

lemma swf_mask_for_nodes [simp]: "swf (mask_for_nodes hw ns)"
  by (simp add: mask_for_nodes_def)

section \<open>The enumeration is a scan\<close>

lemma visit_subseqs:
  "visit eval ns cand best = fold (consider_nodes eval) (map ((@) cand) (subseqs ns)) best"
proof (induction ns arbitrary: cand best)
  case (Cons n ns)
  have "(@) (cand @ [n]) = (\<lambda>xs. cand @ n # xs)" by (simp add: fun_eq_iff)
  then show ?case using Cons by (simp add: Let_def comp_def)
qed simp

definition choice_key :: "node_choice \<Rightarrow> nat \<times> double \<times> double \<times> int \<times> int list" where
  "choice_key c =
     (length (choice_nodes c), relation_latency c, background_demand c, initial_migrations c, choice_nodes c)"

interpretation node_scan: best_scan better_choice "\<lambda>c. choice_nodes c = []" choice_key
  by unfold_locales (auto simp: better_choice_def choice_key_def)

definition feasible :: "(int list \<Rightarrow> node_choice) \<Rightarrow> int list \<Rightarrow> bool" where
  "feasible eval ns \<longleftrightarrow> ns \<noteq> [] \<and> 0 \<le> capacity_headroom (eval ns) + 1 / 10 ^ 12"

lemma fold_consider:
  "fold (consider_nodes eval) cs best = fold node_scan.keep (map eval (filter (feasible eval) cs)) best"
  by (induction cs arbitrary: best)
    (simp_all add: consider_nodes_def feasible_def node_scan.keep_def Let_def)

lemma nodes_empty_choice: "choice_nodes empty_choice = []"
  by (simp add: empty_choice_def)

lemma nodes_evaluate [simp]:
  "choice_nodes (evaluate_nodes hw ns dem ratio members all_threads placed fams cross) = ns"
  by (simp add: evaluate_nodes_def Let_def)

lemma visit_best:
  assumes "\<And>ns. choice_nodes (eval ns) = ns"
  shows "if filter (feasible eval) (subseqs xs) = [] then visit eval xs [] empty_choice = empty_choice
    else visit eval xs [] empty_choice \<in> eval ` set (filter (feasible eval) (subseqs xs)) \<and>
      (\<forall>ns \<in> set (filter (feasible eval) (subseqs xs)).
         choice_key (visit eval xs [] empty_choice) \<le> choice_key (eval ns))"
proof -
  let ?cs = "filter (feasible eval) (subseqs xs)"
  have run: "visit eval xs [] empty_choice = fold node_scan.keep (map eval ?cs) empty_choice"
    using map_idI [of "subseqs xs" "(@) []"] by (simp add: visit_subseqs fold_consider)
  have "\<forall>c \<in> set (map eval ?cs). choice_nodes c \<noteq> []" using assms by (auto simp: feasible_def)
  then show ?thesis
    using node_scan.scan_best [of empty_choice "map eval ?cs"] run by (auto simp: empty_choice_def)
qed

section \<open>The family graph\<close>

lemma map_of_mpush: "map_of (mpush k v m) k' = (if k' = k then Some (mgetd [] m k @ [v]) else map_of m k')"
  by (simp add: mpush_def)

lemma mgetd_mpush [simp]: "mgetd [] (mpush k v m) k' = (if k' = k then mgetd [] m k @ [v] else mgetd [] m k')"
  by (simp add: mgetd_def map_of_mpush)

lemma mwf_mpush [simp]: "mwf m \<Longrightarrow> mwf (mpush k v m)"
  by (simp add: mpush_def)

lemma dom_mpush [simp]: "dom (map_of (mpush k v m)) = insert k (dom (map_of m))"
  by (simp add: mpush_def)

definition incident_to :: "string \<Rightarrow> family_pair \<Rightarrow> bool" where
  "incident_to f p \<longleftrightarrow> fst p = f \<or> snd p = f"

definition proper_pairs :: "(family_pair, double) omap \<Rightarrow> bool" where
  "proper_pairs cross \<longleftrightarrow> (\<forall>p \<in> fst ` set cross. fst p \<noteq> snd p)"

lemma incident_fold:
  assumes "mwf m" "proper_pairs cross"
  shows "mwf (fold (\<lambda>(p, w) m. mpush (snd p) (w, p) (mpush (fst p) (w, p) m)) cross m) \<and>
    mgetd [] (fold (\<lambda>(p, w) m. mpush (snd p) (w, p) (mpush (fst p) (w, p) m)) cross m) f =
      mgetd [] m f @ map (\<lambda>(p, w). (w, p)) (filter (\<lambda>(p, w). incident_to f p) cross)"
  using assms
proof (induction cross arbitrary: m)
  case (Cons e cross)
  obtain p w where e: "e = (p, w)" by fastforce
  have "fst p \<noteq> snd p" "proper_pairs cross" using Cons.prems(2) e by (auto simp: proper_pairs_def)
  then show ?case
    using Cons.IH [of "mpush (snd p) (w, p) (mpush (fst p) (w, p) m)"] Cons.prems(1) e
    by (auto simp: incident_to_def)
qed simp

lemma mgetd_incident_edges:
  "proper_pairs cross \<Longrightarrow> mgetd [] (incident_edges cross) f =
     map (\<lambda>(p, w). (w, p)) (filter (\<lambda>(p, w). incident_to f p) cross)"
  using incident_fold [of "[]" cross f] by (simp add: incident_edges_def)

lemma mwf_incident_edges: "proper_pairs cross \<Longrightarrow> mwf (incident_edges cross)"
  using incident_fold [of "[]" cross] by (simp add: incident_edges_def)

lemma fold_selected:
  "set (fold (\<lambda>(name, cs) selected. fold (\<lambda>c s. sput (snd c) s) (g cs) selected) inc sel) =
     set sel \<union> (\<Union>(name, cs) \<in> set inc. snd ` set (g cs))"
proof (induction inc arbitrary: sel)
  case (Cons e inc)
  have "set (fold (\<lambda>c s. sput (snd c) s) cs sel) = set sel \<union> snd ` set cs" for cs :: "('z \<times> 'a) list" and sel
    by (induction cs arbitrary: sel) auto
  then show ?case using Cons by (auto simp: case_prod_beta)
qed simp

lemma selected_family_edges:
  assumes "mwf cross" "proper_pairs cross"
  shows "p \<in> set (select_family_edges cross k) \<longleftrightarrow>
    (\<exists>f. p \<in> snd ` set (take k (sort_key (\<lambda>c. (- fst c, snd c)) (mgetd [] (incident_edges cross) f))))"
proof -
  let ?g = "\<lambda>cs. take k (sort_key (\<lambda>c. (- fst c, snd c)) cs)"
  have "set (select_family_edges cross k) = (\<Union>(name, cs) \<in> set (incident_edges cross). snd ` set (?g cs))"
    using fold_selected [of ?g "incident_edges cross" "[]"] by (simp add: select_family_edges_def)
  moreover have "(f, cs) \<in> set (incident_edges cross) \<longleftrightarrow> map_of (incident_edges cross) f = Some cs" for f cs
    using mwf_entry mwf_incident_edges assms(2) by metis
  ultimately have sel: "p \<in> set (select_family_edges cross k) \<longleftrightarrow>
      (\<exists>f cs. map_of (incident_edges cross) f = Some cs \<and> p \<in> snd ` set (?g cs))"
    by (simp only: mem_UN_pairs)
  show ?thesis
  proof
    assume "p \<in> set (select_family_edges cross k)"
    then obtain f cs where "map_of (incident_edges cross) f = Some cs" "p \<in> snd ` set (?g cs)" using sel by blast
    then show "\<exists>f. p \<in> snd ` set (?g (mgetd [] (incident_edges cross) f))"
      by (intro exI [of _ f]) (simp add: mgetd_def)
  next
    assume "\<exists>f. p \<in> snd ` set (?g (mgetd [] (incident_edges cross) f))"
    then obtain f where f: "p \<in> snd ` set (?g (mgetd [] (incident_edges cross) f))" by blast
    then obtain cs where "map_of (incident_edges cross) f = Some cs"
      by (cases "map_of (incident_edges cross) f") (auto simp: mgetd_def)
    with f have "map_of (incident_edges cross) f = Some cs \<and> p \<in> snd ` set (?g cs)" by (simp add: mgetd_def)
    then show "p \<in> set (select_family_edges cross k)" using sel by blast
  qed
qed

text \<open>The edges of a family that come before an edge: heavier, or as heavy and of a smaller pair.\<close>

definition stronger_edges :: "(family_pair, double) omap \<Rightarrow> string \<Rightarrow> family_pair \<Rightarrow> double \<Rightarrow> family_pair set" where
  "stronger_edges cross f p w =
     {q. incident_to f q \<and> (\<exists>v. map_of cross q = Some v \<and> (w < v \<or> v = w \<and> q < p))}"

lemma rank_incident:
  assumes "mwf cross" "proper_pairs cross"
  shows "p \<in> snd ` set (take k (sort_key (\<lambda>c. (- fst c, snd c)) (mgetd [] (incident_edges cross) f))) \<longleftrightarrow>
    incident_to f p \<and> (\<exists>w. map_of cross p = Some w \<and> card (stronger_edges cross f p w) < k)"
proof -
  let ?key = "\<lambda>c :: double \<times> family_pair. (- fst c, snd c)"
  let ?cs = "map (\<lambda>(p, w). (w, p)) (filter (\<lambda>(p, w). incident_to f p) cross)"
  have dist: "distinct (map ?key ?cs)"
  proof -
    have "distinct (map fst (filter (\<lambda>(p, w). incident_to f p) cross))"
      using mwf_distinct [OF assms(1)] by (simp add: distinct_map_filter)
    moreover have eq: "map snd (map ?key ?cs) = map fst (filter (\<lambda>(p, w). incident_to f p) cross)"
      by (auto simp: case_prod_beta)
    ultimately have "distinct (map snd (map ?key ?cs))" by (simp only: eq)
    then show ?thesis by (blast dest: distinct_map [THEN iffD1])
  qed
  have entry: "(w, q) \<in> set ?cs \<longleftrightarrow> incident_to f q \<and> map_of cross q = Some w" for w q
    using mwf_entry [OF assms(1), of q w] by auto
  have strong: "card {y \<in> set ?cs. ?key y < ?key (w, q)} = card (stronger_edges cross f q w)" for w q
  proof (rule bij_betw_same_card [of snd], unfold bij_betw_def, intro conjI)
    show "inj_on snd {y \<in> set ?cs. ?key y < ?key (w, q)}" by (auto simp: inj_on_def entry simp del: set_map)
    show "snd ` {y \<in> set ?cs. ?key y < ?key (w, q)} = stronger_edges cross f q w"
      by (auto simp: stronger_edges_def entry image_iff simp del: set_map)
  qed
  have "p \<in> snd ` set (take k (sort_key ?key ?cs)) \<longleftrightarrow>
      (\<exists>w. (w, p) \<in> set ?cs \<and> card {y \<in> set ?cs. ?key y < ?key (w, p)} < k)"
    unfolding image_iff Bex_def in_take_sort_key [OF dist] by force
  then show ?thesis using entry strong mgetd_incident_edges [OF assms(2)] by auto
qed

section \<open>Properties\<close>

text \<open>
  C10. The node planner finds the optimum of the documented rule. Among the non-empty sets of
  nodes (strictly increasing lists over the graph's nodes) whose capacity covers the demand,
  \<open>choose_nodes\<close> returns the evaluation of the one that is least by number of nodes, then
  relationship latency, then unmanaged demand, then initial migrations, then node numbers; it
  returns no nodes only when no set has the capacity.
\<close>

theorem choose_nodes_optimal:
  fixes hw dem ratio members all_threads placed fams cross
  defines "eval \<equiv> \<lambda>ns. evaluate_nodes hw ns dem ratio members all_threads placed fams cross"
    and "best \<equiv> choose_nodes hw dem ratio members all_threads placed fams cross"
  shows "(choice_nodes best = [] \<longrightarrow>
      (\<forall>ns. swf ns \<and> set ns \<subseteq> set (nodes hw) \<longrightarrow> \<not> feasible eval ns)) \<and>
    (choice_nodes best \<noteq> [] \<longrightarrow>
      swf (choice_nodes best) \<and> set (choice_nodes best) \<subseteq> set (nodes hw) \<and>
      best = eval (choice_nodes best) \<and> feasible eval (choice_nodes best) \<and>
      (\<forall>ns. swf ns \<and> set ns \<subseteq> set (nodes hw) \<and> feasible eval ns \<longrightarrow>
         choice_key best \<le> choice_key (eval ns)))"
proof -
  let ?cs = "filter (feasible eval) (subseqs (nodes hw))"
  have id: "choice_nodes (eval ns) = ns" for ns by (simp add: eval_def)
  have cand: "ns \<in> set ?cs \<longleftrightarrow> swf ns \<and> set ns \<subseteq> set (nodes hw) \<and> feasible eval ns" for ns
    using swf_subseqs [OF swf_nodes] by (auto simp del: set_nodes)
  have run: "best = visit eval (nodes hw) [] empty_choice"
    by (simp add: best_def choose_nodes_def eval_def consider_nodes_def)
  show ?thesis
  proof (cases "?cs = []")
    case True
    then have "choice_nodes best = []"
      using visit_best [OF id, of "nodes hw"] run by (simp add: nodes_empty_choice)
    moreover have "\<not> feasible eval ns" if "swf ns \<and> set ns \<subseteq> set (nodes hw)" for ns
      using that cand [of ns] True by auto
    ultimately show ?thesis by blast
  next
    case False
    then have "best \<in> eval ` set ?cs" and min: "\<forall>ns \<in> set ?cs. choice_key best \<le> choice_key (eval ns)"
      using visit_best [OF id, of "nodes hw"] run by (simp_all del: set_nodes)
    then have "choice_nodes best \<in> set ?cs \<and> best = eval (choice_nodes best)" using id by force
    moreover from this have "choice_nodes best \<noteq> []" using cand by (auto simp: feasible_def)
    ultimately show ?thesis using min cand by blast
  qed
qed

definition sample_thread :: "int \<Rightarrow> string \<Rightarrow> double \<Rightarrow> int \<Rightarrow> thread_demand" where
  "sample_thread t g d c =
     \<lparr>td_identity = Identity 1 t 7, group = g, demand = d, confidence = 1, current_cpu = c\<rparr>"

lemma sample_choice:
  "choice_nodes (choose_nodes sample_hardware 1 1 [sample_thread 10 ''a'' 1 2]
     [sample_thread 10 ''a'' 1 2, sample_thread 11 ''b'' (1 / 2) 0] [] [''a''] []) = [1]"
  by (simp add: choose_nodes_def sample_hardware_def nodes_def evaluate_nodes_def mask_for_nodes_def
      cpus_in_node_def sort_unique_def consider_nodes_def better_choice_def empty_choice_def
      cpu_in_nodes_def sample_thread_def Let_def)

theorem choose_nodes_optimal_witness:
  "choice_key (choose_nodes sample_hardware 1 1 [sample_thread 10 ''a'' 1 2]
       [sample_thread 10 ''a'' 1 2, sample_thread 11 ''b'' (1 / 2) 0] [] [''a''] []) \<le>
   choice_key (evaluate_nodes sample_hardware [0] 1 1 [sample_thread 10 ''a'' 1 2]
       [sample_thread 10 ''a'' 1 2, sample_thread 11 ''b'' (1 / 2) 0] [] [''a''] [])"
proof -
  let ?eval = "\<lambda>ns. evaluate_nodes sample_hardware ns 1 1 [sample_thread 10 ''a'' 1 2]
       [sample_thread 10 ''a'' 1 2, sample_thread 11 ''b'' (1 / 2) 0] [] [''a''] []"
  have "feasible ?eval [0]"
    by (simp add: feasible_def evaluate_nodes_def mask_for_nodes_def cpus_in_node_def sort_unique_def
        sample_hardware_def Let_def)
  moreover have "swf [0::int]" "set [0] \<subseteq> set (nodes sample_hardware)"
    by (simp_all add: swf_def sample_hardware_def)
  ultimately show ?thesis
    using choose_nodes_optimal [of sample_hardware 1 1 "[sample_thread 10 ''a'' 1 2]"
        "[sample_thread 10 ''a'' 1 2, sample_thread 11 ''b'' (1 / 2) 0]" "[]" "[''a'']" "[]"] sample_choice
    by auto
qed

text \<open>
  The bounded family graph keeps exactly the edges that are among the \<open>k\<close> strongest of
  one of their two families, by weight and then by name.
\<close>

theorem select_family_edges_rank:
  assumes "mwf cross" "proper_pairs cross"
  shows "p \<in> set (select_family_edges cross k) \<longleftrightarrow>
    (\<exists>w. map_of cross p = Some w \<and>
      (card (stronger_edges cross (fst p) p w) < k \<or> card (stronger_edges cross (snd p) p w) < k))"
  unfolding selected_family_edges [OF assms] rank_incident [OF assms] by (auto simp: incident_to_def)

theorem select_family_edges_rank_witness:
  "((''a'', ''b'') \<in> set (select_family_edges [((''a'', ''b''), 3), ((''b'', ''c''), 5)] 1)) =
    (\<exists>w. map_of [((''a'', ''b''), 3), ((''b'', ''c''), 5)] (''a'', ''b'') = Some w \<and>
      (card (stronger_edges [((''a'', ''b''), 3), ((''b'', ''c''), 5)] ''a'' (''a'', ''b'') w) < 1 \<or>
       card (stronger_edges [((''a'', ''b''), 3), ((''b'', ''c''), 5)] ''b'' (''a'', ''b'') w) < 1))"
  using select_family_edges_rank [of "[((''a'', ''b''), 3), ((''b'', ''c''), 5)]" "(''a'', ''b'')" 1]
  by (simp add: mwf_def proper_pairs_def)

end
