(* ===== verification/Union_Find.thy ===== *)
theory Union_Find
  imports Node_Planner
begin

text \<open>
  The family components of \<^verbatim>\<open>NumaDomainSolver::propose\<close>: a parent map over the anchor families, a
  recursive \<^verbatim>\<open>root\<close> with path compression, and a merge of the two roots for every confirmed
  pair, the smaller name becoming the root.

  The recursion runs on fuel; the length of the parent map plus one is enough, because a
  parent is never larger than its child.
\<close>

type_synonym parents = "(string, string) omap"

section \<open>The code\<close>

fun find_root :: "nat \<Rightarrow> string \<Rightarrow> parents \<Rightarrow> string \<times> parents" where
  "find_root 0 name p = (name, p)"
| "find_root (Suc n) name p =
     (if mgetd [] p name = name then (name, p)
      else let (r, p') = find_root n (mgetd [] p name) p in (r, mput name r p'))"

definition root :: "string \<Rightarrow> parents \<Rightarrow> string \<times> parents" where
  "root name p = find_root (length p + 1) name p"

definition merge_pair :: "family_pair \<Rightarrow> parents \<Rightarrow> parents" where
  "merge_pair pair p =
     (let (a, p1) = root (fst pair) p; (b, p2) = root (snd pair) p1
      in if a \<noteq> b then mput (max a b) (min a b) p2 else p2)"

definition init_parents :: "string oset \<Rightarrow> parents" where
  "init_parents anchors = fold (\<lambda>n p. mput n n p) anchors []"

definition family_parents :: "string oset \<Rightarrow> family_pair list \<Rightarrow> parents" where
  "family_parents anchors seeds = fold merge_pair seeds (init_parents anchors)"

definition add_component :: "string \<Rightarrow> parents \<times> (string, string list) omap \<Rightarrow> parents \<times> (string, string list) omap" where
  "add_component name st =
     (case st of (p, m) \<Rightarrow> let (r, p') = root name p in (p', mpush r name m))"

definition family_components :: "string oset \<Rightarrow> family_pair list \<Rightarrow> (string, string list) omap" where
  "family_components anchors seeds =
     snd (fold add_component anchors (family_parents anchors seeds, []))"

section \<open>The contract of a partition\<close>

text \<open>
  A partition is known by a function that gives the representative of each element. Finding
  answers it and changes nothing of it; joining two elements merges their classes. The
  lemma of the contract: joining a list of pairs from the discrete partition gives the
  connected components of the pairs.
\<close>

definition linked :: "('a \<times> 'a) list \<Rightarrow> ('a \<times> 'a) set" where
  "linked seeds = (set seeds \<union> (set seeds)\<inverse>)\<^sup>*"

lemma linked_trans: "(x, y) \<in> linked s \<Longrightarrow> (y, z) \<in> linked s \<Longrightarrow> (x, z) \<in> linked s"
  by (auto simp: linked_def)

lemma linked_sym: "(x, y) \<in> linked s \<Longrightarrow> (y, x) \<in> linked s"
  by (metis converse_Un converse_converse converse_iff linked_def rtrancl_converse sup_commute)

lemma linked_mono: "(x, y) \<in> linked s \<Longrightarrow> (x, y) \<in> linked (s @ t)"
  unfolding linked_def by (erule rtrancl_mono [THEN subsetD, rotated]) auto

lemma linked_seed: "(u, v) \<in> set s \<Longrightarrow> (u, v) \<in> linked s"
  by (auto simp: linked_def)

locale partition_store =
  fixes keys :: "'p \<Rightarrow> 'a set"
    and classes :: "'p \<Rightarrow> ('a \<Rightarrow> 'a) \<Rightarrow> bool"
    and find :: "'a \<Rightarrow> 'p \<Rightarrow> 'a \<times> 'p"
    and join :: "'a \<times> 'a \<Rightarrow> 'p \<Rightarrow> 'p"
  assumes find_law: "classes p f \<Longrightarrow> x \<in> keys p \<Longrightarrow>
      fst (find x p) = f x \<and> classes (snd (find x p)) f \<and> keys (snd (find x p)) = keys p"
    and join_law: "classes p f \<Longrightarrow> u \<in> keys p \<Longrightarrow> v \<in> keys p \<Longrightarrow>
      \<exists>g. classes (join (u, v) p) g \<and> keys (join (u, v) p) = keys p \<and>
        (\<forall>x \<in> keys p. \<forall>y \<in> keys p.
           g x = g y \<longleftrightarrow> f x = f y \<or> f x = f u \<and> f y = f v \<or> f x = f v \<and> f y = f u)"
begin

lemma join_fold:
  assumes "classes p f" "set pairs \<subseteq> keys p \<times> keys p" "set joined \<subseteq> keys p \<times> keys p"
    "\<forall>x \<in> keys p. \<forall>y \<in> keys p. f x = f y \<longleftrightarrow> (x, y) \<in> linked joined"
  shows "\<exists>g. classes (fold join pairs p) g \<and> keys (fold join pairs p) = keys p \<and>
    (\<forall>x \<in> keys p. \<forall>y \<in> keys p. g x = g y \<longleftrightarrow> (x, y) \<in> linked (joined @ pairs))"
  using assms
proof (induction pairs arbitrary: p f joined)
  case (Cons uv pairs)
  obtain u v where uv: "uv = (u, v)" "u \<in> keys p" "v \<in> keys p" using Cons.prems(2) by (cases uv) auto
  obtain g where g: "classes (join uv p) g" "keys (join uv p) = keys p"
    "\<forall>x \<in> keys p. \<forall>y \<in> keys p.
       g x = g y \<longleftrightarrow> f x = f y \<or> f x = f u \<and> f y = f v \<or> f x = f v \<and> f y = f u"
    using join_law [OF Cons.prems(1) uv(2,3)] uv(1) by blast
  have "g x = g y \<longleftrightarrow> (x, y) \<in> linked (joined @ [uv])" if xy: "x \<in> keys p" "y \<in> keys p" for x y
  proof
    have uvl: "(u, v) \<in> linked (joined @ [uv])" using uv(1) linked_seed [of u v "joined @ [uv]"] by simp
    have old: "(a, b) \<in> linked (joined @ [uv])" if "f a = f b" "a \<in> keys p" "b \<in> keys p" for a b
      using that Cons.prems(4) linked_mono by metis
    assume "g x = g y"
    then show "(x, y) \<in> linked (joined @ [uv])"
      using g(3) xy uv(2,3) old uvl linked_sym [OF uvl] linked_trans by metis
  next
    have edge: "b \<in> keys p \<and> g a = g b"
      if "(a, b) \<in> set (joined @ [uv]) \<union> (set (joined @ [uv]))\<inverse>" "a \<in> keys p" for a b
    proof -
      note ab = that(1)
      have b: "b \<in> keys p" using ab Cons.prems(3) uv by auto
      consider "(a, b) \<in> set joined" | "(b, a) \<in> set joined" | "(a, b) = (u, v)" | "(a, b) = (v, u)"
        using ab unfolding uv(1) by auto
      then show ?thesis
      proof cases
        case 1
        then show ?thesis using that(2) b g(3) Cons.prems(4) linked_seed by metis
      next
        case 2
        then show ?thesis using that(2) b g(3) Cons.prems(4) linked_seed linked_sym by metis
      qed (use b g(3) uv(2,3) in auto)
    qed
    assume "(x, y) \<in> linked (joined @ [uv])"
    then have "(x, y) \<in> (set (joined @ [uv]) \<union> (set (joined @ [uv]))\<inverse>)\<^sup>*" by (simp only: linked_def)
    then have "y \<in> keys p \<and> g x = g y"
      by (induction rule: rtrancl_induct) (use xy(1) edge in \<open>metis\<close>)+
    then show "g x = g y" by blast
  qed
  then show ?case
    using Cons.IH [of "join uv p" g "joined @ [uv]"] g(1,2) Cons.prems(2,3) by auto
qed auto

end

section \<open>The parent map is a partition\<close>

definition parents_of :: "parents \<Rightarrow> (string \<Rightarrow> string) \<Rightarrow> bool" where
  "parents_of p f \<longleftrightarrow> mwf p \<and>
     (\<forall>n m. map_of p n = Some m \<longrightarrow> m \<le> n \<and> m \<in> dom (map_of p) \<and> f m = f n \<and> (m = n \<longrightarrow> f n = n))"

lemma parents_of_step:
  "parents_of p f \<Longrightarrow> map_of p n = Some m \<Longrightarrow>
   m \<le> n \<and> m \<in> dom (map_of p) \<and> f m = f n \<and> (m = n \<longrightarrow> f n = n)"
  by (simp add: parents_of_def)

lemma parents_of_compress:
  assumes "parents_of p f" "r \<in> dom (map_of p)" "f r = f n" "r \<le> n" "r \<noteq> n"
  shows "parents_of (mput n r p) f"
  unfolding parents_of_def
proof (intro conjI allI impI)
  show "mwf (mput n r p)" using assms(1) by (simp add: parents_of_def)
next
  fix x y
  assume xy: "map_of (mput n r p) x = Some y"
  have old: "y \<le> x" "y \<in> dom (map_of p)" "f y = f x" "y = x \<longrightarrow> f x = x" if "x \<noteq> n"
    using that xy parents_of_step [OF assms(1), of x y] by auto
  show "y \<le> x" using xy old assms(4) by (cases "x = n") auto
  show "y \<in> dom (map_of (mput n r p))" using xy old assms(2) by (cases "x = n") auto
  show "f y = f x" using xy old assms(3) by (cases "x = n") auto
  show "f x = x" if "y = x" using xy old that assms(5) by (cases "x = n") auto
qed

lemma find_root_correct:
  assumes "parents_of p f" "name \<in> dom (map_of p)" "card {m \<in> dom (map_of p). m < name} < n"
  shows "fst (find_root n name p) = f name \<and> f name \<le> name \<and> map_of p (f name) = Some (f name) \<and>
    parents_of (snd (find_root n name p)) f \<and>
    dom (map_of (snd (find_root n name p))) = dom (map_of p) \<and>
    map_of (snd (find_root n name p)) (f name) = Some (f name)"
  using assms
proof (induction n arbitrary: name)
  case (Suc n)
  obtain m where m: "map_of p name = Some m" using Suc.prems(2) by blast
  note step = parents_of_step [OF Suc.prems(1) m]
  show ?case
  proof (cases "m = name")
    case True
    then show ?thesis using m step Suc.prems(1) by (simp add: mgetd_def)
  next
    case False
    then have less: "m < name" using step by (simp add: order.strict_iff_order)
    have "{k \<in> dom (map_of p). k < m} \<subset> {k \<in> dom (map_of p). k < name}"
      using less step by (auto intro: less_trans)
    then have "card {k \<in> dom (map_of p). k < m} < card {k \<in> dom (map_of p). k < name}"
      by (rule psubset_card_mono [rotated]) (simp add: finite_dom_map_of)
    then have ih: "fst (find_root n m p) = f m \<and> f m \<le> m \<and> map_of p (f m) = Some (f m) \<and>
        parents_of (snd (find_root n m p)) f \<and> dom (map_of (snd (find_root n m p))) = dom (map_of p) \<and>
        map_of (snd (find_root n m p)) (f m) = Some (f m)"
      using Suc.IH [of m] Suc.prems(1,3) step by simp
    let ?p = "snd (find_root n m p)"
    have run: "find_root (Suc n) name p = (f m, mput name (f m) ?p)"
      using m False ih by (simp add: mgetd_def case_prod_beta)
    have fm: "f m = f name" "f (f m) = f m" using step ih parents_of_step [OF Suc.prems(1), of "f m" "f m"] by auto
    have lt: "f m < name" using ih less by (meson le_less_trans)
    have "parents_of (mput name (f m) ?p) f"
      by (rule parents_of_compress) (use ih fm lt in \<open>auto intro: less_imp_le\<close>)
    moreover have "dom (map_of (mput name (f m) ?p)) = dom (map_of p)"
      using ih Suc.prems(2) by auto
    moreover have "map_of (mput name (f m) ?p) (f name) = Some (f name)" using ih fm lt by auto
    ultimately show ?thesis
      unfolding run fst_conv snd_conv using ih fm(1) less_imp_le [OF lt] by metis
  qed
qed simp

lemma root_correct:
  assumes "parents_of p f" "name \<in> dom (map_of p)"
  shows "fst (root name p) = f name \<and> parents_of (snd (root name p)) f \<and>
    dom (map_of (snd (root name p))) = dom (map_of p) \<and>
    map_of (snd (root name p)) (f name) = Some (f name) \<and> map_of p (f name) = Some (f name)"
proof -
  have "{m \<in> dom (map_of p). m < name} \<subset> dom (map_of p)" using assms(2) by auto
  then have "card {m \<in> dom (map_of p). m < name} < card (dom (map_of p))"
    by (rule psubset_card_mono [rotated]) (simp add: finite_dom_map_of)
  also have "card (dom (map_of p)) \<le> length p"
    by (metis card_length dom_map_of_conv_image_fst length_map list.set_map)
  finally show ?thesis using find_root_correct [OF assms, of "length p + 1"] by (simp add: root_def)
qed

lemma parents_of_relink:
  assumes "parents_of p f" "lo \<in> dom (map_of p)" "f hi = hi" "f lo = lo" "lo \<le> hi" "lo \<noteq> hi"
  shows "parents_of (mput hi lo p) (\<lambda>n. if f n = hi then lo else f n)"
  unfolding parents_of_def
proof (intro conjI allI impI)
  show "mwf (mput hi lo p)" using assms(1) by (simp add: parents_of_def)
next
  fix n m
  assume nm: "map_of (mput hi lo p) n = Some m"
  have old: "m \<le> n" "m \<in> dom (map_of p)" "f m = f n" "m = n \<longrightarrow> f n = n" if "n \<noteq> hi"
    using that nm parents_of_step [OF assms(1), of n m] by auto
  show "m \<le> n" using nm old assms(5) by (cases "n = hi") auto
  show "m \<in> dom (map_of (mput hi lo p))" using nm old assms(2) by (cases "n = hi") auto
  show "(if f m = hi then lo else f m) = (if f n = hi then lo else f n)"
    using nm old assms(3,4) by (cases "n = hi") auto
  show "(if f n = hi then lo else f n) = n" if "m = n"
    using nm old that assms(6) by (cases "n = hi") auto
qed

lemma merge_pair_correct:
  assumes "parents_of p f" "u \<in> dom (map_of p)" "v \<in> dom (map_of p)"
  shows "\<exists>g. parents_of (merge_pair (u, v) p) g \<and> dom (map_of (merge_pair (u, v) p)) = dom (map_of p) \<and>
    (\<forall>x \<in> dom (map_of p). \<forall>y \<in> dom (map_of p).
       g x = g y \<longleftrightarrow> f x = f y \<or> f x = f u \<and> f y = f v \<or> f x = f v \<and> f y = f u)"
proof -
  define p1 where "p1 = snd (root u p)"
  define p2 where "p2 = snd (root v p1)"
  have 1: "fst (root u p) = f u" "parents_of p1 f" "dom (map_of p1) = dom (map_of p)"
    "map_of p1 (f u) = Some (f u)"
    using root_correct [OF assms(1,2)] by (auto simp: p1_def)
  have 2: "fst (root v p1) = f v" "parents_of p2 f" "dom (map_of p2) = dom (map_of p)"
    "map_of p2 (f v) = Some (f v)"
    using root_correct [OF 1(2), of v] assms(3) 1(3) by (auto simp: p2_def)
  have fu: "f u \<in> dom (map_of p2)" "f (f u) = f u" "f (f v) = f v"
    using 1 2 parents_of_step by (metis domI)+
  have run: "merge_pair (u, v) p = (if f u \<noteq> f v then mput (max (f u) (f v)) (min (f u) (f v)) p2 else p2)"
    using 1(1) 2(1) by (simp add: merge_pair_def case_prod_beta p1_def p2_def)
  define g where "g n = (if f n = max (f u) (f v) then min (f u) (f v) else f n)" for n
  have "parents_of (merge_pair (u, v) p) g"
  proof (cases "f u = f v")
    case True
    then have "g = f" by (auto simp: g_def fun_eq_iff)
    then show ?thesis using run True 2(2) by simp
  next
    case False
    have "min (f u) (f v) \<in> dom (map_of p2)" "f (max (f u) (f v)) = max (f u) (f v)"
      "f (min (f u) (f v)) = min (f u) (f v)" "min (f u) (f v) \<le> max (f u) (f v)"
      "min (f u) (f v) \<noteq> max (f u) (f v)"
      using fu 2(4) False by (auto simp: min_def max_def)
    from parents_of_relink [OF 2(2) this] show ?thesis using run False unfolding g_def by simp
  qed
  moreover have "dom (map_of (merge_pair (u, v) p)) = dom (map_of p)"
    using run 2(3,4) fu(1) by (auto simp: max_def)
  moreover have "g x = g y \<longleftrightarrow> f x = f y \<or> f x = f u \<and> f y = f v \<or> f x = f v \<and> f y = f u" for x y
    by (auto simp: g_def max_def min_def)
  ultimately show ?thesis by blast
qed

interpretation family_store: partition_store "\<lambda>p. dom (map_of p)" parents_of root merge_pair
  by unfold_locales (use root_correct merge_pair_correct in blast)+

section \<open>The components\<close>

lemma init_parents_correct:
  "parents_of (init_parents names) (\<lambda>n. n) \<and> dom (map_of (init_parents names)) = set names"
proof -
  have "mwf p \<Longrightarrow> mwf (fold (\<lambda>n p. mput n n p) names p) \<and>
    map_of (fold (\<lambda>n p. mput n n p) names p) =
      (\<lambda>n. if n \<in> set names then Some n else map_of p n)" for p
    by (induction names arbitrary: p) (auto simp: fun_eq_iff)
  from this [of "[]"] show ?thesis by (auto simp: init_parents_def parents_of_def split: if_splits)
qed

lemma family_parents_correct:
  assumes "set seeds \<subseteq> set names \<times> set names"
  obtains f where "parents_of (family_parents names seeds) f"
    "dom (map_of (family_parents names seeds)) = set names"
    "\<And>x y. x \<in> set names \<Longrightarrow> y \<in> set names \<Longrightarrow> f x = f y \<longleftrightarrow> (x, y) \<in> linked seeds"
proof -
  note start = init_parents_correct [of names]
  have "\<forall>x \<in> dom (map_of (init_parents names)). \<forall>y \<in> dom (map_of (init_parents names)).
      x = y \<longleftrightarrow> (x, y) \<in> linked []" by (simp add: linked_def)
  then obtain g where "parents_of (family_parents names seeds) g"
    "dom (map_of (family_parents names seeds)) = set names"
    "\<forall>x \<in> set names. \<forall>y \<in> set names. g x = g y \<longleftrightarrow> (x, y) \<in> linked ([] @ seeds)"
    using family_store.join_fold [of "init_parents names" "\<lambda>n. n" seeds "[]"] start assms
    unfolding family_parents_def by auto
  then show thesis using that by simp
qed

lemma fold_add_component:
  assumes "parents_of p f" "set names \<subseteq> dom (map_of p)" "mwf m"
  shows "mwf (snd (fold add_component names (p, m))) \<and>
    mgetd [] (snd (fold add_component names (p, m))) r = mgetd [] m r @ filter (\<lambda>n. f n = r) names \<and>
    dom (map_of (snd (fold add_component names (p, m)))) = dom (map_of m) \<union> f ` set names"
  using assms
proof (induction names arbitrary: p m)
  case (Cons n names)
  have rt: "fst (root n p) = f n" "parents_of (snd (root n p)) f" "dom (map_of (snd (root n p))) = dom (map_of p)"
    using root_correct [OF Cons.prems(1), of n] Cons.prems(2) by auto
  have "add_component n (p, m) = (snd (root n p), mpush (f n) n m)"
    using rt(1) by (simp add: add_component_def case_prod_beta)
  then show ?case
    using Cons.IH [OF rt(2), of "mpush (f n) n m"] Cons.prems rt(3) by auto
qed simp

lemma family_components_classes:
  assumes "parents_of (family_parents names seeds) f" "dom (map_of (family_parents names seeds)) = set names"
  shows "mwf (family_components names seeds)"
    "map_of (family_components names seeds) r =
       (if r \<in> f ` set names then Some (filter (\<lambda>n. f n = r) names) else None)"
proof -
  note facts = fold_add_component [OF assms(1), of names "[]"]
  show "mwf (family_components names seeds)" using facts assms(2) by (simp add: family_components_def)
  show "map_of (family_components names seeds) r =
       (if r \<in> f ` set names then Some (filter (\<lambda>n. f n = r) names) else None)"
    using facts [of r] assms(2) by (auto simp: family_components_def mgetd_def split: option.splits)
qed

section \<open>Property\<close>

text \<open>
  C11. The components the solver plans domains for are the connected components of the
  confirmed family pairs: every anchor family is in exactly one component, two anchors are in
  the same one exactly when a chain of confirmed pairs links them, and the names of a
  component are in increasing order.
\<close>

theorem family_components_connected:
  assumes "swf anchors" "set seeds \<subseteq> set anchors \<times> set anchors"
    and "x \<in> set anchors" "y \<in> set anchors"
  shows "(\<exists>!c. c \<in> set (family_components anchors seeds) \<and> x \<in> set (snd c)) \<and>
    ((\<exists>c \<in> set (family_components anchors seeds). x \<in> set (snd c) \<and> y \<in> set (snd c)) \<longleftrightarrow>
      (x, y) \<in> linked seeds) \<and>
    (\<forall>c \<in> set (family_components anchors seeds). swf (snd c))"
proof -
  obtain f where f: "parents_of (family_parents anchors seeds) f"
    "dom (map_of (family_parents anchors seeds)) = set anchors"
    "\<And>x y. x \<in> set anchors \<Longrightarrow> y \<in> set anchors \<Longrightarrow> f x = f y \<longleftrightarrow> (x, y) \<in> linked seeds"
    using family_parents_correct [OF assms(2)] by metis
  have entry: "c \<in> set (family_components anchors seeds) \<longleftrightarrow>
      fst c \<in> f ` set anchors \<and> snd c = filter (\<lambda>n. f n = fst c) anchors" for c
    using mwf_entry [OF family_components_classes(1) [OF f(1,2)], of "fst c" "snd c"]
      family_components_classes(2) [OF f(1,2), of "fst c"] by auto
  have "\<exists>!c. c \<in> set (family_components anchors seeds) \<and> x \<in> set (snd c)"
    by (rule ex1I [of _ "(f x, filter (\<lambda>n. f n = f x) anchors)"]) (use entry assms(3) in \<open>auto simp: prod_eq_iff\<close>)
  moreover have "(\<exists>c \<in> set (family_components anchors seeds). x \<in> set (snd c) \<and> y \<in> set (snd c)) \<longleftrightarrow> f x = f y"
  proof
    assume "\<exists>c \<in> set (family_components anchors seeds). x \<in> set (snd c) \<and> y \<in> set (snd c)"
    then show "f x = f y" using entry by auto
  next
    assume "f x = f y"
    then show "\<exists>c \<in> set (family_components anchors seeds). x \<in> set (snd c) \<and> y \<in> set (snd c)"
      using entry assms(3,4) by (intro bexI [of _ "(f x, filter (\<lambda>n. f n = f x) anchors)"]) auto
  qed
  moreover have "swf (snd c)" if "c \<in> set (family_components anchors seeds)" for c
    using that entry assms(1) by (simp add: swf_def sorted_wrt_filter)
  ultimately show ?thesis using f(3) assms(3,4) by blast
qed

theorem family_components_connected_witness:
  "(\<exists>c \<in> set (family_components [''a'', ''b'', ''c'', ''d''] [(''b'', ''c''), (''a'', ''c'')]).
     ''a'' \<in> set (snd c) \<and> ''b'' \<in> set (snd c)) =
   ((''a'', ''b'') \<in> linked [(''b'', ''c''), (''a'', ''c'')])"
  using family_components_connected
    [of "[''a'', ''b'', ''c'', ''d'']" "[(''b'', ''c''), (''a'', ''c'')]" "''a''" "''b''"]
  by (simp add: swf_def)

end
