(* ===== verification/Domain_Solver.thy ===== *)
theory Domain_Solver
  imports Union_Find
begin

text \<open>
  \<^verbatim>\<open>NumaDomainSolver\<close> of \<^verbatim>\<open>src/domain_solver.cpp\<close>: the state of the solver, \<^verbatim>\<open>propose\<close> as a sequence
  of stages in the order of the code - aggregation, family metrics, pair confirmation, grace,
  anchors, one plan per component, evidence refresh, dwell, mask rebuild, plan confirmation and
  actions - and \<^verbatim>\<open>commit\<close>, \<^verbatim>\<open>discard\<close>, \<^verbatim>\<open>reset\<close> and \<^verbatim>\<open>remove_thread\<close>.

  Reading \<^verbatim>\<open>m[k]\<close> of a map of counters or times is \<open>mgetd\<close>; the default entry the C++ operator
  inserts is not recorded, because these maps are only read by key or reset to the default.
\<close>

section \<open>Options, proposals and state\<close>

record numa_domain_options =
  family_minimum_demand :: double
  family_minimum_internal_relation :: double
  family_minimum_self_containment :: double
  family_minimum_relative_internal :: double
  domain_merge_ratio :: double
  family_edges_per_family :: nat
  family_stability_confirmations :: int
  domain_stability_confirmations :: int
  plan_confirmations :: int
  maximum_threads_per_domain :: nat
  capacity_ratio :: double
  expand_ratio :: double
  opt_expand_confirmations :: int
  shrink_ratio :: double
  opt_shrink_confirmations :: int
  minimum_dwell_ns :: uint64

record numa_domain_action =
  na_identity :: thread_identity
  na_from_mask :: cpu_mask
  na_target_mask :: cpu_mask
  na_target_nodes :: "int list"
  forced_migration :: bool

record numa_domain_proposal =
  np_id :: uint64
  np_delta :: placement_delta
  planned_masks :: "(int, cpu_mask) omap"
  inherited_tids :: "int oset"
  np_families :: "family_metric list"
  family_pairs :: "family_pair_metric list"
  np_domains :: "numa_domain list"
  np_actions :: "numa_domain_action list"
  released_tids :: "int oset"
  input_family_count :: nat
  input_cross_family_pair_count :: nat
  selected_family_pair_count :: nat
  total_demand :: double
  total_relation :: double
  ready :: bool
  np_valid :: bool
  np_invalid_reason :: string

record numa_domain_solver =
  next_proposal_id :: uint64
  generation :: uint64
  family_confirmations :: "(string, int) omap"
  merge_confirmations :: "(family_pair, int) omap"
  merge_pending_grace :: "(family_pair, int) omap"
  global_plan_confirmation :: int
  expand_confirmations :: "(string, int) omap"
  shrink_confirmations :: "(string, int) omap"
  last_changed_ns :: "(string, uint64) omap"
  last_confirmed_domain_evidence_ns :: "(string, uint64) omap"
  domain_nodes :: "(string, int list) omap"
  placement :: "(int, cpu_mask) omap"
  domains :: "numa_domain list"
  solver_families :: "family_metric list"
  pending_signature :: string
  outstanding :: "numa_domain_proposal option"

definition new_domain_solver :: numa_domain_solver where
  "new_domain_solver =
     \<lparr>next_proposal_id = 1, generation = 0, family_confirmations = [], merge_confirmations = [],
      merge_pending_grace = [], global_plan_confirmation = 0, expand_confirmations = [],
      shrink_confirmations = [], last_changed_ns = [], last_confirmed_domain_evidence_ns = [],
      domain_nodes = [], placement = [], domains = [], solver_families = [],
      pending_signature = [], outstanding = None\<rparr>"

section \<open>Aggregation\<close>

record aggregate =
  by_tid :: "(int, thread_demand) omap"
  by_family :: "(string, thread_demand list) omap"
  ag_total_demand :: double
  ag_internal :: "(string, double) omap"
  ag_external :: "(string, double) omap"
  ag_cross :: "(family_pair, double) omap"
  ag_total_relation :: double

definition empty_aggregate :: aggregate where
  "empty_aggregate =
     \<lparr>by_tid = [], by_family = [], ag_total_demand = 0, ag_internal = [], ag_external = [],
      ag_cross = [], ag_total_relation = 0\<rparr>"

definition aggregate_thread :: "thread_demand \<Rightarrow> aggregate \<Rightarrow> aggregate" where
  "aggregate_thread t g =
     g\<lparr>by_tid := mput (td_tid t) t (by_tid g),
       by_family := mpush (group t) t (by_family g),
       ag_total_demand := ag_total_demand g + demand t\<rparr>"

definition aggregate_edge :: "relation_edge \<Rightarrow> aggregate \<Rightarrow> aggregate" where
  "aggregate_edge e g0 =
     (let g = g0\<lparr>ag_total_relation := ag_total_relation g0 + score e\<rparr> in
      case (map_of (by_tid g) (from_tid e), map_of (by_tid g) (to_tid e)) of
        (Some x, Some y) \<Rightarrow>
          (let a = group x; b = group y in
           if a = b then g\<lparr>ag_internal := madd a (score e) (ag_internal g)\<rparr>
           else g\<lparr>ag_external := madd b (score e) (madd a (score e) (ag_external g)),
                  ag_cross := madd (minmax a b) (score e) (ag_cross g)\<rparr>)
      | _ \<Rightarrow> g)"

definition aggregate_input :: "thread_demand list \<Rightarrow> relation_edge list \<Rightarrow> aggregate" where
  "aggregate_input threads edges = fold aggregate_edge edges (fold aggregate_thread threads empty_aggregate)"

definition maximum_internal :: "aggregate \<Rightarrow> double" where
  "maximum_internal g = fold (\<lambda>(n, v) m. max m v) (ag_internal g) 0"

section \<open>Family metrics\<close>

definition family_evidence ::
  "numa_domain_options \<Rightarrow> aggregate \<Rightarrow> string \<Rightarrow> thread_demand list \<Rightarrow> family_metric" where
  "family_evidence opts g name members =
     (let dem = fold (\<lambda>m d. d + demand m) members 0;
          int_rel = mgetd 0 (ag_internal g) name;
          ext_rel = mgetd 0 (ag_external g) name;
          tot = int_rel + ext_rel;
          self = (if 0 < tot then int_rel / tot else 0);
          rel = (if 0 < maximum_internal g then int_rel / maximum_internal g else 0);
          de = (family_minimum_demand opts \<le> dem);
          ie = (family_minimum_internal_relation opts \<le> int_rel);
          se = (family_minimum_self_containment opts \<le> self);
          re = (family_minimum_relative_internal opts \<le> rel)
      in \<lparr>fm_name = name, thread_count = length members, fm_demand = dem, internal_relation = int_rel,
          external_relation = ext_rel, self_containment = self, relative_internal = rel,
          demand_eligible = de, internal_relation_eligible = ie, self_containment_eligible = se,
          relative_internal_eligible = re, cohesive_eligible = (de \<and> ie \<and> se \<and> re),
          fm_confirmation = 0, seed_confirmation = 0, cohesive_anchor = False,
          cross_pending = False, cross_seed = False, anchor = False\<rparr>)"

definition family_step ::
  "numa_domain_options \<Rightarrow> aggregate \<Rightarrow> string \<times> thread_demand list \<Rightarrow>
   (string, int) omap \<times> (string, family_metric) omap \<Rightarrow> (string, int) omap \<times> (string, family_metric) omap" where
  "family_step opts g x st =
     (case (x, st) of ((name, members), (conf, metrics)) \<Rightarrow>
        let m = family_evidence opts g name members;
            c = (if cohesive_eligible m then mgetd 0 conf name + 1 else 0)
        in (mput name c conf,
            mput name (m\<lparr>fm_confirmation := c,
              cohesive_anchor := (family_stability_confirmations opts \<le> c)\<rparr>) metrics))"

definition reset_unseen :: "('k \<Rightarrow> bool) \<Rightarrow> ('k, int) omap \<Rightarrow> ('k, int) omap" where
  "reset_unseen seen m = map (\<lambda>(k, c). (k, if seen k then c else 0)) m"

definition family_stage ::
  "numa_domain_options \<Rightarrow> aggregate \<Rightarrow> (string, int) omap \<Rightarrow> (string, int) omap \<times> (string, family_metric) omap" where
  "family_stage opts g conf =
     (case fold (family_step opts g) (by_family g) (conf, []) of
        (conf', metrics) \<Rightarrow> (reset_unseen (\<lambda>n. mhas (by_family g) n) conf', metrics))"

section \<open>Pair confirmation\<close>

record pair_state =
  ps_metrics :: "(string, family_metric) omap"
  ps_confirmations :: "(family_pair, int) omap"
  ps_grace :: "(family_pair, int) omap"
  evaluated_merges :: "family_pair oset"
  qualifying_merges :: "family_pair oset"
  ps_family_pairs :: "family_pair_metric list"
  confirmed_seeds :: "family_pair list"

definition raise_seed :: "int \<Rightarrow> bool \<Rightarrow> family_metric \<Rightarrow> family_metric" where
  "raise_seed c seeded m =
     m\<lparr>seed_confirmation := max (seed_confirmation m) c, cross_seed := (seeded \<or> cross_seed m)\<rparr>"

definition at_metric :: "(string, family_metric) omap \<Rightarrow> string \<Rightarrow> family_metric result" where
  "at_metric metrics n =
     (case map_of metrics n of None \<Rightarrow> Inl (Out_Of_Range ''map::at'') | Some m \<Rightarrow> Inr m)"

definition update_metric ::
  "(family_metric \<Rightarrow> family_metric) \<Rightarrow> string \<Rightarrow> (string, family_metric) omap \<Rightarrow> (string, family_metric) omap" where
  "update_metric f n metrics =
     (case map_of metrics n of None \<Rightarrow> metrics | Some m \<Rightarrow> mput n (f m) metrics)"

definition endpoints_ok :: "numa_domain_options \<Rightarrow> family_metric \<Rightarrow> family_metric \<Rightarrow> bool" where
  "endpoints_ok opts l r \<longleftrightarrow>
     family_minimum_demand opts \<le> fm_demand l \<and> family_minimum_demand opts \<le> fm_demand r \<and>
     family_minimum_internal_relation opts \<le> internal_relation l \<and>
     family_minimum_internal_relation opts \<le> internal_relation r"

definition evaluate_pair ::
  "numa_domain_options \<Rightarrow> aggregate \<Rightarrow> family_pair \<Rightarrow> double \<Rightarrow> family_metric \<Rightarrow> family_metric \<Rightarrow>
   pair_state \<Rightarrow> pair_state" where
  "evaluate_pair opts g pair weight l r ps =
     (let ok = endpoints_ok opts l r;
          denom = min (mgetd 0 (ag_internal g) (fst pair)) (mgetd 0 (ag_internal g) (snd pair));
          q = (ok \<and> 0 < denom \<and> domain_merge_ratio opts \<le> weight / denom);
          c = (if q then mgetd 0 (ps_confirmations ps) pair + 1 else 0);
          seeded = (domain_stability_confirmations opts \<le> c)
      in ps\<lparr>evaluated_merges := sput pair (evaluated_merges ps),
            qualifying_merges := (if q then sput pair (qualifying_merges ps) else qualifying_merges ps),
            ps_grace := (if q then mput pair (plan_confirmations opts) (ps_grace ps) else ps_grace ps),
            ps_confirmations := mput pair c (ps_confirmations ps),
            ps_family_pairs := ps_family_pairs ps @
              [\<lparr>fp_left = fst pair, fp_right = snd pair, cross_relation = weight, fp_denominator = denom,
                merge_ratio = (if 0 < denom then weight / denom else 0), endpoints_eligible = ok,
                qualifies = q, fp_confirmation = c, confirmed = seeded\<rparr>],
            ps_metrics := update_metric (raise_seed c seeded) (snd pair)
              (update_metric (raise_seed c seeded) (fst pair) (ps_metrics ps)),
            confirmed_seeds := (if seeded then confirmed_seeds ps @ [pair] else confirmed_seeds ps)\<rparr>)"

fun pair_stage ::
  "numa_domain_options \<Rightarrow> aggregate \<Rightarrow> family_pair list \<Rightarrow> pair_state \<Rightarrow> pair_state result" where
  "pair_stage opts g [] ps = Inr ps"
| "pair_stage opts g (pair # pairs) ps =
     (case map_of (ag_cross g) pair of
        None \<Rightarrow> Inl (Out_Of_Range ''map::at'')
      | Some weight \<Rightarrow>
          (case at_metric (ps_metrics ps) (fst pair) of Inl e \<Rightarrow> Inl e | Inr l \<Rightarrow>
            (case at_metric (ps_metrics ps) (snd pair) of Inl e \<Rightarrow> Inl e | Inr r \<Rightarrow>
               pair_stage opts g pairs (evaluate_pair opts g pair weight l r ps))))"

section \<open>Grace and anchors\<close>

definition decay_grace :: "family_pair oset \<Rightarrow> family_pair \<times> int \<Rightarrow> family_pair \<times> int" where
  "decay_grace qualifying x =
     (case x of (pair, grace) \<Rightarrow>
        (pair, if pair \<notin> set qualifying \<and> 0 < grace then grace - 1 else grace))"

definition pending_step ::
  "numa_domain_options \<Rightarrow> (family_pair, int) omap \<Rightarrow> family_pair \<times> int \<Rightarrow>
   (string, family_metric) omap \<Rightarrow> (string, family_metric) omap" where
  "pending_step opts conf x metrics =
     (case x of (pair, grace) \<Rightarrow>
        if 0 < grace \<and> mgetd 0 conf pair < domain_stability_confirmations opts \<and>
           mhas metrics (fst pair) \<and> mhas metrics (snd pair)
        then update_metric (\<lambda>m. m\<lparr>cross_pending := True\<rparr>) (snd pair)
               (update_metric (\<lambda>m. m\<lparr>cross_pending := True\<rparr>) (fst pair) metrics)
        else metrics)"

definition grace_stage :: "numa_domain_options \<Rightarrow> pair_state \<Rightarrow> pair_state" where
  "grace_stage opts ps =
     (let conf = reset_unseen (\<lambda>p. p \<in> set (evaluated_merges ps)) (ps_confirmations ps);
          grace = map (decay_grace (qualifying_merges ps)) (ps_grace ps)
      in ps\<lparr>ps_confirmations := conf, ps_grace := grace,
            ps_metrics := fold (pending_step opts conf) grace (ps_metrics ps)\<rparr>)"

definition decide_anchor :: "family_metric \<Rightarrow> family_metric" where
  "decide_anchor m = m\<lparr>anchor := (cross_seed m \<or> (cohesive_anchor m \<and> \<not> cross_pending m))\<rparr>"

definition family_output :: "(string, family_metric) omap \<Rightarrow> family_metric list" where
  "family_output metrics = map (\<lambda>(n, m). decide_anchor m) metrics"

definition anchor_set :: "(string, family_metric) omap \<Rightarrow> string oset" where
  "anchor_set metrics =
     fold (\<lambda>(n, m) s. if anchor (decide_anchor m) then sput n s else s) metrics []"

section \<open>One plan per component\<close>

text \<open>The variables the component loop changes: counters of the solver and fields of the proposal.\<close>

record plan_state =
  pl_expand :: "(string, int) omap"
  pl_shrink :: "(string, int) omap"
  pl_placed :: "placed_domain list"
  pl_delta :: "(int, cpu_mask) omap"
  pl_valid :: bool
  pl_reason :: string
  pl_domains :: "numa_domain list"

definition component_members :: "aggregate \<Rightarrow> string list \<Rightarrow> thread_demand list" where
  "component_members g names = concat (map (\<lambda>n. mgetd [] (by_family g) n) names)"

definition blank_domain :: numa_domain where
  "blank_domain =
     \<lparr>nd_id = [], families = [], tids = [], target_nodes = [], target_mask = [], nd_demand = 0,
      previous_nodes = [], nd_online_cpu_count = 0, nd_capacity_limit = 0, nd_capacity_headroom = 0,
      nd_relation_latency = 0, nd_background_demand = 0, nd_initial_migrations = 0,
      expand_confirmation = 0, shrink_confirmation = 0, node_decision = [], nd_confirmation = 0,
      nd_valid = True, nd_invalid_reason = []\<rparr>"

text \<open>The domain of a component before its nodes are chosen, with the size check.\<close>

definition start_domain :: "numa_domain_options \<Rightarrow> string list \<Rightarrow> thread_demand list \<Rightarrow> numa_domain" where
  "start_domain opts names members =
     (let d = blank_domain\<lparr>nd_id := domain_id names, families := names,
                           tids := sort (map td_tid members),
                           nd_demand := fold (\<lambda>m x. x + demand m) members 0\<rparr>
      in if maximum_threads_per_domain opts < length (tids d)
         then d\<lparr>nd_valid := False, nd_invalid_reason := ''maximum_threads_per_domain_exceeded''\<rparr>
         else d)"

text \<open>
  The lifecycle of the node set. \<open>required\<close> is the optimum of the current window; an existing
  domain keeps its nodes unless expansion or shrinking is confirmed.
\<close>

definition node_lifecycle ::
  "hardware_graph \<Rightarrow> numa_domain_options \<Rightarrow> uint64 \<Rightarrow> uint64 \<Rightarrow> int list \<Rightarrow> int list \<Rightarrow>
   numa_domain \<Rightarrow> plan_state \<Rightarrow> numa_domain \<times> int list \<times> plan_state" where
  "node_lifecycle hw opts now changed prev required d pl =
     (let count = length (mask_for_nodes hw prev);
          utilization = (if count = 0 then 1 else nd_demand d / real count);
          expand = (length prev < length required \<and> expand_ratio opts < utilization);
          shrink = (length required < length prev \<and> utilization < shrink_ratio opts \<and>
                    minimum_dwell_ns opts \<le> now - changed);
          ec = (if expand then mgetd 0 (pl_expand pl) (nd_id d) + 1 else 0);
          sc = (if shrink then mgetd 0 (pl_shrink pl) (nd_id d) + 1 else 0);
          pl' = pl\<lparr>pl_expand := mput (nd_id d) ec (pl_expand pl),
                   pl_shrink := mput (nd_id d) sc (pl_shrink pl)\<rparr>;
          d' = d\<lparr>previous_nodes := prev\<rparr>
      in if expand \<and> opt_expand_confirmations opts \<le> ec
         then (d'\<lparr>node_decision := ''expanded''\<rparr>, required, pl')
         else if shrink \<and> opt_shrink_confirmations opts \<le> sc
         then (d'\<lparr>node_decision := ''shrunk''\<rparr>, required, pl')
         else (d'\<lparr>node_decision :=
                 (if required = prev then ''stable''
                  else if expand then ''held_expand_pending''
                  else if shrink then ''held_shrink_pending''
                  else ''held_existing'')\<rparr>, prev, pl'))"

text \<open>The member masks of a planned domain: the loop stops at the first empty intersection.\<close>

definition member_target :: "(int, cpu_mask) omap \<Rightarrow> cpu_mask \<Rightarrow> int \<Rightarrow> cpu_mask" where
  "member_target allowed full_mask t =
     (case map_of allowed t of None \<Rightarrow> full_mask | Some m \<Rightarrow> intersect_masks full_mask m)"

fun assign_members ::
  "(int, cpu_mask) omap \<Rightarrow> thread_demand list \<Rightarrow> numa_domain \<Rightarrow> (int, cpu_mask) omap \<Rightarrow>
   numa_domain \<times> (int, cpu_mask) omap" where
  "assign_members allowed [] d delta = (d, delta)"
| "assign_members allowed (m # ms) d delta =
     (let target = member_target allowed (target_mask d) (td_tid m) in
      if target = []
      then (d\<lparr>nd_valid := False, nd_invalid_reason := ''empty_application_mask_intersection''\<rparr>, delta)
      else assign_members allowed ms d (mput (td_tid m) target delta))"

definition choose_domain_nodes ::
  "numa_domain_solver \<Rightarrow> hardware_graph \<Rightarrow> numa_domain_options \<Rightarrow> uint64 \<Rightarrow> int list \<Rightarrow>
   numa_domain \<Rightarrow> plan_state \<Rightarrow> numa_domain \<times> int list \<times> plan_state" where
  "choose_domain_nodes s hw opts now required d0 pl =
     (let d = (if required = []
               then d0\<lparr>nd_valid := False, nd_invalid_reason := ''insufficient_node_capacity''\<rparr> else d0)
      in case map_of (domain_nodes s) (nd_id d) of
           Some prev \<Rightarrow>
             if prev \<noteq> [] \<and> nd_valid d
             then node_lifecycle hw opts now (mgetd 0 (last_changed_ns s) (nd_id d)) prev required d pl
             else (if nd_valid d then d\<lparr>node_decision := ''initial''\<rparr> else d, required, pl)
         | None \<Rightarrow> (if nd_valid d then d\<lparr>node_decision := ''initial''\<rparr> else d, required, pl))"

definition record_choice :: "node_choice \<Rightarrow> cpu_mask \<Rightarrow> plan_state \<Rightarrow> numa_domain \<Rightarrow> numa_domain" where
  "record_choice c full_mask pl d =
     d\<lparr>expand_confirmation := mgetd 0 (pl_expand pl) (nd_id d),
       shrink_confirmation := mgetd 0 (pl_shrink pl) (nd_id d),
       target_nodes := choice_nodes c, nd_online_cpu_count := online_cpu_count c,
       nd_capacity_limit := capacity_limit c, nd_capacity_headroom := capacity_headroom c,
       nd_relation_latency := relation_latency c, nd_background_demand := background_demand c,
       nd_initial_migrations := initial_migrations c, target_mask := full_mask\<rparr>"

definition plan_component ::
  "numa_domain_solver \<Rightarrow> hardware_graph \<Rightarrow> thread_demand list \<Rightarrow> aggregate \<Rightarrow> (int, cpu_mask) omap \<Rightarrow>
   numa_domain_options \<Rightarrow> uint64 \<Rightarrow> string list \<Rightarrow> plan_state \<Rightarrow> plan_state" where
  "plan_component s hw threads g allowed opts now component pl =
     (let names = sort component;
          members = component_members g names;
          d0 = start_domain opts names members;
          wanted = choice_nodes (choose_nodes hw (nd_demand d0) (capacity_ratio opts) members threads
                     (pl_placed pl) names (ag_cross g));
          (d1, required, pl1) = choose_domain_nodes s hw opts now wanted d0 pl;
          c = evaluate_nodes hw required (nd_demand d1) (capacity_ratio opts) members threads
                (pl_placed pl) names (ag_cross g);
          d2 = record_choice c (mask_for_nodes hw required) pl1 d1;
          (d3, delta) = assign_members allowed members d2 (pl_delta pl1)
      in pl1\<lparr>pl_placed := pl_placed pl1 @ [(names, required)],
             pl_delta := (if nd_valid d3 then delta else []),
             pl_valid := (nd_valid d3 \<and> pl_valid pl1),
             pl_reason := (if nd_valid d3 then pl_reason pl1
                           else nd_id d3 @ '':'' @ nd_invalid_reason d3),
             pl_domains := pl_domains pl1 @ [d3]\<rparr>)"

definition plan_stage ::
  "numa_domain_solver \<Rightarrow> hardware_graph \<Rightarrow> thread_demand list \<Rightarrow> aggregate \<Rightarrow> (int, cpu_mask) omap \<Rightarrow>
   numa_domain_options \<Rightarrow> uint64 \<Rightarrow> (string, string list) omap \<Rightarrow> plan_state" where
  "plan_stage s hw threads g allowed opts now components =
     fold (\<lambda>(r, names) pl. plan_component s hw threads g allowed opts now names pl) components
       \<lparr>pl_expand = expand_confirmations s, pl_shrink = shrink_confirmations s, pl_placed = [],
        pl_delta = [], pl_valid = True, pl_reason = [], pl_domains = []\<rparr>"

section \<open>Evidence and dwell\<close>

definition covers :: "numa_domain \<Rightarrow> numa_domain \<Rightarrow> bool" where
  "covers candidate old \<longleftrightarrow> list_all (\<lambda>f. f \<in> set (families candidate)) (families old)"

definition refresh_evidence ::
  "uint64 \<Rightarrow> numa_domain list \<Rightarrow> numa_domain list \<Rightarrow> (string, uint64) omap \<Rightarrow> (string, uint64) omap" where
  "refresh_evidence now candidates olds ev =
     fold (\<lambda>c ev. if list_ex (\<lambda>d. nd_valid d \<and> covers d c) candidates then mput (nd_id c) now ev else ev)
       olds ev"

text \<open>The variables of the dwell loop: the domains and the validity of the proposal.\<close>

record dwell_state =
  dw_domains :: "numa_domain list"
  dw_valid :: bool
  dw_reason :: string

definition held_members :: "aggregate \<Rightarrow> numa_domain \<Rightarrow> thread_demand list" where
  "held_members g d = concat (map (\<lambda>f. mgetd [] (by_family g) f) (families d))"

definition hold_domain ::
  "numa_domain_options \<Rightarrow> aggregate \<Rightarrow> numa_domain \<Rightarrow> numa_domain" where
  "hold_domain opts g c =
     (let members = held_members g c;
          dem = fold (\<lambda>m x. x + demand m) members 0;
          count = length (target_mask c);
          limit = real count * capacity_ratio opts;
          d = c\<lparr>tids := sort (map td_tid members), nd_demand := dem,
                previous_nodes := target_nodes c, node_decision := ''held_domain_dwell'',
                nd_online_cpu_count := count, nd_capacity_limit := limit,
                nd_capacity_headroom := limit - dem, nd_initial_migrations := 0\<rparr>
      in if maximum_threads_per_domain opts < length (tids d)
         then d\<lparr>nd_valid := False, nd_invalid_reason := ''maximum_threads_per_domain_exceeded''\<rparr>
         else d)"

definition disjoint_families :: "numa_domain \<Rightarrow> numa_domain \<Rightarrow> bool" where
  "disjoint_families c d \<longleftrightarrow> \<not> list_ex (\<lambda>f. f \<in> set (families c)) (families d)"

definition dwell_step ::
  "numa_domain_options \<Rightarrow> aggregate \<Rightarrow> uint64 \<Rightarrow> (string, uint64) omap \<Rightarrow> numa_domain \<Rightarrow>
   dwell_state \<Rightarrow> dwell_state" where
  "dwell_step opts g now ev c dw =
     (case map_of ev (nd_id c) of
        None \<Rightarrow> dw
      | Some confirmed_ns \<Rightarrow>
          if minimum_dwell_ns opts \<le> now - confirmed_ns then dw
          else if list_ex (\<lambda>d. covers d c) (dw_domains dw) then dw
          else if held_members g c = [] then dw
          else
            let held = hold_domain opts g c;
                kept = filter (disjoint_families c) (dw_domains dw);
                full = (maximum_threads_per_domain opts < length (tids held))
            in \<lparr>dw_domains = kept @ [held],
                dw_valid = (if full then False else dw_valid dw),
                dw_reason = (if full then nd_id held @ '':'' @ nd_invalid_reason held else dw_reason dw)\<rparr>)"

definition dwell_stage ::
  "numa_domain_options \<Rightarrow> aggregate \<Rightarrow> uint64 \<Rightarrow> (string, uint64) omap \<Rightarrow> numa_domain list \<Rightarrow>
   dwell_state \<Rightarrow> dwell_state" where
  "dwell_stage opts g now ev olds dw = fold (dwell_step opts g now ev) olds dw"

section \<open>Masks of the final domains\<close>

record mask_state =
  ms_delta :: "(int, cpu_mask) omap"
  ms_valid :: bool
  ms_reason :: string

fun mask_tids ::
  "aggregate \<Rightarrow> (int, cpu_mask) omap \<Rightarrow> int list \<Rightarrow> numa_domain \<Rightarrow> mask_state \<Rightarrow> numa_domain \<times> mask_state" where
  "mask_tids g allowed [] d ms = (d, ms)"
| "mask_tids g allowed (t # ts) d ms =
     (if \<not> mhas (by_tid g) t then mask_tids g allowed ts d ms
      else let target = member_target allowed (target_mask d) t in
        if target = []
        then (let d' = d\<lparr>nd_valid := False, nd_invalid_reason := ''empty_application_mask_intersection''\<rparr>
              in (d', \<lparr>ms_delta = [], ms_valid = False,
                       ms_reason = nd_id d' @ '':'' @ nd_invalid_reason d'\<rparr>))
        else mask_tids g allowed ts d (ms\<lparr>ms_delta := mput t target (ms_delta ms)\<rparr>))"

fun mask_domains ::
  "aggregate \<Rightarrow> (int, cpu_mask) omap \<Rightarrow> numa_domain list \<Rightarrow> mask_state \<Rightarrow> numa_domain list \<times> mask_state" where
  "mask_domains g allowed [] ms = ([], ms)"
| "mask_domains g allowed (d # ds) ms =
     (if \<not> nd_valid d
      then (let (ds', ms') = mask_domains g allowed ds ms in (d # ds', ms'))
      else let (d', ms1) = mask_tids g allowed (tids d) d ms in
        if \<not> ms_valid ms1 then (d' # ds, ms1)
        else let (ds', ms') = mask_domains g allowed ds ms1 in (d' # ds', ms'))"

definition mask_stage ::
  "aggregate \<Rightarrow> (int, cpu_mask) omap \<Rightarrow> dwell_state \<Rightarrow> numa_domain list \<times> mask_state" where
  "mask_stage g allowed dw =
     (let ds = sort_key nd_id (dw_domains dw);
          ms = \<lparr>ms_delta = [], ms_valid = dw_valid dw, ms_reason = dw_reason dw\<rparr>
      in if dw_valid dw then mask_domains g allowed ds ms else (ds, ms))"

section \<open>Actions\<close>

definition make_action ::
  "(int, cpu_mask) omap \<Rightarrow> numa_domain list \<Rightarrow> thread_demand \<Rightarrow> int \<Rightarrow> cpu_mask \<Rightarrow> numa_domain_action option" where
  "make_action allowed ds thread t target =
     (case find (\<lambda>d. t \<in> set (tids d)) ds of
        None \<Rightarrow> None
      | Some d \<Rightarrow>
          Some \<lparr>na_identity = td_identity thread, na_from_mask = mgetd [] allowed t,
                na_target_mask = target, na_target_nodes = target_nodes d,
                forced_migration = (current_cpu thread \<notin> set target)\<rparr>)"

fun action_stage ::
  "aggregate \<Rightarrow> (int, cpu_mask) omap \<Rightarrow> (int, cpu_mask) omap \<Rightarrow> numa_domain list \<Rightarrow>
   (int, cpu_mask) omap \<Rightarrow> int oset \<times> numa_domain_action list \<Rightarrow>
   (int oset \<times> numa_domain_action list) result" where
  "action_stage g allowed current ds [] acc = Inr acc"
| "action_stage g allowed current ds ((t, target) # rest) (inherited, actions) =
     (if map_of current t = Some target then action_stage g allowed current ds rest (inherited, actions)
      else case map_of (by_tid g) t of
        None \<Rightarrow> Inl (Out_Of_Range ''map::at'')
      | Some thread \<Rightarrow>
          if map_of current t = None \<and> mgetd [] allowed t = target
          then action_stage g allowed current ds rest (sput t inherited, actions)
          else case make_action allowed ds thread t target of
            None \<Rightarrow> Inl (Logic_Error ''dereference of the end iterator'')
          | Some a \<Rightarrow> action_stage g allowed current ds rest (inherited, actions @ [a]))"

section \<open>The proposal\<close>

text \<open>The stages up to the final domains: what they leave in the solver and give the proposal.\<close>

record planned =
  pd_family_confirmations :: "(string, int) omap"
  pd_pairs :: pair_state
  pd_families :: "family_metric list"
  pd_plan :: plan_state
  pd_evidence :: "(string, uint64) omap"
  pd_domains :: "numa_domain list"
  pd_masks :: mask_state

definition plan_domains ::
  "numa_domain_solver \<Rightarrow> hardware_graph \<Rightarrow> thread_demand list \<Rightarrow> aggregate \<Rightarrow> (int, cpu_mask) omap \<Rightarrow>
   numa_domain_options \<Rightarrow> uint64 \<Rightarrow> planned result" where
  "plan_domains s hw threads g allowed opts now =
     (let (conf, metrics) = family_stage opts g (family_confirmations s);
          selected = select_family_edges (ag_cross g) (family_edges_per_family opts)
      in case pair_stage opts g selected
                \<lparr>ps_metrics = metrics, ps_confirmations = merge_confirmations s,
                 ps_grace = merge_pending_grace s, evaluated_merges = [], qualifying_merges = [],
                 ps_family_pairs = [], confirmed_seeds = []\<rparr> of
           Inl e \<Rightarrow> Inl e
         | Inr ps0 \<Rightarrow>
             (let ps = grace_stage opts ps0;
                  components = family_components (anchor_set (ps_metrics ps)) (confirmed_seeds ps);
                  pl = plan_stage s hw threads g allowed opts now components;
                  ev = refresh_evidence now (pl_domains pl) (domains s) (last_confirmed_domain_evidence_ns s);
                  dw = dwell_stage opts g now ev (domains s)
                         \<lparr>dw_domains = pl_domains pl, dw_valid = pl_valid pl, dw_reason = pl_reason pl\<rparr>;
                  (ds, ms) = mask_stage g allowed dw
              in Inr \<lparr>pd_family_confirmations = conf, pd_pairs = ps,
                      pd_families = family_output (ps_metrics ps), pd_plan = pl, pd_evidence = ev,
                      pd_domains = ds, pd_masks = ms\<rparr>))"

definition released :: "(int, cpu_mask) omap \<Rightarrow> (int, cpu_mask) omap \<Rightarrow> int oset" where
  "released current planned =
     fold (\<lambda>(t, m) r. if mhas planned t then r else sput t r) current []"

definition action_delta :: "numa_domain_action list \<Rightarrow> (int, cpu_mask) omap" where
  "action_delta actions = fold (\<lambda>a m. mput (tid (na_identity a)) (na_target_mask a) m) actions []"

definition update_solver :: "planned \<Rightarrow> string \<Rightarrow> int \<Rightarrow> numa_domain_solver \<Rightarrow> numa_domain_solver" where
  "update_solver pd sig conf s =
     s\<lparr>next_proposal_id := next_proposal_id s + 1,
       family_confirmations := pd_family_confirmations pd,
       merge_confirmations := ps_confirmations (pd_pairs pd),
       merge_pending_grace := ps_grace (pd_pairs pd),
       expand_confirmations := pl_expand (pd_plan pd),
       shrink_confirmations := pl_shrink (pd_plan pd),
       last_confirmed_domain_evidence_ns := pd_evidence pd,
       pending_signature := sig, global_plan_confirmation := conf,
       solver_families := pd_families pd\<rparr>"

definition confirm_plan :: "numa_domain_solver \<Rightarrow> string \<Rightarrow> int" where
  "confirm_plan s sig = (if sig = pending_signature s then global_plan_confirmation s + 1 else 1)"

definition is_ready :: "numa_domain_options \<Rightarrow> int \<Rightarrow> planned \<Rightarrow> int oset \<Rightarrow> bool" where
  "is_ready opts conf pd rel \<longleftrightarrow>
     ms_valid (pd_masks pd) \<and>
     (pd_domains pd \<noteq> [] \<and> plan_confirmations opts \<le> conf \<or> pd_domains pd = [] \<and> rel \<noteq> [])"

definition propose ::
  "hardware_graph \<Rightarrow> thread_demand list \<Rightarrow> relation_edge list \<Rightarrow> (int, cpu_mask) omap \<Rightarrow>
   numa_domain_options \<Rightarrow> uint64 \<Rightarrow> numa_domain_solver \<Rightarrow>
   (numa_domain_solver \<times> numa_domain_proposal) result" where
  "propose hw threads edges allowed opts now s =
     (if outstanding s \<noteq> None then Inl (Logic_Error ''outstanding NUMA domain proposal'')
      else
        let g = aggregate_input threads edges in
        case plan_domains s hw threads g allowed opts now of
          Inl e \<Rightarrow> Inl e
        | Inr pd \<Rightarrow>
            (let planned = ms_delta (pd_masks pd);
                 rel = released (placement s) planned;
                 sig = plan_signature (pd_domains pd);
                 conf = confirm_plan s sig;
                 ds = map (\<lambda>d. d\<lparr>nd_confirmation := conf\<rparr>) (pd_domains pd);
                 rdy = is_ready opts conf pd rel
             in case (if rdy then action_stage g allowed (placement s) ds planned ([], []) else Inr ([], [])) of
                  Inl e \<Rightarrow> Inl e
                | Inr (inherited, actions) \<Rightarrow>
                    (let p = \<lparr>np_id = next_proposal_id s, np_delta = \<lparr>tid_to_cpu = [], tid_to_mask = action_delta actions\<rparr>,
                              planned_masks = planned, inherited_tids = inherited,
                              np_families = pd_families pd,
                              family_pairs = ps_family_pairs (pd_pairs pd), np_domains = ds,
                              np_actions = actions, released_tids = rel,
                              input_family_count = length (by_family g),
                              input_cross_family_pair_count = length (ag_cross g),
                              selected_family_pair_count =
                                length (select_family_edges (ag_cross g) (family_edges_per_family opts)),
                              total_demand = ag_total_demand g, total_relation = ag_total_relation g,
                              ready = rdy, np_valid = ms_valid (pd_masks pd),
                              np_invalid_reason = ms_reason (pd_masks pd)\<rparr>
                     in Inr ((update_solver pd sig conf s)\<lparr>outstanding := Some p\<rparr>, p))))"

section \<open>Commit, discard, reset\<close>

definition commit_mask ::
  "numa_domain_proposal \<Rightarrow> int oset \<Rightarrow> int oset \<Rightarrow> int \<times> cpu_mask \<Rightarrow> (int, cpu_mask) omap \<Rightarrow> (int, cpu_mask) omap" where
  "commit_mask p action_tids done x pl =
     (case x of (t, m) \<Rightarrow>
        if mhas pl t \<or> t \<in> set (inherited_tids p) \<or>
           (t \<in> set action_tids \<and> (done = [] \<or> t \<in> set done))
        then mput t m pl else pl)"

definition commit_action ::
  "int oset \<Rightarrow> numa_domain_action \<Rightarrow> (int, cpu_mask) omap \<Rightarrow> (int, cpu_mask) omap" where
  "commit_action done a pl =
     (if done \<noteq> [] \<and> tid (na_identity a) \<notin> set done then pl
      else mput (tid (na_identity a)) (na_target_mask a) pl)"

definition commit_placement ::
  "numa_domain_proposal \<Rightarrow> int oset \<Rightarrow> (int, cpu_mask) omap \<Rightarrow> (int, cpu_mask) omap" where
  "commit_placement p done pl =
     (let freed = fold mdel (released_tids p) pl;
          action_tids = fold (\<lambda>a s. sput (tid (na_identity a)) s) (np_actions p) [];
          kept = fold (commit_mask p action_tids done) (planned_masks p) freed
      in fold (commit_action done) (np_actions p) kept)"

definition commit_domain ::
  "string oset \<Rightarrow> uint64 \<Rightarrow> numa_domain \<Rightarrow> numa_domain_solver \<Rightarrow> numa_domain_solver" where
  "commit_domain active now d s =
     s\<lparr>last_changed_ns :=
         (if mgetd [] (domain_nodes s) (nd_id d) \<noteq> target_nodes d
          then mput (nd_id d) now (last_changed_ns s) else last_changed_ns s),
       last_confirmed_domain_evidence_ns :=
         (if nd_id d \<notin> set active then mput (nd_id d) now (last_confirmed_domain_evidence_ns s)
          else last_confirmed_domain_evidence_ns s),
       domain_nodes := mput (nd_id d) (target_nodes d) (domain_nodes s)\<rparr>"

definition commit ::
  "numa_domain_proposal \<Rightarrow> uint64 \<Rightarrow> int oset \<Rightarrow> numa_domain_solver \<Rightarrow> numa_domain_solver result" where
  "commit p now done s =
     (if (case outstanding s of None \<Rightarrow> True | Some q \<Rightarrow> np_id q \<noteq> np_id p)
      then Inl (Logic_Error ''NUMA domain proposal is not outstanding'')
      else
        let s1 = s\<lparr>placement := commit_placement p done (placement s)\<rparr>;
            active = fold (\<lambda>d r. sput (nd_id d) r) (domains s) [];
            s2 = fold (commit_domain active now) (np_domains p) s1
        in Inr (s2\<lparr>domains := np_domains p, generation := generation s2 + 1, outstanding := None\<rparr>))"

definition discard :: "numa_domain_proposal \<Rightarrow> numa_domain_solver \<Rightarrow> numa_domain_solver" where
  "discard p s =
     (case outstanding s of
        Some q \<Rightarrow> if np_id q = np_id p then s\<lparr>outstanding := None\<rparr> else s
      | None \<Rightarrow> s)"

definition reset :: "numa_domain_solver \<Rightarrow> numa_domain_solver" where
  "reset s = new_domain_solver"

definition remove_thread :: "int \<Rightarrow> numa_domain_solver \<Rightarrow> numa_domain_solver" where
  "remove_thread t s = s\<lparr>placement := mdel t (placement s)\<rparr>"

definition effective :: "numa_domain_solver \<Rightarrow> bool" where
  "effective s \<longleftrightarrow> placement s \<noteq> []"

end
