(* ===== verification/Proposal_Protocol.thy ===== *)
theory Proposal_Protocol
  imports Prelude
begin

text \<open>
  The contract the NUMA-domain solver keeps with the runtime: at most one proposal is outstanding,
  it is numbered, only the outstanding one can be committed, and commit and discard end it. The
  lemmas of the contract say what a driver that pairs every proposal with a commit or a
  discard can rely on; \<open>Domain_Safety\<close> interprets it on the solver. (The incremental
  solver answers a second proposal with the outstanding one and ignores a commit of any other.)
\<close>

locale proposal_protocol =
  fixes pending :: "'s \<Rightarrow> uint64 option"
    and next_id :: "'s \<Rightarrow> uint64"
    and pid :: "'p \<Rightarrow> uint64"
    and propose :: "'i \<Rightarrow> 's \<Rightarrow> ('s \<times> 'p) result"
    and commit :: "'p \<Rightarrow> 'c \<Rightarrow> 's \<Rightarrow> 's result"
    and discard :: "'p \<Rightarrow> 's \<Rightarrow> 's"
  assumes propose_busy: "pending s \<noteq> None \<Longrightarrow> \<exists>e. propose i s = Inl e"
    and propose_idle: "propose i s = Inr (s', p) \<Longrightarrow>
      pending s' = Some (pid p) \<and> pid p = next_id s \<and> next_id s' = next_id s + 1"
    and commit_pending: "pending s = Some (pid p) \<Longrightarrow>
      \<exists>s'. commit p c s = Inr s' \<and> pending s' = None \<and> next_id s' = next_id s"
    and commit_other: "pending s \<noteq> Some (pid p) \<Longrightarrow> \<exists>e. commit p c s = Inl e"
    and discard_pending: "pending s = Some (pid p) \<Longrightarrow>
      pending (discard p s) = None \<and> next_id (discard p s) = next_id s"
    and discard_other: "pending s \<noteq> Some (pid p) \<Longrightarrow> discard p s = s"
begin

text \<open>How a driver ends a proposal.\<close>

definition ended :: "'p \<Rightarrow> 's \<Rightarrow> 's \<Rightarrow> bool" where
  "ended p s s' \<longleftrightarrow> (\<exists>c. commit p c s = Inr s') \<or> s' = discard p s"

lemma round_idle:
  assumes "propose i s = Inr (s1, p)" "ended p s1 s2"
  shows "pending s2 = None \<and> next_id s2 = next_id s + 1"
proof -
  have p: "pending s1 = Some (pid p)" "next_id s1 = next_id s + 1" using propose_idle [OF assms(1)] by auto
  then show ?thesis
    using assms(2) commit_pending [OF p(1)] discard_pending [OF p(1)] by (auto simp: ended_def) (metis Inr_inject)+
qed

lemma ended_once:
  assumes "propose i s = Inr (s1, p)" "ended p s1 s2"
  shows "\<exists>e. commit p c s2 = Inl e" "discard p s2 = s2"
proof -
  have "pending s2 \<noteq> Some (pid p)" using round_idle [OF assms] by simp
  then show "\<exists>e. commit p c s2 = Inl e" "discard p s2 = s2" using commit_other discard_other by auto
qed

lemma stale_rejected:
  assumes "propose i s = Inr (s1, p)" "ended p s1 s2" "propose j s2 = Inr (s3, q)"
  shows "\<exists>e. commit p c s3 = Inl e" "discard p s3 = s3"
proof -
  have "pid q = pid p + 1" "pending s3 = Some (pid q)"
    using propose_idle [OF assms(1)] propose_idle [OF assms(3)] round_idle [OF assms(1,2)] by auto
  then have "pending s3 \<noteq> Some (pid p)" by simp
  then show "\<exists>e. commit p c s3 = Inl e" "discard p s3 = s3" using commit_other discard_other by auto
qed

end

end
