(* ===== verification/Domain_Safety.thy ===== *)
theory Domain_Safety
  imports Domain_Solver Proposal_Protocol
begin

text \<open>
  What the NUMA domain solver guarantees. Lemmas first, by stage - the aggregation, the pair
  stage, the masks, the actions and the commit - then the properties of the proposals and of
  the propose/commit protocol.
\<close>

section \<open>Aggregation\<close>

definition aggregate_wf :: "aggregate \<Rightarrow> bool" where
  "aggregate_wf g \<longleftrightarrow> mwf (by_tid g) \<and> mwf (by_family g) \<and> mwf (ag_cross g) \<and> proper_pairs (ag_cross g) \<and>
     (\<forall>p \<in> dom (map_of (ag_cross g)). fst p \<in> dom (map_of (by_family g)) \<and> snd p \<in> dom (map_of (by_family g))) \<and>
     (\<forall>t x. map_of (by_tid g) t = Some x \<longrightarrow> group x \<in> dom (map_of (by_family g)) \<and> td_tid x = t)"

lemma proper_pairs_dom: "proper_pairs m \<longleftrightarrow> (\<forall>p \<in> dom (map_of m). fst p \<noteq> snd p)"
  by (simp add: proper_pairs_def dom_map_of_conv_image_fst)

lemma minmax_parts: "fst (minmax a b) \<in> {a, b} \<and> snd (minmax a b) \<in> {a, b} \<and> (a \<noteq> b \<longrightarrow> fst (minmax a b) \<noteq> snd (minmax a b))"
  by (auto simp: minmax_def)

lemma aggregate_wf_empty: "aggregate_wf empty_aggregate"
  by (simp add: aggregate_wf_def empty_aggregate_def proper_pairs_def)

lemma aggregate_wf_thread: "aggregate_wf g \<Longrightarrow> aggregate_wf (aggregate_thread t g)"
  by (auto simp: aggregate_wf_def aggregate_thread_def)

lemma aggregate_wf_edge:
  assumes "aggregate_wf g" shows "aggregate_wf (aggregate_edge e g)"
proof (cases "\<exists>x y. map_of (by_tid g) (from_tid e) = Some x \<and> map_of (by_tid g) (to_tid e) = Some y")
  case True
  then obtain x y where xy: "map_of (by_tid g) (from_tid e) = Some x" "map_of (by_tid g) (to_tid e) = Some y" by auto
  then have "group x \<in> dom (map_of (by_family g))" "group y \<in> dom (map_of (by_family g))"
    using assms unfolding aggregate_wf_def by blast+
  then have fam: "fst (minmax (group x) (group y)) \<in> dom (map_of (by_family g))"
      "snd (minmax (group x) (group y)) \<in> dom (map_of (by_family g))"
    using minmax_parts [of "group x" "group y"] by (metis insertE singletonD)+
  show ?thesis
  proof (cases "group x = group y")
    case True
    then show ?thesis using assms xy by (simp add: aggregate_wf_def aggregate_edge_def)
  next
    case False
    then have "fst (minmax (group x) (group y)) \<noteq> snd (minmax (group x) (group y))"
      using minmax_parts by metis
    then have "proper_pairs (madd (minmax (group x) (group y)) (score e) (ag_cross g))"
      using assms by (simp add: aggregate_wf_def proper_pairs_dom)
    then show ?thesis
      using assms xy False fam by (simp add: aggregate_wf_def aggregate_edge_def Let_def)
  qed
next
  case False
  then have "aggregate_edge e g = g\<lparr>ag_total_relation := ag_total_relation g + score e\<rparr>"
    by (auto simp: aggregate_edge_def Let_def split: option.splits)
  then show ?thesis using assms by (simp add: aggregate_wf_def)
qed

lemma aggregate_wf_input: "aggregate_wf (aggregate_input threads edges)"
proof -
  have "aggregate_wf g \<Longrightarrow> aggregate_wf (fold aggregate_thread threads g)" for g
    by (induction threads arbitrary: g) (simp_all add: aggregate_wf_thread)
  moreover have "aggregate_wf g \<Longrightarrow> aggregate_wf (fold aggregate_edge edges g)" for g
    by (induction edges arbitrary: g) (simp_all add: aggregate_wf_edge)
  ultimately show ?thesis by (simp add: aggregate_input_def aggregate_wf_empty)
qed

section \<open>The pair stage finds every entry it reads\<close>

lemma dom_update_metric [simp]: "dom (map_of (update_metric f n m)) = dom (map_of m)"
  by (auto simp: update_metric_def split: option.splits)

lemma mwf_update_metric [simp]: "mwf m \<Longrightarrow> mwf (update_metric f n m)"
  by (simp add: update_metric_def split: option.splits)

lemma family_stage_dom:
  assumes "family_stage opts g conf = (conf', metrics)"
  shows "dom (map_of metrics) = dom (map_of (by_family g)) \<and> mwf metrics"
proof -
  have step: "mwf (snd st) \<Longrightarrow> mwf (snd (family_step opts g x st))"
    "dom (map_of (snd (family_step opts g x st))) = insert (fst x) (dom (map_of (snd st)))" for x st
    by (cases x; cases st; simp add: family_step_def Let_def)+
  have "mwf (snd st) \<Longrightarrow> mwf (snd (fold (family_step opts g) xs st)) \<and>
      dom (map_of (snd (fold (family_step opts g) xs st))) = dom (map_of (snd st)) \<union> fst ` set xs" for xs st
    by (induction xs arbitrary: st) (simp_all add: step)
  from this [of "(conf, [])" "by_family g"] show ?thesis
    using assms by (auto simp: family_stage_def dom_map_of_conv_image_fst split: prod.splits)
qed

lemma pair_stage_total:
  assumes "set pairs \<subseteq> dom (map_of (ag_cross g))"
    "\<forall>p \<in> set pairs. fst p \<in> dom (map_of (ps_metrics ps)) \<and> snd p \<in> dom (map_of (ps_metrics ps))"
  shows "\<exists>ps'. pair_stage opts g pairs ps = Inr ps' \<and> dom (map_of (ps_metrics ps')) = dom (map_of (ps_metrics ps)) \<and>
    (mwf (ps_metrics ps) \<longrightarrow> mwf (ps_metrics ps'))"
  using assms
proof (induction pairs arbitrary: ps)
  case (Cons p pairs)
  obtain w l r where at: "map_of (ag_cross g) p = Some w"
    "map_of (ps_metrics ps) (fst p) = Some l" "map_of (ps_metrics ps) (snd p) = Some r"
    using Cons.prems by auto
  have "dom (map_of (ps_metrics (evaluate_pair opts g p w l r ps))) = dom (map_of (ps_metrics ps))"
    "mwf (ps_metrics ps) \<longrightarrow> mwf (ps_metrics (evaluate_pair opts g p w l r ps))"
    by (simp_all add: evaluate_pair_def Let_def)
  then show ?case
    using Cons.IH [of "evaluate_pair opts g p w l r ps"] Cons.prems at by (auto simp: at_metric_def)
qed simp

lemma selected_in_cross:
  assumes "mwf cross" "proper_pairs cross" shows "set (select_family_edges cross k) \<subseteq> dom (map_of cross)"
proof
  fix p assume "p \<in> set (select_family_edges cross k)"
  then obtain f where "p \<in> snd ` set (take k (sort_key (\<lambda>c. (- fst c, snd c)) (mgetd [] (incident_edges cross) f)))"
    using selected_family_edges [OF assms] by blast
  then show "p \<in> dom (map_of cross)" using rank_incident [OF assms] by blast
qed

lemma selected_pairs_known:
  assumes "aggregate_wf g" "family_stage opts g conf0 = (conf, metrics)"
  shows "set (select_family_edges (ag_cross g) k) \<subseteq> dom (map_of (ag_cross g))"
    "\<forall>p \<in> set (select_family_edges (ag_cross g) k). fst p \<in> dom (map_of metrics) \<and> snd p \<in> dom (map_of metrics)"
proof -
  show sel: "set (select_family_edges (ag_cross g) k) \<subseteq> dom (map_of (ag_cross g))"
    using selected_in_cross assms(1) by (simp add: aggregate_wf_def)
  show "\<forall>p \<in> set (select_family_edges (ag_cross g) k). fst p \<in> dom (map_of metrics) \<and> snd p \<in> dom (map_of metrics)"
    using sel assms(1) family_stage_dom [OF assms(2)] unfolding aggregate_wf_def by (auto dest!: subsetD)
qed

lemma plan_domains_total:
  assumes "aggregate_wf g" shows "\<exists>pd. plan_domains s hw threads g allowed opts now = Inr pd"
proof -
  obtain conf metrics where fs: "family_stage opts g (family_confirmations s) = (conf, metrics)" by fastforce
  let ?sel = "select_family_edges (ag_cross g) (family_edges_per_family opts)"
  let ?ps = "\<lparr>ps_metrics = metrics, ps_confirmations = merge_confirmations s,
                 ps_grace = merge_pending_grace s, evaluated_merges = [], qualifying_merges = [],
                 ps_family_pairs = [], confirmed_seeds = []\<rparr>"
  have "set ?sel \<subseteq> dom (map_of (ag_cross g))"
    "\<forall>p \<in> set ?sel. fst p \<in> dom (map_of (ps_metrics ?ps)) \<and> snd p \<in> dom (map_of (ps_metrics ?ps))"
    using selected_pairs_known [OF assms fs] by simp_all
  then obtain ps where "pair_stage opts g ?sel ?ps = Inr ps"
    using pair_stage_total by blast
  then show ?thesis using fs by (auto simp: plan_domains_def Let_def split: prod.splits)
qed

section \<open>The masks of the final domains\<close>

text \<open>
  \<open>mask_ok\<close>: an entry of the plan is the member's share of the mask of a valid domain of the
  list that has the thread among its members.
\<close>

definition mask_ok ::
  "aggregate \<Rightarrow> (int, cpu_mask) omap \<Rightarrow> numa_domain list \<Rightarrow> int \<Rightarrow> cpu_mask \<Rightarrow> bool" where
  "mask_ok g allowed ds t m \<longleftrightarrow>
     (\<exists>d \<in> set ds. nd_valid d \<and> t \<in> set (tids d) \<and> m = member_target allowed (target_mask d) t \<and>
        m \<noteq> [] \<and> mhas (by_tid g) t)"

definition masks_ok :: "aggregate \<Rightarrow> (int, cpu_mask) omap \<Rightarrow> numa_domain list \<Rightarrow> mask_state \<Rightarrow> bool" where
  "masks_ok g allowed ds ms \<longleftrightarrow> mwf (ms_delta ms) \<and> (\<not> ms_valid ms \<longrightarrow> ms_delta ms = []) \<and>
     (\<forall>t m. map_of (ms_delta ms) t = Some m \<longrightarrow> mask_ok g allowed ds t m)"

lemma mask_ok_mono: "mask_ok g allowed ds t m \<Longrightarrow> set ds \<subseteq> set es \<Longrightarrow> mask_ok g allowed es t m"
  by (auto simp: mask_ok_def)

lemma masks_ok_mono: "masks_ok g allowed ds ms \<Longrightarrow> set ds \<subseteq> set es \<Longrightarrow> masks_ok g allowed es ms"
  by (auto simp: masks_ok_def intro: mask_ok_mono)

lemma mask_tids_ok:
  assumes "mask_tids g allowed ts d ms = (d', ms')" "masks_ok g allowed (d # ds) ms" "ms_valid ms"
    "nd_valid d" "set ts \<subseteq> set (tids d)"
  shows "masks_ok g allowed (d' # ds) ms' \<and> (ms_valid ms' \<longrightarrow> d' = d) \<and>
    nd_id d' = nd_id d \<and> families d' = families d"
  using assms
proof (induction ts arbitrary: ms)
  case (Cons t ts)
  let ?target = "member_target allowed (target_mask d) t"
  show ?case
  proof (cases "mhas (by_tid g) t \<and> ?target \<noteq> []")
    case True
    let ?ms = "ms\<lparr>ms_delta := mput t ?target (ms_delta ms)\<rparr>"
    have "mask_ok g allowed (d # ds) t ?target"
      unfolding mask_ok_def using True Cons.prems(4,5) by (intro bexI [of _ d]) simp_all
    then have "masks_ok g allowed (d # ds) ?ms"
      using Cons.prems(2,3) by (auto simp: masks_ok_def)
    then show ?thesis using Cons.IH [of ?ms] Cons.prems True by (simp add: Let_def)
  next
    case False
    show ?thesis
    proof (cases "mhas (by_tid g) t")
      case True
      with False Cons.prems(1) have "ms_delta ms' = []" "nd_id d' = nd_id d" "families d' = families d"
        "\<not> ms_valid ms'" by (auto simp: Let_def)
      then show ?thesis by (simp add: masks_ok_def)
    next
      case False
      then show ?thesis using Cons.IH [of ms] Cons.prems by simp
    qed
  qed
qed auto

lemma mask_domains_ok:
  assumes "mask_domains g allowed ds ms = (ds', ms')" "masks_ok g allowed prev ms" "ms_valid ms"
  shows "masks_ok g allowed (prev @ ds') ms' \<and> map nd_id ds' = map nd_id ds \<and>
    map families ds' = map families ds \<and> (ms_valid ms' \<longrightarrow> ds' = ds)"
  using assms
proof (induction ds arbitrary: ms prev ds')
  case Nil
  then show ?case by (auto elim: masks_ok_mono)
next
  case (Cons d ds)
  show ?case
  proof (cases "nd_valid d")
    case False
    then obtain es where es: "mask_domains g allowed ds ms = (es, ms')" "ds' = d # es"
      using Cons.prems(1) by (auto split: prod.splits)
    have "masks_ok g allowed (prev @ [d]) ms" using Cons.prems(2) by (auto elim: masks_ok_mono)
    then show ?thesis using Cons.IH [OF es(1), of "prev @ [d]"] Cons.prems(3) es(2) by simp
  next
    case True
    obtain d1 ms1 where one: "mask_tids g allowed (tids d) d ms = (d1, ms1)" by fastforce
    have "masks_ok g allowed (d # prev) ms" using Cons.prems(2) by (auto elim: masks_ok_mono)
    from mask_tids_ok [OF one this Cons.prems(3) True]
    have ok: "masks_ok g allowed (d1 # prev) ms1" "ms_valid ms1 \<longrightarrow> d1 = d" "nd_id d1 = nd_id d" "families d1 = families d"
      by auto
    show ?thesis
    proof (cases "ms_valid ms1")
      case False
      then have "ds' = d1 # ds" "ms' = ms1" using Cons.prems(1) True one by auto
      then show ?thesis using ok False by (auto elim: masks_ok_mono)
    next
      case valid: True
      then obtain es where es: "mask_domains g allowed ds ms1 = (es, ms')" "ds' = d1 # es"
        using Cons.prems(1) True one by (auto split: prod.splits)
      have "masks_ok g allowed (prev @ [d1]) ms1" using ok(1) by (auto elim: masks_ok_mono)
      then show ?thesis using Cons.IH [OF es(1), of "prev @ [d1]"] valid es(2) ok by simp
    qed
  qed
qed

lemma mask_stage_ok:
  assumes "mask_stage g allowed dw = (ds, ms)"
  shows "masks_ok g allowed ds ms \<and> map families ds = map families (sort_key nd_id (dw_domains dw)) \<and>
    (ms_valid ms \<longrightarrow> ds = sort_key nd_id (dw_domains dw) \<and> dw_valid dw)"
proof (cases "dw_valid dw")
  case True
  have "masks_ok g allowed [] \<lparr>ms_delta = [], ms_valid = True, ms_reason = dw_reason dw\<rparr>"
    by (simp add: masks_ok_def)
  then show ?thesis
    using True assms mask_domains_ok [of g allowed "sort_key nd_id (dw_domains dw)"
        "\<lparr>ms_delta = [], ms_valid = True, ms_reason = dw_reason dw\<rparr>" ds ms "[]"]
    by (simp add: mask_stage_def Let_def)
next
  case False
  then show ?thesis using assms by (auto simp: mask_stage_def masks_ok_def)
qed

section \<open>Actions\<close>

text \<open>The planned masks a ready proposal has to write, and those already in place by inheritance.\<close>

definition unchanged :: "(int, cpu_mask) omap \<Rightarrow> int \<times> cpu_mask \<Rightarrow> bool" where
  "unchanged current x \<longleftrightarrow> map_of current (fst x) = Some (snd x)"

definition inherits :: "(int, cpu_mask) omap \<Rightarrow> (int, cpu_mask) omap \<Rightarrow> int \<times> cpu_mask \<Rightarrow> bool" where
  "inherits allowed current x \<longleftrightarrow> map_of current (fst x) = None \<and> mgetd [] allowed (fst x) = snd x"

definition to_write ::
  "(int, cpu_mask) omap \<Rightarrow> (int, cpu_mask) omap \<Rightarrow> (int, cpu_mask) omap \<Rightarrow> (int \<times> cpu_mask) list" where
  "to_write allowed current plan = filter (\<lambda>x. \<not> unchanged current x \<and> \<not> inherits allowed current x) plan"

definition action_pair :: "numa_domain_action \<Rightarrow> int \<times> cpu_mask" where
  "action_pair a = (tid (na_identity a), na_target_mask a)"

lemma action_stage_ok:
  assumes "\<forall>x \<in> set plan. mhas (by_tid g) (fst x) \<and> (\<exists>d \<in> set ds. fst x \<in> set (tids d))" "aggregate_wf g"
  shows "\<exists>inh acts. action_stage g allowed current ds plan (inh0, acts0) = Inr (inh, acts0 @ acts) \<and>
    map action_pair acts = to_write allowed current plan \<and>
    set inh = set inh0 \<union> fst ` {x \<in> set plan. inherits allowed current x}"
  using assms(1)
proof (induction plan arbitrary: inh0 acts0)
  case (Cons x plan)
  obtain t m where x: "x = (t, m)" by fastforce
  obtain th where th: "map_of (by_tid g) t = Some th" using Cons.prems x by (auto simp: mhas_def)
  have tid: "td_tid th = t" using th assms(2) by (simp add: aggregate_wf_def)
  have rest: "\<forall>x \<in> set plan. mhas (by_tid g) (fst x) \<and> (\<exists>d \<in> set ds. fst x \<in> set (tids d))"
    using Cons.prems by simp
  consider (same) "unchanged current x" | (inherited) "\<not> unchanged current x" "inherits allowed current x"
    | (acted) "\<not> unchanged current x \<and> \<not> inherits allowed current x" by blast
  then show ?case
  proof cases
    case same
    have "action_stage g allowed current ds (x # plan) (inh0, acts0) = action_stage g allowed current ds plan (inh0, acts0)"
      "\<not> inherits allowed current x"
      using same x by (auto simp: unchanged_def inherits_def)
    moreover from this have "{y \<in> set (x # plan). inherits allowed current y} = {y \<in> set plan. inherits allowed current y}"
      by auto
    moreover have "to_write allowed current (x # plan) = to_write allowed current plan"
      using same by (simp add: to_write_def)
    ultimately show ?thesis using Cons.IH [OF rest, of inh0 acts0] by metis
  next
    case inherited
    have "action_stage g allowed current ds (x # plan) (inh0, acts0) = action_stage g allowed current ds plan (sput t inh0, acts0)"
      using inherited x th by (auto simp: unchanged_def inherits_def)
    moreover have "set inh0 \<union> fst ` {y \<in> set (x # plan). inherits allowed current y} =
        set (sput t inh0) \<union> fst ` {y \<in> set plan. inherits allowed current y}"
    proof -
      have "{y \<in> set (x # plan). inherits allowed current y} = insert x {y \<in> set plan. inherits allowed current y}"
        using inherited by auto
      then show ?thesis using x by simp
    qed
    moreover have "to_write allowed current (x # plan) = to_write allowed current plan"
      using inherited by (simp add: to_write_def)
    ultimately show ?thesis using Cons.IH [OF rest, of "sput t inh0" acts0] by metis
  next
    case False: acted
    obtain d where "find (\<lambda>d. t \<in> set (tids d)) ds = Some d"
      using Cons.prems x by (cases "find (\<lambda>d. t \<in> set (tids d)) ds") (auto simp: find_None_iff)
    then obtain a where a: "make_action allowed ds th t m = Some a" "action_pair a = x"
      using x tid by (simp add: make_action_def action_pair_def)
    have step: "action_stage g allowed current ds (x # plan) (inh0, acts0) =
        action_stage g allowed current ds plan (inh0, acts0 @ [a])"
      using False th a(1) x by (auto simp: unchanged_def inherits_def)
    obtain inh acts where ih: "action_stage g allowed current ds plan (inh0, acts0 @ [a]) = Inr (inh, (acts0 @ [a]) @ acts)"
      "map action_pair acts = to_write allowed current plan"
      "set inh = set inh0 \<union> fst ` {x \<in> set plan. inherits allowed current x}"
      using Cons.IH [OF rest, of inh0 "acts0 @ [a]"] by blast
    have "{y \<in> set (x # plan). inherits allowed current y} = {y \<in> set plan. inherits allowed current y}"
      using False by auto
    then show ?thesis
      using step ih a(2) False by (intro exI [of _ inh] exI [of _ "a # acts"]) (simp add: to_write_def)
  qed
qed (simp add: to_write_def)

lemma map_of_action_delta:
  assumes "mwf plan" "map action_pair acts = to_write allowed current plan"
  shows "action_delta acts = to_write allowed current plan"
proof (rule mwf_eqI)
  show wf: "mwf (to_write allowed current plan)" using assms(1) by (simp add: to_write_def mwf_filter)
  show "mwf (action_delta acts)" by (simp add: action_delta_def mwf_fold_mput)
  have "distinct (map (fst \<circ> action_pair) acts)"
    using mwf_distinct [OF wf] assms(2) by (metis map_map)
  from map_of_fold_mput [OF this, of "[]"]
  show "map_of (action_delta acts) = map_of (to_write allowed current plan)"
    unfolding assms(2) action_delta_def by (auto simp: fun_eq_iff action_pair_def split: option.splits)
qed

section \<open>Releases and commits\<close>

lemma set_released: "set (released current plan) = dom (map_of current) - dom (map_of plan)"
proof -
  have "set (fold (\<lambda>(t, m) r. if mhas plan t then r else sput t r) xs r) =
      set r \<union> (fst ` set xs - dom (map_of plan))" for xs r
    by (induction xs arbitrary: r) (auto simp: mhas_dom split: if_splits)
  from this [of current "[]"] show ?thesis by (simp add: released_def dom_map_of_conv_image_fst)
qed

text \<open>Which planned threads a commit takes into the placement.\<close>

definition taken :: "numa_domain_proposal \<Rightarrow> int oset \<Rightarrow> (int, cpu_mask) omap \<Rightarrow> int \<Rightarrow> bool" where
  "taken p done pl t \<longleftrightarrow> mhas pl t \<or> t \<in> set (inherited_tids p) \<or>
     (t \<in> fst ` action_pair ` set (np_actions p) \<and> (done = [] \<or> t \<in> set done))"

lemma map_of_fold_commit_mask:
  assumes "distinct (map fst plan)"
  shows "map_of (fold (commit_mask p ats done) plan pl) t =
    (case map_of plan t of
       Some m \<Rightarrow> if mhas pl t \<or> t \<in> set (inherited_tids p) \<or> (t \<in> set ats \<and> (done = [] \<or> t \<in> set done))
                 then Some m else map_of pl t
     | None \<Rightarrow> map_of pl t)"
  using assms
proof (induction plan arbitrary: pl)
  case (Cons x plan)
  obtain k v where x: "x = (k, v)" by fastforce
  have k: "map_of plan k = None" using Cons.prems x by (simp add: map_of_eq_None_iff)
  have one: "map_of (commit_mask p ats done x pl) t' = (if t' = k \<and> (mhas pl k \<or> k \<in> set (inherited_tids p) \<or>
      (k \<in> set ats \<and> (done = [] \<or> k \<in> set done))) then Some v else map_of pl t')" for t'
    using x by (auto simp: commit_mask_def)
  show ?case
    using Cons.IH [of "commit_mask p ats done x pl"] Cons.prems one k x
    by (auto simp: mhas_def split: option.splits)
qed simp

lemma mwf_fold_commit_mask: "mwf pl \<Longrightarrow> mwf (fold (commit_mask p ats done) plan pl)"
  by (induction plan arbitrary: pl) (simp_all add: commit_mask_def case_prod_beta)

lemma map_of_fold_commit_action:
  assumes "\<And>a. a \<in> set acts \<Longrightarrow> map_of plan (tid (na_identity a)) = Some (na_target_mask a)"
    "map_of pl t = map_of plan t \<or> t \<notin> (\<lambda>a. tid (na_identity a)) ` {a \<in> set acts. done = [] \<or> tid (na_identity a) \<in> set done}"
  shows "map_of (fold (commit_action done) acts pl) t = map_of pl t"
  using assms
proof (induction acts arbitrary: pl)
  case (Cons a acts)
  have same: "map_of (commit_action done a pl) t = map_of pl t"
    using Cons.prems by (auto simp: commit_action_def)
  then show ?case using Cons.IH [of "commit_action done a pl"] Cons.prems by auto
qed simp

lemma mwf_fold_commit_action: "mwf pl \<Longrightarrow> mwf (fold (commit_action done) acts pl)"
  by (induction acts arbitrary: pl) (simp_all add: commit_action_def)

section \<open>Proposals\<close>

text \<open>What a call to \<^verbatim>\<open>propose\<close> computes, in one lemma the properties rest on.\<close>

lemma plan_domains_masks:
  assumes "plan_domains s hw threads g allowed opts now = Inr pd"
  shows "masks_ok g allowed (pd_domains pd) (pd_masks pd)"
  using assms
  by (auto simp: plan_domains_def Let_def split: prod.splits sum.splits dest!: mask_stage_ok)

lemma mask_ok_confirm:
  "mask_ok g allowed (map (\<lambda>d. d\<lparr>nd_confirmation := c\<rparr>) ds) t m \<longleftrightarrow> mask_ok g allowed ds t m"
  by (auto simp: mask_ok_def)

lemma planned_actions:
  assumes "plan_domains s hw threads (aggregate_input threads edges) allowed opts now = Inr pd"
  obtains inh acts where
    "action_stage (aggregate_input threads edges) allowed (placement s)
       (map (\<lambda>d. d\<lparr>nd_confirmation := c\<rparr>) (pd_domains pd)) (ms_delta (pd_masks pd)) ([], []) = Inr (inh, acts)"
    "map action_pair acts = to_write allowed (placement s) (ms_delta (pd_masks pd))"
    "set inh = fst ` {x \<in> set (ms_delta (pd_masks pd)). inherits allowed (placement s) x}"
proof -
  let ?g = "aggregate_input threads edges"
  let ?plan = "ms_delta (pd_masks pd)"
  let ?ds = "map (\<lambda>d. d\<lparr>nd_confirmation := c\<rparr>) (pd_domains pd)"
  have ok: "masks_ok ?g allowed ?ds (pd_masks pd)"
    using plan_domains_masks [OF assms] by (simp add: masks_ok_def mask_ok_confirm)
  have "\<forall>x \<in> set ?plan. mhas (by_tid ?g) (fst x) \<and> (\<exists>d \<in> set ?ds. fst x \<in> set (tids d))"
  proof
    fix x assume "x \<in> set ?plan"
    then have "mask_ok ?g allowed ?ds (fst x) (snd x)"
      using ok mwf_entry [of ?plan "fst x" "snd x"] by (simp add: masks_ok_def)
    then show "mhas (by_tid ?g) (fst x) \<and> (\<exists>d \<in> set ?ds. fst x \<in> set (tids d))"
      unfolding mask_ok_def by blast
  qed
  from action_stage_ok [OF this aggregate_wf_input, of allowed "placement s" "[]" "[]"]
  show thesis using that by auto
qed

lemma propose_succeeds:
  assumes "outstanding s = None"
  shows "\<exists>s' p. propose hw threads edges allowed opts now s = Inr (s', p)"
proof -
  obtain pd where pd: "plan_domains s hw threads (aggregate_input threads edges) allowed opts now = Inr pd"
    using plan_domains_total aggregate_wf_input by blast
  let ?c = "confirm_plan s (plan_signature (pd_domains pd))"
  obtain inh acts where "action_stage (aggregate_input threads edges) allowed (placement s)
      (map (\<lambda>d. d\<lparr>nd_confirmation := ?c\<rparr>) (pd_domains pd)) (ms_delta (pd_masks pd)) ([], []) = Inr (inh, acts)"
    by (rule planned_actions [OF pd, where c = ?c])
  then show ?thesis using assms pd by (simp add: propose_def Let_def)
qed

lemma propose_busy_fails:
  "outstanding s \<noteq> None \<Longrightarrow>
   propose hw threads edges allowed opts now s = Inl (Logic_Error ''outstanding NUMA domain proposal'')"
  by (simp add: propose_def)

lemma propose_idle_only:
  "propose hw threads edges allowed opts now s = Inr (s', p) \<Longrightarrow> outstanding s = None"
  using propose_busy_fails by (cases "outstanding s") auto

definition proposal_of ::
  "hardware_graph \<Rightarrow> thread_demand list \<Rightarrow> relation_edge list \<Rightarrow> (int, cpu_mask) omap \<Rightarrow>
   numa_domain_options \<Rightarrow> uint64 \<Rightarrow> numa_domain_solver \<Rightarrow> numa_domain_solver \<Rightarrow>
   numa_domain_proposal \<Rightarrow> planned \<Rightarrow> bool" where
  "proposal_of hw threads edges allowed opts now s s' p pd \<longleftrightarrow>
     plan_domains s hw threads (aggregate_input threads edges) allowed opts now = Inr pd \<and>
     planned_masks p = ms_delta (pd_masks pd) \<and>
     released_tids p = released (placement s) (planned_masks p) \<and>
     np_domains p = map (\<lambda>d. d\<lparr>nd_confirmation := confirm_plan s (plan_signature (pd_domains pd))\<rparr>) (pd_domains pd) \<and>
     ready p = is_ready opts (confirm_plan s (plan_signature (pd_domains pd))) pd (released_tids p) \<and>
     np_valid p = ms_valid (pd_masks pd) \<and>
     np_delta p = \<lparr>tid_to_cpu = [], tid_to_mask = action_delta (np_actions p)\<rparr> \<and>
     np_id p = next_proposal_id s \<and>
     s' = (update_solver pd (plan_signature (pd_domains pd))
             (confirm_plan s (plan_signature (pd_domains pd))) s)\<lparr>outstanding := Some p\<rparr> \<and>
     (ready p \<longrightarrow> map action_pair (np_actions p) = to_write allowed (placement s) (planned_masks p) \<and>
        set (inherited_tids p) = fst ` {x \<in> set (planned_masks p). inherits allowed (placement s) x}) \<and>
     (\<not> ready p \<longrightarrow> np_actions p = [] \<and> inherited_tids p = [])"

lemma propose_result:
  assumes "propose hw threads edges allowed opts now s = Inr (s', p)"
  obtains pd where "proposal_of hw threads edges allowed opts now s s' p pd"
proof -
  note idle = propose_idle_only [OF assms]
  obtain pd where pd: "plan_domains s hw threads (aggregate_input threads edges) allowed opts now = Inr pd"
    using plan_domains_total aggregate_wf_input by blast
  let ?c = "confirm_plan s (plan_signature (pd_domains pd))"
  obtain inh acts where act: "action_stage (aggregate_input threads edges) allowed (placement s)
      (map (\<lambda>d. d\<lparr>nd_confirmation := ?c\<rparr>) (pd_domains pd)) (ms_delta (pd_masks pd)) ([], []) = Inr (inh, acts)"
    "map action_pair acts = to_write allowed (placement s) (ms_delta (pd_masks pd))"
    "set inh = fst ` {x \<in> set (ms_delta (pd_masks pd)). inherits allowed (placement s) x}"
    by (rule planned_actions [OF pd, where c = ?c])
  let ?g = "aggregate_input threads edges"
  let ?rel = "released (placement s) (ms_delta (pd_masks pd))"
  let ?rdy = "is_ready opts ?c pd ?rel"
  have p: "p = \<lparr>np_id = next_proposal_id s,
      np_delta = \<lparr>tid_to_cpu = [], tid_to_mask = action_delta (if ?rdy then acts else [])\<rparr>,
      planned_masks = ms_delta (pd_masks pd), inherited_tids = (if ?rdy then inh else []),
      np_families = pd_families pd, family_pairs = ps_family_pairs (pd_pairs pd),
      np_domains = map (\<lambda>d. d\<lparr>nd_confirmation := ?c\<rparr>) (pd_domains pd),
      np_actions = (if ?rdy then acts else []),
      released_tids = ?rel, input_family_count = length (by_family ?g),
      input_cross_family_pair_count = length (ag_cross ?g),
      selected_family_pair_count = length (select_family_edges (ag_cross ?g) (family_edges_per_family opts)),
      total_demand = ag_total_demand ?g, total_relation = ag_total_relation ?g,
      ready = ?rdy, np_valid = ms_valid (pd_masks pd), np_invalid_reason = ms_reason (pd_masks pd)\<rparr>"
    and s': "s' = (update_solver pd (plan_signature (pd_domains pd)) ?c s)\<lparr>outstanding := Some p\<rparr>"
    using assms idle pd act(1) unfolding propose_def Let_def by (auto split: if_splits)
  show thesis
    by (rule that [of pd]) (simp add: proposal_of_def pd p s' act)
qed

lemma propose_keeps:
  assumes "propose hw threads edges allowed opts now s = Inr (s', p)"
  shows "outstanding s' = Some p" "placement s' = placement s" "domains s' = domains s"
    "generation s' = generation s" "next_proposal_id s' = next_proposal_id s + 1" "np_id p = next_proposal_id s"
  by (rule propose_result [OF assms]; simp add: proposal_of_def update_solver_def)+

section \<open>The protocol of the domain solver\<close>

type_synonym domain_input =
  "hardware_graph \<times> thread_demand list \<times> relation_edge list \<times> (int, cpu_mask) omap \<times> numa_domain_options \<times> uint64"

definition propose_on :: "domain_input \<Rightarrow> numa_domain_solver \<Rightarrow> (numa_domain_solver \<times> numa_domain_proposal) result" where
  "propose_on i s =
     (case i of (hw, threads, edges, allowed, opts, now) \<Rightarrow> propose hw threads edges allowed opts now s)"

definition commit_on :: "numa_domain_proposal \<Rightarrow> uint64 \<times> int oset \<Rightarrow> numa_domain_solver \<Rightarrow> numa_domain_solver result" where
  "commit_on p c s = commit p (fst c) (snd c) s"

definition pending_id :: "numa_domain_solver \<Rightarrow> uint64 option" where
  "pending_id s = map_option np_id (outstanding s)"

lemma commit_domain_keeps:
  "outstanding (fold (commit_domain active now) ds s) = outstanding s \<and>
   next_proposal_id (fold (commit_domain active now) ds s) = next_proposal_id s \<and>
   placement (fold (commit_domain active now) ds s) = placement s \<and>
   generation (fold (commit_domain active now) ds s) = generation s"
  by (induction ds arbitrary: s) (simp_all add: commit_domain_def)

lemma commit_result:
  assumes "commit p now done s = Inr s'"
  shows "outstanding s' = None" "placement s' = commit_placement p done (placement s)"
    "domains s' = np_domains p" "generation s' = generation s + 1" "next_proposal_id s' = next_proposal_id s"
  using assms commit_domain_keeps by (auto simp: commit_def Let_def split: if_splits)

lemma commit_when: "pending_id s = Some (np_id p) \<longleftrightarrow> (\<exists>s'. commit p now done s = Inr s')"
  by (auto simp: commit_def Let_def pending_id_def split: option.splits)

interpretation domain_protocol: proposal_protocol pending_id next_proposal_id np_id propose_on commit_on discard
proof unfold_locales
  show "\<exists>e. propose_on i s = Inl e" if "pending_id s \<noteq> None" for i s
    using that propose_busy_fails by (auto simp: propose_on_def pending_id_def split: prod.splits)
  show "pending_id s' = Some (np_id p) \<and> np_id p = next_proposal_id s \<and> next_proposal_id s' = next_proposal_id s + 1"
    if "propose_on i s = Inr (s', p)" for i s s' p
  proof -
    obtain hw threads edges allowed opts now where i: "i = (hw, threads, edges, allowed, opts, now)" by (cases i) auto
    then have "propose hw threads edges allowed opts now s = Inr (s', p)" using that by (simp add: propose_on_def)
    from propose_keeps [OF this] show ?thesis by (simp add: pending_id_def)
  qed
  show "\<exists>s'. commit_on p c s = Inr s' \<and> pending_id s' = None \<and> next_proposal_id s' = next_proposal_id s"
    if "pending_id s = Some (np_id p)" for s p c
    using that commit_when commit_result unfolding commit_on_def pending_id_def by (metis option.map_disc_iff)
  show "\<exists>e. commit_on p c s = Inl e" if "pending_id s \<noteq> Some (np_id p)" for s p c
    using that commit_when [of s p "fst c" "snd c"] unfolding commit_on_def by (metis sum.exhaust)
  show "pending_id (discard p s) = None \<and> next_proposal_id (discard p s) = next_proposal_id s"
    if "pending_id s = Some (np_id p)" for s p
    using that by (auto simp: discard_def pending_id_def)
  show "discard p s = s" if "pending_id s \<noteq> Some (np_id p)" for s p
    using that by (auto simp: discard_def pending_id_def split: option.splits)
qed

section \<open>An example run\<close>

definition sample_opts :: numa_domain_options where
  "sample_opts = \<lparr>family_minimum_demand = 1, family_minimum_internal_relation = 1,
     family_minimum_self_containment = 0, family_minimum_relative_internal = 0, domain_merge_ratio = 1,
     family_edges_per_family = 4, family_stability_confirmations = 1, domain_stability_confirmations = 1,
     plan_confirmations = 1, maximum_threads_per_domain = 8, capacity_ratio = 1, expand_ratio = 1,
     opt_expand_confirmations = 1, shrink_ratio = 0, opt_shrink_confirmations = 1, minimum_dwell_ns = 10\<rparr>"

definition sample_edge :: "int \<Rightarrow> int \<Rightarrow> double \<Rightarrow> relation_edge" where
  "sample_edge a b w = \<lparr>from_tid = a, to_tid = b, activity = 0, sync = 0, share = 0, stability = 1,
     score = w, handoff_rate = 0, shared_vfs_seconds = 0, active_overlap = 0, observation_count = 1,
     coverage = 1, coefficient_of_variation = 0\<rparr>"

definition sample_threads :: "thread_demand list" where
  "sample_threads = [sample_thread 10 ''a'' 1 2, sample_thread 11 ''a'' 1 3]"

definition sample_allowed :: "(int, cpu_mask) omap" where
  "sample_allowed = [(10, [0, 1, 2, 3]), (11, [2])]"

definition sample_propose :: "(numa_domain_solver \<times> numa_domain_proposal) result" where
  "sample_propose =
     propose sample_hardware sample_threads [sample_edge 10 11 2] sample_allowed sample_opts 5 new_domain_solver"

lemma sample_propose_facts:
  "case sample_propose of Inl e \<Rightarrow> False
   | Inr (s, p) \<Rightarrow> planned_masks p = [(10, [2, 3]), (11, [2])] \<and> ready p \<and> np_valid p \<and>
       tid_to_mask (np_delta p) = [(10, [2, 3])]"
  by code_simp

lemma sample_proposal:
  obtains s p where
    "propose sample_hardware sample_threads [sample_edge 10 11 2] sample_allowed sample_opts 5 new_domain_solver =
       Inr (s, p)"
    "planned_masks p = [(10, [2, 3]), (11, [2])]" "ready p" "np_valid p"
    "tid_to_mask (np_delta p) = [(10, [2, 3])]"
  using sample_propose_facts by (auto simp: sample_propose_def split: sum.splits)

section \<open>Properties of proposals\<close>

text \<open>
  Proposing fails in one case only, an outstanding proposal. Otherwise every lookup with
  \<^verbatim>\<open>at\<close> and the search for the domain of a thread succeed, and the call returns a proposal that
  is now the outstanding one.
\<close>

lemma propose_total:
  "(outstanding s \<noteq> None \<longrightarrow>
      propose hw threads edges allowed opts now s = Inl (Logic_Error ''outstanding NUMA domain proposal'')) \<and>
   (outstanding s = None \<longrightarrow>
      (\<exists>s' p. propose hw threads edges allowed opts now s = Inr (s', p) \<and> outstanding s' = Some p))"
  using propose_busy_fails [of s hw threads edges allowed opts now]
    propose_succeeds [of s hw threads edges allowed opts now]
    propose_keeps(1) [of hw threads edges allowed opts now s] by metis

text \<open>
  C12. A planned mask is never empty, lies within the mask of one valid domain that has the
  thread, and never leaves the CPUs the application allows the thread.
\<close>

theorem planned_masks_safe:
  assumes "propose hw threads edges allowed opts now s = Inr (s', p)"
    and "map_of (planned_masks p) t = Some m"
  shows "m \<noteq> [] \<and> (\<forall>a. map_of allowed t = Some a \<longrightarrow> set m \<subseteq> set a) \<and>
    (\<exists>d \<in> set (np_domains p). nd_valid d \<and> t \<in> set (tids d) \<and> set m \<subseteq> set (target_mask d) \<and>
      (map_of allowed t = None \<longrightarrow> m = target_mask d))"
proof -
  obtain pd where pd: "proposal_of hw threads edges allowed opts now s s' p pd" using propose_result [OF assms(1)] .
  then have plan: "plan_domains s hw threads (aggregate_input threads edges) allowed opts now = Inr pd"
    by (simp add: proposal_of_def)
  have "mask_ok (aggregate_input threads edges) allowed (np_domains p) t m"
    using plan_domains_masks [OF plan] assms(2) pd by (simp add: proposal_of_def masks_ok_def mask_ok_confirm)
  then obtain d where "d \<in> set (np_domains p)" "nd_valid d" "t \<in> set (tids d)" "m \<noteq> []"
    "m = member_target allowed (target_mask d) t" unfolding mask_ok_def by blast
  then show ?thesis by (auto simp: member_target_def split: option.splits)
qed

theorem planned_masks_safe_witness:
  "\<exists>p :: numa_domain_proposal. map_of (planned_masks p) 11 = Some [2] \<and> (\<exists>d \<in> set (np_domains p). nd_valid d \<and> 11 \<in> set (tids d))"
proof (rule sample_proposal)
  fix s p
  assume *: "propose sample_hardware sample_threads [sample_edge 10 11 2] sample_allowed sample_opts 5
      new_domain_solver = Inr (s, p)" "planned_masks p = [(10, [2, 3]), (11, [2])]"
  then have m: "map_of (planned_masks p) 11 = Some [2]" by simp
  then show ?thesis using planned_masks_safe [OF *(1) m] by (intro exI [of _ p]) blast
qed



section \<open>Properties of commits\<close>

lemma proposal_plan_wf:
  assumes "proposal_of hw threads edges allowed opts now s s' p pd" shows "mwf (planned_masks p)"
proof -
  have "plan_domains s hw threads (aggregate_input threads edges) allowed opts now = Inr pd"
    using assms by (simp add: proposal_of_def)
  then show ?thesis using plan_domains_masks assms by (auto simp: proposal_of_def masks_ok_def)
qed

lemma proposal_delta:
  assumes "proposal_of hw threads edges allowed opts now s s' p pd" "ready p"
  shows "tid_to_mask (np_delta p) = to_write allowed (placement s) (planned_masks p)"
  using map_of_action_delta [OF proposal_plan_wf [OF assms(1)]] assms by (simp add: proposal_of_def)

lemma ready_plan_cases:
  assumes "proposal_of hw threads edges allowed opts now s s' p pd" "ready p" "map_of (planned_masks p) t = Some m"
  shows "map_of (placement s) t = Some m \<or> t \<in> set (inherited_tids p) \<or>
    (t, m) \<in> set (tid_to_mask (np_delta p))"
proof -
  have planned: "(t, m) \<in> set (planned_masks p)" using mwf_entry [OF proposal_plan_wf [OF assms(1)]] assms(3) by blast
  have inh: "set (inherited_tids p) = fst ` {x \<in> set (planned_masks p). inherits allowed (placement s) x}"
    using assms(1,2) by (simp add: proposal_of_def)
  show ?thesis
  proof (cases "inherits allowed (placement s) (t, m)")
    case True
    then have "t \<in> set (inherited_tids p)" unfolding inh using planned by force
    then show ?thesis by blast
  next
    case False
    then have "(t, m) \<in> set (to_write allowed (placement s) (planned_masks p)) \<or> unchanged (placement s) (t, m)"
      using planned by (simp add: to_write_def)
    then show ?thesis using proposal_delta [OF assms(1,2)] by (simp add: unchanged_def) blast
  qed
qed

lemma actions_planned:
  assumes "proposal_of hw threads edges allowed opts now s s' p pd" "a \<in> set (np_actions p)"
  shows "map_of (planned_masks p) (tid (na_identity a)) = Some (na_target_mask a)"
proof -
  have r: "ready p" using assms by (cases "ready p") (auto simp: proposal_of_def)
  then have acts: "map action_pair (np_actions p) = to_write allowed (placement s) (planned_masks p)"
    using assms(1) by (simp add: proposal_of_def)
  have "action_pair a \<in> set (map action_pair (np_actions p))" using assms(2) by simp
  then have "action_pair a \<in> set (planned_masks p)" unfolding acts by (simp add: to_write_def)
  then show ?thesis using mwf_entry [OF proposal_plan_wf [OF assms(1)]] by (simp add: action_pair_def)
qed

lemma commit_placement_lookup:
  assumes "proposal_of hw threads edges allowed opts now s s' p pd"
  shows "map_of (commit_placement p done (placement s)) t =
    (case map_of (planned_masks p) t of
       None \<Rightarrow> None
     | Some m \<Rightarrow> if taken p done (placement s) t then Some m else None)"
proof -
  let ?ats = "fold (\<lambda>a s. sput (tid (na_identity a)) s) (np_actions p) []"
  let ?freed = "fold mdel (released_tids p) (placement s)"
  let ?kept = "fold (commit_mask p ?ats done) (planned_masks p) ?freed"
  have ats: "set ?ats = fst ` action_pair ` set (np_actions p)"
  proof -
    have "set (fold (\<lambda>a s. sput (tid (na_identity a)) s) xs r) = (\<lambda>a. tid (na_identity a)) ` set xs \<union> set r" for xs r
      by (induction xs arbitrary: r) auto
    from this [of "np_actions p" "[]"] show ?thesis by (simp add: action_pair_def image_image)
  qed
  have "set (released_tids p) = dom (map_of (placement s)) - dom (map_of (planned_masks p))"
    using assms set_released by (simp add: proposal_of_def)
  then have freed: "map_of ?freed t' = (if t' \<in> dom (map_of (planned_masks p)) then map_of (placement s) t' else None)" for t'
    by (auto simp: map_of_fold_mdel)
  note dist = mwf_distinct [OF proposal_plan_wf [OF assms]]
  have kept: "map_of ?kept t = (case map_of (planned_masks p) t of None \<Rightarrow> None
      | Some m \<Rightarrow> if taken p done (placement s) t then Some m else None)"
    using map_of_fold_commit_mask [OF dist, of p ?ats "done" ?freed t] freed [of t] ats
    by (auto simp: taken_def mhas_def split: option.splits)
  have "map_of (fold (commit_action done) (np_actions p) ?kept) t = map_of ?kept t"
  proof (rule map_of_fold_commit_action)
    show "map_of (planned_masks p) (tid (na_identity a)) = Some (na_target_mask a)" if "a \<in> set (np_actions p)" for a
      using actions_planned [OF assms that] .
    show "map_of ?kept t = map_of (planned_masks p) t \<or>
        t \<notin> (\<lambda>a. tid (na_identity a)) ` {a \<in> set (np_actions p). done = [] \<or> tid (na_identity a) \<in> set done}"
      using kept by (auto simp: taken_def action_pair_def image_image split: option.splits)
  qed
  then show ?thesis using kept by (simp add: commit_placement_def Let_def)
qed

lemma mwf_commit_placement: "mwf pl \<Longrightarrow> mwf (commit_placement p done pl)"
  by (simp add: commit_placement_def Let_def mwf_fold_mdel mwf_fold_commit_mask mwf_fold_commit_action)

text \<open>
  C14. A ready proposal whose delta was written completely leaves the solver with exactly the
  planned masks: after a commit that names every thread of the delta, or names none, the
  placement is the plan.
\<close>

theorem commit_installs_plan:
  assumes "propose hw threads edges allowed opts now s = Inr (s1, p)" "ready p" "mwf (placement s)"
    and "commit p now' done s1 = Inr s2"
    and "done = [] \<or> dom (map_of (tid_to_mask (np_delta p))) \<subseteq> set done"
  shows "placement s2 = planned_masks p \<and> outstanding s2 = None \<and> generation s2 = generation s + 1"
proof -
  obtain pd where pd: "proposal_of hw threads edges allowed opts now s s1 p pd" using propose_result [OF assms(1)] .
  have s2: "placement s2 = commit_placement p done (placement s)" "outstanding s2 = None"
    "generation s2 = generation s + 1"
    using commit_result [OF assms(4)] propose_keeps [OF assms(1)] by simp_all
  have taken: "taken p done (placement s) t" if t: "map_of (planned_masks p) t = Some m" for t m
  proof -
    have acts: "set (tid_to_mask (np_delta p)) = action_pair ` set (np_actions p)"
      using proposal_delta [OF pd assms(2)] pd assms(2) by (simp add: proposal_of_def flip: list.set_map)
    consider "map_of (placement s) t = Some m" | "t \<in> set (inherited_tids p)" | "(t, m) \<in> set (tid_to_mask (np_delta p))"
      using ready_plan_cases [OF pd assms(2) t] by blast
    then show ?thesis
    proof cases
      case 3
      then have "t \<in> fst ` action_pair ` set (np_actions p)" unfolding acts by (rule rev_image_eqI) simp
      moreover have "t \<in> dom (map_of (tid_to_mask (np_delta p)))"
        using 3 by (auto simp: dom_map_of_conv_image_fst intro: rev_image_eqI)
      ultimately show ?thesis using assms(5) by (auto simp: taken_def)
    qed (auto simp: taken_def mhas_def)
  qed
  have "map_of (placement s2) = map_of (planned_masks p)"
    using commit_placement_lookup [OF pd, of "done"] taken s2(1) by (auto simp: fun_eq_iff split: option.splits)
  moreover have "mwf (placement s2)" using s2(1) assms(3) mwf_commit_placement by simp
  ultimately show ?thesis using mwf_eqI proposal_plan_wf [OF pd] s2 by blast
qed

theorem commit_installs_plan_witness:
  "\<exists>s2. placement s2 = [(10, [2, 3]), (11, [2])] \<and> outstanding s2 = None \<and> generation (s2 :: numa_domain_solver) = 1"
proof (rule sample_proposal)
  fix s p
  assume *: "propose sample_hardware sample_threads [sample_edge 10 11 2] sample_allowed sample_opts 5
      new_domain_solver = Inr (s, p)" "planned_masks p = [(10, [2, 3]), (11, [2])]" "ready p"
    "tid_to_mask (np_delta p) = [(10, [2, 3])]"
  have "pending_id s = Some (np_id p)" using propose_keeps(1) [OF *(1)] by (simp add: pending_id_def)
  then obtain s2 where "commit p 6 [10] s = Inr s2" using commit_when by blast
  from commit_installs_plan [OF *(1,3) _ this] show ?thesis
    using *(2,4) by (intro exI [of _ s2]) (simp add: new_domain_solver_def)
qed

text \<open>
  What a partial commit claims. A thread that already has a placement is given its new
  planned mask although its action was not among the committed ones, and a commit with an
  empty set of committed threads takes every action as done.
\<close>

theorem partial_commit_overclaims:
  assumes "propose hw threads edges allowed opts now s = Inr (s1, p)"
    and "commit p now' done s1 = Inr s2" "map_of (tid_to_mask (np_delta p)) t = Some m"
    and "t \<in> dom (map_of (placement s)) \<or> done = []"
  shows "map_of (placement s2) t = Some m"
proof -
  obtain pd where pd: "proposal_of hw threads edges allowed opts now s s1 p pd" using propose_result [OF assms(1)] .
  have s2: "placement s2 = commit_placement p done (placement s)"
    using commit_result(2) [OF assms(2)] propose_keeps(2) [OF assms(1)] by simp
  have "ready p" using pd assms(3) by (cases "ready p") (auto simp: proposal_of_def action_delta_def)
  note delta = proposal_delta [OF pd this]
  have acts: "map action_pair (np_actions p) = to_write allowed (placement s) (planned_masks p)"
    using pd \<open>ready p\<close> by (simp add: proposal_of_def)
  have tm: "(t, m) \<in> set (to_write allowed (placement s) (planned_masks p))"
    using assms(3) delta map_of_SomeD by metis
  then have "map_of (planned_masks p) t = Some m"
    using mwf_entry [OF proposal_plan_wf [OF pd]] by (auto simp: to_write_def)
  moreover have "t \<in> fst ` action_pair ` set (np_actions p)"
    using tm acts by (metis fst_conv image_eqI list.set_map)
  ultimately show ?thesis
    using commit_placement_lookup [OF pd, of "done" t] s2 assms(4) by (auto simp: taken_def mhas_def)
qed

theorem partial_commit_overclaims_witness:
  "\<exists>s2. map_of (placement (s2 :: numa_domain_solver)) 10 = Some [2, 3]"
proof (rule sample_proposal)
  fix s p
  assume *: "propose sample_hardware sample_threads [sample_edge 10 11 2] sample_allowed sample_opts 5
      new_domain_solver = Inr (s, p)" "tid_to_mask (np_delta p) = [(10, [2, 3])]"
  have "pending_id s = Some (np_id p)" using propose_keeps(1) [OF *(1)] by (simp add: pending_id_def)
  then obtain s2 where "commit p 6 [] s = Inr s2" using commit_when by blast
  from partial_commit_overclaims [OF *(1) this, of 10] show ?thesis using *(2) by auto
qed

end
