(* ===== verification/Domain_Lifecycle.thy ===== *)
theory Domain_Lifecycle
  imports Domain_Safety
begin

text \<open>
  The life of domains across windows: that a family never belongs to two domains of a
  proposal, that an ended proposal cannot be committed again, how long a committed domain is
  held, and when its nodes change.
\<close>

section \<open>Seeds are anchors\<close>

definition seeded :: "(string, family_metric) omap \<Rightarrow> string \<Rightarrow> bool" where
  "seeded metrics n \<longleftrightarrow> (\<exists>m. map_of metrics n = Some m \<and> cross_seed m)"

definition seeds_ok :: "pair_state \<Rightarrow> bool" where
  "seeds_ok ps \<longleftrightarrow> (\<forall>q \<in> set (confirmed_seeds ps). seeded (ps_metrics ps) (fst q) \<and> seeded (ps_metrics ps) (snd q))"

lemma seeded_update:
  "seeded metrics n \<Longrightarrow> (\<And>m. cross_seed m \<Longrightarrow> cross_seed (f m)) \<Longrightarrow> seeded (update_metric f k metrics) n"
  by (auto simp: seeded_def update_metric_def split: option.splits)

lemma seeded_raise: "n \<in> dom (map_of metrics) \<Longrightarrow> seeded (update_metric (raise_seed c True) n metrics) n"
  by (auto simp: seeded_def update_metric_def raise_seed_def)

lemma seeds_ok_evaluate:
  assumes "seeds_ok ps" "map_of (ps_metrics ps) (fst q) = Some l" "map_of (ps_metrics ps) (snd q) = Some r"
  shows "seeds_ok (evaluate_pair opts g q w l r ps)"
proof -
  let ?ps = "evaluate_pair opts g q w l r ps"
  obtain c b where m: "ps_metrics ?ps = update_metric (raise_seed c b) (snd q)
      (update_metric (raise_seed c b) (fst q) (ps_metrics ps))"
    and s: "confirmed_seeds ?ps = (if b then confirmed_seeds ps @ [q] else confirmed_seeds ps)"
    by (simp add: evaluate_pair_def Let_def)
  have keep: "seeded (ps_metrics ?ps) n" if "seeded (ps_metrics ps) n" for n
    unfolding m using that by (intro seeded_update) (simp_all add: raise_seed_def)
  have "seeded (ps_metrics ?ps) (fst q) \<and> seeded (ps_metrics ?ps) (snd q)" if b
  proof
    have "snd q \<in> dom (map_of (update_metric (raise_seed c b) (fst q) (ps_metrics ps)))"
      unfolding dom_update_metric using assms(3) by blast
    then show "seeded (ps_metrics ?ps) (snd q)" unfolding m using that seeded_raise by simp
    have "seeded (update_metric (raise_seed c b) (fst q) (ps_metrics ps)) (fst q)"
      using that assms(2) seeded_raise [of "fst q" "ps_metrics ps" c] by auto
    then show "seeded (ps_metrics ?ps) (fst q)" unfolding m by (rule seeded_update) (simp add: raise_seed_def)
  qed
  then show ?thesis using assms(1) keep s by (auto simp: seeds_ok_def)
qed

lemma seeds_ok_pair_stage:
  "pair_stage opts g pairs ps = Inr ps' \<Longrightarrow> seeds_ok ps \<Longrightarrow> seeds_ok ps'"
proof (induction pairs arbitrary: ps)
  case (Cons q pairs)
  then obtain w l r where "map_of (ps_metrics ps) (fst q) = Some l" "map_of (ps_metrics ps) (snd q) = Some r"
    "pair_stage opts g pairs (evaluate_pair opts g q w l r ps) = Inr ps'"
    by (auto simp: at_metric_def split: option.splits sum.splits)
  then show ?case using Cons.IH Cons.prems(2) seeds_ok_evaluate by blast
qed simp

lemma seeds_ok_grace_stage: "seeds_ok ps \<Longrightarrow> seeds_ok (grace_stage opts ps)"
proof -
  have "seeded metrics n \<Longrightarrow> seeded (fold (pending_step opts conf) gs metrics) n" for metrics conf gs n
  proof (induction gs arbitrary: metrics)
    case (Cons x gs)
    have "seeded (pending_step opts conf x metrics) n"
      using Cons.prems by (auto simp: pending_step_def split: prod.splits intro!: seeded_update)
    then show ?case using Cons.IH by simp
  qed simp
  then show "seeds_ok ps \<Longrightarrow> seeds_ok (grace_stage opts ps)" by (simp add: seeds_ok_def grace_stage_def Let_def)
qed

lemma mwf_grace_stage: "mwf (ps_metrics ps) \<Longrightarrow> mwf (ps_metrics (grace_stage opts ps))"
proof -
  have "mwf m \<Longrightarrow> mwf (fold (pending_step opts conf) gs m)" for m conf gs
    by (induction gs arbitrary: m) (simp_all add: pending_step_def split: prod.splits)
  then show "mwf (ps_metrics ps) \<Longrightarrow> mwf (ps_metrics (grace_stage opts ps))" by (simp add: grace_stage_def Let_def)
qed

lemma anchor_set_facts:
  assumes "mwf metrics"
  shows "swf (anchor_set metrics)" "seeded metrics n \<Longrightarrow> n \<in> set (anchor_set metrics)"
proof -
  have fold: "swf s \<Longrightarrow> swf (fold (\<lambda>(n, m) s. if anchor (decide_anchor m) then sput n s else s) ms s) \<and>
    set (fold (\<lambda>(n, m) s. if anchor (decide_anchor m) then sput n s else s) ms s) =
      set s \<union> fst ` {x \<in> set ms. anchor (decide_anchor (snd x))}" for ms s
  proof (induction ms arbitrary: s)
    case (Cons x ms)
    show ?case
      using Cons.IH [of s] Cons.IH [of "sput (fst x) s"] Cons.prems by (cases x) (auto simp: image_iff)
  qed simp
  show "swf (anchor_set metrics)" using fold [of "[]" metrics] by (simp add: anchor_set_def)
  assume "seeded metrics n"
  then obtain m where "(n, m) \<in> set metrics" "anchor (decide_anchor m)"
    using mwf_entry [OF assms] by (auto simp: seeded_def decide_anchor_def)
  then show "n \<in> set (anchor_set metrics)"
    using fold [of "[]" metrics] by (auto simp: anchor_set_def intro: rev_image_eqI)
qed

section \<open>A family is in at most one domain\<close>

definition uses :: "string \<Rightarrow> numa_domain list \<Rightarrow> nat" where
  "uses f ds = length (filter (\<lambda>d. f \<in> set (families d)) ds)"

lemma uses_families: "uses f ds = length (filter (\<lambda>fs. f \<in> set fs) (map families ds))"
  by (simp add: uses_def filter_map comp_def)

lemma uses_append [simp]: "uses f (ds @ es) = uses f ds + uses f es"
  by (simp add: uses_def)

lemma uses_filter: "uses f (filter P ds) \<le> uses f ds"
  unfolding uses_def by (induction ds) auto

lemma uses_sort_key: "uses f (sort_key k ds) = uses f ds"
  by (simp add: uses_def filter_sort)

lemma uses_dwell_step:
  assumes "\<forall>f. uses f (dw_domains dw) \<le> 1"
  shows "\<forall>f. uses f (dw_domains (dwell_step opts g now ev c dw)) \<le> 1"
proof
  fix f
  let ?kept = "filter (disjoint_families c) (dw_domains dw)"
  have "uses f ?kept \<le> uses f (dw_domains dw)" by (rule uses_filter)
  moreover have "uses f ?kept = 0" if "f \<in> set (families c)"
    using that by (auto simp: uses_def disjoint_families_def filter_empty_conv list_ex_iff)
  moreover have "families (hold_domain opts g c) = families c" by (simp add: hold_domain_def Let_def)
  ultimately have "uses f (?kept @ [hold_domain opts g c]) \<le> 1"
    using assms by (cases "f \<in> set (families c)") (auto simp: uses_def intro: order_trans)
  then show "uses f (dw_domains (dwell_step opts g now ev c dw)) \<le> 1"
    using assms by (simp add: dwell_step_def Let_def split: option.splits)
qed

lemma uses_dwell_stage:
  "\<forall>f. uses f (dw_domains dw) \<le> 1 \<Longrightarrow> \<forall>f. uses f (dw_domains (dwell_stage opts g now ev cs dw)) \<le> 1"
proof (induction cs arbitrary: dw)
  case (Cons c cs)
  then show ?case
    using uses_dwell_step [OF Cons.prems, of opts g now ev c] by (simp add: dwell_stage_def)
qed (simp add: dwell_stage_def)

lemma families_assign_members: "assign_members allowed ms d delta = (d', delta') \<Longrightarrow> families d' = families d"
  by (induction ms arbitrary: delta) (auto simp: Let_def split: if_splits)

lemma families_choose_nodes:
  "choose_domain_nodes s hw opts now req d pl = (d', req', pl') \<Longrightarrow>
   families d' = families d \<and> pl_domains pl' = pl_domains pl"
  by (auto simp: choose_domain_nodes_def node_lifecycle_def Let_def split: option.splits if_splits)

lemma families_plan_component:
  "map families (pl_domains (plan_component s hw threads g allowed opts now names pl)) =
     map families (pl_domains pl) @ [sort names]"
proof -
  let ?names = "sort names"
  let ?members = "component_members g ?names"
  let ?d0 = "start_domain opts ?names ?members"
  let ?wanted = "choice_nodes (choose_nodes hw (nd_demand ?d0) (capacity_ratio opts) ?members threads
                     (pl_placed pl) ?names (ag_cross g))"
  obtain d1 req pl1 where 1: "choose_domain_nodes s hw opts now ?wanted ?d0 pl = (d1, req, pl1)"
    by (metis prod_cases3)
  let ?d2 = "record_choice (evaluate_nodes hw req (nd_demand d1) (capacity_ratio opts) ?members threads
                (pl_placed pl) ?names (ag_cross g)) (mask_for_nodes hw req) pl1 d1"
  obtain d3 delta where 2: "assign_members allowed ?members ?d2 (pl_delta pl1) = (d3, delta)" by fastforce
  have "families ?d0 = ?names" by (simp add: start_domain_def Let_def)
  then have "families d3 = ?names"
    using families_assign_members [OF 2] families_choose_nodes [OF 1] by (simp add: record_choice_def)
  then show ?thesis using 1 2 families_choose_nodes [OF 1] by (simp add: plan_component_def Let_def)
qed

lemma families_plan_stage:
  "map families (pl_domains (plan_stage s hw threads g allowed opts now comps)) = map (sort \<circ> snd) comps"
proof -
  have "map families (pl_domains (fold (\<lambda>(r, names) pl. plan_component s hw threads g allowed opts now names pl) comps pl)) =
      map families (pl_domains pl) @ map (sort \<circ> snd) comps" for pl
  proof (induction comps arbitrary: pl)
    case (Cons c comps)
    then show ?case by (cases c) (simp add: families_plan_component)
  qed simp
  then show ?thesis by (simp add: plan_stage_def)
qed

lemma component_once:
  assumes "swf anchors" "set seeds \<subseteq> set anchors \<times> set anchors"
  shows "length (filter (\<lambda>c. f \<in> set (snd c)) (family_components anchors seeds)) \<le> 1"
proof -
  let ?cs = "family_components anchors seeds"
  obtain h where h: "parents_of (family_parents anchors seeds) h"
    "dom (map_of (family_parents anchors seeds)) = set anchors"
    using family_parents_correct [OF assms(2)] by metis
  note wf = family_components_classes(1) [OF h]
  have only: "c = d" if "c \<in> set ?cs" "d \<in> set ?cs" "f \<in> set (snd c)" "f \<in> set (snd d)" for c d
  proof -
    have cls: "snd e = filter (\<lambda>n. h n = fst e) anchors" if "e \<in> set ?cs" for e
    proof -
      have "map_of ?cs (fst e) = Some (snd e)" using that mwf_entry [OF wf, of "fst e" "snd e"] by simp
      then show ?thesis using family_components_classes(2) [OF h, of "fst e"] by (simp split: if_splits)
    qed
    then have "h f = fst c" "h f = fst d" using that by auto
    then show ?thesis using cls that by (simp add: prod_eq_iff)
  qed
  have "distinct ?cs" using mwf_distinct [OF wf] by (simp add: distinct_map)
  then have "length (filter (\<lambda>c. f \<in> set (snd c)) ?cs) = card {c \<in> set ?cs. f \<in> set (snd c)}"
    using distinct_card [OF distinct_filter, of ?cs "\<lambda>c. f \<in> set (snd c)"] by simp
  also have "\<dots> \<le> 1" using only by (simp add: card_le_Suc0_iff_eq)
  finally show ?thesis .
qed

lemma plan_domains_disjoint:
  assumes "plan_domains s hw threads g allowed opts now = Inr pd" "aggregate_wf g"
  shows "uses f (pd_domains pd) \<le> 1"
proof -
  obtain conf metrics where fs: "family_stage opts g (family_confirmations s) = (conf, metrics)" by fastforce
  let ?ps0 = "\<lparr>ps_metrics = metrics, ps_confirmations = merge_confirmations s,
                 ps_grace = merge_pending_grace s, evaluated_merges = [], qualifying_merges = [],
                 ps_family_pairs = [], confirmed_seeds = []\<rparr>"
  let ?sel = "select_family_edges (ag_cross g) (family_edges_per_family opts)"
  obtain ps1 where ps1: "pair_stage opts g ?sel ?ps0 = Inr ps1"
    using assms(1) fs by (auto simp: plan_domains_def Let_def split: sum.splits)
  have sel: "set ?sel \<subseteq> dom (map_of (ag_cross g))"
    "\<forall>p \<in> set ?sel. fst p \<in> dom (map_of (ps_metrics ?ps0)) \<and> snd p \<in> dom (map_of (ps_metrics ?ps0))"
    using selected_pairs_known [OF assms(2) fs, of "family_edges_per_family opts"] by auto
  let ?ps = "grace_stage opts ps1"
  let ?comps = "family_components (anchor_set (ps_metrics ?ps)) (confirmed_seeds ?ps)"
  have ok: "seeds_ok ?ps"
    by (rule seeds_ok_grace_stage [OF seeds_ok_pair_stage [OF ps1]]) (simp add: seeds_ok_def)
  have wf: "mwf (ps_metrics ?ps)"
    using pair_stage_total [OF sel, of opts] ps1 family_stage_dom [OF fs] mwf_grace_stage by auto
  have "set (confirmed_seeds ?ps) \<subseteq> set (anchor_set (ps_metrics ?ps)) \<times> set (anchor_set (ps_metrics ?ps))"
    using ok anchor_set_facts(2) [OF wf] unfolding seeds_ok_def by (auto simp: mem_Times_iff)
  note once = component_once [OF anchor_set_facts(1) [OF wf] this]
  let ?pl = "plan_stage s hw threads g allowed opts now ?comps"
  have start: "\<forall>f. uses f (pl_domains ?pl) \<le> 1"
  proof
    fix f
    have "uses f (pl_domains ?pl) = length (filter (\<lambda>c. f \<in> set (snd c)) ?comps)"
      unfolding uses_families families_plan_stage by (simp add: filter_map comp_def)
    then show "uses f (pl_domains ?pl) \<le> 1" using once [of f] by simp
  qed
  let ?ev = "refresh_evidence now (pl_domains ?pl) (domains s) (last_confirmed_domain_evidence_ns s)"
  let ?dw = "dwell_stage opts g now ?ev (domains s)
     \<lparr>dw_domains = pl_domains ?pl, dw_valid = pl_valid ?pl, dw_reason = pl_reason ?pl\<rparr>"
  obtain ds ms where dm: "mask_stage g allowed ?dw = (ds, ms)" by fastforce
  have "pd_domains pd = ds" using assms(1) fs ps1 dm by (auto simp: plan_domains_def Let_def)
  moreover have "uses f ds = uses f (dw_domains ?dw)"
    using mask_stage_ok [OF dm] by (metis uses_families uses_sort_key)
  moreover have "uses f (dw_domains ?dw) \<le> 1"
    using uses_dwell_stage [of "\<lparr>dw_domains = pl_domains ?pl, dw_valid = pl_valid ?pl, dw_reason = pl_reason ?pl\<rparr>"
        opts g now ?ev "domains s"] start by simp
  ultimately show ?thesis by simp
qed

section \<open>Properties\<close>

text \<open>
  A family belongs to at most one domain of a proposal, whatever was held from earlier
  windows and whatever the current window proposes.
\<close>

theorem family_in_one_domain:
  assumes "propose hw threads edges allowed opts now s = Inr (s', p)"
  shows "length (filter (\<lambda>d. f \<in> set (families d)) (np_domains p)) \<le> 1"
proof -
  obtain pd where pd: "proposal_of hw threads edges allowed opts now s s' p pd" using propose_result [OF assms] .
  then have plan: "plan_domains s hw threads (aggregate_input threads edges) allowed opts now = Inr pd"
    by (simp add: proposal_of_def)
  have "map families (np_domains p) = map families (pd_domains pd)" using pd by (simp add: proposal_of_def)
  then have "uses f (np_domains p) = uses f (pd_domains pd)" unfolding uses_families by simp
  then show ?thesis using plan_domains_disjoint [OF plan aggregate_wf_input] unfolding uses_def by simp
qed

theorem family_in_one_domain_witness:
  "\<exists>p :: numa_domain_proposal. planned_masks p = [(10, [2, 3]), (11, [2])] \<and>
     length (filter (\<lambda>d. ''a'' \<in> set (families d)) (np_domains p)) \<le> 1"
proof (rule sample_proposal)
  fix s p
  assume *: "propose sample_hardware sample_threads [sample_edge 10 11 2] sample_allowed sample_opts 5
      new_domain_solver = Inr (s, p)" "planned_masks p = [(10, [2, 3]), (11, [2])]"
  show ?thesis by (intro exI [of _ p] conjI *(2) family_in_one_domain [OF *(1)])
qed

text \<open>
  An ended proposal is dead. Once a proposal was committed or discarded it cannot be
  committed again, neither then nor after the next proposal was made, and discarding it again
  changes nothing.
\<close>

lemma commit_error:
  "commit p now done s = Inl e \<Longrightarrow> e = Logic_Error ''NUMA domain proposal is not outstanding''"
  by (auto simp: commit_def Let_def split: if_splits)

theorem ended_proposal_rejected:
  assumes "propose hw threads edges allowed opts now s = Inr (s1, p)"
    and "commit p now1 done1 s1 = Inr s2 \<or> s2 = discard p s1"
    and "propose hw' threads' edges' allowed' opts' now' s2 = Inr (s3, q)"
  shows "commit p now2 done2 s2 = Inl (Logic_Error ''NUMA domain proposal is not outstanding'') \<and>
    commit p now2 done2 s3 = Inl (Logic_Error ''NUMA domain proposal is not outstanding'') \<and>
    discard p s2 = s2 \<and> discard p s3 = s3"
proof -
  have 1: "propose_on (hw, threads, edges, allowed, opts, now) s = Inr (s1, p)"
    using assms(1) by (simp add: propose_on_def)
  have 2: "domain_protocol.ended p s1 s2"
    using assms(2) unfolding domain_protocol.ended_def commit_on_def by (metis fst_conv snd_conv)
  have 3: "propose_on (hw', threads', edges', allowed', opts', now') s2 = Inr (s3, q)"
    using assms(3) by (simp add: propose_on_def)
  have "\<exists>e. commit p now2 done2 s2 = Inl e" "\<exists>e. commit p now2 done2 s3 = Inl e"
    using domain_protocol.ended_once(1) [OF 1 2, of "(now2, done2)"]
      domain_protocol.stale_rejected(1) [OF 1 2 3, of "(now2, done2)"] by (simp_all add: commit_on_def)
  then show ?thesis
    using commit_error domain_protocol.ended_once(2) [OF 1 2] domain_protocol.stale_rejected(2) [OF 1 2 3] by metis
qed

theorem ended_proposal_rejected_witness:
  "\<exists>(s3 :: numa_domain_solver) p. np_id p = 1 \<and>
     commit p 9 [] s3 = Inl (Logic_Error ''NUMA domain proposal is not outstanding'')"
proof (rule sample_proposal)
  fix s p
  assume *: "propose sample_hardware sample_threads [sample_edge 10 11 2] sample_allowed sample_opts 5
      new_domain_solver = Inr (s, p)"
  have "outstanding (discard p s) = None" using propose_keeps(1) [OF *] by (simp add: discard_def)
  then obtain s3 q where "propose sample_hardware sample_threads [] sample_allowed sample_opts 6 (discard p s) = Inr (s3, q)"
    using propose_succeeds by blast
  from ended_proposal_rejected [OF * _ this] show ?thesis
    using propose_keeps(6) [OF *] by (intro exI [of _ s3] exI [of _ p]) (simp add: new_domain_solver_def)
qed


definition sample_domain :: "string \<Rightarrow> string list \<Rightarrow> numa_domain" where
  "sample_domain i fams = blank_domain\<lparr>nd_id := i, families := fams, target_nodes := [0], target_mask := [0, 1]\<rparr>"

definition sample_families :: aggregate where
  "sample_families = empty_aggregate\<lparr>by_family :=
     [(''a'', [sample_thread 10 ''a'' 1 0]), (''b'', [sample_thread 11 ''b'' 1 0]),
      (''c'', [sample_thread 12 ''c'' 1 0]), (''d'', [sample_thread 13 ''d'' 1 0])]\<rparr>"


text \<open>
  C18. The protection does not last through the loop: a candidate that covers one committed
  domain and touches a second one is removed when the second is held, and the first is then
  in no domain, although it is within its dwell time.
\<close>

theorem dwell_drops_covered_domain:
  assumes "map_of ev (nd_id c1) = Some t1" "now - t1 < minimum_dwell_ns opts" "held_members g c1 \<noteq> []"
    and "map_of ev (nd_id c2) = Some t2" "now - t2 < minimum_dwell_ns opts" "held_members g c2 \<noteq> []"
    and "covers cand c1" "\<not> covers cand c2" "\<not> disjoint_families c2 cand"
    and "families c1 \<noteq> []" "set (families c1) \<inter> set (families c2) = {}"
  shows "map families (dw_domains (dwell_stage opts g now ev [c1, c2] \<lparr>dw_domains = [cand], dw_valid = v, dw_reason = r\<rparr>)) =
      [families c2] \<and>
    \<not> list_ex (\<lambda>d. covers d c1)
      (dw_domains (dwell_stage opts g now ev [c1, c2] \<lparr>dw_domains = [cand], dw_valid = v, dw_reason = r\<rparr>))"
proof -
  let ?dw = "\<lparr>dw_domains = [cand], dw_valid = v, dw_reason = r\<rparr>"
  have 1: "dwell_step opts g now ev c1 ?dw = ?dw" using assms(1,7) by (simp add: dwell_step_def)
  have fam: "families (hold_domain opts g c2) = families c2" by (simp add: hold_domain_def Let_def)
  have 2: "dw_domains (dwell_step opts g now ev c2 ?dw) = [hold_domain opts g c2]"
    using assms(4-6,8,9) by (simp add: dwell_step_def Let_def not_le [symmetric])
  have "\<not> covers (hold_domain opts g c2) c1"
    using assms(10,11) fam by (cases "families c1") (auto simp: covers_def)
  then show ?thesis using 1 2 fam by (simp add: dwell_stage_def)
qed

theorem dwell_drops_covered_domain_witness:
  "map families (dw_domains (dwell_stage sample_opts sample_families 5 [(''x'', 0), (''y'', 0)]
       [sample_domain ''x'' [''a'', ''b''], sample_domain ''y'' [''c'', ''d'']]
       \<lparr>dw_domains = [sample_domain ''z'' [''a'', ''b'', ''c'']], dw_valid = True, dw_reason = []\<rparr>)) =
     [[''c'', ''d'']]"
  using dwell_drops_covered_domain
    [of "[(''x'', 0), (''y'', 0)]" "sample_domain ''x'' [''a'', ''b'']" 0 5 sample_opts sample_families
        "sample_domain ''y'' [''c'', ''d'']" 0 "sample_domain ''z'' [''a'', ''b'', ''c'']" True "[]"]
  by (simp add: sample_domain_def sample_opts_def held_members_def sample_families_def mgetd_def blank_domain_def
      covers_def disjoint_families_def)



end
