(* ===== verification/Graph_Window.thy ===== *)
theory Graph_Window
  imports Core_Types Cpu_List
begin

text \<open>
  \<^verbatim>\<open>GraphWindow\<close> of \<^verbatim>\<open>src/graph.cpp\<close>: the sliding window of thread samples and relation
  observations, its incremental aggregates, the cached demands and edges and the deltas it
  emits.

  \<^verbatim>\<open>threads_\<close> is an unordered map in the code; every result built from it is sorted by thread
  before it is returned, so the ordered map of the model gives the same results.
\<close>

section \<open>State\<close>

record calibration =
  activity_log_p95 :: double
  sync_log_p95 :: double
  share_log_p95 :: double

record relation_aggregate =
  ra_count :: nat
  forward_sync :: double
  reverse_sync :: double
  handoff :: double
  ra_share :: double
  overlap :: double
  total :: double
  total_squared :: double

definition empty_relation_aggregate :: relation_aggregate where
  "empty_relation_aggregate =
     \<lparr>ra_count = 0, forward_sync = 0, reverse_sync = 0, handoff = 0, ra_share = 0, overlap = 0,
      total = 0, total_squared = 0\<rparr>"

record graph_window =
  horizon_seconds :: int
  gw_calibration :: calibration
  threads :: "(int, thread_sample list) omap"
  relation_histories :: "(int \<times> int, relation_observation list) omap"
  relation_aggregates :: "(int \<times> int, relation_aggregate) omap"
  demand_cache_valid :: bool
  edge_cache_valid :: bool
  demand_cache :: "thread_demand list"
  edge_cache :: "relation_edge list"
  emitted_demands :: "(int, thread_demand) omap"
  emitted_edges :: "(int \<times> int, relation_edge) omap"

definition new_graph_window :: "int \<Rightarrow> calibration \<Rightarrow> graph_window" where
  "new_graph_window h c =
     \<lparr>horizon_seconds = h, gw_calibration = c, threads = [], relation_histories = [],
      relation_aggregates = [], demand_cache_valid = False, edge_cache_valid = False,
      demand_cache = [], edge_cache = [], emitted_demands = [], emitted_edges = []\<rparr>"

section \<open>Helpers\<close>

definition normalized :: "double \<Rightarrow> double \<Rightarrow> double" where
  "normalized value scale = min (ln (1 + max 0 value) / scale) 1"

definition edge_key :: "int \<Rightarrow> int \<Rightarrow> int \<times> int" where
  "edge_key a b = (min a b, max a b)"

section \<open>Observation\<close>

text \<open>A thread number that was reused: its old samples and all its relations go.\<close>

definition forget_relations :: "int \<Rightarrow> graph_window \<Rightarrow> graph_window" where
  "forget_relations t w =
     (let gone = filter (\<lambda>(k, h). fst k = t \<or> snd k = t) (relation_histories w)
      in w\<lparr>relation_aggregates := fold (\<lambda>(k, h) m. mdel k m) gone (relation_aggregates w),
           relation_histories := filter (\<lambda>(k, h). \<not> (fst k = t \<or> snd k = t)) (relation_histories w)\<rparr>)"

definition observe_sample :: "thread_sample \<Rightarrow> uint64 \<times> graph_window \<Rightarrow> uint64 \<times> graph_window" where
  "observe_sample s st =
     (case st of (newest, w) \<Rightarrow>
        let t = tid (ts_identity s);
            history = mgetd [] (threads w) t;
            reused = (history \<noteq> [] \<and> starttime (ts_identity (last history)) \<noteq> starttime (ts_identity s));
            w1 = (if reused then forget_relations t w else w)
        in (max newest (timestamp_ns s),
            w1\<lparr>threads := mput t ((if reused then [] else history) @ [s]) (threads w1)\<rparr>))"

definition cutoff_of :: "int \<Rightarrow> uint64 \<Rightarrow> uint64" where
  "cutoff_of h newest =
     (let span = of_int h * 1000000000 in if span < newest then newest - span else 0)"

definition expire_threads :: "uint64 \<Rightarrow> (int, thread_sample list) omap \<Rightarrow> (int, thread_sample list) omap" where
  "expire_threads cutoff m =
     filter (\<lambda>(t, h). h \<noteq> []) (map (\<lambda>(t, h). (t, dropWhile (\<lambda>s. timestamp_ns s < cutoff) h)) m)"

definition ro_total :: "relation_observation \<Rightarrow> double" where
  "ro_total r = futex_per_second r + ro_shared_vfs_seconds r"

definition subtract_observation :: "int \<times> int \<Rightarrow> relation_observation \<Rightarrow> relation_aggregate \<Rightarrow> relation_aggregate" where
  "subtract_observation key r a =
     (let f = (ro_from_tid r = fst key) in
      a\<lparr>ra_count := ra_count a - 1,
        forward_sync := (if f then forward_sync a - futex_per_second r else forward_sync a),
        reverse_sync := (if f then reverse_sync a else reverse_sync a - futex_per_second r),
        handoff := handoff a - futex_per_second r,
        ra_share := ra_share a - ro_shared_vfs_seconds r,
        overlap := overlap a - ro_active_overlap r,
        total := total a - ro_total r,
        total_squared := total_squared a - ro_total r * ro_total r\<rparr>)"

definition add_observation :: "int \<times> int \<Rightarrow> relation_observation \<Rightarrow> relation_aggregate \<Rightarrow> relation_aggregate" where
  "add_observation key r a =
     (let f = (ro_from_tid r = fst key) in
      a\<lparr>ra_count := ra_count a + 1,
        forward_sync := (if f then forward_sync a + futex_per_second r else forward_sync a),
        reverse_sync := (if f then reverse_sync a else reverse_sync a + futex_per_second r),
        handoff := handoff a + futex_per_second r,
        ra_share := ra_share a + ro_shared_vfs_seconds r,
        overlap := overlap a + ro_active_overlap r,
        total := total a + ro_total r,
        total_squared := total_squared a + ro_total r * ro_total r\<rparr>)"

fun expire_history ::
  "uint64 \<Rightarrow> int \<times> int \<Rightarrow> relation_observation list \<Rightarrow> relation_aggregate \<Rightarrow>
   relation_observation list \<times> relation_aggregate" where
  "expire_history cutoff key [] a = ([], a)"
| "expire_history cutoff key (r # h) a =
     (if ro_timestamp_ns r < cutoff then expire_history cutoff key h (subtract_observation key r a)
      else (r # h, a))"

fun expire_relations ::
  "uint64 \<Rightarrow> (int \<times> int, relation_observation list) omap \<Rightarrow> (int \<times> int, relation_aggregate) omap \<Rightarrow>
   ((int \<times> int, relation_observation list) omap \<times> (int \<times> int, relation_aggregate) omap) result" where
  "expire_relations cutoff [] aggs = Inr ([], aggs)"
| "expire_relations cutoff ((key, h) # hs) aggs =
     (case map_of aggs key of
        None \<Rightarrow> Inl (Out_Of_Range ''map::at'')
      | Some a \<Rightarrow>
          (let (h', a') = expire_history cutoff key h a;
               aggs' = (if h' = [] then mdel key aggs else mput key a' aggs)
           in case expire_relations cutoff hs aggs' of
                Inl e \<Rightarrow> Inl e
              | Inr (hs', aggs'') \<Rightarrow> Inr (if h' = [] then hs' else (key, h') # hs', aggs'')))"

definition observe_threads :: "thread_sample list \<Rightarrow> graph_window \<Rightarrow> graph_window result" where
  "observe_threads samples w0 =
     (let w = w0\<lparr>demand_cache_valid := False, edge_cache_valid := False\<rparr>;
          (newest, w1) = fold observe_sample samples (0, w);
          cutoff = cutoff_of (horizon_seconds w1) newest;
          w2 = w1\<lparr>threads := expire_threads cutoff (threads w1)\<rparr>
      in case expire_relations cutoff (relation_histories w2) (relation_aggregates w2) of
           Inl e \<Rightarrow> Inl e
         | Inr (hs, aggs) \<Rightarrow> Inr (w2\<lparr>relation_histories := hs, relation_aggregates := aggs\<rparr>))"

definition observe_relation :: "relation_observation \<Rightarrow> graph_window \<Rightarrow> graph_window" where
  "observe_relation r w =
     (let key = edge_key (ro_from_tid r) (ro_to_tid r) in
      if fst key = snd key then w
      else w\<lparr>relation_histories := mpush key r (relation_histories w),
             relation_aggregates :=
               mput key (add_observation key r (mgetd empty_relation_aggregate (relation_aggregates w) key))
                 (relation_aggregates w),
             edge_cache_valid := False\<rparr>)"

definition retain_relations :: "(int \<times> int) oset \<Rightarrow> graph_window \<Rightarrow> graph_window" where
  "retain_relations keep w =
     (let gone = filter (\<lambda>(k, h). k \<notin> set keep) (relation_histories w)
      in w\<lparr>relation_aggregates := fold (\<lambda>(k, h) m. mdel k m) gone (relation_aggregates w),
           relation_histories := filter (\<lambda>(k, h). k \<in> set keep) (relation_histories w),
           edge_cache_valid := (if gone \<noteq> [] then False else edge_cache_valid w)\<rparr>)"

section \<open>Families\<close>

text \<open>
  The first regular expression: white space, an opening bracket, characters other than a
  closing bracket and at most one closing bracket, up to the end of the name.
\<close>

definition role_suffix :: "string \<Rightarrow> bool" where
  "role_suffix s \<longleftrightarrow>
     (case s of [] \<Rightarrow> False
      | c # cs \<Rightarrow> c = CHR ''['' \<and> dropWhile (\<lambda>x. x \<noteq> CHR '']'') cs \<in> {[], '']''})"

fun strip_role :: "string \<Rightarrow> string" where
  "strip_role [] = []"
| "strip_role (c # cs) =
     (if isspace c \<and> role_suffix (dropWhile isspace cs) then [] else c # strip_role cs)"

text \<open>The second one: one or more numbers, each with an optional separator before it, up to the end.\<close>

definition drop_separator :: "string \<Rightarrow> string" where
  "drop_separator s =
     (case s of [] \<Rightarrow> [] | c # cs \<Rightarrow> if c = CHR ''_'' \<or> c = CHR ''-'' then cs else s)"

lemma length_drop_separator: "length (drop_separator s) \<le> length s"
  by (simp add: drop_separator_def split: list.splits)

lemma length_after_number:
  assumes "takeWhile isdigit (drop_separator s) \<noteq> []"
  shows "length (dropWhile isdigit (drop_separator s)) < length s"
proof -
  have "length (drop_separator s) =
      length (takeWhile isdigit (drop_separator s)) + length (dropWhile isdigit (drop_separator s))"
    by (metis length_append takeWhile_dropWhile_id)
  then show ?thesis using assms length_drop_separator [of s] by (cases "takeWhile isdigit (drop_separator s)") auto
qed

function index_suffix :: "string \<Rightarrow> bool" where
  "index_suffix s =
     (if takeWhile isdigit (drop_separator s) = [] then False
      else if dropWhile isdigit (drop_separator s) = [] then True
      else index_suffix (dropWhile isdigit (drop_separator s)))"
  by auto
termination
  by (relation "measure length") (simp_all add: length_after_number)

declare index_suffix.simps [simp del]

fun strip_index :: "string \<Rightarrow> string" where
  "strip_index [] = []"
| "strip_index (c # cs) = (if index_suffix (c # cs) then [] else c # strip_index cs)"

definition normalize_group :: "string \<Rightarrow> uint64 \<Rightarrow> int \<Rightarrow> string \<Rightarrow> string" where
  "normalize_group name routine parent symbol =
     (let n = strip_index (strip_role name);
          base = (if n = [] then ''unnamed'' else n);
          rt = (if symbol = [] then show_nat (unat routine) else symbol)
      in base @ ''@'' @ rt)"

section \<open>Demands\<close>

definition usable_interval :: "thread_sample \<Rightarrow> thread_sample \<Rightarrow> bool" where
  "usable_interval a b \<longleftrightarrow>
     \<not> (timestamp_ns b \<le> timestamp_ns a \<or> runtime_ns b < runtime_ns a \<or> runqueue_ns b < runqueue_ns a)"

definition clamp :: "double \<Rightarrow> double \<Rightarrow> double \<Rightarrow> double" where
  "clamp v lo hi = (if v < lo then lo else if hi < v then hi else v)"

definition interval_pressure :: "thread_sample \<Rightarrow> thread_sample \<Rightarrow> double" where
  "interval_pressure a b =
     clamp (real (unat ((runtime_ns b - runtime_ns a) + (runqueue_ns b - runqueue_ns a))) /
            real (unat (timestamp_ns b - timestamp_ns a))) 0 1"

fun pressures :: "thread_sample list \<Rightarrow> double list" where
  "pressures (a # b # h) =
     (if usable_interval a b then interval_pressure a b # pressures (b # h) else pressures (b # h))"
| "pressures h = []"

definition ewma :: "double list \<Rightarrow> double" where
  "ewma ps = (case ps of [] \<Rightarrow> 0
              | p # rest \<Rightarrow> fold (\<lambda>v e. 645 / 10000 * v + 9355 / 10000 * e) rest p)"

definition thread_demand_of :: "int \<Rightarrow> thread_sample list \<Rightarrow> thread_demand" where
  "thread_demand_of h history =
     (let ps = pressures history; l = last history in
      \<lparr>td_identity = ts_identity l,
       group = normalize_group (comm l) (start_routine l) (parent_tid l) (start_symbol l),
       demand = ewma ps,
       confidence = min 1 (real (length ps) / real_of_int (max 1 (h - 1))),
       current_cpu = recent_cpu l\<rparr>)"

definition compute_demands :: "graph_window \<Rightarrow> thread_demand list" where
  "compute_demands w =
     sort_key td_tid
       (map (\<lambda>(t, h). thread_demand_of (horizon_seconds w) h) (filter (\<lambda>(t, h). h \<noteq> []) (threads w)))"

definition demands :: "graph_window \<Rightarrow> thread_demand list \<times> graph_window" where
  "demands w =
     (if demand_cache_valid w then (demand_cache w, w)
      else (compute_demands w, w\<lparr>demand_cache := compute_demands w, demand_cache_valid := True\<rparr>))"

section \<open>Thread records\<close>

record thread_window_record =
  tw_identity :: thread_identity
  tw_comm :: string
  tw_parent_tid :: int
  tw_start_routine :: uint64
  tw_start_symbol :: string
  tw_group :: string
  tw_demand :: double
  tw_confidence :: double
  tw_current_cpu :: int
  tw_allowed_cpus :: cpu_mask
  tw_state :: char
  sample_count :: nat
  runtime_delta_ns :: uint64
  runqueue_delta_ns :: uint64
  voluntary_switches_delta :: uint64
  involuntary_switches_delta :: uint64

definition counter_delta :: "uint64 \<Rightarrow> uint64 \<Rightarrow> uint64" where
  "counter_delta a b = (if a \<le> b then b - a else 0)"

definition window_record :: "thread_demand \<Rightarrow> thread_sample list \<Rightarrow> thread_window_record" where
  "window_record d h =
     (let a = hd h; l = last h in
      \<lparr>tw_identity = ts_identity l, tw_comm = comm l, tw_parent_tid = parent_tid l,
       tw_start_routine = start_routine l, tw_start_symbol = start_symbol l, tw_group = group d,
       tw_demand = demand d, tw_confidence = confidence d, tw_current_cpu = recent_cpu l,
       tw_allowed_cpus = allowed_cpus l, tw_state = ts_state l, sample_count = length h,
       runtime_delta_ns = counter_delta (runtime_ns a) (runtime_ns l),
       runqueue_delta_ns = counter_delta (runqueue_ns a) (runqueue_ns l),
       voluntary_switches_delta = counter_delta (voluntary_switches a) (voluntary_switches l),
       involuntary_switches_delta = counter_delta (involuntary_switches a) (involuntary_switches l)\<rparr>)"

text \<open>\<^verbatim>\<open>emplace\<close> keeps the first entry of a key.\<close>

definition memplace :: "'k::linorder \<Rightarrow> 'v \<Rightarrow> ('k, 'v) omap \<Rightarrow> ('k, 'v) omap" where
  "memplace k v m = (if mhas m k then m else mput k v m)"

fun collect_records ::
  "(int, thread_demand) omap \<Rightarrow> (int, thread_sample list) omap \<Rightarrow> thread_window_record list result" where
  "collect_records by [] = Inr []"
| "collect_records by ((t, h) # m) =
     (if h = [] then collect_records by m
      else case map_of by t of
        None \<Rightarrow> Inl (Out_Of_Range ''unordered_map::at'')
      | Some d \<Rightarrow>
          (case collect_records by m of Inl e \<Rightarrow> Inl e | Inr rs \<Rightarrow> Inr (window_record d h # rs)))"

definition thread_records :: "graph_window \<Rightarrow> thread_window_record list result \<times> graph_window" where
  "thread_records w =
     (let (ds, w') = demands w;
          by = fold (\<lambda>d m. memplace (td_tid d) d m) ds []
      in (case collect_records by (threads w') of
            Inl e \<Rightarrow> Inl e
          | Inr rs \<Rightarrow> Inr (sort_key (\<lambda>r. tid (tw_identity r)) rs), w'))"

section \<open>Edges\<close>

definition relation_edge_of ::
  "int \<Rightarrow> calibration \<Rightarrow> double \<Rightarrow> double \<Rightarrow> int \<times> int \<Rightarrow> relation_aggregate \<Rightarrow> relation_edge" where
  "relation_edge_of h c d1 d2 pair a =
     (let n = real (ra_count a);
          syn = max (forward_sync a) (reverse_sync a) / n;
          shr = ra_share a / n;
          ovl = overlap a / n;
          act = normalized (sqrt (d1 * d2)) (activity_log_p95 c);
          cov = min 1 (n / real_of_int h);
          mean = total a / n;
          variance = (if ra_count a < 2 \<or> mean \<le> 0 then 0
                      else max 0 ((total_squared a - n * mean * mean) / (n - 1)));
          cv = (if 0 < mean then sqrt variance / mean else 0);
          stab = cov / (1 + cv);
          sync_n = normalized syn (sync_log_p95 c);
          share_n = normalized shr (share_log_p95 c) * clamp ovl 0 1
      in \<lparr>from_tid = fst pair, to_tid = snd pair, activity = act, sync = sync_n, share = share_n,
          stability = stab, score = 100 * act * stab * (7 / 10 * sync_n + 3 / 10 * share_n),
          handoff_rate = handoff a / n, shared_vfs_seconds = shr, active_overlap = ovl,
          observation_count = ra_count a, coverage = cov, coefficient_of_variation = cv\<rparr>)"

definition demand_index :: "thread_demand list \<Rightarrow> (int, double) omap" where
  "demand_index ds = fold (\<lambda>d m. mput (td_tid d) (demand d) m) ds []"

definition edges_from ::
  "int \<Rightarrow> calibration \<Rightarrow> (int, double) omap \<Rightarrow> (int \<times> int, relation_aggregate) omap \<Rightarrow> relation_edge list" where
  "edges_from h c dem aggs =
     map (\<lambda>(pair, a). relation_edge_of h c (mgetd 0 dem (fst pair)) (mgetd 0 dem (snd pair)) pair a)
       (filter (\<lambda>(pair, a). \<not> (ra_count a = 0 \<or> \<not> mhas dem (fst pair) \<or> \<not> mhas dem (snd pair))) aggs)"

definition compute_edges :: "graph_window \<Rightarrow> thread_demand list \<Rightarrow> relation_edge list" where
  "compute_edges w ds =
     edges_from (horizon_seconds w) (gw_calibration w) (demand_index ds) (relation_aggregates w)"

definition edges :: "graph_window \<Rightarrow> relation_edge list \<times> graph_window" where
  "edges w =
     (if edge_cache_valid w then (edge_cache w, w)
      else let (ds, w') = demands w; es = compute_edges w' ds
           in (es, w'\<lparr>edge_cache := es, edge_cache_valid := True\<rparr>))"

section \<open>Deltas\<close>

definition changed_thread :: "double \<Rightarrow> (int, thread_demand) omap \<Rightarrow> thread_demand \<Rightarrow> bool" where
  "changed_thread threshold emitted d \<longleftrightarrow>
     (case map_of emitted (td_tid d) of
        None \<Rightarrow> True
      | Some p \<Rightarrow> td_identity p \<noteq> td_identity d \<or> threshold \<le> \<bar>demand p - demand d\<bar> \<or> group p \<noteq> group d)"

definition gone_threads :: "(int, thread_demand) omap \<Rightarrow> (int, thread_demand) omap \<Rightarrow> thread_identity list" where
  "gone_threads emitted current =
     map (\<lambda>(t, p). td_identity p)
       (filter (\<lambda>(t, p). case map_of current t of None \<Rightarrow> True | Some c \<Rightarrow> td_identity c \<noteq> td_identity p) emitted)"

definition changed_edge :: "double \<Rightarrow> double \<Rightarrow> (int \<times> int, relation_edge) omap \<Rightarrow> int \<times> int \<Rightarrow> relation_edge \<Rightarrow> bool" where
  "changed_edge absolute_threshold relative_threshold emitted key e \<longleftrightarrow>
     (let old = (case map_of emitted key of None \<Rightarrow> 0 | Some p \<Rightarrow> score p);
          absolute = \<bar>score e - old\<bar>;
          relative = absolute / max \<bar>old\<bar> (1 / 10 ^ 9)
      in map_of emitted key = None \<or> absolute_threshold \<le> absolute \<or> relative_threshold \<le> relative)"

definition thread_delta ::
  "double \<Rightarrow> thread_demand list \<Rightarrow> (int, thread_demand) omap \<Rightarrow>
   thread_identity list \<times> thread_demand list \<times> (int, thread_demand) omap" where
  "thread_delta threshold ds emitted =
     (let current = fold (\<lambda>d m. mput (td_tid d) d m) ds [];
          removed = gone_threads emitted current;
          emitted1 = fold (\<lambda>i m. mdel (tid i) m) removed emitted;
          (ups, emitted2) = fold (\<lambda>(t, d) (ups, em).
              if changed_thread threshold em d then (ups @ [d], mput t d em) else (ups, em))
            current ([], emitted1)
      in (removed, ups, emitted2))"

definition edge_delta ::
  "double \<Rightarrow> double \<Rightarrow> relation_edge list \<Rightarrow> (int \<times> int, relation_edge) omap \<Rightarrow>
   (int \<times> int) list \<times> relation_edge list \<times> (int \<times> int, relation_edge) omap" where
  "edge_delta absolute relative es emitted =
     (let current = fold (\<lambda>e m. mput (edge_key (from_tid e) (to_tid e)) e m) es [];
          removed = map fst (filter (\<lambda>(k, e). \<not> mhas current k) emitted);
          (ups, emitted1) = fold (\<lambda>(k, e) (ups, em).
              if changed_edge absolute relative em k e then (ups @ [e], mput k e em) else (ups, em))
            current ([], emitted)
      in (removed, ups, fold mdel removed emitted1))"

definition take_delta :: "double \<Rightarrow> double \<Rightarrow> double \<Rightarrow> graph_window \<Rightarrow> graph_delta \<times> graph_window" where
  "take_delta demand_threshold edge_absolute edge_relative w0 =
     (let (ds, w1) = demands w0;
          (gone, ups, em_threads) = thread_delta demand_threshold ds (emitted_demands w1);
          w2 = w1\<lparr>emitted_demands := em_threads\<rparr>;
          (es, w3) = edges w2;
          (gone_edges, up_edges, em_edges) = edge_delta edge_absolute edge_relative es (emitted_edges w3)
      in (\<lparr>upsert_threads = ups, removed_threads = gone, upsert_edges = up_edges, removed_edges = gone_edges\<rparr>,
          w3\<lparr>emitted_edges := em_edges\<rparr>))"

end
