(* ===== verification/Graph_Invariant.thy ===== *)
theory Graph_Invariant
  imports Graph_Window
begin

text \<open>
  The invariant of \<^verbatim>\<open>GraphWindow\<close>: the incremental aggregates are the sums of the histories they
  summarise, the caches hold what a recomputation would give, and every operation keeps both.

  The window keeps a sum per relation and updates it by adding the new observation and
  subtracting the expired ones. \<open>sliding_sum\<close> is the contract that makes this right; the
  observations of a relation are its instance.
\<close>

section \<open>Sums over a sliding window\<close>

locale sliding_sum =
  fixes add :: "'o \<Rightarrow> 'a \<Rightarrow> 'a"
    and sub :: "'o \<Rightarrow> 'a \<Rightarrow> 'a"
    and zero :: 'a
  assumes sub_add: "sub x (add x a) = a"
    and add_commute: "add x (add y a) = add y (add x a)"
begin

definition sum_of :: "'o list \<Rightarrow> 'a" where
  "sum_of xs = fold add xs zero"

lemma sum_of_Nil [simp]: "sum_of [] = zero"
  by (simp add: sum_of_def)

lemma sum_of_snoc [simp]: "sum_of (xs @ [x]) = add x (sum_of xs)"
  by (simp add: sum_of_def)

lemma sum_of_Cons [simp]: "sum_of (x # xs) = add x (sum_of xs)"
proof -
  have "fold add xs (add x a) = add x (fold add xs a)" for a
  proof (induction xs arbitrary: a)
    case (Cons y xs)
    then show ?case by (simp add: add_commute [of y x])
  qed simp
  then show ?thesis by (simp add: sum_of_def)
qed

lemma sub_front: "sub x (sum_of (x # xs)) = sum_of xs"
  by (simp add: sub_add)

end

interpretation observations: sliding_sum
  "add_observation key" "subtract_observation key" empty_relation_aggregate for key
  by unfold_locales (auto simp: add_observation_def subtract_observation_def Let_def)

abbreviation aggregate_of :: "int \<times> int \<Rightarrow> relation_observation list \<Rightarrow> relation_aggregate" where
  "aggregate_of key h \<equiv> observations.sum_of key h"

lemma expire_history_sum:
  "expire_history cutoff key h (aggregate_of key h) =
     (let h' = dropWhile (\<lambda>r. ro_timestamp_ns r < cutoff) h in (h', aggregate_of key h'))"
  by (induction h) (simp_all add: observations.sub_front Let_def del: observations.sum_of_Cons)

lemma ra_count_add [simp]: "ra_count (add_observation key r a) = Suc (ra_count a)"
  by (simp add: add_observation_def Let_def)

lemma ra_count_empty [simp]: "ra_count empty_relation_aggregate = 0"
  by (simp add: empty_relation_aggregate_def)

lemma ra_count_aggregate: "ra_count (aggregate_of key h) = length h"
  by (induction h) simp_all

section \<open>The invariant\<close>

definition summarised :: "(int \<times> int, relation_observation list) omap \<Rightarrow> (int \<times> int, relation_aggregate) omap" where
  "summarised hs = map (\<lambda>(k, h). (k, aggregate_of k h)) hs"

definition keyed_by :: "('v \<Rightarrow> 'k) \<Rightarrow> ('k, 'v) omap \<Rightarrow> bool" where
  "keyed_by f m \<longleftrightarrow> (\<forall>(k, v) \<in> set m. f v = k)"

definition histories_ok :: "(int, thread_sample list) omap \<Rightarrow> bool" where
  "histories_ok m \<longleftrightarrow> mwf m \<and>
     (\<forall>(t, h) \<in> set m. h \<noteq> [] \<and> (\<forall>s \<in> set h. tid (ts_identity s) = t))"

definition relations_ok :: "(int \<times> int, relation_observation list) omap \<Rightarrow> (int \<times> int, relation_aggregate) omap \<Rightarrow> bool" where
  "relations_ok hs aggs \<longleftrightarrow> mwf hs \<and> (\<forall>(k, h) \<in> set hs. h \<noteq> [] \<and> fst k < snd k) \<and> aggs = summarised hs"

definition caches_ok :: "graph_window \<Rightarrow> bool" where
  "caches_ok w \<longleftrightarrow>
     (demand_cache_valid w \<longrightarrow> demand_cache w = compute_demands w) \<and>
     (edge_cache_valid w \<longrightarrow> edge_cache w = compute_edges w (compute_demands w))"

definition emitted_ok :: "graph_window \<Rightarrow> bool" where
  "emitted_ok w \<longleftrightarrow>
     mwf (emitted_demands w) \<and> keyed_by td_tid (emitted_demands w) \<and>
     mwf (emitted_edges w) \<and> keyed_by (\<lambda>e. edge_key (from_tid e) (to_tid e)) (emitted_edges w)"

definition window_ok :: "graph_window \<Rightarrow> bool" where
  "window_ok w \<longleftrightarrow>
     histories_ok (threads w) \<and> relations_ok (relation_histories w) (relation_aggregates w) \<and>
     caches_ok w \<and> emitted_ok w"

lemma window_ok_new: "window_ok (new_graph_window h c)"
  by (simp add: window_ok_def new_graph_window_def histories_ok_def relations_ok_def summarised_def
      caches_ok_def emitted_ok_def keyed_by_def)

lemma map_of_summarised: "map_of (summarised hs) k = map_option (aggregate_of k) (map_of hs k)"
  by (induction hs) (auto simp: summarised_def)

lemma mwf_summarised: "mwf (summarised hs) = mwf hs"
  by (simp add: summarised_def mwf_def o_def case_prod_beta)

lemma summarised_filter:
  "summarised (filter (\<lambda>(k, h). P k) hs) = filter (\<lambda>(k, a). P k) (summarised hs)"
  by (induction hs) (auto simp: summarised_def)

text \<open>Erasing the keys of the removed histories one by one removes exactly their aggregates.\<close>

lemma fold_mdel_gone:
  assumes "mwf hs"
  shows "fold (\<lambda>(k, h) m. mdel k m) (filter (\<lambda>(k, h). \<not> P k) hs) (summarised hs) =
    summarised (filter (\<lambda>(k, h). P k) hs)"
proof (rule mwf_eqI)
  have eq: "fold (\<lambda>(k, h) m. mdel k m) xs m = fold mdel (map fst xs) m" for xs :: "('a \<times> 'b) list" and m :: "('a \<times> 'c) list"
    by (induction xs arbitrary: m) auto
  show "mwf (fold (\<lambda>(k, h) m. mdel k m) (filter (\<lambda>(k, h). \<not> P k) hs) (summarised hs))"
    using assms by (simp add: eq mwf_fold_mdel mwf_summarised)
  show "mwf (summarised (filter (\<lambda>(k, h). P k) hs))"
    using assms by (simp add: mwf_summarised mwf_filter)
  have "k \<in> fst ` set (filter (\<lambda>(k, h). \<not> P k) hs) \<longleftrightarrow> \<not> P k \<and> map_of hs k \<noteq> None" for k
    by (force simp: map_of_eq_None_iff)
  then show "map_of (fold (\<lambda>(k, h) m. mdel k m) (filter (\<lambda>(k, h). \<not> P k) hs) (summarised hs)) =
      map_of (summarised (filter (\<lambda>(k, h). P k) hs))"
    by (auto simp: fun_eq_iff eq map_of_fold_mdel map_of_summarised map_of_filter_key)
qed

lemma relations_ok_filter:
  assumes "relations_ok hs aggs"
  shows "relations_ok (filter (\<lambda>(k, h). P k) hs)
    (fold (\<lambda>(k, h) m. mdel k m) (filter (\<lambda>(k, h). \<not> P k) hs) aggs)"
  using assms fold_mdel_gone [of hs P] by (auto simp: relations_ok_def mwf_filter)

section \<open>Observations keep the invariant\<close>

lemma summarised_mput:
  assumes "mwf hs"
  shows "mput k (aggregate_of k h) (summarised hs) = summarised (mput k h hs)"
  by (rule mwf_eqI) (use assms in \<open>auto simp: mwf_summarised map_of_summarised fun_eq_iff\<close>)

lemma relations_ok_push:
  assumes "relations_ok hs aggs" "fst key < snd key"
  shows "relations_ok (mpush key r hs)
    (mput key (add_observation key r (mgetd empty_relation_aggregate aggs key)) aggs)"
proof -
  have wf: "mwf hs" and aggs: "aggs = summarised hs" using assms by (simp_all add: relations_ok_def)
  have "mgetd empty_relation_aggregate aggs key = aggregate_of key (mgetd [] hs key)"
    by (simp add: aggs mgetd_def map_of_summarised split: option.splits)
  then have "mput key (add_observation key r (mgetd empty_relation_aggregate aggs key)) aggs =
      summarised (mpush key r hs)"
    using summarised_mput [OF wf, of key "mgetd [] hs key @ [r]"] by (simp add: aggs mpush_def)
  moreover have "\<forall>(k, h) \<in> set (mpush key r hs). h \<noteq> [] \<and> fst k < snd k"
    using assms set_mput_subset [of key "mgetd [] hs key @ [r]" hs]
    by (fastforce simp: relations_ok_def mpush_def)
  ultimately show ?thesis using wf by (simp add: relations_ok_def mpush_def)
qed

lemma window_ok_observe_relation:
  assumes "window_ok w" shows "window_ok (observe_relation r w)"
proof (cases "ro_from_tid r = ro_to_tid r")
  case True
  then show ?thesis using assms by (simp add: observe_relation_def edge_key_def)
next
  case False
  then have key: "fst (edge_key (ro_from_tid r) (ro_to_tid r)) < snd (edge_key (ro_from_tid r) (ro_to_tid r))"
    by (auto simp: edge_key_def)
  then have "relations_ok (relation_histories (observe_relation r w)) (relation_aggregates (observe_relation r w))"
    using assms relations_ok_push [of _ _ "edge_key (ro_from_tid r) (ro_to_tid r)" r]
    by (simp add: window_ok_def observe_relation_def Let_def)
  then show ?thesis using assms key
    by (simp add: window_ok_def observe_relation_def Let_def caches_ok_def emitted_ok_def compute_demands_def)
qed

lemma window_ok_retain:
  assumes "window_ok w" shows "window_ok (retain_relations keep w)"
proof -
  let ?gone = "filter (\<lambda>(k, h). k \<notin> set keep) (relation_histories w)"
  have rel: "relations_ok (relation_histories (retain_relations keep w)) (relation_aggregates (retain_relations keep w))"
    using assms relations_ok_filter [of _ _ "\<lambda>k. k \<in> set keep"]
    by (simp add: window_ok_def retain_relations_def Let_def)
  have "compute_edges (retain_relations keep w) ds = compute_edges w ds" if "?gone = []" for ds
    using that by (simp add: retain_relations_def compute_edges_def Let_def)
  moreover have "compute_demands (retain_relations keep w) = compute_demands w"
    by (simp add: retain_relations_def compute_demands_def Let_def)
  moreover have "edge_cache_valid (retain_relations keep w) \<longleftrightarrow> edge_cache_valid w \<and> ?gone = []"
    by (simp add: retain_relations_def Let_def)
  ultimately have "caches_ok (retain_relations keep w)"
    using assms by (simp add: window_ok_def caches_ok_def) (simp add: retain_relations_def Let_def)
  then show ?thesis using assms rel by (simp add: window_ok_def emitted_ok_def retain_relations_def Let_def)
qed

text \<open>While the samples of a batch are taken in, the caches are off and the emitted maps rest.\<close>

definition intake_ok :: "graph_window \<Rightarrow> bool" where
  "intake_ok w \<longleftrightarrow>
     histories_ok (threads w) \<and> relations_ok (relation_histories w) (relation_aggregates w) \<and>
     \<not> demand_cache_valid w \<and> \<not> edge_cache_valid w \<and> emitted_ok w"

lemma intake_window: "intake_ok w \<Longrightarrow> window_ok w"
  by (simp add: intake_ok_def window_ok_def caches_ok_def)

lemma intake_forget: "intake_ok w \<Longrightarrow> intake_ok (forget_relations t w)"
  using relations_ok_filter [of _ _ "\<lambda>k. \<not> (fst k = t \<or> snd k = t)"]
  by (simp add: intake_ok_def forget_relations_def emitted_ok_def Let_def)

lemma histories_sample: "histories_ok m \<Longrightarrow> (t, h) \<in> set m \<Longrightarrow> s \<in> set h \<Longrightarrow> tid (ts_identity s) = t"
  by (auto simp: histories_ok_def)

lemma histories_ok_put:
  "histories_ok m \<Longrightarrow> h \<noteq> [] \<Longrightarrow> (\<forall>s \<in> set h. tid (ts_identity s) = t) \<Longrightarrow> histories_ok (mput t h m)"
  using set_mput_subset [of t h m] by (fastforce simp: histories_ok_def)

lemma intake_put:
  "intake_ok w \<Longrightarrow> histories_ok m \<Longrightarrow> intake_ok (w\<lparr>threads := m\<rparr>)"
  by (simp add: intake_ok_def emitted_ok_def)

lemma intake_sample:
  assumes "intake_ok w" shows "intake_ok (snd (observe_sample s (newest, w)))"
proof -
  let ?t = "tid (ts_identity s)"
  have hist: "histories_ok (threads w)" using assms by (simp add: intake_ok_def)
  then have "\<forall>x \<in> set (mgetd [] (threads w) ?t). tid (ts_identity x) = ?t"
    using histories_sample [OF hist map_of_SomeD] by (auto simp: mgetd_def split: option.splits) metis
  then have put: "histories_ok (mput ?t (h @ [s]) (threads w))" if "h \<in> {[], mgetd [] (threads w) ?t}" for h
    using that hist by (intro histories_ok_put) auto
  have "threads (forget_relations ?t w) = threads w" by (simp add: forget_relations_def Let_def)
  then show ?thesis
    using put [of "[]"] put [of "mgetd [] (threads w) ?t"] assms intake_forget [OF assms, of ?t]
    by (simp add: observe_sample_def Let_def intake_put)
qed

lemma intake_samples: "intake_ok w \<Longrightarrow> intake_ok (snd (fold observe_sample ss (n, w)))"
proof (induction ss arbitrary: n w)
  case (Cons s ss)
  have "fold observe_sample (s # ss) (n, w) =
      fold observe_sample ss (fst (observe_sample s (n, w)), snd (observe_sample s (n, w)))"
    by simp
  then show ?case using Cons intake_sample by metis
qed simp

lemma histories_ok_expire: "histories_ok m \<Longrightarrow> histories_ok (expire_threads c m)"
proof -
  assume ok: "histories_ok m"
  have "mwf (map (\<lambda>(t, h). (t, f h)) m) = mwf m" for f :: "thread_sample list \<Rightarrow> thread_sample list"
    by (simp add: mwf_def o_def case_prod_beta)
  then have "mwf (expire_threads c m)"
    using ok by (simp add: expire_threads_def mwf_filter histories_ok_def)
  moreover have "tid (ts_identity s) = t" if "(t, h) \<in> set (expire_threads c m)" "s \<in> set h" for t h s
    using that histories_sample [OF ok] by (auto simp: expire_threads_def dest: set_dropWhileD)
  ultimately show ?thesis by (auto simp: histories_ok_def) (auto simp: expire_threads_def)
qed

text \<open>Expiry reads an aggregate of every history, so \<^verbatim>\<open>at\<close> always finds it.\<close>

definition expired :: "uint64 \<Rightarrow> (int \<times> int, relation_observation list) omap \<Rightarrow> (int \<times> int, relation_observation list) omap" where
  "expired cutoff hs =
     filter (\<lambda>(k, h). h \<noteq> []) (map (\<lambda>(k, h). (k, dropWhile (\<lambda>r. ro_timestamp_ns r < cutoff) h)) hs)"

lemma expired_none: "map_of hs k = None \<Longrightarrow> map_of (expired cutoff hs) k = None"
  by (induction hs) (auto simp: expired_def split: if_splits)

lemma expire_relations_step:
  assumes "mwf hs"
    and "\<forall>(k, h) \<in> set hs. map_of aggs k = Some (aggregate_of k h)"
  shows "\<exists>aggs'. expire_relations cutoff hs aggs = Inr (expired cutoff hs, aggs') \<and>
    (mwf aggs \<longrightarrow> mwf aggs') \<and>
    (\<forall>k. map_of aggs' k = (case map_of hs k of None \<Rightarrow> map_of aggs k
       | Some _ \<Rightarrow> map_option (aggregate_of k) (map_of (expired cutoff hs) k)))"
  using assms
proof (induction hs arbitrary: aggs)
  case Nil
  then show ?case by (simp add: expired_def)
next
  case (Cons e hs)
  obtain k h where e: "e = (k, h)" by fastforce
  define h' where "h' = dropWhile (\<lambda>r. ro_timestamp_ns r < cutoff) h"
  define ag where "ag = (if h' = [] then mdel k aggs else mput k (aggregate_of k h') aggs)"
  have wf: "mwf hs" "map_of hs k = None" "map_of (expired cutoff hs) k = None"
    using mwf_ConsD [of k h hs] Cons.prems(1) expired_none [of hs k] by (simp_all add: e)
  have "map_of ag k' = Some (aggregate_of k' h')" if "(k', h') \<in> set hs" for k' h'
  proof -
    have "k' \<noteq> k" using wf(2) that by (force simp: map_of_eq_None_iff)
    then show ?thesis using Cons.prems(2) that by (auto simp: ag_def)
  qed
  then have "\<forall>(k', h) \<in> set hs. map_of ag k' = Some (aggregate_of k' h)" by blast
  then obtain aggs' where ih: "expire_relations cutoff hs ag = Inr (expired cutoff hs, aggs')"
    "mwf ag \<longrightarrow> mwf aggs'"
    "\<forall>k. map_of aggs' k = (case map_of hs k of None \<Rightarrow> map_of ag k
       | Some _ \<Rightarrow> map_option (aggregate_of k) (map_of (expired cutoff hs) k))"
    using Cons.IH [OF wf(1)] by blast
  have "expire_history cutoff k h (aggregate_of k h) = (h', aggregate_of k h')"
    by (simp add: expire_history_sum h'_def Let_def)
  moreover have exp: "expired cutoff (e # hs) = (if h' = [] then expired cutoff hs else (k, h') # expired cutoff hs)"
    by (simp add: e expired_def h'_def)
  moreover have "map_of aggs k = Some (aggregate_of k h)" using Cons.prems(2) e by simp
  ultimately have run: "expire_relations cutoff (e # hs) aggs = Inr (expired cutoff (e # hs), aggs')"
    using ih(1) by (simp add: e ag_def [symmetric] del: dropWhile_eq_Nil_conv)
  have "map_of aggs' k' = (case map_of (e # hs) k' of None \<Rightarrow> map_of aggs k'
       | Some _ \<Rightarrow> map_option (aggregate_of k') (map_of (expired cutoff (e # hs)) k'))" for k'
  proof (cases "k' = k")
    case True
    then show ?thesis using ih(3) [rule_format, of k] wf by (simp add: ag_def exp) (simp add: e)
  next
    case False
    then show ?thesis using ih(3) [rule_format, of k'] exp [unfolded e] e
      by (simp add: ag_def split: option.splits)
  qed
  moreover have "mwf aggs \<longrightarrow> mwf aggs'" using ih(2) by (simp add: ag_def)
  ultimately show ?case using run by blast
qed

lemma expire_relations_ok:
  assumes "relations_ok hs aggs"
  shows "expire_relations cutoff hs aggs = Inr (expired cutoff hs, summarised (expired cutoff hs))"
    and "relations_ok (expired cutoff hs) (summarised (expired cutoff hs))"
proof -
  have wf: "mwf hs" and aggs: "aggs = summarised hs" using assms by (simp_all add: relations_ok_def)
  have wfe: "mwf (expired cutoff hs)"
  proof -
    have "mwf (map (\<lambda>(k, h). (k, dropWhile (\<lambda>r. ro_timestamp_ns r < cutoff) h)) hs) = mwf hs"
      by (simp add: mwf_def o_def case_prod_beta)
    then show ?thesis using wf by (simp add: expired_def mwf_filter)
  qed
  have "\<forall>(k, h) \<in> set hs. map_of aggs k = Some (aggregate_of k h)"
    using wf mwf_entry [OF wf] by (auto simp: aggs map_of_summarised)
  from expire_relations_step [OF wf this, of cutoff] obtain aggs' where
    run: "expire_relations cutoff hs aggs = Inr (expired cutoff hs, aggs')" "mwf aggs'"
    "\<forall>k. map_of aggs' k = (case map_of hs k of None \<Rightarrow> map_of aggs k
       | Some _ \<Rightarrow> map_option (aggregate_of k) (map_of (expired cutoff hs) k))"
    using wf by (auto simp: aggs mwf_summarised)
  have none: "map_of (expired cutoff hs) k = None" if "map_of hs k = None" for k
    using that by (rule expired_none)
  have "aggs' = summarised (expired cutoff hs)"
  proof (rule mwf_eqI)
    show "map_of aggs' = map_of (summarised (expired cutoff hs))"
      using run(3) none by (auto simp: fun_eq_iff map_of_summarised aggs split: option.splits)
  qed (use run(2) wfe in \<open>simp_all add: mwf_summarised\<close>)
  then show "expire_relations cutoff hs aggs = Inr (expired cutoff hs, summarised (expired cutoff hs))"
    using run(1) by simp
  show "relations_ok (expired cutoff hs) (summarised (expired cutoff hs))"
    using assms wfe by (auto simp: relations_ok_def expired_def)
qed

lemma observe_threads_ok:
  assumes "window_ok w"
  shows "\<exists>w'. observe_threads samples w = Inr w' \<and> window_ok w' \<and>
    horizon_seconds w' = horizon_seconds w \<and> gw_calibration w' = gw_calibration w"
proof -
  let ?w = "w\<lparr>demand_cache_valid := False, edge_cache_valid := False\<rparr>"
  obtain newest w1 where w1: "fold observe_sample samples (0, ?w) = (newest, w1)" by fastforce
  have "intake_ok ?w" using assms by (simp add: window_ok_def intake_ok_def emitted_ok_def)
  then have ok: "intake_ok w1" using intake_samples [of ?w samples 0] w1 by simp
  have keep: "horizon_seconds (snd (fold observe_sample ss (n, v))) = horizon_seconds v \<and>
      gw_calibration (snd (fold observe_sample ss (n, v))) = gw_calibration v" for ss n v
    by (induction ss arbitrary: n v) (simp_all add: observe_sample_def forget_relations_def Let_def)
  define c where "c = cutoff_of (horizon_seconds w1) newest"
  define w2 where "w2 = w1\<lparr>threads := expire_threads c (threads w1)\<rparr>"
  have ok2: "intake_ok w2" using ok by (simp add: w2_def intake_ok_def emitted_ok_def histories_ok_expire)
  then have rel: "relations_ok (relation_histories w2) (relation_aggregates w2)" by (simp add: intake_ok_def)
  let ?w3 = "w2\<lparr>relation_histories := expired c (relation_histories w2),
    relation_aggregates := summarised (expired c (relation_histories w2))\<rparr>"
  have "observe_threads samples w = Inr ?w3"
    using expire_relations_ok(1) [OF rel, of c] w1
    by (simp add: observe_threads_def Let_def c_def w2_def)
  moreover have "intake_ok ?w3"
    using ok2 expire_relations_ok(2) [OF rel, of c] by (simp add: intake_ok_def emitted_ok_def)
  moreover have "horizon_seconds w1 = horizon_seconds w" "gw_calibration w1 = gw_calibration w"
    using keep [of samples 0 ?w] w1 by simp_all
  ultimately show ?thesis using intake_window by (auto simp: w2_def)
qed

end
