(* ===== verification/Graph_Delta.thy ===== *)
theory Graph_Delta
  imports Graph_Invariant
begin

text \<open>
  Queries and deltas of the window: that they keep its invariant, what a reader of the window
  may rely on, and that a consumer which applies every delta holds the graph the window emitted.
\<close>

section \<open>Queries keep the invariant\<close>

text \<open>A query may fill the caches; the data stay as they are.\<close>

definition same_data :: "graph_window \<Rightarrow> graph_window \<Rightarrow> bool" where
  "same_data w w' \<longleftrightarrow>
     horizon_seconds w' = horizon_seconds w \<and> gw_calibration w' = gw_calibration w \<and> threads w' = threads w \<and>
     relation_histories w' = relation_histories w \<and> relation_aggregates w' = relation_aggregates w \<and>
     emitted_demands w' = emitted_demands w \<and> emitted_edges w' = emitted_edges w"

lemma same_data_computed:
  "same_data w w' \<Longrightarrow> compute_demands w' = compute_demands w \<and> compute_edges w' ds = compute_edges w ds"
  by (simp add: same_data_def compute_demands_def compute_edges_def)

lemma window_ok_same:
  "window_ok w \<Longrightarrow> same_data w w' \<Longrightarrow> caches_ok w' \<Longrightarrow> window_ok w'"
  by (simp add: window_ok_def same_data_def emitted_ok_def)

lemma demands_ok:
  assumes "window_ok w"
  shows "fst (demands w) = compute_demands w" "window_ok (snd (demands w))" "same_data w (snd (demands w))"
proof -
  show same: "same_data w (snd (demands w))" by (simp add: demands_def same_data_def)
  show "fst (demands w) = compute_demands w"
    using assms by (simp add: demands_def window_ok_def caches_ok_def)
  have "caches_ok (snd (demands w))"
    using assms by (simp add: demands_def window_ok_def caches_ok_def compute_demands_def compute_edges_def)
  then show "window_ok (snd (demands w))" using window_ok_same assms same by blast
qed

lemma edges_ok:
  assumes "window_ok w"
  shows "fst (edges w) = compute_edges w (compute_demands w)" "window_ok (snd (edges w))" "same_data w (snd (edges w))"
proof -
  note d = demands_ok [OF assms]
  note c = same_data_computed [OF d(3)]
  show same: "same_data w (snd (edges w))"
    using d(3) by (simp add: edges_def case_prod_beta Let_def same_data_def)
  show "fst (edges w) = compute_edges w (compute_demands w)"
    using assms d(1) c by (simp add: edges_def case_prod_beta Let_def window_ok_def caches_ok_def)
  have "caches_ok (snd (edges w))"
    using assms d(1,2) c
    by (simp add: edges_def case_prod_beta Let_def window_ok_def caches_ok_def compute_demands_def compute_edges_def)
  then show "window_ok (snd (edges w))" using window_ok_same assms same by blast
qed

section \<open>Threads and demands\<close>

lemma compute_demands_threads:
  assumes "window_ok w"
  shows "map td_tid (compute_demands w) = map fst (threads w)"
    and "d \<in> set (compute_demands w) \<longleftrightarrow>
      (\<exists>h. map_of (threads w) (td_tid d) = Some h \<and> d = thread_demand_of (horizon_seconds w) h)"
proof -
  let ?f = "\<lambda>(t, h). thread_demand_of (horizon_seconds w) h"
  have ok: "histories_ok (threads w)" using assms by (simp add: window_ok_def)
  have tid_of: "td_tid (?f e) = fst e" if "e \<in> set (threads w)" for e
  proof -
    obtain t h where e: "e = (t, h)" by fastforce
    have "h \<noteq> []" using that ok by (auto simp: e histories_ok_def)
    then show ?thesis using histories_sample [OF ok, of t h "last h"] that
      by (simp add: e thread_demand_of_def Let_def)
  qed
  then have keys: "map (\<lambda>e. td_tid (?f e)) (threads w) = map fst (threads w)" by simp
  have all: "filter (\<lambda>(t, h). h \<noteq> []) (threads w) = threads w"
    using ok by (auto simp: histories_ok_def filter_id_conv)
  have "sorted (map fst (threads w))" using ok by (simp add: histories_ok_def mwf_def strict_sorted_iff)
  then have "sorted (map td_tid (map ?f (threads w)))" unfolding map_map o_def keys .
  then have form: "compute_demands w = map ?f (threads w)"
    by (simp add: compute_demands_def all sort_key_id_if_sorted)
  then show "map td_tid (compute_demands w) = map fst (threads w)" using keys by (simp add: o_def)
  have entry: "(t, h) \<in> set (threads w) \<longleftrightarrow> map_of (threads w) t = Some h" for t h
    using ok by (intro mwf_entry) (simp add: histories_ok_def)
  show "d \<in> set (compute_demands w) \<longleftrightarrow>
      (\<exists>h. map_of (threads w) (td_tid d) = Some h \<and> d = thread_demand_of (horizon_seconds w) h)"
    (is "?l \<longleftrightarrow> ?r")
  proof
    assume ?l
    then obtain t h where "(t, h) \<in> set (threads w)" "d = thread_demand_of (horizon_seconds w) h"
      by (auto simp: form)
    then show ?r using tid_of [of "(t, h)"] entry by auto
  next
    assume ?r
    then show ?l using entry by (auto simp: form image_iff) (metis case_prod_conv)
  qed
qed

lemma compute_demands_distinct: "window_ok w \<Longrightarrow> distinct (map td_tid (compute_demands w))"
  using compute_demands_threads(1) [of w] mwf_distinct [of "threads w"] by (simp add: window_ok_def histories_ok_def)

lemma map_of_fold_memplace:
  "distinct (map k xs) \<Longrightarrow> (\<forall>x \<in> set xs. map_of m (k x) = None) \<Longrightarrow> x \<in> set xs \<Longrightarrow>
   map_of (fold (\<lambda>x m. memplace (k x) x m) xs m) (k x) = Some x"
proof (induction xs arbitrary: m)
  case (Cons y xs)
  have keep: "map_of m t = Some v \<Longrightarrow> map_of (fold (\<lambda>x m. memplace (k x) x m) xs m) t = Some v" for m t v
  proof (induction xs arbitrary: m)
    case (Cons z xs)
    have "map_of (memplace (k z) z m) t = Some v" using Cons.prems by (auto simp: memplace_def mhas_def)
    then show ?case using Cons.IH by simp
  qed simp
  have put: "memplace (k y) y m = mput (k y) y m" using Cons.prems(2) by (simp add: memplace_def mhas_def)
  show ?case
  proof (cases "x = y")
    case True
    then show ?thesis using keep [of "mput (k y) y m" "k y" y] put by simp
  next
    case False
    have "\<forall>x \<in> set xs. map_of (mput (k y) y m) (k x) = None"
      using Cons.prems(1,2) by (auto simp: image_iff)
    then show ?thesis using Cons.IH [of "mput (k y) y m"] Cons.prems(1,3) put False by simp
  qed
qed simp

lemma collect_records_total:
  "(\<forall>(t, h) \<in> set m. map_of by t \<noteq> None) \<Longrightarrow> \<exists>rs. collect_records by m = Inr rs \<and> length rs \<le> length m"
  by (induction m) (auto split: option.splits sum.splits)

lemma thread_records_ok:
  assumes "window_ok w"
  shows "\<exists>rs. fst (thread_records w) = Inr rs" "window_ok (snd (thread_records w))"
proof -
  note d = demands_ok [OF assms]
  let ?by = "fold (\<lambda>d m. memplace (td_tid d) d m) (compute_demands w) []"
  have "map_of ?by t \<noteq> None" if th: "(t, h) \<in> set (threads w)" for t h
  proof -
    have "t \<in> td_tid ` set (compute_demands w)"
      using th compute_demands_threads(1) [OF assms] by (metis fst_conv image_eqI list.set_map)
    then obtain x where x: "x \<in> set (compute_demands w)" "t = td_tid x" by blast
    show ?thesis
      using map_of_fold_memplace [OF compute_demands_distinct [OF assms], of "[]" x] x by simp
  qed
  then obtain rs where "collect_records ?by (threads w) = Inr rs" using collect_records_total by blast
  then show "\<exists>rs. fst (thread_records w) = Inr rs"
    using d(1,3) by (simp add: thread_records_def case_prod_beta Let_def same_data_def)
  show "window_ok (snd (thread_records w))"
    using d(2) by (simp add: thread_records_def case_prod_beta Let_def)
qed

section \<open>Deltas\<close>

lemma fold_upsert:
  assumes "distinct (map fst m)"
    and "\<And>e1 e2 k v. (k, v) \<in> set m \<Longrightarrow> map_of e1 k = map_of e2 k \<Longrightarrow> P e1 k v = P e2 k v"
  shows "fold (\<lambda>(k, v) (ups, em). if P em k v then (ups @ [v], mput k v em) else (ups, em)) m (ups, em) =
    (ups @ map snd (filter (\<lambda>(k, v). P em k v) m),
     fold (\<lambda>(k, v) em. mput k v em) (filter (\<lambda>(k, v). P em k v) m) em)"
  using assms
proof (induction m arbitrary: ups em)
  case (Cons x m)
  obtain k v where x: "x = (k, v)" by fastforce
  have other: "P (mput k v em) k' v' = P em k' v'" if "(k', v') \<in> set m" for k' v'
  proof (rule Cons.prems(2))
    show "(k', v') \<in> set (x # m)" using that by simp
    have "k' \<noteq> k" using Cons.prems(1) that x by force
    then show "map_of (mput k v em) k' = map_of em k'" by simp
  qed
  then have "filter (\<lambda>(k', v'). P (mput k v em) k' v') m = filter (\<lambda>(k', v'). P em k' v') m"
    by (intro filter_cong) auto
  moreover have ih: "fold (\<lambda>(k, v) (ups, em). if P em k v then (ups @ [v], mput k v em) else (ups, em)) m (u, e) =
    (u @ map snd (filter (\<lambda>(k, v). P e k v) m), fold (\<lambda>(k, v) em. mput k v em) (filter (\<lambda>(k, v). P e k v) m) e)" for u e
  proof (rule Cons.IH)
    show "distinct (map fst m)" using Cons.prems(1) by simp
    show "P e1 k v = P e2 k v" if "(k, v) \<in> set m" "map_of e1 k = map_of e2 k" for e1 e2 k v
      using Cons.prems(2) [of k v e1 e2] that by force
  qed
  ultimately show ?case by (simp add: x ih)
qed simp

lemma map_of_fold_entries:
  "distinct (map fst m) \<Longrightarrow>
   map_of (fold (\<lambda>(k, v) em. mput k v em) m em) k = (case map_of m k of None \<Rightarrow> map_of em k | Some v \<Rightarrow> Some v)"
  using map_of_fold_mput [of "\<lambda>x. x" m em k] by (simp add: case_prod_unfold o_def)

lemma fold_entries_upserts:
  "(\<forall>(k, v) \<in> set m. key v = k) \<Longrightarrow>
   fold (\<lambda>(k, v) em. mput k v em) m em = fold (\<lambda>v em. mput (key v) v em) (map snd m) em"
  by (induction m arbitrary: em) auto

lemma keyed_by_mput: "keyed_by f m \<Longrightarrow> f v = k \<Longrightarrow> keyed_by f (mput k v m)"
  using set_mput_subset [of k v m] by (fastforce simp: keyed_by_def)

lemma keyed_by_mdel: "keyed_by f m \<Longrightarrow> keyed_by f (mdel k m)"
  by (auto simp: keyed_by_def mdel_def)

lemma keyed_by_fold_mput: "keyed_by f m \<Longrightarrow> keyed_by f (fold (\<lambda>v m. mput (f v) v m) vs m)"
  by (induction vs arbitrary: m) (simp_all add: keyed_by_mput)

lemma keyed_by_fold_mdel: "keyed_by f m \<Longrightarrow> keyed_by f (fold mdel ks m)"
  by (induction ks arbitrary: m) (simp_all add: keyed_by_mdel)

lemma keyed_by_Nil [simp]: "keyed_by f []"
  by (simp add: keyed_by_def)

lemma keyed_by_lookup: "keyed_by f m \<Longrightarrow> map_of m k = Some v \<Longrightarrow> f v = k"
  by (auto simp: keyed_by_def dest: map_of_SomeD)

text \<open>The map a loop builds from a vector whose keys are distinct.\<close>

definition index_by :: "('v \<Rightarrow> 'k::linorder) \<Rightarrow> 'v list \<Rightarrow> ('k, 'v) omap" where
  "index_by f vs = fold (\<lambda>v m. mput (f v) v m) vs []"

lemma index_by_facts:
  assumes "distinct (map f vs)"
  shows "mwf (index_by f vs)" "keyed_by f (index_by f vs)"
    "map_of (index_by f vs) k = Some v \<longleftrightarrow> v \<in> set vs \<and> f v = k"
    "dom (map_of (index_by f vs)) = f ` set vs"
proof -
  show "mwf (index_by f vs)" by (simp add: index_by_def mwf_fold_mput)
  show "keyed_by f (index_by f vs)" by (simp add: index_by_def keyed_by_fold_mput)
  have "map_of (index_by f vs) k = map_of (map (\<lambda>v. (f v, v)) vs) k" for k
    using map_of_fold_mput [of "\<lambda>v. (f v, v)" vs "[]" k] assms
    by (simp add: index_by_def o_def split: option.splits)
  moreover have "map_of (map (\<lambda>v. (f v, v)) vs) k = Some v \<longleftrightarrow> (k, v) \<in> set (map (\<lambda>v. (f v, v)) vs)" for k v
    using assms by (intro map_of_eq_Some_iff) (simp add: o_def)
  ultimately have look: "map_of (index_by f vs) k = Some v \<longleftrightarrow> v \<in> set vs \<and> f v = k" for k v by auto
  then show "map_of (index_by f vs) k = Some v \<longleftrightarrow> v \<in> set vs \<and> f v = k" .
  show "dom (map_of (index_by f vs)) = f ` set vs" using look by (auto simp: dom_def)
qed

text \<open>What a consumer does with a delta.\<close>

definition mirror_threads :: "graph_delta \<Rightarrow> (int, thread_demand) omap \<Rightarrow> (int, thread_demand) omap" where
  "mirror_threads delta m =
     fold (\<lambda>d m. mput (td_tid d) d m) (upsert_threads delta) (fold (\<lambda>i m. mdel (tid i) m) (removed_threads delta) m)"

definition mirror_edges :: "graph_delta \<Rightarrow> (int \<times> int, relation_edge) omap \<Rightarrow> (int \<times> int, relation_edge) omap" where
  "mirror_edges delta m =
     fold (\<lambda>e m. mput (edge_key (from_tid e) (to_tid e)) e m) (upsert_edges delta) (fold mdel (removed_edges delta) m)"

text \<open>How far an emitted value may be from the current one.\<close>

definition demand_close :: "double \<Rightarrow> thread_demand \<Rightarrow> thread_demand \<Rightarrow> bool" where
  "demand_close thr p d \<longleftrightarrow>
     td_identity p = td_identity d \<and> group p = group d \<and> (p = d \<or> \<bar>demand p - demand d\<bar> < thr)"

definition edge_close :: "double \<Rightarrow> double \<Rightarrow> relation_edge \<Rightarrow> relation_edge \<Rightarrow> bool" where
  "edge_close absolute relative p e \<longleftrightarrow>
     p = e \<or> \<bar>score e - score p\<bar> < absolute \<and> \<bar>score e - score p\<bar> / max \<bar>score p\<bar> (1 / 10 ^ 9) < relative"

lemma map_of_fold_upserts:
  assumes "mwf m"
  shows "map_of (fold (\<lambda>(k, v) em. mput k v em) (filter P m) em) k =
    (case map_of m k of None \<Rightarrow> map_of em k | Some v \<Rightarrow> if P (k, v) then Some v else map_of em k)"
proof -
  have d: "distinct (map fst (filter P m))" using mwf_distinct [OF mwf_filter [OF assms]] .
  have "map_of (filter P m) k = (case map_of m k of None \<Rightarrow> None | Some v \<Rightarrow> if P (k, v) then Some v else None)"
    using mwf_distinct [OF assms] by (induction m) (auto simp: map_of_eq_None_iff split: option.splits)
  then show ?thesis using map_of_fold_entries [OF d, of em k] by (simp split: option.splits if_splits)
qed

lemma keys_where: "fst ` {e \<in> A. P (fst e) (snd e)} = {k. \<exists>v. (k, v) \<in> A \<and> P k v}"
  by force

lemma gone_tids:
  assumes "mwf em" "keyed_by td_tid em"
  shows "t \<in> set (map tid (gone_threads em current)) \<longleftrightarrow>
    (\<exists>p. map_of em t = Some p \<and>
      (case map_of current t of None \<Rightarrow> True | Some c \<Rightarrow> td_identity c \<noteq> td_identity p))"
    (is "_ \<longleftrightarrow> (\<exists>p. _ \<and> ?stale t p)")
proof -
  have "td_tid (snd e) = fst e" if "e \<in> set em" for e using that assms(2) by (auto simp: keyed_by_def)
  then have "set (map tid (gone_threads em current)) = fst ` {e \<in> set em. ?stale (fst e) (snd e)}"
    by (force simp: gone_threads_def case_prod_unfold image_iff)
  also have "\<dots> = {t. \<exists>p. (t, p) \<in> set em \<and> ?stale t p}" by (rule keys_where)
  finally show ?thesis by (simp add: mwf_entry [OF assms(1)])
qed

lemma thread_delta_facts:
  assumes cur: "distinct (map td_tid ds)" and em: "mwf em" "keyed_by td_tid em"
    and run: "thread_delta thr ds em = (removed, ups, em')"
  shows "em' = fold (\<lambda>d m. mput (td_tid d) d m) ups (fold (\<lambda>i m. mdel (tid i) m) removed em)"
    "mwf em'" "keyed_by td_tid em'"
    "dom (map_of em') = td_tid ` set ds"
    "d \<in> set ds \<Longrightarrow> \<exists>p. map_of em' (td_tid d) = Some p \<and> demand_close thr p d"
proof -
  define current where "current = index_by td_tid ds"
  note c = index_by_facts [OF cur, folded current_def]
  define em1 where "em1 = fold (\<lambda>i m. mdel (tid i) m) (gone_threads em current) em"
  let ?ch = "\<lambda>(t :: int, d). changed_thread thr em1 d"
  have "fold (\<lambda>(t, d) (ups, em). if changed_thread thr em d then (ups @ [d], mput t d em) else (ups, em))
      current ([], em1) =
    ([] @ map snd (filter (\<lambda>(k, v). changed_thread thr em1 v) current),
     fold (\<lambda>(k, v) em. mput k v em) (filter (\<lambda>(k, v). changed_thread thr em1 v) current) em1)"
  proof (rule fold_upsert)
    show "distinct (map fst current)" using c(1) by (rule mwf_distinct)
    show "changed_thread thr e1 v = changed_thread thr e2 v"
      if "(k, v) \<in> set current" "map_of e1 k = map_of e2 k" for e1 e2 k v
      using that c(2) by (auto simp: keyed_by_def changed_thread_def)
  qed
  then have res: "removed = gone_threads em current" "ups = map snd (filter ?ch current)"
    "em' = fold (\<lambda>(t, d) em. mput t d em) (filter ?ch current) em1"
    using run by (auto simp: thread_delta_def Let_def current_def index_by_def em1_def)
  have keyed: "\<forall>(k, v) \<in> set (filter ?ch current). td_tid v = k" using c(2) by (auto simp: keyed_by_def)
  show out: "em' = fold (\<lambda>d m. mput (td_tid d) d m) ups (fold (\<lambda>i m. mdel (tid i) m) removed em)"
    unfolding res(3) fold_entries_upserts [OF keyed] using res(1,2) by (simp add: em1_def)
  have em1: "em1 = fold mdel (map tid (gone_threads em current)) em" by (simp add: em1_def fold_map o_def)
  have wf1: "mwf em1" "keyed_by td_tid em1" using em by (simp_all add: em1 mwf_fold_mdel keyed_by_fold_mdel)
  show "mwf em'" "keyed_by td_tid em'"
    using wf1 out by (simp_all add: em1_def res(1) mwf_fold_mput keyed_by_fold_mput)
  note gone = gone_tids [OF em, of _ current]
  have look1: "map_of em1 t = (if t \<in> set (map tid (gone_threads em current)) then None else map_of em t)" for t
    unfolding em1 by (rule map_of_fold_mdel)
  have look: "map_of em' t = (case map_of current t of None \<Rightarrow> map_of em1 t
      | Some d \<Rightarrow> if changed_thread thr em1 d then Some d else map_of em1 t)" for t
    unfolding res(3) map_of_fold_upserts [OF c(1)] by (simp split: option.splits)
  have unseen: "map_of em1 t = None" if "map_of current t = None" for t
    using that look1 gone by (cases "map_of em t") auto
  have close: "\<exists>p. map_of em' (td_tid d) = Some p \<and> demand_close thr p d" if "d \<in> set ds" for d
  proof -
    have cd: "map_of current (td_tid d) = Some d" using that c(3) by blast
    show ?thesis using look [of "td_tid d"] cd
      by (auto simp: changed_thread_def demand_close_def split: option.splits if_splits)
  qed
  then show "d \<in> set ds \<Longrightarrow> \<exists>p. map_of em' (td_tid d) = Some p \<and> demand_close thr p d" .
  show "dom (map_of em') = td_tid ` set ds"
  proof (rule set_eqI)
    fix t
    show "t \<in> dom (map_of em') \<longleftrightarrow> t \<in> td_tid ` set ds"
    proof (cases "map_of current t")
      case None
      then have "t \<notin> td_tid ` set ds" using c(4) by (metis domIff)
      then show ?thesis using look [of t] unseen [OF None] None by auto
    next
      case (Some d)
      then have "d \<in> set ds" "td_tid d = t" using c(3) by blast+
      then show ?thesis using close [of d] by auto
    qed
  qed
qed

abbreviation key_of :: "relation_edge \<Rightarrow> int \<times> int" where
  "key_of e \<equiv> edge_key (from_tid e) (to_tid e)"

lemma fold_mdel_upserts:
  assumes "mwf em" "set ks \<inter> f ` set vs = {}"
  shows "fold mdel ks (fold (\<lambda>v m. mput (f v) v m) vs em) = fold (\<lambda>v m. mput (f v) v m) vs (fold mdel ks em)"
proof (rule mwf_eqI)
  have out: "map_of (fold (\<lambda>v m. mput (f v) v m) vs m) k = map_of m k" if "k \<notin> f ` set vs" for m k
    using that by (induction vs arbitrary: m) auto
  have same: "map_of (fold (\<lambda>v m. mput (f v) v m) vs m) k = map_of (fold (\<lambda>v m. mput (f v) v m) vs m') k"
    if "k \<in> f ` set vs" for m m' k
    using that
  proof (induction vs rule: rev_induct)
    case (snoc v vs)
    then show ?case by (cases "k = f v") auto
  qed simp
  show "map_of (fold mdel ks (fold (\<lambda>v m. mput (f v) v m) vs em)) =
      map_of (fold (\<lambda>v m. mput (f v) v m) vs (fold mdel ks em))"
  proof
    fix k
    show "map_of (fold mdel ks (fold (\<lambda>v m. mput (f v) v m) vs em)) k =
        map_of (fold (\<lambda>v m. mput (f v) v m) vs (fold mdel ks em)) k"
    proof (cases "k \<in> f ` set vs")
      case True
      then have "k \<notin> set ks" using assms(2) by blast
      then show ?thesis using same [OF True, of em "fold mdel ks em"] by (simp add: map_of_fold_mdel)
    next
      case False
      show ?thesis unfolding out [OF False] map_of_fold_mdel ..
    qed
  qed
qed (use assms(1) in \<open>simp_all add: mwf_fold_mdel mwf_fold_mput\<close>)

lemma edge_delta_facts:
  assumes cur: "distinct (map key_of es)" and em: "mwf em" "keyed_by key_of em"
    and run: "edge_delta ab re es em = (removed, ups, em')"
  shows "em' = fold (\<lambda>e m. mput (key_of e) e m) ups (fold mdel removed em)"
    "mwf em'" "keyed_by key_of em'"
    "dom (map_of em') = key_of ` set es"
    "e \<in> set es \<Longrightarrow> \<exists>p. map_of em' (key_of e) = Some p \<and> edge_close ab re p e"
proof -
  define current where "current = index_by key_of es"
  note c = index_by_facts [OF cur, folded current_def]
  let ?ch = "\<lambda>(k, e). changed_edge ab re em k e"
  have "fold (\<lambda>(k, e) (ups, em). if changed_edge ab re em k e then (ups @ [e], mput k e em) else (ups, em))
      current ([], em) =
    ([] @ map snd (filter ?ch current), fold (\<lambda>(k, v) em. mput k v em) (filter ?ch current) em)"
    by (rule fold_upsert) (auto simp: changed_edge_def intro: mwf_distinct [OF c(1)])
  then have res: "removed = map fst (filter (\<lambda>(k, e). \<not> mhas current k) em)" "ups = map snd (filter ?ch current)"
    "em' = fold mdel removed (fold (\<lambda>(k, e) em. mput k e em) (filter ?ch current) em)"
    using run by (auto simp: edge_delta_def Let_def current_def index_by_def)
  have keyed: "\<forall>(k, v) \<in> set (filter ?ch current). key_of v = k" using c(2) by (auto simp: keyed_by_def)
  have removed: "set removed = dom (map_of em) - key_of ` set es"
  proof -
    have "set removed = fst ` {e \<in> set em. \<not> mhas current (fst e)}"
      by (simp add: res(1) case_prod_unfold)
    also have "\<dots> = fst ` set em - dom (map_of current)" by (auto simp: mhas_dom)
    finally show ?thesis unfolding c(4) by (simp add: dom_map_of_conv_image_fst)
  qed
  have ups: "key_of ` set ups \<subseteq> key_of ` set es"
    using c(3) mwf_entry [OF c(1)] by (auto simp: res(2))
  show out: "em' = fold (\<lambda>e m. mput (key_of e) e m) ups (fold mdel removed em)"
    unfolding res(3) fold_entries_upserts [OF keyed] res(2) [symmetric]
    using ups removed by (intro fold_mdel_upserts [OF em(1)]) blast
  show "mwf em'" "keyed_by key_of em'"
    using em out by (simp_all add: mwf_fold_mput mwf_fold_mdel keyed_by_fold_mput keyed_by_fold_mdel)
  have look: "map_of em' k = (if k \<in> set removed then None else case map_of current k of None \<Rightarrow> map_of em k
      | Some e \<Rightarrow> if changed_edge ab re em k e then Some e else map_of em k)" for k
    unfolding res(3) map_of_fold_mdel map_of_fold_upserts [OF c(1)] by (simp split: option.splits)
  have close: "\<exists>p. map_of em' (key_of e) = Some p \<and> edge_close ab re p e" if "e \<in> set es" for e
  proof -
    have ce: "map_of current (key_of e) = Some e" using that c(3) by blast
    have "key_of e \<notin> set removed" using removed that by blast
    then show ?thesis using look [of "key_of e"] ce
      by (auto simp: changed_edge_def edge_close_def Let_def not_le split: option.splits if_splits)
  qed
  then show "e \<in> set es \<Longrightarrow> \<exists>p. map_of em' (key_of e) = Some p \<and> edge_close ab re p e" .
  show "dom (map_of em') = key_of ` set es"
  proof (rule set_eqI)
    fix k
    show "k \<in> dom (map_of em') \<longleftrightarrow> k \<in> key_of ` set es"
    proof (cases "k \<in> key_of ` set es")
      case False
      then have "map_of current k = None" using c(4) by blast
      then have "map_of em' k = None" using look [of k] removed False by (cases "map_of em k") auto
      then show ?thesis using False by blast
    qed (use close in auto)
  qed
qed

lemma compute_edges_keys:
  assumes "window_ok w"
  shows "distinct (map key_of (compute_edges w ds))"
proof -
  have wf: "mwf (relation_aggregates w)" using assms by (simp add: window_ok_def relations_ok_def mwf_summarised)
  have low: "\<forall>(k, a) \<in> set (relation_aggregates w). fst k < snd k"
    using assms by (auto simp: window_ok_def relations_ok_def summarised_def)
  have key: "key_of (relation_edge_of h c d1 d2 k a) = k" if "fst k < snd k" for h c d1 d2 k a
    using that by (simp add: relation_edge_of_def edge_key_def Let_def)
  define P where "P = (\<lambda>(pair, a :: relation_aggregate). \<not> (ra_count a = 0 \<or> \<not> mhas (demand_index ds) (fst pair) \<or> \<not> mhas (demand_index ds) (snd pair)))"
  have "map key_of (compute_edges w ds) = map fst (filter P (relation_aggregates w))"
    using low key by (auto simp: compute_edges_def edges_from_def P_def)
  then show ?thesis using mwf_distinct [OF mwf_filter [OF wf]] by metis
qed

text \<open>One delta: what it emits, and that the window keeps its invariant.\<close>

lemma take_delta_facts:
  assumes "window_ok w" "take_delta thr ab re w = (delta, w')"
  shows "window_ok w'"
    "horizon_seconds w' = horizon_seconds w" "gw_calibration w' = gw_calibration w"
    "emitted_demands w' = mirror_threads delta (emitted_demands w)"
    "emitted_edges w' = mirror_edges delta (emitted_edges w)"
    "dom (map_of (emitted_demands w')) = td_tid ` set (compute_demands w)"
    "d \<in> set (compute_demands w) \<Longrightarrow> \<exists>p. map_of (emitted_demands w') (td_tid d) = Some p \<and> demand_close thr p d"
    "dom (map_of (emitted_edges w')) = key_of ` set (compute_edges w (compute_demands w))"
    "e \<in> set (compute_edges w (compute_demands w)) \<Longrightarrow>
       \<exists>p. map_of (emitted_edges w') (key_of e) = Some p \<and> edge_close ab re p e"
proof -
  define w1 where "w1 = snd (demands w)"
  have ok1: "window_ok w1" "same_data w w1" using demands_ok [OF assms(1)] by (simp_all add: w1_def)
  obtain gone ups em where td: "thread_delta thr (compute_demands w) (emitted_demands w) = (gone, ups, em)"
    by (cases "thread_delta thr (compute_demands w) (emitted_demands w)") auto
  have emok: "emitted_ok w" using assms(1) by (simp add: window_ok_def)
  note t = thread_delta_facts [OF compute_demands_distinct [OF assms(1)] _ _ td]
  have t: "em = fold (\<lambda>d m. mput (td_tid d) d m) ups (fold (\<lambda>i m. mdel (tid i) m) gone (emitted_demands w))"
    "mwf em" "keyed_by td_tid em" "dom (map_of em) = td_tid ` set (compute_demands w)"
    "\<And>d. d \<in> set (compute_demands w) \<Longrightarrow> \<exists>p. map_of em (td_tid d) = Some p \<and> demand_close thr p d"
    using t emok by (simp_all add: emitted_ok_def)
  define w2 where "w2 = w1\<lparr>emitted_demands := em\<rparr>"
  have ok2: "window_ok w2"
    using ok1(1) t(2,3)
    by (simp add: w2_def window_ok_def caches_ok_def emitted_ok_def compute_demands_def compute_edges_def)
  have comp2: "compute_demands w2 = compute_demands w" "compute_edges w2 ds = compute_edges w ds" for ds
    using ok1(2) by (simp_all add: w2_def same_data_def compute_demands_def compute_edges_def)
  define w3 where "w3 = snd (edges w2)"
  have e3: "fst (edges w2) = compute_edges w (compute_demands w)" "window_ok w3" "same_data w2 w3"
    using edges_ok [OF ok2] comp2 by (simp_all add: w3_def)
  have em3: "emitted_edges w3 = emitted_edges w" "emitted_demands w3 = em"
    using e3(3) ok1(2) by (simp_all add: same_data_def w2_def)
  obtain gone_e ups_e eme where ed: "edge_delta ab re (compute_edges w (compute_demands w)) (emitted_edges w) = (gone_e, ups_e, eme)"
    by (cases "edge_delta ab re (compute_edges w (compute_demands w)) (emitted_edges w)") auto
  have e: "eme = fold (\<lambda>e m. mput (key_of e) e m) ups_e (fold mdel gone_e (emitted_edges w))"
    "mwf eme" "keyed_by key_of eme" "dom (map_of eme) = key_of ` set (compute_edges w (compute_demands w))"
    "\<And>e. e \<in> set (compute_edges w (compute_demands w)) \<Longrightarrow> \<exists>p. map_of eme (key_of e) = Some p \<and> edge_close ab re p e"
    using edge_delta_facts [OF compute_edges_keys [OF assms(1)] _ _ ed] emok by (simp_all add: emitted_ok_def)
  have "demands w = (compute_demands w, w1)" "edges w2 = (compute_edges w (compute_demands w), w3)"
    using demands_ok(1) [OF assms(1)] e3(1) by (simp_all add: prod_eq_iff w1_def w3_def)
  then have run: "delta = \<lparr>upsert_threads = ups, removed_threads = gone, upsert_edges = ups_e, removed_edges = gone_e\<rparr>"
    "w' = w3\<lparr>emitted_edges := eme\<rparr>"
    using assms(2) td ed em3 ok1(2) by (auto simp: take_delta_def Let_def w2_def [symmetric] same_data_def)
  show "window_ok w'"
    using e3(2) e(2,3) em3
    by (simp add: run(2) window_ok_def caches_ok_def emitted_ok_def compute_demands_def compute_edges_def)
  show "horizon_seconds w' = horizon_seconds w" "gw_calibration w' = gw_calibration w"
    using e3(3) ok1(2) by (simp_all add: run(2) same_data_def w2_def)
  show "emitted_demands w' = mirror_threads delta (emitted_demands w)"
    using t(1) em3 by (simp add: run mirror_threads_def)
  show "emitted_edges w' = mirror_edges delta (emitted_edges w)" using e(1) by (simp add: run mirror_edges_def)
  show "dom (map_of (emitted_demands w')) = td_tid ` set (compute_demands w)" using t(4) em3 by (simp add: run)
  show "d \<in> set (compute_demands w) \<Longrightarrow> \<exists>p. map_of (emitted_demands w') (td_tid d) = Some p \<and> demand_close thr p d"
    using t(5) em3 by (simp add: run)
  show "dom (map_of (emitted_edges w')) = key_of ` set (compute_edges w (compute_demands w))" using e(4) by (simp add: run)
  show "e \<in> set (compute_edges w (compute_demands w)) \<Longrightarrow>
       \<exists>p. map_of (emitted_edges w') (key_of e) = Some p \<and> edge_close ab re p e"
    using e(5) by (simp add: run)
qed

end
