(* ===== verification/Graph_Properties.thy ===== *)
theory Graph_Properties
  imports Graph_Delta
begin

text \<open>
  The properties of \<^verbatim>\<open>GraphWindow\<close>, over every window that its operations can reach.
\<close>

section \<open>Reachable windows\<close>

inductive window_reach :: "int \<Rightarrow> calibration \<Rightarrow> graph_window \<Rightarrow> bool" for h c where
  start: "window_reach h c (new_graph_window h c)"
| samples: "window_reach h c w \<Longrightarrow> observe_threads ss w = Inr w' \<Longrightarrow> window_reach h c w'"
| relation: "window_reach h c w \<Longrightarrow> window_reach h c (observe_relation r w)"
| retained: "window_reach h c w \<Longrightarrow> window_reach h c (retain_relations keep w)"
| asked_demands: "window_reach h c w \<Longrightarrow> window_reach h c (snd (demands w))"
| asked_edges: "window_reach h c w \<Longrightarrow> window_reach h c (snd (edges w))"
| asked_records: "window_reach h c w \<Longrightarrow> window_reach h c (snd (thread_records w))"
| emitted: "window_reach h c w \<Longrightarrow> window_reach h c (snd (take_delta thr ab re w))"

lemma reach_ok:
  assumes "window_reach h c w"
  shows "window_ok w \<and> horizon_seconds w = h \<and> gw_calibration w = c"
  using assms
proof induction
  case start
  then show ?case using window_ok_new by (simp add: new_graph_window_def)
next
  case (samples w ss w')
  then show ?case using observe_threads_ok [of w ss] by force
next
  case (relation w r)
  then show ?case using window_ok_observe_relation by (simp add: observe_relation_def Let_def)
next
  case (retained w keep)
  then show ?case using window_ok_retain by (simp add: retain_relations_def Let_def)
next
  case (asked_demands w)
  then show ?case using demands_ok by (simp add: same_data_def)
next
  case (asked_edges w)
  then show ?case using edges_ok by (simp add: same_data_def)
next
  case (asked_records w)
  then show ?case using thread_records_ok(2) demands_ok(3) by (simp add: thread_records_def same_data_def case_prod_beta Let_def)
next
  case (emitted w thr ab re)
  then show ?case using take_delta_facts(1-3) [of w thr ab re] by (metis prod.collapse)
qed

section \<open>A reference for the queries\<close>

text \<open>The edges computed from the observations alone, with no incremental sum and no cache.\<close>

definition reference_edges :: "graph_window \<Rightarrow> relation_edge list" where
  "reference_edges w =
     edges_from (horizon_seconds w) (gw_calibration w) (demand_index (compute_demands w))
       (map (\<lambda>(k, os). (k, fold (add_observation k) os empty_relation_aggregate)) (relation_histories w))"

lemma reference_edges_computed: "window_ok w \<Longrightarrow> compute_edges w (compute_demands w) = reference_edges w"
  by (simp add: window_ok_def relations_ok_def compute_edges_def reference_edges_def summarised_def
      observations.sum_of_def)

section \<open>Bounds\<close>

lemma normalized_range: "0 < s \<Longrightarrow> 0 \<le> normalized v s \<and> normalized v s \<le> 1"
  by (simp add: normalized_def)

lemma clamp_range: "lo \<le> hi \<Longrightarrow> lo \<le> clamp v lo hi \<and> clamp v lo hi \<le> hi"
  by (simp add: clamp_def)

lemma pressures_range: "p \<in> set (pressures h) \<Longrightarrow> 0 \<le> p \<and> p \<le> 1"
  by (induction h rule: pressures.induct) (auto simp: interval_pressure_def clamp_range split: if_splits)

lemma ewma_range: "\<forall>p \<in> set ps. 0 \<le> p \<and> p \<le> 1 \<Longrightarrow> 0 \<le> ewma ps \<and> ewma ps \<le> 1"
proof -
  have "0 \<le> fold (\<lambda>v e. 645 / 10000 * v + 9355 / 10000 * e) ps p \<and>
      fold (\<lambda>v e. 645 / 10000 * v + 9355 / 10000 * e) ps p \<le> 1"
    if "0 \<le> p" "p \<le> 1" "\<forall>p \<in> set ps. 0 \<le> p \<and> p \<le> 1" for p :: real and ps
    using that by (induction ps arbitrary: p) auto
  then show "\<forall>p \<in> set ps. 0 \<le> p \<and> p \<le> 1 \<Longrightarrow> 0 \<le> ewma ps \<and> ewma ps \<le> 1"
    by (cases ps) (auto simp: ewma_def)
qed

lemma demand_of_range:
  "0 \<le> demand (thread_demand_of h hist)" "demand (thread_demand_of h hist) \<le> 1"
  "0 \<le> confidence (thread_demand_of h hist)" "confidence (thread_demand_of h hist) \<le> 1"
  using ewma_range [of "pressures hist"] pressures_range by (auto simp: thread_demand_of_def Let_def)

lemma cv_nonneg: "0 \<le> v \<Longrightarrow> 0 \<le> (if 0 < m then sqrt v / m else 0)"
  by simp

definition unit_interval :: "double \<Rightarrow> bool" where
  "unit_interval x \<longleftrightarrow> 0 \<le> x \<and> x \<le> 1"

lemma unit_mult: "unit_interval x \<Longrightarrow> unit_interval y \<Longrightarrow> unit_interval (x * y)"
  by (simp add: unit_interval_def mult_le_one)

lemma edge_of_range:
  assumes "0 < h" "0 < activity_log_p95 c" "0 < sync_log_p95 c" "0 < share_log_p95 c"
  shows "unit_interval (activity (relation_edge_of h c d1 d2 k a))"
    "unit_interval (sync (relation_edge_of h c d1 d2 k a))"
    "unit_interval (share (relation_edge_of h c d1 d2 k a))"
    "unit_interval (coverage (relation_edge_of h c d1 d2 k a))"
    "unit_interval (stability (relation_edge_of h c d1 d2 k a))"
    "0 \<le> coefficient_of_variation (relation_edge_of h c d1 d2 k a)"
    "0 \<le> score (relation_edge_of h c d1 d2 k a)" "score (relation_edge_of h c d1 d2 k a) \<le> 100"
proof -
  let ?e = "relation_edge_of h c d1 d2 k a"
  show act: "unit_interval (activity ?e)" and syn: "unit_interval (sync ?e)"
    using assms normalized_range by (simp_all add: relation_edge_of_def Let_def unit_interval_def)
  show shr: "unit_interval (share ?e)"
    unfolding relation_edge_of_def Let_def relation_edge.simps
    by (rule unit_mult) (use assms normalized_range clamp_range in \<open>simp_all add: unit_interval_def\<close>)
  show cov: "unit_interval (coverage ?e)"
    using assms(1) by (simp add: relation_edge_of_def Let_def unit_interval_def)
  show cv: "0 \<le> coefficient_of_variation ?e"
    unfolding relation_edge_of_def Let_def relation_edge.simps by (rule cv_nonneg) simp
  have stab: "stability ?e = coverage ?e / (1 + coefficient_of_variation ?e)"
    by (simp add: relation_edge_of_def Let_def)
  show st: "unit_interval (stability ?e)"
    using cov cv by (simp add: stab unit_interval_def)
  have score: "score ?e = 100 * (activity ?e * stability ?e * (7 / 10 * sync ?e + 3 / 10 * share ?e))"
    by (simp add: relation_edge_of_def Let_def)
  have "unit_interval (7 / 10 * sync ?e + 3 / 10 * share ?e)" using syn shr by (simp add: unit_interval_def)
  then have "unit_interval (activity ?e * stability ?e * (7 / 10 * sync ?e + 3 / 10 * share ?e))"
    using act st by (intro unit_mult)
  then show "0 \<le> score ?e" "score ?e \<le> 100" by (simp_all add: score unit_interval_def)
qed

section \<open>Names of worker pools\<close>

text \<open>An index with a separator is stripped off whatever precedes it, with the indices before it.\<close>

definition pool_index :: "string \<Rightarrow> bool" where
  "pool_index s \<longleftrightarrow> (\<exists>c ds. s = c # ds \<and> (c = CHR ''_'' \<or> c = CHR ''-'') \<and> ds \<noteq> [] \<and> list_all isdigit ds)"

lemma not_digit_separator: "c = CHR ''_'' \<or> c = CHR ''-'' \<Longrightarrow> \<not> isdigit c"
  by (auto simp: isdigit_def)

lemma bracket_no_digit: "\<not> isdigit CHR ''[''"
  by (simp add: isdigit_def)

lemma index_suffix_pool:
  assumes "pool_index s" shows "index_suffix (u @ s) \<longleftrightarrow> u = [] \<or> index_suffix u"
proof (induction u rule: index_suffix.induct)
  case (1 u)
  obtain c ds where s: "s = c # ds" "c = CHR ''_'' \<or> c = CHR ''-''" "ds \<noteq> []" "list_all isdigit ds"
    using assms by (auto simp: pool_index_def)
  have ne: "s \<noteq> []" using s(1) by simp
  have nd: "\<not> isdigit c" using not_digit_separator s(2) by blast
  have take: "takeWhile isdigit (v @ s) = takeWhile isdigit v" and
    drop: "dropWhile isdigit (v @ s) = dropWhile isdigit v @ s" for v
    using nd by (induction v) (simp_all add: s(1))
  have base: "index_suffix s"
  proof -
    have "takeWhile isdigit ds = ds" "dropWhile isdigit ds = []" using s(4) by (simp_all add: list_all_iff)
    moreover have "drop_separator s = ds" using s by (auto simp: drop_separator_def)
    ultimately show ?thesis using s(3) by (subst index_suffix.simps) (cases ds, simp_all)
  qed
  show ?case
  proof (cases "u = []")
    case True
    then show ?thesis using base by simp
  next
    case False
    then have "drop_separator (u @ s) = drop_separator u @ s"
      by (auto simp: drop_separator_def split: list.splits)
    then have "index_suffix (u @ s) \<longleftrightarrow> takeWhile isdigit (drop_separator u) \<noteq> [] \<and>
        index_suffix (dropWhile isdigit (drop_separator u) @ s)"
      using ne by (subst index_suffix.simps) (simp add: take drop)
    also have "\<dots> \<longleftrightarrow> index_suffix u"
    proof (cases "dropWhile isdigit (drop_separator u)")
      case Nil
      show ?thesis unfolding index_suffix.simps [of u] Nil using base by simp
    next
      case (Cons d v)
      show ?thesis using 1 unfolding index_suffix.simps [of u] Cons by auto
    qed
    finally show ?thesis using False by simp
  qed
qed

lemma strip_index_pool:
  assumes "pool_index s" shows "strip_index (u @ s) = strip_index u"
proof (induction u)
  case Nil
  obtain c ds where "s = c # ds" using assms by (auto simp: pool_index_def)
  then show ?case using index_suffix_pool [OF assms, of "[]"] by simp
next
  case (Cons c u)
  then show ?case using index_suffix_pool [OF assms, of "c # u"] by simp
qed

lemma strip_role_none: "CHR ''['' \<notin> set n \<Longrightarrow> strip_role n = n"
proof (induction n)
  case (Cons c n)
  have "\<not> role_suffix (dropWhile isspace n)"
  proof (cases "dropWhile isspace n")
    case (Cons d m)
    then have "d \<in> set n" by (metis list.set_intros(1) set_dropWhileD)
    then show ?thesis using Cons Cons.prems by (auto simp: role_suffix_def)
  next
    case Nil
    show ?thesis unfolding Nil by (simp add: role_suffix_def)
  qed
  then show ?case using Cons by simp
qed simp

section \<open>An example run\<close>

definition sample_sample :: "int \<Rightarrow> uint64 \<Rightarrow> uint64 \<Rightarrow> uint64 \<Rightarrow> thread_sample" where
  "sample_sample t start now busy =
     \<lparr>ts_identity = Identity 1 t start, timestamp_ns = now, runtime_ns = busy, runqueue_ns = 0,
      voluntary_switches = 0, involuntary_switches = 0, recent_cpu = 0, ts_state = CHR ''S'',
      comm = ''worker_1'', cgroups = [], allowed_cpus = [0, 1], parent_tid = 1, start_routine = 7,
      start_symbol = []\<rparr>"

definition sample_observation :: relation_observation where
  "sample_observation =
     \<lparr>ro_from_tid = 11, ro_to_tid = 10, from_starttime = 5, to_starttime = 5, ro_timestamp_ns = 200,
      futex_per_second = 3, ro_shared_vfs_seconds = 1, ro_active_overlap = 1\<rparr>"

definition sample_calibration :: calibration where
  "sample_calibration = \<lparr>activity_log_p95 = 1, sync_log_p95 = 1, share_log_p95 = 1\<rparr>"

definition sample_batch :: "thread_sample list" where
  "sample_batch = [sample_sample 10 5 100 0, sample_sample 11 5 100 0, sample_sample 10 5 200 50, sample_sample 11 5 200 30]"

definition sample_window :: "graph_window" where
  "sample_window =
     (case observe_threads sample_batch (new_graph_window 10 sample_calibration) of
        Inl e \<Rightarrow> new_graph_window 10 sample_calibration
      | Inr w \<Rightarrow> observe_relation sample_observation w)"

lemma sample_window_reach: "window_reach 10 sample_calibration sample_window"
proof -
  obtain w where w: "observe_threads sample_batch (new_graph_window 10 sample_calibration) = Inr w"
    using observe_threads_ok [OF window_ok_new] by blast
  have "window_reach 10 sample_calibration (observe_relation sample_observation w)"
    by (rule window_reach.relation [OF window_reach.samples [OF window_reach.start w]])
  then show ?thesis by (simp add: sample_window_def w)
qed

lemma sample_window_facts:
  "map fst (threads sample_window) = [10, 11] \<and> map fst (relation_histories sample_window) = [(10, 11)]"
  by code_simp

lemma expire_relations_keys:
  "expire_relations cutoff hs aggs = Inr (hs', aggs') \<Longrightarrow> fst ` set hs' \<subseteq> fst ` set hs"
proof (induction hs arbitrary: aggs hs')
  case (Cons e hs)
  obtain k h where e: "e = (k, h)" by fastforce
  obtain h' ag rest where "expire_relations cutoff hs ag = Inr (rest, aggs')" "hs' = (if h' = [] then rest else (k, h') # rest)"
    using Cons.prems by (auto simp: e Let_def split: option.splits prod.splits sum.splits)
  then show ?case using Cons.IH by (auto simp: e split: if_splits)
qed simp

section \<open>Properties\<close>

text \<open>
  C20. In a reachable window no lookup with \<^verbatim>\<open>at\<close> can throw: taking in samples always succeeds,
  and so does building the thread records, however the calls were interleaved.
\<close>

theorem window_total:
  assumes "window_reach h c w"
  shows "(\<exists>w'. observe_threads ss w = Inr w') \<and> (\<exists>rs. fst (thread_records w) = Inr rs)"
  using reach_ok [OF assms] observe_threads_ok [of w ss] thread_records_ok(1) [of w] by blast

theorem window_total_witness:
  "(\<exists>w'. observe_threads sample_batch sample_window = Inr w') \<and> (\<exists>rs. fst (thread_records sample_window) = Inr rs)"
  using window_total [OF sample_window_reach] .



text \<open>
  With a positive horizon and positive calibration values every demand and confidence a
  reachable window reports is between 0 and 1, and so are the components of every edge, whose
  score is between 0 and 100.
\<close>

theorem scores_bounded:
  assumes "window_reach h c w" "0 < h" "0 < activity_log_p95 c" "0 < sync_log_p95 c" "0 < share_log_p95 c"
  shows "(\<forall>d \<in> set (fst (demands w)). unit_interval (demand d) \<and> unit_interval (confidence d)) \<and>
    (\<forall>e \<in> set (fst (edges w)). unit_interval (activity e) \<and> unit_interval (sync e) \<and> unit_interval (share e) \<and>
       unit_interval (stability e) \<and> 0 \<le> score e \<and> score e \<le> 100)"
proof -
  have ok: "window_ok w" "horizon_seconds w = h" "gw_calibration w = c" using reach_ok [OF assms(1)] by auto
  have "unit_interval (demand d) \<and> unit_interval (confidence d)" if "d \<in> set (compute_demands w)" for d
    using that compute_demands_threads(2) [OF ok(1)] demand_of_range by (auto simp: unit_interval_def)
  moreover have "unit_interval (activity e) \<and> unit_interval (sync e) \<and> unit_interval (share e) \<and>
      unit_interval (stability e) \<and> 0 \<le> score e \<and> score e \<le> 100" if "e \<in> set (reference_edges w)" for e
  proof -
    have "\<exists>d1 d2 k a. e = relation_edge_of h c d1 d2 k a"
      using that ok(2,3) unfolding reference_edges_def edges_from_def by fastforce
    then obtain d1 d2 k a where e: "e = relation_edge_of h c d1 d2 k a" by blast
    show ?thesis unfolding e using edge_of_range [OF assms(2-5), of d1 d2 k a] by simp
  qed
  ultimately show ?thesis
    using demands_ok(1) [OF ok(1)] edges_ok(1) [OF ok(1)] reference_edges_computed [OF ok(1)] by simp
qed

theorem scores_bounded_witness:
  "list_all (\<lambda>e. 0 \<le> score e \<and> score e \<le> 100) (fst (edges sample_window))"
  using scores_bounded [OF sample_window_reach] by (simp add: sample_calibration_def list_all_iff)

text \<open>
  C23. A consumer that applies a delta to its copy of the emitted graph holds the new emitted
  graph, which has exactly the current threads and edges: every thread with its current
  identity and family and a demand within the threshold, every edge with a score within both
  thresholds.
\<close>

theorem delta_mirror:
  assumes "window_reach h c w" "take_delta thr ab re w = (delta, w')"
  shows "mirror_threads delta (emitted_demands w) = emitted_demands w' \<and>
    mirror_edges delta (emitted_edges w) = emitted_edges w' \<and>
    dom (map_of (emitted_demands w')) = td_tid ` set (compute_demands w) \<and>
    (\<forall>d \<in> set (compute_demands w). \<exists>p. map_of (emitted_demands w') (td_tid d) = Some p \<and> demand_close thr p d) \<and>
    dom (map_of (emitted_edges w')) = key_of ` set (reference_edges w) \<and>
    (\<forall>e \<in> set (reference_edges w). \<exists>p. map_of (emitted_edges w') (key_of e) = Some p \<and> edge_close ab re p e)"
proof -
  have ok: "window_ok w" using reach_ok [OF assms(1)] by blast
  note d = take_delta_facts [OF ok assms(2)]
  show ?thesis using d(4-9) reference_edges_computed [OF ok] by simp
qed

theorem delta_mirror_witness:
  "\<exists>delta w'. take_delta 0.1 1 0.1 sample_window = (delta, w') \<and>
     mirror_threads delta (emitted_demands sample_window) = emitted_demands w'"
  using delta_mirror [OF sample_window_reach] by (metis surj_pair)

text \<open>
  When a thread number comes back with another start time, its samples restart with the
  new one and every relation of the old thread is gone, sums included.
\<close>

theorem reused_thread_forgotten:
  assumes "window_reach h c w" "map_of (threads w) (tid (ts_identity s)) = Some hist"
    and "starttime (ts_identity (last hist)) \<noteq> starttime (ts_identity s)"
  shows "\<exists>w'. observe_threads [s] w = Inr w' \<and> map_of (threads w') (tid (ts_identity s)) = Some [s] \<and>
    (\<forall>k \<in> dom (map_of (relation_histories w')) \<union> dom (map_of (relation_aggregates w')).
       fst k \<noteq> tid (ts_identity s) \<and> snd k \<noteq> tid (ts_identity s))"
proof -
  let ?t = "tid (ts_identity s)"
  have ok: "window_ok w" using reach_ok [OF assms(1)] by blast
  obtain w' where w': "observe_threads [s] w = Inr w'" "window_ok w'" using observe_threads_ok [OF ok, of "[s]"] by blast
  have hist: "hist \<noteq> []"
    using ok assms(2) by (auto simp: window_ok_def histories_ok_def dest: map_of_SomeD)
  define c' where "c' = cutoff_of (horizon_seconds w) (timestamp_ns s)"
  have fresh: "\<not> timestamp_ns s < c'"
    by (simp add: c'_def cutoff_of_def Let_def not_less word_sub_le less_imp_le)
  define kept where "kept = filter (\<lambda>(k, h). \<not> (fst k = ?t \<or> snd k = ?t)) (relation_histories w)"
  have reused: "mgetd [] (threads w) ?t = hist" using assms(2) by (simp add: mgetd_def)
  obtain hs aggs gone where run:
    "expire_relations c' kept gone = Inr (hs, aggs)"
    "threads w' = expire_threads c' (mput ?t [s] (threads w))"
    "relation_histories w' = hs" "relation_aggregates w' = aggs"
    using w'(1) reused hist assms(3)
    by (auto simp: observe_threads_def observe_sample_def forget_relations_def Let_def c'_def kept_def
        split: sum.splits)
  have "map_of (expire_threads c' m) t = Some x"
    if "map_of m t = Some x" "x = [s]" for m t x
    using that fresh by (induction m) (auto simp: expire_threads_def)
  then have th: "map_of (threads w') ?t = Some [s]" using run(2) by simp
  have "fst k \<noteq> ?t \<and> snd k \<noteq> ?t" if "k \<in> dom (map_of (relation_histories w'))" for k
  proof -
    have "k \<in> fst ` set kept"
      using that expire_relations_keys [OF run(1)] run(3) by (auto simp: dom_map_of_conv_image_fst)
    then show ?thesis by (auto simp: kept_def)
  qed
  moreover have "dom (map_of (relation_aggregates w')) = dom (map_of (relation_histories w'))"
    using w'(2) by (auto simp: window_ok_def relations_ok_def map_of_summarised)
  ultimately show ?thesis using w'(1) th by auto
qed

theorem reused_thread_forgotten_witness:
  "\<exists>w'. observe_threads [sample_sample 10 6 300 0] sample_window = Inr w' \<and>
     map_of (threads w') 10 = Some [sample_sample 10 6 300 0] \<and> (10, 11) \<notin> dom (map_of (relation_histories w'))"
proof -
  have "map_of (threads sample_window) (tid (ts_identity (sample_sample 10 6 300 0))) =
      Some [sample_sample 10 5 100 0, sample_sample 10 5 200 50]"
    by code_simp
  from reused_thread_forgotten [OF sample_window_reach this]
  show ?thesis by (force simp: sample_sample_def)
qed

text \<open>
  The workers of a pool are one family: names that differ only in a separated index at the
  end, and threads that differ in their parent, have the same group.
\<close>

theorem pool_shares_family:
  assumes "pool_index s1" "pool_index s2" "CHR ''['' \<notin> set name"
  shows "normalize_group (name @ s1) routine p1 symbol = normalize_group (name @ s2) routine p2 symbol"
proof -
  have "CHR ''['' \<notin> set (name @ s)" if "pool_index s" for s
    using that assms(3) bracket_no_digit by (auto simp: pool_index_def list_all_iff)
  then show ?thesis using assms strip_index_pool strip_role_none by (simp add: normalize_group_def)
qed

theorem pool_shares_family_witness:
  "normalize_group (''io-worker'' @ ''_12'') 7 1 [] = normalize_group (''io-worker'' @ ''-3'') 7 2 []"
  by (rule pool_shares_family) (simp_all add: pool_index_def isdigit_def)

end
