(* ===== verification/Legacy_Solver.thy ===== *)
theory Legacy_Solver
  imports Topology
begin

text \<open>
  \<^verbatim>\<open>Solver::solve\<close> of \<^verbatim>\<open>src/solver.cpp\<close>, the one-shot placement of threads on CPUs, and the active
  cohort functions beside it. The stages are those of the code: order the threads, seed the
  nodes greedily, refine them, place the threads of a node on its CPUs, refine the CPUs, take
  migrations back until the budget holds, and total the costs.

  The cache of node latencies holds every pair of nodes and is only read at such pairs, so the
  model computes the entry. A node without an online CPU (no discovered graph has one) has the
  latency 0 instead of the infinity of the code. Threads of equal demand keep their order in
  the list of migrations, one of the orders \<^verbatim>\<open>std::sort\<close> may produce.
\<close>

section \<open>Cohorts\<close>

definition active_cohort :: "thread_demand list \<Rightarrow> double \<Rightarrow> (int \<times> int \<times> uint64) oset" where
  "active_cohort threads active_threshold =
     fold (\<lambda>t s. if active_threshold \<le> demand t then sput (identity_key (td_identity t)) s else s) threads []"

definition active_cohort_continues ::
  "(int \<times> int \<times> uint64) oset \<Rightarrow> (int \<times> int \<times> uint64) oset \<Rightarrow> double \<Rightarrow> bool" where
  "active_cohort_continues previous current maximum_growth_ratio =
     (if previous = current then current \<noteq> []
      else if length previous < 20 \<or> length current \<le> length previous \<or> \<not> set previous \<subseteq> set current then False
      else length current - length previous \<le> nat \<lceil>real (length previous) * maximum_growth_ratio\<rceil>)"

section \<open>Options and result\<close>

record solve_options =
  maximum_migrated_active_threads_ratio :: double
  active_threshold :: double
  inactive_threshold :: double
  minimum_confidence :: double
  strategy_id :: string
  demand_floor :: double
  max_threads_per_cpu :: int
  slot_slack :: int
  count_penalty :: double
  low_demand_spread :: double
  same_cpu_contention_penalty :: double
  group_spread_penalty :: double
  thread_count_tie_break :: bool
  fm_passes :: int
  lpt_refinement_passes :: int

record solver_placement =
  assigned_cpu :: "(int, int) omap"
  overload :: double
  relation_cost :: double
  migration_cost :: double
  same_cpu_edge_weight :: double

definition empty_placement :: solver_placement where
  "empty_placement = \<lparr>assigned_cpu = [], overload = 0, relation_cost = 0, migration_cost = 0, same_cpu_edge_weight = 0\<rparr>"

definition legacy :: "solve_options \<Rightarrow> bool" where
  "legacy opts \<longleftrightarrow> strategy_id opts = ''legacy-v1''"

definition slot_constraints :: "solve_options \<Rightarrow> bool" where
  "slot_constraints opts \<longleftrightarrow> \<not> legacy opts \<and> 0 \<le> max_threads_per_cpu opts"

definition cpu_cap :: "hardware_graph \<Rightarrow> thread_demand list \<Rightarrow> solve_options \<Rightarrow> int" where
  "cpu_cap hw threads opts =
     (if 0 < max_threads_per_cpu opts then max_threads_per_cpu opts
      else \<lceil>real (length threads) / real (length (cpus hw))\<rceil> + slot_slack opts)"

section \<open>The graph of relations\<close>

definition adjacency :: "relation_edge list \<Rightarrow> (int, relation_edge list) omap" where
  "adjacency es = fold (\<lambda>e m. mpush (to_tid e) e (mpush (from_tid e) e m)) es []"

definition other_end :: "int \<Rightarrow> relation_edge \<Rightarrow> int" where
  "other_end t e = (if from_tid e = t then to_tid e else from_tid e)"

text \<open>The cost of a thread's relations to the threads that already have a place.\<close>

definition relation_to :: "(relation_edge \<Rightarrow> int \<Rightarrow> double) \<Rightarrow> (int, int) omap \<Rightarrow> relation_edge list \<Rightarrow> int \<Rightarrow> double" where
  "relation_to cost placed es t =
     sum_list (map (\<lambda>e. case map_of placed (other_end t e) of None \<Rightarrow> 0 | Some p \<Rightarrow> cost e p) es)"

definition order_threads :: "solve_options \<Rightarrow> (int, relation_edge list) omap \<Rightarrow> thread_demand list \<Rightarrow> thread_demand list" where
  "order_threads opts adj threads =
     (let floored = (if \<not> legacy opts \<and> 0 < demand_floor opts
                     then map (\<lambda>t. t\<lparr>demand := max (demand t) (demand_floor opts)\<rparr>) threads else threads)
      in sort_key (\<lambda>t. (- demand t, - sum_list (map score (mgetd [] adj (td_tid t))), td_tid t)) floored)"

definition node_latency_entry :: "hardware_graph \<Rightarrow> int \<Rightarrow> int \<Rightarrow> double" where
  "node_latency_entry hw from to =
     (let ls = concat (map (\<lambda>a. map (\<lambda>b. latency hw a b) (cpus_in_node hw to)) (cpus_in_node hw from))
      in if ls = [] then 0 else min_element (\<lambda>l. l) ls)"

section \<open>Node assignment\<close>

record node_plan =
  node_load :: "(int, double) omap"
  node_count :: "(int, int) omap"
  tid_node :: "(int, int) omap"

definition empty_node_plan :: node_plan where
  "empty_node_plan = \<lparr>node_load = [], node_count = [], tid_node = []\<rparr>"

abbreviation capacity_of :: "hardware_graph \<Rightarrow> int \<Rightarrow> int" where
  "capacity_of hw node \<equiv> int (length (cpus_in_node hw node))"

definition seed_cost ::
  "hardware_graph \<Rightarrow> solve_options \<Rightarrow> int \<Rightarrow> relation_edge list \<Rightarrow> thread_demand \<Rightarrow> node_plan \<Rightarrow> int \<Rightarrow>
   double \<times> double \<times> double \<times> int" where
  "seed_cost hw opts cap es t p node =
     (max 0 (mgetd 0 (node_load p) node + demand t - real_of_int (capacity_of hw node)) +
        (if slot_constraints opts \<and> cap * capacity_of hw node \<le> mgetd 0 (node_count p) node then 10 ^ 12 else 0),
      relation_to (\<lambda>e n. score e * node_latency_entry hw node n) (tid_node p) es (td_tid t),
      (if \<exists>c \<in> set (cpus hw). cpu_id c = current_cpu t \<and> cpu_node c \<noteq> node then demand t else 0),
      node)"

definition seed_thread ::
  "hardware_graph \<Rightarrow> solve_options \<Rightarrow> int \<Rightarrow> (int, relation_edge list) omap \<Rightarrow> thread_demand \<Rightarrow> node_plan \<Rightarrow> node_plan" where
  "seed_thread hw opts cap adj t p =
     (let best = min_element (seed_cost hw opts cap (mgetd [] adj (td_tid t)) t p) (nodes hw) in
      \<lparr>node_load = madd best (demand t) (node_load p), node_count = madd best 1 (node_count p),
       tid_node = mput (td_tid t) best (tid_node p)\<rparr>)"

definition move_cost ::
  "hardware_graph \<Rightarrow> solve_options \<Rightarrow> int \<Rightarrow> relation_edge list \<Rightarrow> thread_demand \<Rightarrow> int \<Rightarrow> node_plan \<Rightarrow> int \<Rightarrow>
   double \<times> double \<times> double \<times> int" where
  "move_cost hw opts cap es t original p candidate =
     (sum_list (map (\<lambda>node. max 0 (mgetd 0 (node_load p) node - (if node = original then demand t else 0) +
           (if node = candidate then demand t else 0) - real_of_int (capacity_of hw node))) (nodes hw)) +
        (if slot_constraints opts \<and>
            cap * capacity_of hw candidate < mgetd 0 (node_count p) candidate - (if candidate = original then 1 else 0) + 1
         then 10 ^ 12 else 0),
      relation_to (\<lambda>e n. score e * node_latency_entry hw candidate n) (tid_node p) es (td_tid t),
      fold (\<lambda>c m. if cpu_id c = current_cpu t then demand t * node_latency_entry hw (cpu_node c) candidate else m)
        (cpus hw) 0,
      candidate)"

definition move_thread ::
  "hardware_graph \<Rightarrow> solve_options \<Rightarrow> int \<Rightarrow> (int, relation_edge list) omap \<Rightarrow> thread_demand \<Rightarrow>
   bool \<times> node_plan \<Rightarrow> bool \<times> node_plan" where
  "move_thread hw opts cap adj t st =
     (let (changed, p) = st;
          original = mgetd 0 (tid_node p) (td_tid t);
          best = scan_min (move_cost hw opts cap (mgetd [] adj (td_tid t)) t original p) (nodes hw) original
      in if best = original then (changed, p)
         else (True,
           \<lparr>node_load = madd best (demand t) (madd original (- demand t) (node_load p)),
            node_count = madd best 1 (madd original (- 1) (node_count p)),
            tid_node = mput (td_tid t) best (tid_node p)\<rparr>))"

text \<open>A bounded number of passes that ends with the first pass that changes nothing.\<close>

fun run_passes :: "nat \<Rightarrow> ('s \<Rightarrow> bool \<times> 's) \<Rightarrow> 's \<Rightarrow> 's" where
  "run_passes 0 pass s = s"
| "run_passes (Suc n) pass s = (let (changed, s') = pass s in if changed then run_passes n pass s' else s')"

definition assign_nodes ::
  "hardware_graph \<Rightarrow> solve_options \<Rightarrow> int \<Rightarrow> (int, relation_edge list) omap \<Rightarrow> thread_demand list \<Rightarrow> node_plan" where
  "assign_nodes hw opts cap adj ordered =
     run_passes (nat (fm_passes opts)) (\<lambda>p. fold (move_thread hw opts cap adj) ordered (False, p))
       (fold (seed_thread hw opts cap adj) ordered empty_node_plan)"

section \<open>CPU assignment\<close>

record cpu_plan =
  cpu_load :: "(int, double) omap"
  cpu_count :: "(int, int) omap"
  cpu_group_count :: "(int \<times> string, int) omap"
  placed_cpu :: "(int, int) omap"

definition empty_cpu_plan :: cpu_plan where
  "empty_cpu_plan = \<lparr>cpu_load = [], cpu_count = [], cpu_group_count = [], placed_cpu = []\<rparr>"

definition relation_on_cpu ::
  "hardware_graph \<Rightarrow> solve_options \<Rightarrow> relation_edge list \<Rightarrow> thread_demand \<Rightarrow> cpu_plan \<Rightarrow> int \<Rightarrow> double" where
  "relation_on_cpu hw opts es t q c =
     relation_to (\<lambda>e p. score e * latency hw c p +
         (if \<not> legacy opts \<and> c = p then score e * same_cpu_contention_penalty opts else 0))
       (placed_cpu q) es (td_tid t)"

definition place_cost ::
  "hardware_graph \<Rightarrow> solve_options \<Rightarrow> int \<Rightarrow> relation_edge list \<Rightarrow> thread_demand \<Rightarrow> cpu_plan \<Rightarrow> int \<Rightarrow>
   double \<times> double \<times> double \<times> int" where
  "place_cost hw opts cap es t q c =
     (let count = mgetd 0 (cpu_count q) c in
      (mgetd 0 (cpu_load q) c + demand t +
         (if \<not> legacy opts \<and> thread_count_tie_break opts then real_of_int count * (1 / 10 ^ 9) else 0),
       relation_on_cpu hw opts es t q c,
       (if legacy opts then 0
        else (if slot_constraints opts \<and> cap \<le> count then 10 ^ 12 else 0) +
          count_penalty opts * (real_of_int count + 1)\<^sup>2 +
          (if demand t < active_threshold opts then low_demand_spread opts * real_of_int count else 0) +
          group_spread_penalty opts * real_of_int (mgetd 0 (cpu_group_count q) (c, group t))),
       c))"

definition place_thread ::
  "hardware_graph \<Rightarrow> solve_options \<Rightarrow> int \<Rightarrow> (int, relation_edge list) omap \<Rightarrow> node_plan \<Rightarrow> thread_demand \<Rightarrow>
   cpu_plan \<Rightarrow> cpu_plan result" where
  "place_thread hw opts cap adj p t q =
     (let cs = cpus_in_node hw (mgetd 0 (tid_node p) (td_tid t)) in
      if cs = [] then Inl (Runtime_Error ''node has no CPU in envelope'')
      else (let best = min_element (place_cost hw opts cap (mgetd [] adj (td_tid t)) t q) cs in
        Inr \<lparr>cpu_load = madd best (demand t) (cpu_load q), cpu_count = madd best 1 (cpu_count q),
             cpu_group_count = madd (best, group t) 1 (cpu_group_count q),
             placed_cpu = mput (td_tid t) best (placed_cpu q)\<rparr>))"

definition refine_cost ::
  "hardware_graph \<Rightarrow> solve_options \<Rightarrow> int \<Rightarrow> relation_edge list \<Rightarrow> thread_demand \<Rightarrow> int \<Rightarrow> cpu_plan \<Rightarrow> int \<Rightarrow>
   double \<times> double \<times> double \<times> int" where
  "refine_cost hw opts cap es t original q c =
     (let count = mgetd 0 (cpu_count q) c + (if c = original then 0 else 1) in
      (mgetd 0 (cpu_load q) c + (if c = original then 0 else demand t),
       relation_to (\<lambda>e p. score e * latency hw c p +
           (if c = p then score e * same_cpu_contention_penalty opts else 0)) (placed_cpu q) es (td_tid t),
       (if slot_constraints opts \<and> cap < count then 10 ^ 12 else 0) +
         count_penalty opts * (real_of_int count)\<^sup>2 +
         (if demand t < active_threshold opts then low_demand_spread opts * real_of_int count else 0) +
         group_spread_penalty opts *
           real_of_int (mgetd 0 (cpu_group_count q) (c, group t) - (if c = original then 1 else 0)),
       c))"

definition refine_thread ::
  "hardware_graph \<Rightarrow> solve_options \<Rightarrow> int \<Rightarrow> (int, relation_edge list) omap \<Rightarrow> node_plan \<Rightarrow> thread_demand \<Rightarrow>
   bool \<times> cpu_plan \<Rightarrow> bool \<times> cpu_plan" where
  "refine_thread hw opts cap adj p t st =
     (let (changed, q) = st;
          original = mgetd 0 (placed_cpu q) (td_tid t);
          best = scan_min (refine_cost hw opts cap (mgetd [] adj (td_tid t)) t original q)
            (cpus_in_node hw (mgetd 0 (tid_node p) (td_tid t))) original
      in if best = original then (changed, q)
         else (True,
           \<lparr>cpu_load = madd best (demand t) (madd original (- demand t) (cpu_load q)),
            cpu_count = madd best 1 (madd original (- 1) (cpu_count q)),
            cpu_group_count = madd (best, group t) 1 (madd (original, group t) (- 1) (cpu_group_count q)),
            placed_cpu = mput (td_tid t) best (placed_cpu q)\<rparr>))"

definition assign_cpus ::
  "hardware_graph \<Rightarrow> solve_options \<Rightarrow> int \<Rightarrow> (int, relation_edge list) omap \<Rightarrow> node_plan \<Rightarrow> thread_demand list \<Rightarrow>
   cpu_plan result" where
  "assign_cpus hw opts cap adj p ordered =
     (case rfold (place_thread hw opts cap adj p) ordered empty_cpu_plan of
        Inl e \<Rightarrow> Inl e
      | Inr q \<Rightarrow>
          Inr (if legacy opts then q
               else run_passes (nat (lpt_refinement_passes opts))
                 (\<lambda>q. fold (refine_thread hw opts cap adj p) ordered (False, q)) q))"

section \<open>Migration budget\<close>

definition migrations :: "solve_options \<Rightarrow> thread_demand list \<Rightarrow> (int, int) omap \<Rightarrow> thread_demand list" where
  "migrations opts threads placed =
     sort_key demand (filter (\<lambda>t. active_threshold opts \<le> demand t \<and> mgetd 0 placed (td_tid t) \<noteq> current_cpu t) threads)"

definition migration_budget :: "solve_options \<Rightarrow> thread_demand list \<Rightarrow> nat" where
  "migration_budget opts threads =
     nat \<lfloor>real (length (filter (\<lambda>t. active_threshold opts \<le> demand t) threads)) * maximum_migrated_active_threads_ratio opts\<rfloor>"

definition take_back :: "hardware_graph \<Rightarrow> solve_options \<Rightarrow> int \<Rightarrow> thread_demand \<Rightarrow> cpu_plan \<Rightarrow> cpu_plan" where
  "take_back hw opts cap t q =
     (let assigned = mgetd 0 (placed_cpu q) (td_tid t);
          eligible = (\<exists>c \<in> set (cpus hw). cpu_id c = current_cpu t);
          slot = (\<not> slot_constraints opts \<or> mgetd 0 (cpu_count q) (current_cpu t) < cap \<or> assigned = current_cpu t)
      in if eligible \<and> slot
         then q\<lparr>cpu_count := (if \<not> legacy opts \<and> assigned \<noteq> current_cpu t
                  then madd (current_cpu t) 1 (madd assigned (- 1) (cpu_count q)) else cpu_count q),
                placed_cpu := mput (td_tid t) (current_cpu t) (placed_cpu q)\<rparr>
         else q)"

definition enforce_budget :: "hardware_graph \<Rightarrow> solve_options \<Rightarrow> int \<Rightarrow> thread_demand list \<Rightarrow> cpu_plan \<Rightarrow> cpu_plan" where
  "enforce_budget hw opts cap threads q =
     (let ms = migrations opts threads (placed_cpu q) in
      fold (take_back hw opts cap) (take (length ms - migration_budget opts threads) ms) q)"

section \<open>Totals\<close>

definition total_costs ::
  "hardware_graph \<Rightarrow> thread_demand list \<Rightarrow> relation_edge list \<Rightarrow> (int, int) omap \<Rightarrow> solver_placement" where
  "total_costs hw threads es placed =
     (let cpu_of = mgetd 0 placed;
          loads = fold (\<lambda>t m. madd (cpu_of (td_tid t)) (demand t) m) threads [];
          ends = (\<lambda>e. case (map_of placed (from_tid e), map_of placed (to_tid e)) of
             (Some a, Some b) \<Rightarrow> Some (a, b) | _ \<Rightarrow> None)
      in \<lparr>assigned_cpu = placed,
          overload = sum_list (map (\<lambda>(c, l). max 0 (l - 1)) loads),
          relation_cost = sum_list (map (\<lambda>e. case ends e of None \<Rightarrow> 0 | Some (a, b) \<Rightarrow> score e * latency hw a b) es),
          migration_cost = sum_list (map (\<lambda>t. if cpu_of (td_tid t) \<noteq> current_cpu t
             then demand t * latency hw (current_cpu t) (cpu_of (td_tid t)) else 0) threads),
          same_cpu_edge_weight = sum_list (map (\<lambda>e. case ends e of None \<Rightarrow> 0
             | Some (a, b) \<Rightarrow> if a = b then score e else 0) es)\<rparr>)"

section \<open>The solver\<close>

definition solve ::
  "hardware_graph \<Rightarrow> thread_demand list \<Rightarrow> relation_edge list \<Rightarrow> solve_options \<Rightarrow> solver_placement result" where
  "solve hw threads es opts =
     (if threads = [] then Inr empty_placement
      else if nodes hw = [] then Inl (Runtime_Error ''empty hardware graph'')
      else
        (let adj = adjacency es;
             cap = cpu_cap hw threads opts;
             ordered = order_threads opts adj threads;
             p = assign_nodes hw opts cap adj ordered
         in case assign_cpus hw opts cap adj p ordered of
              Inl e \<Rightarrow> Inl e
            | Inr q \<Rightarrow> Inr (total_costs hw threads es (placed_cpu (enforce_budget hw opts cap threads q)))))"

section \<open>Every thread gets a CPU of the graph\<close>

definition plan_ok :: "hardware_graph \<Rightarrow> int set \<Rightarrow> (int, int) omap \<Rightarrow> bool" where
  "plan_ok hw ts m \<longleftrightarrow> dom (map_of m) = ts \<and> ran (map_of m) \<subseteq> set (nodes hw)"

lemma ran_upd: "ran (m(k \<mapsto> v)) \<subseteq> insert v (ran m)"
  by (auto simp: ran_def split: if_splits)

lemma ran_mput: "ran (map_of m) \<subseteq> A \<Longrightarrow> v \<in> A \<Longrightarrow> ran (map_of (mput k v m)) \<subseteq> A"
  using ran_upd [of "map_of m" k v] by auto

lemma seed_ok:
  assumes "nodes hw \<noteq> []" "plan_ok hw ts (tid_node p)"
  shows "plan_ok hw (insert (td_tid t) ts) (tid_node (seed_thread hw opts cap adj t p))"
proof -
  have "min_element (seed_cost hw opts cap (mgetd [] adj (td_tid t)) t p) (nodes hw) \<in> set (nodes hw)"
    using assms(1) by (rule min_element_best)
  then show ?thesis using assms(2) by (simp add: seed_thread_def Let_def plan_ok_def ran_mput del: map_of_mput set_nodes)
qed

lemma seeds_ok_all:
  "nodes hw \<noteq> [] \<Longrightarrow> plan_ok hw ts (tid_node p) \<Longrightarrow>
   plan_ok hw (ts \<union> td_tid ` set xs) (tid_node (fold (seed_thread hw opts cap adj) xs p))"
proof (induction xs arbitrary: ts p)
  case (Cons t xs)
  from Cons.IH [OF Cons.prems(1) seed_ok [OF Cons.prems, of t opts cap adj]]
  show ?case by (simp add: insert_commute Un_insert_left)
qed simp

lemma move_ok:
  assumes "plan_ok hw ts (tid_node (snd st))" "td_tid t \<in> ts"
  shows "plan_ok hw ts (tid_node (snd (move_thread hw opts cap adj t st)))"
proof -
  obtain c p where st: "st = (c, p)" by fastforce
  let ?o = "mgetd 0 (tid_node p) (td_tid t)"
  let ?b = "scan_min (move_cost hw opts cap (mgetd [] adj (td_tid t)) t ?o p) (nodes hw) ?o"
  have "?b \<in> insert ?o (set (nodes hw))" by (rule scan_min_best)
  then have "?b \<noteq> ?o \<Longrightarrow> ?b \<in> set (nodes hw)" by blast
  then show ?thesis using assms
    by (simp add: st move_thread_def Let_def plan_ok_def ran_mput insert_absorb del: map_of_mput set_nodes)
qed

lemma run_passes_inv: "P s \<Longrightarrow> (\<And>s. P s \<Longrightarrow> P (snd (pass s))) \<Longrightarrow> P (run_passes n pass s)"
  by (induction n arbitrary: s) (auto split: prod.splits, metis snd_conv, metis snd_conv)

lemma fold_snd_inv:
  "P (snd st) \<Longrightarrow> (\<And>x st. x \<in> set xs \<Longrightarrow> P (snd st) \<Longrightarrow> P (snd (f x st))) \<Longrightarrow> P (snd (fold f xs st))"
  by (induction xs arbitrary: st) auto

lemma assign_nodes_ok:
  assumes "nodes hw \<noteq> []"
  shows "plan_ok hw (td_tid ` set xs) (tid_node (assign_nodes hw opts cap adj xs))"
  unfolding assign_nodes_def
proof (rule run_passes_inv)
  show "plan_ok hw (td_tid ` set xs) (tid_node (fold (seed_thread hw opts cap adj) xs empty_node_plan))"
    using seeds_ok_all [OF assms, of "{}" empty_node_plan xs opts cap adj]
    by (simp add: plan_ok_def empty_node_plan_def)
next
  fix p :: node_plan assume "plan_ok hw (td_tid ` set xs) (tid_node p)"
  then show "plan_ok hw (td_tid ` set xs) (tid_node (snd (fold (move_thread hw opts cap adj) xs (False, p))))"
    by (intro fold_snd_inv [where P = "\<lambda>p. plan_ok hw (td_tid ` set xs) (tid_node p)"]) (auto intro: move_ok)
qed

definition graph_cpus :: "hardware_graph \<Rightarrow> int set" where
  "graph_cpus hw = cpu_id ` set (cpus hw)"

lemma graph_cpus_iff: "(\<exists>c \<in> set (cpus hw). cpu_id c = x) \<longleftrightarrow> x \<in> graph_cpus hw"
  by (auto simp: graph_cpus_def)

definition places :: "hardware_graph \<Rightarrow> int set \<Rightarrow> (int, int) omap \<Rightarrow> bool" where
  "places hw ts m \<longleftrightarrow> dom (map_of m) = ts \<and> ran (map_of m) \<subseteq> graph_cpus hw"

lemma cpus_in_node_graph: "set (cpus_in_node hw n) \<subseteq> graph_cpus hw"
  by (auto simp: set_cpus_in_node graph_cpus_def)

lemma places_mput: "places hw ts m \<Longrightarrow> c \<in> graph_cpus hw \<Longrightarrow> places hw (insert t ts) (mput t c m)"
  by (simp add: places_def ran_mput del: map_of_mput)

lemma places_again: "places hw ts m \<Longrightarrow> c \<in> graph_cpus hw \<Longrightarrow> t \<in> ts \<Longrightarrow> places hw ts (mput t c m)"
  using places_mput [of hw ts m c t] by (simp add: insert_absorb)

lemma place_threads_ok:
  assumes online: "\<And>n. n \<in> set (nodes hw) \<Longrightarrow> cpus_in_node hw n \<noteq> []"
    and plan: "plan_ok hw ts (tid_node p)" and sub: "td_tid ` set xs \<subseteq> ts"
    and q: "places hw us (placed_cpu q)"
  shows "\<exists>q'. rfold (place_thread hw opts cap adj p) xs q = Inr q' \<and> places hw (us \<union> td_tid ` set xs) (placed_cpu q')"
  using sub q
proof (induction xs arbitrary: q us)
  case (Cons t xs)
  let ?n = "mgetd 0 (tid_node p) (td_tid t)"
  have "?n \<in> ran (map_of (tid_node p))"
    using Cons.prems(1) plan by (auto simp: plan_ok_def mgetd_def ran_def split: option.splits)
  then have ne: "cpus_in_node hw ?n \<noteq> []" using online plan unfolding plan_ok_def by blast
  let ?c = "min_element (place_cost hw opts cap (mgetd [] adj (td_tid t)) t q) (cpus_in_node hw ?n)"
  have "?c \<in> graph_cpus hw" using min_element_best(1) [OF ne] cpus_in_node_graph by blast
  then have "places hw (insert (td_tid t) us) (mput (td_tid t) ?c (placed_cpu q))"
    using Cons.prems(2) places_mput by blast
  moreover obtain q1 where "place_thread hw opts cap adj p t q = Inr q1"
      "placed_cpu q1 = mput (td_tid t) ?c (placed_cpu q)"
    using ne by (simp add: place_thread_def Let_def)
  ultimately show ?case using Cons.IH [of "insert (td_tid t) us" q1] Cons.prems(1) by simp
qed simp

lemma refine_ok:
  assumes "places hw ts (placed_cpu (snd st))" "td_tid t \<in> ts"
  shows "places hw ts (placed_cpu (snd (refine_thread hw opts cap adj p t st)))"
proof -
  obtain c q where st: "st = (c, q)" by fastforce
  let ?o = "mgetd 0 (placed_cpu q) (td_tid t)"
  let ?cs = "cpus_in_node hw (mgetd 0 (tid_node p) (td_tid t))"
  let ?b = "scan_min (refine_cost hw opts cap (mgetd [] adj (td_tid t)) t ?o q) ?cs ?o"
  have "?b \<in> insert ?o (set ?cs)" by (rule scan_min_best)
  then have "?b \<noteq> ?o \<Longrightarrow> ?b \<in> graph_cpus hw" using cpus_in_node_graph by blast
  then show ?thesis using assms places_again by (simp add: st refine_thread_def Let_def)
qed

lemma take_back_ok:
  "places hw ts (placed_cpu q) \<Longrightarrow> td_tid t \<in> ts \<Longrightarrow> places hw ts (placed_cpu (take_back hw opts cap t q))"
  by (simp add: take_back_def Let_def graph_cpus_iff places_again)

lemma set_migrations: "set (migrations opts threads m) \<subseteq> set threads"
  by (auto simp: migrations_def)

lemma fold_inv: "P s \<Longrightarrow> (\<And>x s. x \<in> set xs \<Longrightarrow> P s \<Longrightarrow> P (f x s)) \<Longrightarrow> P (fold f xs s)"
  by (induction xs arbitrary: s) auto

lemma enforce_ok:
  assumes "places hw (td_tid ` set threads) (placed_cpu q)"
  shows "places hw (td_tid ` set threads) (placed_cpu (enforce_budget hw opts cap threads q))"
  unfolding enforce_budget_def Let_def
  by (rule fold_inv [where P = "\<lambda>q. places hw (td_tid ` set threads) (placed_cpu q)"])
    (use assms take_back_ok set_migrations in_set_takeD in fastforce)+

lemma order_tids: "td_tid ` set (order_threads opts adj threads) = td_tid ` set threads"
  by (auto simp: order_threads_def Let_def image_iff)

lemma assign_cpus_ok:
  assumes "\<And>n. n \<in> set (nodes hw) \<Longrightarrow> cpus_in_node hw n \<noteq> []" "plan_ok hw (td_tid ` set xs) (tid_node p)"
  shows "\<exists>q. assign_cpus hw opts cap adj p xs = Inr q \<and> places hw (td_tid ` set xs) (placed_cpu q)"
proof -
  have "places hw {} (placed_cpu empty_cpu_plan)" by (simp add: places_def empty_cpu_plan_def)
  from place_threads_ok [OF assms subset_refl this, of opts cap adj] obtain q where
    q: "rfold (place_thread hw opts cap adj p) xs empty_cpu_plan = Inr q" "places hw (td_tid ` set xs) (placed_cpu q)"
    by auto
  have "places hw (td_tid ` set xs) (placed_cpu (run_passes n (\<lambda>q. fold (refine_thread hw opts cap adj p) xs (False, q)) q))" for n
    by (rule run_passes_inv [where P = "\<lambda>q. places hw (td_tid ` set xs) (placed_cpu q)", OF q(2)],
        rule fold_snd_inv [where P = "\<lambda>q. places hw (td_tid ` set xs) (placed_cpu q)"])
      (auto intro: refine_ok)
  then show ?thesis using q by (simp add: assign_cpus_def)
qed

section \<open>The budget\<close>

lemma take_back_placed:
  "placed_cpu (take_back hw opts cap t q) =
     (if current_cpu t \<in> graph_cpus hw \<and>
         (\<not> slot_constraints opts \<or> mgetd 0 (cpu_count q) (current_cpu t) < cap \<or>
          mgetd 0 (placed_cpu q) (td_tid t) = current_cpu t)
      then mput (td_tid t) (current_cpu t) (placed_cpu q) else placed_cpu q)"
  unfolding take_back_def Let_def graph_cpus_iff by auto

lemma fold_take_back:
  assumes "\<not> slot_constraints opts" "\<forall>t \<in> set xs. current_cpu t \<in> graph_cpus hw" "distinct (map td_tid xs)"
  shows "mgetd 0 (placed_cpu (fold (take_back hw opts cap) xs q)) k =
    (case map_of (map (\<lambda>t. (td_tid t, current_cpu t)) xs) k of None \<Rightarrow> mgetd 0 (placed_cpu q) k | Some c \<Rightarrow> c)"
  using assms(2,3)
proof (induction xs arbitrary: q)
  case (Cons t xs)
  have "map_of (map (\<lambda>t. (td_tid t, current_cpu t)) xs) (td_tid t) = None"
    using Cons.prems(2) by (simp add: map_of_eq_None_iff image_image)
  then show ?case using Cons assms(1) by (auto simp: take_back_placed split: option.splits)
qed simp

lemma budget_kept:
  assumes "\<not> slot_constraints opts" "\<forall>t \<in> set threads. current_cpu t \<in> graph_cpus hw" "distinct (map td_tid threads)"
  shows "length (filter (\<lambda>t. active_threshold opts \<le> demand t \<and>
      mgetd 0 (placed_cpu (enforce_budget hw opts cap threads q)) (td_tid t) \<noteq> current_cpu t) threads)
    \<le> migration_budget opts threads"
proof -
  define ms where "ms = migrations opts threads (placed_cpu q)"
  define k where "k = length ms - migration_budget opts threads"
  let ?q = "enforce_budget hw opts cap threads q"
  have ms: "set (take k ms) \<subseteq> set threads" "distinct (map td_tid ms)"
    using set_migrations in_set_takeD assms(3)
    by (fastforce simp: ms_def, simp add: ms_def migrations_def distinct_map inj_on_def)
  have "distinct (map td_tid (take k ms))" using ms(2) by (simp add: take_map [symmetric])
  then have look: "mgetd 0 (placed_cpu ?q) x =
      (case map_of (map (\<lambda>t. (td_tid t, current_cpu t)) (take k ms)) x of None \<Rightarrow> mgetd 0 (placed_cpu q) x | Some c \<Rightarrow> c)" for x
    using fold_take_back [OF assms(1), of "take k ms" hw cap q x] ms(1) assms(2)
    unfolding enforce_budget_def Let_def ms_def [symmetric] k_def [symmetric] by blast
  let ?P = "\<lambda>t. active_threshold opts \<le> demand t \<and> mgetd 0 (placed_cpu ?q) (td_tid t) \<noteq> current_cpu t"
  have "set (filter ?P threads) \<subseteq> set (drop k ms)"
  proof
    fix t assume "t \<in> set (filter ?P threads)"
    then have t: "t \<in> set threads" "active_threshold opts \<le> demand t" "mgetd 0 (placed_cpu ?q) (td_tid t) \<noteq> current_cpu t"
      by auto
    have out: "t \<notin> set (take k ms)"
    proof
      assume "t \<in> set (take k ms)"
      moreover have "distinct (map td_tid (take k ms))" using ms(2) by (simp add: take_map [symmetric])
      ultimately have "map_of (map (\<lambda>t. (td_tid t, current_cpu t)) (take k ms)) (td_tid t) = Some (current_cpu t)"
        by (intro map_of_is_SomeI) (auto simp: o_def)
      then show False using look [of "td_tid t"] t(3) by simp
    qed
    have "td_tid t \<notin> td_tid ` set (take k ms)"
    proof
      assume "td_tid t \<in> td_tid ` set (take k ms)"
      then obtain u where "u \<in> set (take k ms)" "td_tid u = td_tid t" by force
      then have "u = t" using assms(3) ms(1) t(1) by (auto simp: distinct_map inj_on_def)
      then show False using out \<open>u \<in> set (take k ms)\<close> by blast
    qed
    then have "map_of (map (\<lambda>t. (td_tid t, current_cpu t)) (take k ms)) (td_tid t) = None"
      by (simp add: map_of_eq_None_iff image_image)
    then have "t \<in> set ms" using t look [of "td_tid t"] by (simp add: ms_def migrations_def)
    then show "t \<in> set (drop k ms)" using out by (metis Un_iff append_take_drop_id set_append)
  qed
  then have "card (set (filter ?P threads)) \<le> length (drop k ms)"
    by (meson List.finite_set card_length card_mono le_trans)
  moreover have "distinct (filter ?P threads)" using assms(3) by (simp add: distinct_map)
  ultimately have "length (filter ?P threads) \<le> length (drop k ms)" using distinct_card by metis
  then show ?thesis by (simp add: k_def)
qed

section \<open>Properties\<close>

lemma solve_places:
  assumes "threads \<noteq> []" "cpus hw \<noteq> []" "\<forall>n \<in> set (nodes hw). cpus_in_node hw n \<noteq> []"
  shows "\<exists>p. solve hw threads es opts = Inr p \<and> dom (map_of (assigned_cpu p)) = td_tid ` set threads \<and>
    ran (map_of (assigned_cpu p)) \<subseteq> cpu_id ` set (cpus hw)"
proof -
  have ne: "nodes hw \<noteq> []" using assms(2) set_nodes [of hw] by (metis image_is_empty set_empty)
  define adj cap where "adj = adjacency es" and "cap = cpu_cap hw threads opts"
  define ordered where "ordered = order_threads opts adj threads"
  obtain q where q: "assign_cpus hw opts cap adj (assign_nodes hw opts cap adj ordered) ordered = Inr q"
    "places hw (td_tid ` set ordered) (placed_cpu q)"
    using assign_cpus_ok [OF _ assign_nodes_ok [OF ne]] assms(3) by blast
  have "places hw (td_tid ` set threads) (placed_cpu (enforce_budget hw opts cap threads q))"
    using enforce_ok q(2) unfolding ordered_def order_tids by blast
  then show ?thesis
    using q(1) assms(1) ne
    by (simp add: solve_def Let_def adj_def cap_def ordered_def total_costs_def places_def graph_cpus_def)
qed


definition sample_thread_on :: "int \<Rightarrow> double \<Rightarrow> int \<Rightarrow> thread_demand" where
  "sample_thread_on t d c = \<lparr>td_identity = Identity 1 t 5, group = ''w'', demand = d, confidence = 1, current_cpu = c\<rparr>"

definition sample_solve_options :: solve_options where
  "sample_solve_options = \<lparr>maximum_migrated_active_threads_ratio = 1 / 2, active_threshold = 1 / 20,
     inactive_threshold = 0, minimum_confidence = 1 / 2, strategy_id = ''legacy-v1'', demand_floor = 0,
     max_threads_per_cpu = - 1, slot_slack = 2, count_penalty = 0, low_demand_spread = 0,
     same_cpu_contention_penalty = 0, group_spread_penalty = 0, thread_count_tie_break = False,
     fm_passes = 4, lpt_refinement_passes = 0\<rparr>"

definition sample_pair :: "thread_demand list" where
  "sample_pair = [sample_thread_on 10 (1 / 2) 1, sample_thread_on 11 (3 / 4) 2]"


text \<open>
  Without slot constraints, when every thread runs on a CPU of the graph, the placement
  moves at most the budgeted number of active threads away from the CPU they run on.
\<close>

theorem solve_keeps_budget:
  assumes "solve hw threads es opts = Inr p" "threads \<noteq> []" "\<not> slot_constraints opts"
    and "\<forall>t \<in> set threads. current_cpu t \<in> cpu_id ` set (cpus hw)" "distinct (map td_tid threads)"
  shows "length (filter (\<lambda>t. active_threshold opts \<le> demand t \<and>
      mgetd 0 (assigned_cpu p) (td_tid t) \<noteq> current_cpu t) threads)
    \<le> nat \<lfloor>real (length (filter (\<lambda>t. active_threshold opts \<le> demand t) threads)) *
          maximum_migrated_active_threads_ratio opts\<rfloor>"
proof -
  obtain q cap where "assigned_cpu p = placed_cpu (enforce_budget hw opts cap threads q)"
    using assms(1,2) by (auto simp: solve_def Let_def total_costs_def split: if_splits sum.splits)
  then show ?thesis
    using budget_kept [OF assms(3) _ assms(5), of hw cap q] assms(4) by (simp add: migration_budget_def graph_cpus_def)
qed

theorem solve_keeps_budget_witness:
  "\<exists>p. solve sample_hardware sample_pair [] sample_solve_options = Inr p \<and>
     length (filter (\<lambda>t. 1 / 20 \<le> demand t \<and> mgetd 0 (assigned_cpu p) (td_tid t) \<noteq> current_cpu t) sample_pair) \<le> 1"
proof -
  have "(case solve sample_hardware sample_pair [] sample_solve_options of Inl e \<Rightarrow> False | Inr p \<Rightarrow> True) \<and>
      cpu_id ` set (cpus sample_hardware) = {0, 1, 2, 3}"
    by code_simp
  then obtain p where p: "solve sample_hardware sample_pair [] sample_solve_options = Inr p"
    and c: "cpu_id ` set (cpus sample_hardware) = {0, 1, 2, 3}"
    by (auto split: sum.splits)
  have "sample_pair \<noteq> []" "\<not> slot_constraints sample_solve_options" "distinct (map td_tid sample_pair)"
    "\<forall>t \<in> set sample_pair. current_cpu t \<in> cpu_id ` set (cpus sample_hardware)"
    unfolding c by (auto simp: sample_pair_def sample_thread_on_def slot_constraints_def legacy_def sample_solve_options_def)
  from solve_keeps_budget [OF p this(1,2,4,3)] show ?thesis
    using p by (simp add: sample_solve_options_def) (simp add: sample_pair_def sample_thread_on_def)
qed

end
