(* ===== verification/Hotspots.thy ===== *)
theory Hotspots
  imports Legacy_Solver
begin

text \<open>
  The functions of \<^verbatim>\<open>src/solver.cpp\<close> that bound the problem of the incremental solver:
  \<^verbatim>\<open>select_hotspot_edges\<close> keeps the strongest relations, \<^verbatim>\<open>select_managed_threads\<close> the bounded
  cohort of threads, with hysteresis for those already managed.

  The options are those the configuration accepts: a quantile between 0 and 1 and a positive
  number of edges per thread, so the conversions to \<^verbatim>\<open>size_t\<close> are exact.
\<close>

section \<open>Options\<close>

record incremental_options =
  maximum_migrated_threads_ratio :: double
  initial_migrated_threads_ratio :: double
  proposal_confirmations :: int
  initial_proposal_confirmations :: int
  io_minimum_dwell_ns :: uint64
  initial_node_passes :: int
  initial_node_thread_slack_ratio :: double
  candidate_multiplier :: int
  candidate_hard_limit :: int
  rotating_scan_size :: int
  demand_dirty_threshold :: double
  edge_dirty_absolute_threshold :: double
  edge_dirty_relative_threshold :: double
  minimum_relative_gain :: double
  maximum_threads_per_cpu :: int
  thread_slot_slack :: int
  future_demand_floor :: double
  group_peak_demand_ratio :: double
  group_peak_demand_cap :: double
  group_peak_decay :: double
  node_balance_threshold :: double
  hotspot_edges_per_thread :: nat
  hotspot_edge_quantile :: double
  hotspot_component_boost :: double
  maximum_managed_threads :: int
  managed_thread_hysteresis_ratio :: double
  hotspot_replan_growth_ratio :: double
  hotspot_replan_min_threads :: nat
  hotspot_stability_threshold :: double
  opt_hotspot_stability_confirmations :: int

section \<open>Hotspot edges\<close>

definition pair_key :: "int \<Rightarrow> int \<Rightarrow> int \<times> int" where
  "pair_key a b = (min a b, max a b)"

abbreviation edge_pair :: "relation_edge \<Rightarrow> int \<times> int" where
  "edge_pair e \<equiv> pair_key (from_tid e) (to_tid e)"

definition hotspot_weight :: "incremental_options \<Rightarrow> relation_edge \<Rightarrow> double" where
  "hotspot_weight opts e = score e * (1 + hotspot_component_boost opts * max (sync e) (share e))"

definition hotspot_candidates ::
  "relation_edge list \<Rightarrow> (int, thread_demand) omap \<Rightarrow> relation_edge list" where
  "hotspot_candidates es threads =
     filter (\<lambda>e. \<not> (from_tid e = to_tid e \<or> score e \<le> 0 \<or> \<not> mhas threads (from_tid e) \<or> \<not> mhas threads (to_tid e))) es"

definition quantile_threshold :: "incremental_options \<Rightarrow> relation_edge list \<Rightarrow> double" where
  "quantile_threshold opts cands =
     (let ws = sort (map (hotspot_weight opts) cands)
      in ws ! nat \<lfloor>hotspot_edge_quantile opts * real (length ws - 1)\<rfloor>)"

definition incident_candidates :: "relation_edge list \<Rightarrow> (int, relation_edge list) omap" where
  "incident_candidates cands = fold (\<lambda>e m. mpush (to_tid e) e (mpush (from_tid e) e m)) cands []"

definition strongest_keys :: "incremental_options \<Rightarrow> relation_edge list \<Rightarrow> (int \<times> int) oset" where
  "strongest_keys opts cands =
     fold (\<lambda>(t, es) sel. fold (\<lambda>e sel. sput (edge_pair e) sel)
         (take (hotspot_edges_per_thread opts) (sort_key (\<lambda>e. (- hotspot_weight opts e, edge_pair e)) es)) sel)
       (incident_candidates cands) []"

definition select_hotspot_edges ::
  "relation_edge list \<Rightarrow> (int, thread_demand) omap \<Rightarrow> incremental_options \<Rightarrow> relation_edge list" where
  "select_hotspot_edges es threads opts =
     (let cands = hotspot_candidates es threads in
      if cands = [] then []
      else (let threshold = quantile_threshold opts cands;
                sel = strongest_keys opts cands
            in sort_key edge_pair
                 (map (\<lambda>e. e\<lparr>score := hotspot_weight opts e\<rparr>)
                   (filter (\<lambda>e. \<not> (hotspot_weight opts e + 1 / 10 ^ 12 < threshold \<and> edge_pair e \<notin> set sel)) cands))))"

section \<open>Managed threads\<close>

definition index_threads :: "thread_demand list \<Rightarrow> (int, thread_demand) omap" where
  "index_threads threads = fold (\<lambda>t m. mput (td_tid t) t m) threads []"

definition edge_degree :: "relation_edge list \<Rightarrow> (int, double) omap" where
  "edge_degree hs = fold (\<lambda>e m. madd (to_tid e) (score e) (madd (from_tid e) (score e) m)) hs []"

definition weighted_adjacency :: "relation_edge list \<Rightarrow> (int, (int \<times> double) list) omap" where
  "weighted_adjacency hs =
     fold (\<lambda>e m. mpush (to_tid e) (from_tid e, score e) (mpush (from_tid e) (to_tid e, score e) m)) hs []"

definition no_identity :: thread_identity where
  "no_identity = Identity (- 1) (- 1) 0"

definition demand_at :: "(int, thread_demand) omap \<Rightarrow> int \<Rightarrow> double" where
  "demand_at by t = (case map_of by t of None \<Rightarrow> 0 | Some d \<Rightarrow> demand d)"

definition identity_at :: "(int, thread_demand) omap \<Rightarrow> int \<Rightarrow> thread_identity" where
  "identity_at by t = (case map_of by t of None \<Rightarrow> no_identity | Some d \<Rightarrow> td_identity d)"

definition rank_threads :: "(int, thread_demand) omap \<Rightarrow> (int, double) omap \<Rightarrow> int list" where
  "rank_threads by degree =
     sort_key (\<lambda>t. (- mgetd 0 degree t, - demand_at by t, identity_at by t)) (mkeys by)"

definition retain_managed :: "nat \<Rightarrow> nat \<Rightarrow> int oset \<Rightarrow> int list \<Rightarrow> int oset" where
  "retain_managed limit retention previous ranked =
     fold (\<lambda>t sel. if length sel < limit \<and> t \<in> set previous then sput t sel else sel) (take retention ranked) []"

definition seed_managed :: "nat \<Rightarrow> relation_edge list \<Rightarrow> int oset \<Rightarrow> int oset" where
  "seed_managed limit hs sel =
     (if sel = [] \<and> 2 \<le> limit \<and> hs \<noteq> []
      then (let seed = min_element (\<lambda>e. (- score e, min (from_tid e) (to_tid e), max (from_tid e) (to_tid e))) hs
            in sput (to_tid seed) (sput (from_tid seed) sel))
      else sel)"

definition internal_to :: "(int \<times> double) list \<Rightarrow> int oset \<Rightarrow> (int \<times> double) list" where
  "internal_to adj sel = filter (\<lambda>(o', w). o' \<in> set sel) adj"

definition growth_key ::
  "(int, thread_demand) omap \<Rightarrow> (int, double) omap \<Rightarrow> (int, (int \<times> double) list) omap \<Rightarrow> int oset \<Rightarrow> int \<Rightarrow>
   double \<times> nat \<times> double \<times> double \<times> thread_identity" where
  "growth_key by degree adj sel t =
     (let ins = internal_to (mgetd [] adj t) sel in
      (sum_list (map snd ins), length ins, mgetd 0 degree t, demand_at by t, identity_at by t))"

definition best_growth ::
  "(int, thread_demand) omap \<Rightarrow> (int, double) omap \<Rightarrow> (int, (int \<times> double) list) omap \<Rightarrow> int list \<Rightarrow> int oset \<Rightarrow> int" where
  "best_growth by degree adj ranked sel =
     fst (fold (\<lambda>t (bt, b). if t \<in> set sel then (bt, b)
            else (let c = growth_key by degree adj sel t in if bt < 0 \<or> b < c then (t, c) else (bt, b)))
          ranked (- 1, (- 1, 0, - 1, - 1, no_identity)))"

fun grow_managed ::
  "nat \<Rightarrow> nat \<Rightarrow> (int, thread_demand) omap \<Rightarrow> (int, double) omap \<Rightarrow> (int, (int \<times> double) list) omap \<Rightarrow> int list \<Rightarrow>
   int oset \<Rightarrow> int oset" where
  "grow_managed 0 limit by degree adj ranked sel = sel"
| "grow_managed (Suc n) limit by degree adj ranked sel =
     (if length sel < limit
      then (let b = best_growth by degree adj ranked sel in
            if b < 0 then sel else grow_managed n limit by degree adj ranked (sput b sel))
      else sel)"

definition swap_gain :: "(int, (int \<times> double) list) omap \<Rightarrow> int oset \<Rightarrow> int \<Rightarrow> int \<Rightarrow> double" where
  "swap_gain adj sel out inn =
     sum_list (map snd (filter (\<lambda>(o', w). o' \<noteq> out \<and> o' \<in> set sel) (mgetd [] adj inn))) -
     sum_list (map snd (internal_to (mgetd [] adj out) sel))"

definition better_swap ::
  "(int, thread_demand) omap \<Rightarrow> (int, double) omap \<Rightarrow> double \<Rightarrow> int \<Rightarrow> int \<Rightarrow> double \<Rightarrow> int \<Rightarrow> int \<Rightarrow> bool" where
  "better_swap by degree gain inn out bg bi bo \<longleftrightarrow>
     bi < 0 \<or>
     (bg, mgetd 0 degree bi, demand_at by bi, identity_at by bi, identity_at by bo) <
     (gain, mgetd 0 degree inn, demand_at by inn, identity_at by inn, identity_at by out)"

definition best_swap ::
  "(int, thread_demand) omap \<Rightarrow> (int, double) omap \<Rightarrow> (int, (int \<times> double) list) omap \<Rightarrow> int oset \<Rightarrow> int list \<Rightarrow>
   int oset \<Rightarrow> int \<times> int" where
  "best_swap by degree adj previous ranked sel =
     (let pairs = concat (map (\<lambda>out. map (\<lambda>inn. (out, inn)) (filter (\<lambda>t. t \<notin> set sel) ranked))
            (filter (\<lambda>t. t \<notin> set previous) sel));
          (bo, bi, bg) = fold (\<lambda>(out, inn) (bo, bi, bg).
            let gain = swap_gain adj sel out inn in
            if gain \<le> 1 / 10 ^ 12 then (bo, bi, bg)
            else if better_swap by degree gain inn out bg bi bo then (out, inn, gain) else (bo, bi, bg))
            pairs (- 1, - 1, 0)
      in (bo, bi))"

fun refine_managed ::
  "nat \<Rightarrow> (int, thread_demand) omap \<Rightarrow> (int, double) omap \<Rightarrow> (int, (int \<times> double) list) omap \<Rightarrow> int oset \<Rightarrow> int list \<Rightarrow>
   int oset \<Rightarrow> int oset" where
  "refine_managed 0 by degree adj previous ranked sel = sel"
| "refine_managed (Suc n) by degree adj previous ranked sel =
     (let (bo, bi) = best_swap by degree adj previous ranked sel in
      if bi < 0 then sel else refine_managed n by degree adj previous ranked (sput bi (sdel bo sel)))"

definition select_managed_threads ::
  "thread_demand list \<Rightarrow> relation_edge list \<Rightarrow> int oset \<Rightarrow> incremental_options \<Rightarrow> thread_demand list" where
  "select_managed_threads threads es previous opts =
     (if maximum_managed_threads opts \<le> 0 \<or> length threads \<le> nat (maximum_managed_threads opts) then threads
      else
        (let by = index_threads threads;
             hs = select_hotspot_edges es by opts;
             degree = edge_degree hs;
             adj = weighted_adjacency hs;
             ranked = rank_threads by degree;
             limit = min (length ranked) (nat (maximum_managed_threads opts));
             retention = min (length ranked) (nat \<lceil>real limit * (1 + managed_thread_hysteresis_ratio opts)\<rceil>);
             kept = retain_managed limit retention previous ranked;
             seeded = seed_managed limit hs kept;
             grown = grow_managed limit limit by degree adj ranked seeded;
             sel = refine_managed limit by degree adj previous ranked grown
         in filter (\<lambda>t. td_tid t \<in> set sel) threads))"

end
