(* ===== verification/Incremental_Planning.thy ===== *)
theory Incremental_Planning
  imports Hotspots Actuator
begin

text \<open>
  \<^verbatim>\<open>IncrementalSolver\<close> of \<^verbatim>\<open>src/solver.cpp\<close>, first part: its state, the intake of a window (group
  peaks, predicted demand, departed and new threads, hotspot edges) and the planning of nodes
  and CPUs. The second part, pinning, optimisation and the life of a proposal, is in
  \<open>Incremental_Solver\<close>.

  A proposal may throw after the state has changed, so the functions that can throw return the
  state beside the result. Reading a map of the code with \<^verbatim>\<open>[]\<close> at an absent key gives the
  default of the value, as \<open>mgetd\<close> does; the default entry it inserts is not recorded, since
  no loop runs over these maps afterwards. Every node of a graph is taken to have an online CPU.
\<close>

section \<open>Actions, proposals and state\<close>

datatype incremental_phase = Uninitialized | NodePlanning | InitialPinning | Optimizing

definition incremental_phase_name :: "incremental_phase \<Rightarrow> string" where
  "incremental_phase_name phase =
     (case phase of
        Uninitialized \<Rightarrow> ''uninitialized''
      | NodePlanning \<Rightarrow> ''node_planning''
      | InitialPinning \<Rightarrow> ''initial_pinning''
      | Optimizing \<Rightarrow> ''optimizing'')"

record placement_action =
  pa_identity :: thread_identity
  from_cpu :: int
  target_cpu :: int
  initial_pin :: bool
  pa_emergency :: bool
  capacity_regret :: double
  relation_regret :: double
  load_regret :: double

record solver_proposal =
  sp_id :: uint64
  sp_phase :: incremental_phase
  sp_delta :: placement_delta
  sp_actions :: "placement_action list"
  eligible_threads :: nat
  pinned_threads :: nat
  dirty_threads :: nat
  candidate_threads :: nat
  cooldown_skipped_threads :: nat
  sp_migration_budget :: nat
  sp_confirmation :: int
  initial_plan_confirmed :: bool
  sp_ready :: bool
  sp_shadow :: bool
  node_overload :: double
  sp_relation_cost :: double
  sp_cpu_slot_cap :: int
  maximum_cpu_threads :: int
  predicted_demand_threads :: nat
  relation_edges_input :: nat
  hotspot_edges :: nat
  hotspot_similarity :: double
  sp_hotspot_stability_confirmation :: int
  hotspot_replan_triggered :: bool
  global_replan_active :: bool

record incremental_solver =
  shadow :: bool
  phase :: incremental_phase
  is_generation :: uint64
  is_next_proposal_id :: uint64
  scan_cursor :: nat
  last_node_plan_population :: nat
  replan_existing_threads :: bool
  stable_hotspot_replan_pending :: bool
  hotspot_stability_confirmation :: int
  previous_hotspot_keys :: "(int \<times> int) oset"
  initial_confirmation :: int
  identities :: "(int, thread_identity) omap"
  is_threads :: "(int, thread_demand) omap"
  is_edges :: "(int \<times> int, relation_edge) omap"
  previous_demand :: "(int, double) omap"
  group_peak_demand :: "(string, double) omap"
  previous_edge_score :: "(int \<times> int, double) omap"
  baseline_cpu :: "(int, int) omap"
  initial_target_node :: "(int, int) omap"
  initial_target_cpu :: "(int, int) omap"
  previous_initial_target_node :: "(int, int) omap"
  initial_candidate_identities :: "(int, thread_identity) omap"
  is_placement :: "(int, int) omap"
  pinned :: "int oset"
  last_moved_ns :: "(int, uint64) omap"
  action_confirmations :: "(string, int) omap"
  is_outstanding :: "solver_proposal option"

definition new_incremental_solver :: "bool \<Rightarrow> incremental_solver" where
  "new_incremental_solver sh =
     \<lparr>shadow = sh, phase = Uninitialized, is_generation = 0, is_next_proposal_id = 1, scan_cursor = 0,
      last_node_plan_population = 0, replan_existing_threads = False, stable_hotspot_replan_pending = False,
      hotspot_stability_confirmation = 0, previous_hotspot_keys = [], initial_confirmation = 0, identities = [],
      is_threads = [], is_edges = [], previous_demand = [], group_peak_demand = [], previous_edge_score = [],
      baseline_cpu = [], initial_target_node = [], initial_target_cpu = [], previous_initial_target_node = [],
      initial_candidate_identities = [], is_placement = [], pinned = [], last_moved_ns = [],
      action_confirmations = [], is_outstanding = None\<rparr>"

text \<open>\<^verbatim>\<open>reset\<close> clears everything but the mode.\<close>

definition inc_reset :: "incremental_solver \<Rightarrow> incremental_solver" where
  "inc_reset s = new_incremental_solver (shadow s)"

definition inc_remove_thread :: "int \<Rightarrow> incremental_solver \<Rightarrow> incremental_solver" where
  "inc_remove_thread t s =
     s\<lparr>identities := mdel t (identities s), is_threads := mdel t (is_threads s),
       previous_demand := mdel t (previous_demand s), baseline_cpu := mdel t (baseline_cpu s),
       initial_target_node := mdel t (initial_target_node s), initial_target_cpu := mdel t (initial_target_cpu s),
       previous_initial_target_node := mdel t (previous_initial_target_node s),
       initial_candidate_identities := mdel t (initial_candidate_identities s),
       is_placement := mdel t (is_placement s), pinned := sdel t (pinned s),
       last_moved_ns := mdel t (last_moved_ns s),
       is_edges := filter (\<lambda>(k, e). \<not> (fst k = t \<or> snd k = t)) (is_edges s)\<rparr>"

definition inc_effective :: "incremental_solver \<Rightarrow> bool" where
  "inc_effective s \<longleftrightarrow> phase s = Optimizing \<and> is_threads s \<noteq> [] \<and> length (pinned s) = length (is_threads s)"

section \<open>Hardware helpers\<close>

definition online_node :: "hardware_graph \<Rightarrow> int \<Rightarrow> int" where
  "online_node hw c =
     (case find (\<lambda>x. cpu_id x = c \<and> online x) (cpus hw) of None \<Rightarrow> - 1 | Some x \<Rightarrow> cpu_node x)"

definition node_latency :: "hardware_graph \<Rightarrow> int \<Rightarrow> int \<Rightarrow> double" where
  "node_latency hw from to =
     (case map_of (node_distance hw) (from, to) of
        Some d \<Rightarrow> d
      | None \<Rightarrow>
          (let ls = concat (map (\<lambda>a. map (\<lambda>b. latency hw a b) (cpus_in_node hw to)) (cpus_in_node hw from))
           in if ls = [] then 10 ^ 12 else min_element (\<lambda>l. l) ls))"

definition online_cpus :: "hardware_graph \<Rightarrow> nat" where
  "online_cpus hw = length (filter online (cpus hw))"

definition cpu_slot_cap :: "hardware_graph \<Rightarrow> nat \<Rightarrow> incremental_options \<Rightarrow> int" where
  "cpu_slot_cap hw n opts =
     (if 0 < maximum_threads_per_cpu opts then maximum_threads_per_cpu opts
      else max 1 (\<lceil>real n / real (online_cpus hw)\<rceil> + thread_slot_slack opts))"

definition node_cpu_count :: "hardware_graph \<Rightarrow> (int, int) omap" where
  "node_cpu_count hw = fold (\<lambda>n m. mput n (capacity_of hw n) m) (nodes hw) []"

section \<open>Predicted demand\<close>

definition current_peaks :: "thread_demand list \<Rightarrow> (string, double) omap" where
  "current_peaks threads = fold (\<lambda>t m. mput (group t) (max (mgetd 0 m (group t)) (demand t)) m) threads []"

definition update_peaks ::
  "incremental_options \<Rightarrow> thread_demand list \<Rightarrow> (string, double) omap \<Rightarrow> (string, double) omap" where
  "update_peaks opts threads peaks =
     (let live = sfrom (map group threads); cur = current_peaks threads
      in fold (\<lambda>g m. mput g (max (mgetd 0 cur g) (mgetd 0 m g * group_peak_decay opts)) m) live
           (filter (\<lambda>(g, v). g \<in> set live) peaks))"

definition predicted_demand :: "incremental_options \<Rightarrow> (string, double) omap \<Rightarrow> thread_demand \<Rightarrow> double" where
  "predicted_demand opts peaks t =
     (let reserve = min (group_peak_demand_cap opts) (mgetd 0 peaks (group t) * group_peak_demand_ratio opts)
      in min 1 (max (max (demand t) (future_demand_floor opts)) reserve))"

definition effective_demands ::
  "incremental_options \<Rightarrow> (string, double) omap \<Rightarrow> thread_demand list \<Rightarrow> (int, double) omap" where
  "effective_demands opts peaks threads = fold (\<lambda>t m. mput (td_tid t) (predicted_demand opts peaks t) m) threads []"

definition count_predicted :: "incremental_options \<Rightarrow> (string, double) omap \<Rightarrow> thread_demand list \<Rightarrow> nat" where
  "count_predicted opts peaks threads =
     length (filter (\<lambda>t. demand t + 1 / 10 ^ 12 < predicted_demand opts peaks t) threads)"

section \<open>Admission of threads\<close>

definition inc_cpu_of :: "incremental_solver \<Rightarrow> int \<Rightarrow> int" where
  "inc_cpu_of s t =
     (case map_of (is_placement s) t of
        Some c \<Rightarrow> c
      | None \<Rightarrow> (case map_of (initial_target_cpu s) t of Some c \<Rightarrow> c | None \<Rightarrow> - 1))"

record occupancy =
  oc_group_nodes :: "(int, int) omap"
  oc_cpu_load :: "(int, double) omap"
  oc_cpu_count :: "(int, int) omap"
  oc_node_load :: "(int, double) omap"
  oc_node_count :: "(int, int) omap"

definition occupy ::
  "hardware_graph \<Rightarrow> incremental_solver \<Rightarrow> string \<Rightarrow> int \<times> thread_demand \<Rightarrow> occupancy \<Rightarrow> occupancy" where
  "occupy hw s g x oc =
     (let c = inc_cpu_of s (fst x); d = demand (snd x); n = online_node hw c in
      if 0 \<le> c
      then \<lparr>oc_group_nodes = (if group (snd x) = g then madd n 1 (oc_group_nodes oc) else oc_group_nodes oc),
            oc_cpu_load = madd c d (oc_cpu_load oc), oc_cpu_count = madd c 1 (oc_cpu_count oc),
            oc_node_load = madd n d (oc_node_load oc), oc_node_count = madd n 1 (oc_node_count oc)\<rparr>
      else oc)"

definition existing_occupancy :: "hardware_graph \<Rightarrow> incremental_solver \<Rightarrow> string \<Rightarrow> occupancy" where
  "existing_occupancy hw s g =
     fold (occupy hw s g) (is_threads s)
       \<lparr>oc_group_nodes = [], oc_cpu_load = [], oc_cpu_count = [], oc_node_load = [], oc_node_count = []\<rparr>"

definition join_node_cost ::
  "hardware_graph \<Rightarrow> incremental_options \<Rightarrow> nat \<Rightarrow> incremental_solver \<Rightarrow> occupancy \<Rightarrow> relation_edge list \<Rightarrow> thread_demand \<Rightarrow>
   double \<Rightarrow> int \<Rightarrow> int \<times> double \<times> double \<times> double \<times> int \<times> bool \<times> int" where
  "join_node_cost hw opts n s oc es t d node =
     (let cs = capacity_of hw node;
          count_cap = \<lceil>real n * real_of_int cs / real (online_cpus hw) * (1 + initial_node_thread_slack_ratio opts)\<rceil>;
          load = mgetd 0 (oc_node_load oc) node + d
      in (max 0 (mgetd 0 (oc_node_count oc) node + 1 - count_cap),
          max 0 (load - real_of_int cs),
          sum_list (map (\<lambda>e. let c = inc_cpu_of s (other_end (td_tid t) e) in
            if 0 \<le> c then score e * node_latency hw node (online_node hw c) else 0) es),
          load / real_of_int cs,
          - mgetd 0 (oc_group_nodes oc) node,
          node \<noteq> online_node hw (current_cpu t),
          node))"

definition join_cpu_cost :: "int \<Rightarrow> occupancy \<Rightarrow> double \<Rightarrow> int \<Rightarrow> bool \<times> double \<times> double \<times> int \<times> int" where
  "join_cpu_cost cap oc d c =
     (let load = mgetd 0 (oc_cpu_load oc) c + d; count = mgetd 0 (oc_cpu_count oc) c
      in (cap \<le> count, max 0 (load - 1), load, count, c))"

definition join_target ::
  "hardware_graph \<Rightarrow> incremental_options \<Rightarrow> int \<Rightarrow> nat \<Rightarrow> incremental_solver \<Rightarrow> relation_edge list \<Rightarrow> thread_demand \<Rightarrow>
   double \<Rightarrow> int" where
  "join_target hw opts cap n s es t d =
     (let oc = existing_occupancy hw s (group t);
          node = scan_min (join_node_cost hw opts n s oc es t d) (nodes hw) (hd (nodes hw));
          cs = cpus_in_node hw node
      in min_element (join_cpu_cost cap oc d) (if cs = [] then cpus_in_node hw (hd (nodes hw)) else cs))"

definition admit_thread ::
  "hardware_graph \<Rightarrow> incremental_options \<Rightarrow> int \<Rightarrow> nat \<Rightarrow> (int, double) omap \<Rightarrow> (int, relation_edge list) omap \<Rightarrow>
   thread_demand \<Rightarrow> incremental_solver \<times> bool \<times> nat \<Rightarrow> incremental_solver \<times> bool \<times> nat" where
  "admit_thread hw opts cap n eff adj t st =
     (let (s0, late, added) = st;
          i = td_tid t; d = mgetd 0 eff i;
          reused = (case map_of (identities s0) i of None \<Rightarrow> False | Some x \<Rightarrow> x \<noteq> td_identity t);
          s1 = (if reused then inc_remove_thread i s0 else s0);
          (s2, late', added') =
            (if mhas (identities s1) i then (s1, late, added)
             else
               (let s = s1\<lparr>identities := mput i (td_identity t) (identities s1),
                           baseline_cpu := mput i (current_cpu t) (baseline_cpu s1)\<rparr> in
                if phase s = InitialPinning \<or> phase s = Optimizing
                then (let c = join_target hw opts cap n s (mgetd [] adj i) t d in
                      (s\<lparr>initial_target_node := mput i (online_node hw c) (initial_target_node s),
                         initial_target_cpu := mput i c (initial_target_cpu s)\<rparr>, True, added + 1))
                else (s, late, added + 1)))
      in (s2\<lparr>is_threads := mput i (t\<lparr>demand := d\<rparr>) (is_threads s2)\<rparr>, late', added'))"

definition drop_stale :: "thread_demand list \<Rightarrow> incremental_solver \<Rightarrow> incremental_solver" where
  "drop_stale threads s =
     fold inc_remove_thread (filter (\<lambda>t. t \<notin> td_tid ` set threads) (mkeys (is_threads s))) s"

definition substantial_growth :: "incremental_options \<Rightarrow> nat \<Rightarrow> incremental_solver \<Rightarrow> bool" where
  "substantial_growth opts added s \<longleftrightarrow>
     0 < last_node_plan_population s \<and> hotspot_replan_min_threads opts \<le> added \<and>
     nat \<lceil>real (last_node_plan_population s) * (1 + hotspot_replan_growth_ratio opts)\<rceil> \<le> length (is_threads s)"

definition react_to_growth :: "incremental_options \<Rightarrow> bool \<Rightarrow> nat \<Rightarrow> incremental_solver \<Rightarrow> incremental_solver" where
  "react_to_growth opts late added s =
     (if late \<and> substantial_growth opts added s
      then s\<lparr>phase := NodePlanning, replan_existing_threads := True, initial_confirmation := 0,
             previous_initial_target_node := [], initial_candidate_identities := [],
             stable_hotspot_replan_pending := False, hotspot_stability_confirmation := 0\<rparr>
      else if late then s\<lparr>phase := InitialPinning\<rparr> else s)"

definition target_reached :: "incremental_solver \<Rightarrow> int \<Rightarrow> bool" where
  "target_reached s t \<longleftrightarrow>
     mhas (initial_target_cpu s) t \<and> mhas (is_placement s) t \<and>
     mgetd 0 (is_placement s) t = mgetd 0 (initial_target_cpu s) t"

definition initial_targets_effective :: "incremental_solver \<Rightarrow> bool" where
  "initial_targets_effective s \<longleftrightarrow>
     length (pinned s) = length (is_threads s) \<and>
     (replan_existing_threads s \<longrightarrow> (\<forall>t \<in> set (mkeys (is_threads s)). target_reached s t))"

definition finish_pinning :: "incremental_solver \<Rightarrow> incremental_solver" where
  "finish_pinning s =
     (if phase s = InitialPinning \<and> initial_targets_effective s then s\<lparr>phase := Optimizing\<rparr> else s)"

definition intake ::
  "hardware_graph \<Rightarrow> thread_demand list \<Rightarrow> relation_edge list \<Rightarrow> incremental_options \<Rightarrow> int \<Rightarrow> incremental_solver \<Rightarrow>
   nat \<times> incremental_solver" where
  "intake hw threads es opts cap s0 =
     (let peaks = update_peaks opts threads (group_peak_demand s0);
          eff = effective_demands opts peaks threads;
          incoming = fold (\<lambda>t m. mput (td_tid t) (t\<lparr>demand := mgetd 0 eff (td_tid t)\<rparr>) m) threads [];
          adj = adjacency (select_hotspot_edges es incoming opts);
          s1 = drop_stale threads (s0\<lparr>group_peak_demand := peaks\<rparr>);
          (s2, late, added) = fold (admit_thread hw opts cap (length threads) eff adj) threads (s1, False, 0)
      in (count_predicted opts peaks threads, finish_pinning (react_to_growth opts late added s2)))"

section \<open>Hotspots of the window\<close>

definition similarity :: "(int \<times> int) oset \<Rightarrow> (int \<times> int) oset \<Rightarrow> double" where
  "similarity a b =
     (if a \<noteq> [] \<and> b \<noteq> [] then real (length (set_intersection a b)) / real (length (sfrom (a @ b))) else 0)"

definition hotspot_trigger :: "incremental_options \<Rightarrow> double \<Rightarrow> incremental_solver \<Rightarrow> bool \<times> incremental_solver" where
  "hotspot_trigger opts sim s =
     (if stable_hotspot_replan_pending s
      then (let c = (if hotspot_stability_threshold opts \<le> sim then hotspot_stability_confirmation s + 1 else 0);
                s1 = s\<lparr>hotspot_stability_confirmation := c\<rparr>
            in if opt_hotspot_stability_confirmations opts \<le> c
               then (True, s1\<lparr>phase := NodePlanning, replan_existing_threads := True,
                       stable_hotspot_replan_pending := False, initial_confirmation := 0,
                       previous_initial_target_node := [], initial_candidate_identities := []\<rparr>)
               else (False, s1))
      else (False, s))"

definition take_hotspots ::
  "relation_edge list \<Rightarrow> incremental_options \<Rightarrow> incremental_solver \<Rightarrow> double \<times> bool \<times> incremental_solver" where
  "take_hotspots es opts s =
     (let sel = select_hotspot_edges es (is_threads s) opts;
          keys = sfrom (map edge_pair sel);
          sim = similarity keys (previous_hotspot_keys s);
          (triggered, s1) =
            hotspot_trigger opts sim (s\<lparr>is_edges := fold (\<lambda>e m. mput (edge_pair e) e m) sel []\<rparr>)
      in (sim, triggered, s1\<lparr>previous_hotspot_keys := keys\<rparr>))"

end
