(* ===== verification/Incremental_Solver.thy ===== *)
theory Incremental_Solver
  imports Incremental_Planning
begin

text \<open>
  \<^verbatim>\<open>IncrementalSolver\<close> of \<^verbatim>\<open>src/solver.cpp\<close>, second part: the node plan, the pinning batches, the
  optimisation moves, and \<^verbatim>\<open>propose\<close>, \<^verbatim>\<open>commit\<close> and \<^verbatim>\<open>discard\<close>.

  The \<^verbatim>\<open>while\<close> loops of the node plan run on a counter that bounds their iterations: each
  iteration of the ordering loop takes a thread off the remaining ones, each iteration of the
  repair loop adds a thread to the node below its floor.
\<close>

section \<open>Order of the threads\<close>

abbreviation thread_demand_at :: "incremental_solver \<Rightarrow> int \<Rightarrow> double" where
  "thread_demand_at s t \<equiv> demand_at (is_threads s) t"

abbreviation identity_of :: "incremental_solver \<Rightarrow> int \<Rightarrow> thread_identity" where
  "identity_of s t \<equiv> mgetd no_identity (identities s) t"

type_synonym frontier = "relation_edge option \<times> (relation_edge \<times> int) option"

definition scan_edge :: "int oset \<Rightarrow> relation_edge \<Rightarrow> frontier \<Rightarrow> frontier" where
  "scan_edge remaining e st =
     (let (bp, bf) = st; f = from_tid e \<in> set remaining; t = to_tid e \<in> set remaining in
      if f \<and> t
      then (if (case bp of None \<Rightarrow> True
                | Some b \<Rightarrow> (score b, - from_tid b, - to_tid b) < (score e, - from_tid e, - to_tid e))
            then (Some e, bf) else (bp, bf))
      else if f \<noteq> t
      then (let c = (if f then from_tid e else to_tid e) in
            if (case bf of None \<Rightarrow> True | Some (b, bt) \<Rightarrow> (score b, - bt) < (score e, - c))
            then (bp, Some (e, c)) else (bp, bf))
      else (bp, bf))"

definition next_threads :: "incremental_solver \<Rightarrow> int oset \<Rightarrow> int list \<times> bool" where
  "next_threads s remaining =
     (let (bp, bf) = fold (scan_edge remaining) (map snd (is_edges s)) (None, None);
          alone = (let seed = min_element (\<lambda>t. (- thread_demand_at s t, identity_of s t)) remaining in ([seed], True));
          frontier = (case bf of Some (b, t) \<Rightarrow> ([t], False) | None \<Rightarrow> alone)
      in case bp of
           None \<Rightarrow> frontier
         | Some p \<Rightarrow>
             (if (case bf of None \<Rightarrow> True | Some (b, t) \<Rightarrow> score b < score p)
              then (let a = from_tid p; b = to_tid p in
                    if thread_demand_at s a < thread_demand_at s b \<or>
                       thread_demand_at s b = thread_demand_at s a \<and> identity_of s b < identity_of s a
                    then ([b, a], True) else ([a, b], True))
              else frontier))"

fun order_loop ::
  "nat \<Rightarrow> incremental_solver \<Rightarrow> int oset \<Rightarrow> int list \<Rightarrow> int oset \<Rightarrow> int list \<times> int oset" where
  "order_loop 0 s remaining ordered seeds = (ordered, seeds)"
| "order_loop (Suc n) s remaining ordered seeds =
     (if remaining = [] then (ordered, seeds)
      else (let (ts, seed) = next_threads s remaining in
            order_loop n s (fold sdel ts remaining) (ordered @ ts) (if seed then sput (hd ts) seeds else seeds)))"

definition order_cohort :: "incremental_solver \<Rightarrow> int list \<times> int oset" where
  "order_cohort s = order_loop (length (is_threads s)) s (sfrom (mkeys (is_threads s))) [] []"

section \<open>Node plan\<close>

record inc_node_plan =
  np_assigned :: "(int, int) omap"
  np_load :: "(int, double) omap"
  np_threads :: "(int, int) omap"

definition node_share :: "hardware_graph \<Rightarrow> incremental_solver \<Rightarrow> int \<Rightarrow> double" where
  "node_share hw s cs = real (length (is_threads s)) * real_of_int cs / real (length (cpus hw))"

definition thread_cap :: "hardware_graph \<Rightarrow> incremental_options \<Rightarrow> int \<Rightarrow> incremental_solver \<Rightarrow> int \<Rightarrow> int" where
  "thread_cap hw opts cap s node =
     (let cs = mgetd 0 (node_cpu_count hw) node in
      min \<lceil>node_share hw s cs * (1 + initial_node_thread_slack_ratio opts)\<rceil> (cap * cs))"

definition thread_floor :: "hardware_graph \<Rightarrow> incremental_options \<Rightarrow> incremental_solver \<Rightarrow> int \<Rightarrow> int" where
  "thread_floor hw opts s node =
     \<lfloor>node_share hw s (mgetd 0 (node_cpu_count hw) node) * (1 - initial_node_thread_slack_ratio opts)\<rfloor>"

definition assign_cost ::
  "hardware_graph \<Rightarrow> incremental_options \<Rightarrow> int \<Rightarrow> incremental_solver \<Rightarrow> relation_edge list \<Rightarrow> bool \<Rightarrow> inc_node_plan \<Rightarrow> int \<Rightarrow> int \<Rightarrow>
   int \<times> double \<times> double \<times> bool \<times> double \<times> int" where
  "assign_cost hw opts cap s es seed p t node =
     (let load = mgetd 0 (np_load p) node + thread_demand_at s t;
          cs = mgetd 0 (node_cpu_count hw) node
      in (max 0 (mgetd 0 (np_threads p) node + 1 - thread_cap hw opts cap s node),
          max 0 (load - real_of_int cs),
          (if seed then 0
           else relation_to (\<lambda>e n. score e * node_latency hw node n) (np_assigned p) es t),
          node \<noteq> online_node hw (mgetd 0 (baseline_cpu s) t),
          load / real_of_int (max cs 1),
          node))"

definition assign_thread ::
  "hardware_graph \<Rightarrow> incremental_options \<Rightarrow> int \<Rightarrow> incremental_solver \<Rightarrow> (int, relation_edge list) omap \<Rightarrow> int oset \<Rightarrow> int \<Rightarrow>
   inc_node_plan \<Rightarrow> inc_node_plan" where
  "assign_thread hw opts cap s adj seeds t p =
     (let best = scan_min (assign_cost hw opts cap s (mgetd [] adj t) (t \<in> set seeds) p t)
            (mkeys (node_cpu_count hw)) (hd (nodes hw))
      in \<lparr>np_assigned = mput t best (np_assigned p), np_load = madd best (thread_demand_at s t) (np_load p),
          np_threads = madd best 1 (np_threads p)\<rparr>)"

text \<open>The relation cost of a thread on a node, against the nodes the plan gives the others.\<close>

definition plan_relation :: "hardware_graph \<Rightarrow> inc_node_plan \<Rightarrow> relation_edge list \<Rightarrow> int \<Rightarrow> int \<Rightarrow> double" where
  "plan_relation hw p es t node = relation_to (\<lambda>e n. score e * node_latency hw node n) (np_assigned p) es t"

definition repair_candidate ::
  "hardware_graph \<Rightarrow> incremental_options \<Rightarrow> int \<Rightarrow> incremental_solver \<Rightarrow> (int, relation_edge list) omap \<Rightarrow> inc_node_plan \<Rightarrow> int \<Rightarrow>
   int \<times> int \<Rightarrow> (int \<times> int \<times> double) option \<Rightarrow> (int \<times> int \<times> double) option" where
  "repair_candidate hw opts cap s adj p target x best =
     (let (t, source) = x in
      if source = target \<or> mgetd 0 (np_threads p) source \<le> thread_floor hw opts s source \<or>
         thread_cap hw opts cap s target < mgetd 0 (np_threads p) target + 1 \<or>
         real_of_int (mgetd 0 (node_cpu_count hw) target) + 1 / 10 ^ 12 <
           mgetd 0 (np_load p) target + thread_demand_at s t
      then best
      else (let es = mgetd [] adj t; delta = plan_relation hw p es t target - plan_relation hw p es t source in
            case best of
              None \<Rightarrow> Some (t, source, delta)
            | Some (bt, bs, bd) \<Rightarrow>
                (if delta < bd - 1 / 10 ^ 12 \<or>
                    \<bar>delta - bd\<bar> \<le> 1 / 10 ^ 12 \<and> (bt < 0 \<or> identity_of s t < identity_of s bt)
                 then Some (t, source, delta) else best)))"

fun repair_node ::
  "nat \<Rightarrow> hardware_graph \<Rightarrow> incremental_options \<Rightarrow> int \<Rightarrow> incremental_solver \<Rightarrow> (int, relation_edge list) omap \<Rightarrow> int \<Rightarrow>
   inc_node_plan \<Rightarrow> inc_node_plan result" where
  "repair_node 0 hw opts cap s adj target p = Inr p"
| "repair_node (Suc n) hw opts cap s adj target p =
     (case fold (repair_candidate hw opts cap s adj p target) (np_assigned p) None of
        None \<Rightarrow> Inl (Runtime_Error ''node thread floor is infeasible'')
      | Some (t, source, delta) \<Rightarrow>
          (if t < 0 then Inl (Runtime_Error ''node thread floor is infeasible'')
           else repair_node n hw opts cap s adj target
             \<lparr>np_assigned = mput t target (np_assigned p),
              np_load = madd target (thread_demand_at s t) (madd source (- thread_demand_at s t) (np_load p)),
              np_threads = madd target 1 (madd source (- 1) (np_threads p))\<rparr>))"

definition repair_floors ::
  "hardware_graph \<Rightarrow> incremental_options \<Rightarrow> int \<Rightarrow> incremental_solver \<Rightarrow> (int, relation_edge list) omap \<Rightarrow> inc_node_plan \<Rightarrow>
   inc_node_plan result" where
  "repair_floors hw opts cap s adj p =
     rfold (\<lambda>node p. repair_node (nat (thread_floor hw opts s node - mgetd 0 (np_threads p) node)) hw opts cap s adj node p)
       (mkeys (node_cpu_count hw)) p"

fun ordered_pairs :: "'a list \<Rightarrow> ('a \<times> 'a) list" where
  "ordered_pairs [] = []"
| "ordered_pairs (x # xs) = map (Pair x) xs @ ordered_pairs xs"

definition swap_nodes :: "int \<Rightarrow> int \<Rightarrow> int \<Rightarrow> int \<Rightarrow> int \<Rightarrow> int \<Rightarrow> int" where
  "swap_nodes a b na nb t n = (if t = a then nb else if t = b then na else n)"

definition swap_pair ::
  "hardware_graph \<Rightarrow> incremental_solver \<Rightarrow> int \<times> int \<Rightarrow> bool \<times> inc_node_plan \<Rightarrow> bool \<times> inc_node_plan" where
  "swap_pair hw s ab st =
     (let (a, b) = ab; (changed, p) = st;
          na = mgetd 0 (np_assigned p) a; nb = mgetd 0 (np_assigned p) b;
          touched = filter (\<lambda>e. from_tid e = a \<or> to_tid e = a \<or> from_tid e = b \<or> to_tid e = b) (map snd (is_edges s));
          at_node = mgetd 0 (np_assigned p);
          earlier = sum_list (map (\<lambda>e. score e * node_latency hw (at_node (from_tid e)) (at_node (to_tid e))) touched);
          later = sum_list (map (\<lambda>e. score e * node_latency hw
             (swap_nodes a b na nb (from_tid e) (at_node (from_tid e)))
             (swap_nodes a b na nb (to_tid e) (at_node (to_tid e)))) touched);
          la = mgetd 0 (np_load p) na - thread_demand_at s a + thread_demand_at s b;
          lb = mgetd 0 (np_load p) nb - thread_demand_at s b + thread_demand_at s a
      in if na = nb \<or> earlier \<le> later + 1 / 10 ^ 12 \<or>
            real_of_int (mgetd 0 (node_cpu_count hw) na) + 1 / 10 ^ 12 < la \<or>
            real_of_int (mgetd 0 (node_cpu_count hw) nb) + 1 / 10 ^ 12 < lb
         then (changed, p)
         else (True, p\<lparr>np_assigned := mput b na (mput a nb (np_assigned p)),
                       np_load := mput nb lb (mput na la (np_load p))\<rparr>))"

definition plan_nodes ::
  "hardware_graph \<Rightarrow> incremental_options \<Rightarrow> int \<Rightarrow> incremental_solver \<Rightarrow> (int, int) omap result" where
  "plan_nodes hw opts cap s =
     (let adj = adjacency (map snd (is_edges s));
          (ordered, seeds) = order_cohort s;
          p = fold (assign_thread hw opts cap s adj seeds) ordered \<lparr>np_assigned = [], np_load = [], np_threads = []\<rparr>
      in case repair_floors hw opts cap s adj p of
           Inl e \<Rightarrow> Inl e
         | Inr p' \<Rightarrow>
             Inr (np_assigned (run_passes (nat (initial_node_passes opts))
               (\<lambda>p. fold (swap_pair hw s) (ordered_pairs ordered) (False, p)) p')))"

section \<open>Confirmation of the plan and target CPUs\<close>

definition confirm_nodes :: "(int, int) omap \<Rightarrow> incremental_solver \<Rightarrow> (int, int) omap \<times> incremental_solver" where
  "confirm_nodes assigned s =
     (if previous_initial_target_node s \<noteq> [] \<and> initial_candidate_identities s = identities s
      then (previous_initial_target_node s, s\<lparr>initial_confirmation := initial_confirmation s + 1\<rparr>)
      else (assigned, s\<lparr>initial_confirmation := 1, previous_initial_target_node := assigned,
                        initial_candidate_identities := identities s\<rparr>))"

definition target_cost ::
  "hardware_graph \<Rightarrow> int \<Rightarrow> incremental_solver \<Rightarrow> relation_edge list \<Rightarrow> (int, double) omap \<Rightarrow> (int, int) omap \<Rightarrow> (int, int) omap \<Rightarrow>
   int \<Rightarrow> int \<Rightarrow> bool \<times> double \<times> double \<times> double \<times> int \<times> bool \<times> int" where
  "target_cost hw cap s es loads counts placed t c =
     (let load = mgetd 0 loads c + thread_demand_at s t; count = mgetd 0 counts c in
      (cap \<le> count, max 0 (load - 1), relation_to (\<lambda>e p. score e * latency hw c p) placed es t, load, count,
       c \<noteq> mgetd 0 (baseline_cpu s) t, c))"

definition target_thread ::
  "hardware_graph \<Rightarrow> int \<Rightarrow> incremental_solver \<Rightarrow> (int, relation_edge list) omap \<Rightarrow> int \<Rightarrow>
   (int, double) omap \<times> (int, int) omap \<times> (int, int) omap \<Rightarrow> (int, double) omap \<times> (int, int) omap \<times> (int, int) omap" where
  "target_thread hw cap s adj t st =
     (let (loads, counts, placed) = st;
          best = min_element (target_cost hw cap s (mgetd [] adj t) loads counts placed t)
            (cpus_in_node hw (mgetd 0 (initial_target_node s) t))
      in (madd best (thread_demand_at s t) loads, madd best 1 counts, mput t best placed))"

definition demand_order :: "incremental_solver \<Rightarrow> int list" where
  "demand_order s = sort_key (\<lambda>t. (- thread_demand_at s t, identity_of s t)) (mkeys (is_threads s))"

definition plan_overload :: "hardware_graph \<Rightarrow> incremental_options \<Rightarrow> int \<Rightarrow> incremental_solver \<Rightarrow> (int, int) omap \<Rightarrow> double" where
  "plan_overload hw opts cap s assigned =
     (let loads = fold (\<lambda>(t, n) m. madd n (thread_demand_at s t) m) assigned [];
          counts = fold (\<lambda>(t, n) m. madd n 1 m) assigned []
      in sum_list (map (\<lambda>(n, cs). max 0 (mgetd 0 loads n - real_of_int cs) +
           real_of_int (max 0 (mgetd 0 counts n - thread_cap hw opts cap s n))) (node_cpu_count hw)))"

definition node_planning ::
  "hardware_graph \<Rightarrow> incremental_options \<Rightarrow> int \<Rightarrow> solver_proposal \<Rightarrow> incremental_solver \<Rightarrow>
   solver_proposal result \<times> incremental_solver" where
  "node_planning hw opts cap q s =
     (case plan_nodes hw opts cap s of
        Inl e \<Rightarrow> (Inl e, s)
      | Inr plan \<Rightarrow>
          (let (assigned, s1) = confirm_nodes plan s;
               ok = (initial_proposal_confirmations opts \<le> initial_confirmation s1);
               q1 = q\<lparr>sp_confirmation := initial_confirmation s1, sp_phase := phase s1, initial_plan_confirmed := ok,
                      node_overload := plan_overload hw opts cap s1 assigned,
                      sp_relation_cost := sum_list (map (\<lambda>(k, e). score e *
                        node_latency hw (mgetd 0 assigned (from_tid e)) (mgetd 0 assigned (to_tid e))) (is_edges s1))\<rparr>
           in if \<not> ok then (Inr q1, s1)
              else
                (let s2 = s1\<lparr>initial_target_node := assigned, last_node_plan_population := length (is_threads s1)\<rparr>;
                     (loads, counts, placed) =
                       fold (target_thread hw cap s2 (adjacency (map snd (is_edges s2)))) (demand_order s2) ([], [], [])
                 in (Inr (q1\<lparr>maximum_cpu_threads := fold (\<lambda>(c, n) m. max m n) counts (maximum_cpu_threads q1),
                             sp_phase := InitialPinning\<rparr>),
                     s2\<lparr>initial_target_cpu := placed, phase := InitialPinning\<rparr>))))"

section \<open>Initial pinning\<close>

definition pending_pins :: "hardware_graph \<Rightarrow> incremental_solver \<Rightarrow> nat \<Rightarrow> int list" where
  "pending_pins hw s budget =
     (let wanted = filter (\<lambda>t. t \<notin> set (pinned s) \<or> replan_existing_threads s \<and>
            (\<not> mhas (is_placement s) t \<or> mgetd 0 (is_placement s) t \<noteq> mgetd 0 (initial_target_cpu s) t))
            (mkeys (is_threads s));
          node = (\<lambda>t. online_node hw (mgetd 0 (baseline_cpu s) t))
      in take budget (sort_key (\<lambda>t. (\<not> node t < 0, \<not> node t \<noteq> mgetd 0 (initial_target_node s) t,
           - thread_demand_at s t, identity_of s t)) wanted))"

record projection =
  pr_count :: "(int, int) omap"
  pr_load :: "(int, double) omap"

definition project :: "incremental_solver \<Rightarrow> int list \<Rightarrow> projection" where
  "project s pending =
     (let kept = filter (\<lambda>(t, c). mhas (is_threads s) t) (is_placement s);
          p = \<lparr>pr_count = fold (\<lambda>(t, c) m. madd c 1 m) kept [],
               pr_load = fold (\<lambda>(t, c) m. madd c (thread_demand_at s t) m) kept []\<rparr>
      in fold (\<lambda>t p. case map_of (is_placement s) t of None \<Rightarrow> p
           | Some c \<Rightarrow> \<lparr>pr_count = madd c (- 1) (pr_count p), pr_load = madd c (- thread_demand_at s t) (pr_load p)\<rparr>)
           pending p)"

definition repair_target ::
  "hardware_graph \<Rightarrow> int \<Rightarrow> incremental_solver \<Rightarrow> projection \<Rightarrow> int \<Rightarrow> int result" where
  "repair_target hw cap s p t =
     (let target = mgetd 0 (initial_target_cpu s) t;
          available = (\<lambda>c. mgetd 0 (pr_count p) c < cap);
          local = cpus_in_node hw (mgetd 0 (initial_target_node s) t);
          candidates = (if \<exists>c \<in> set local. available c then local
                        else map cpu_id (filter (\<lambda>c. online c \<and> available (cpu_id c)) (cpus hw)));
          d = thread_demand_at s t
      in if available target then Inr target
         else if candidates = [] then Inl (Runtime_Error ''initial pinning has no slot-cap-feasible CPU'')
         else Inr (min_element (\<lambda>c. (cap \<le> mgetd 0 (pr_count p) c, max 0 (mgetd 0 (pr_load p) c + d - 1),
           mgetd 0 (pr_load p) c, mgetd 0 (pr_count p) c, c)) candidates))"

fun repair_batch ::
  "hardware_graph \<Rightarrow> int \<Rightarrow> int list \<Rightarrow> projection \<Rightarrow> incremental_solver \<Rightarrow> exn option \<times> incremental_solver" where
  "repair_batch hw cap [] p s = (None, s)"
| "repair_batch hw cap (t # ts) p s =
     (case repair_target hw cap s p t of
        Inl e \<Rightarrow> (Some e, s)
      | Inr c \<Rightarrow>
          repair_batch hw cap ts
            \<lparr>pr_count = madd c 1 (pr_count p), pr_load = madd c (thread_demand_at s t) (pr_load p)\<rparr>
            (if mgetd 0 (pr_count p) (mgetd 0 (initial_target_cpu s) t) < cap then s
             else s\<lparr>initial_target_cpu := mput t c (initial_target_cpu s),
                    initial_target_node := mput t (online_node hw c) (initial_target_node s)\<rparr>))"

definition pin_action :: "hardware_graph \<Rightarrow> incremental_solver \<Rightarrow> int \<Rightarrow> placement_action" where
  "pin_action hw s t =
     (let f = (case map_of (is_placement s) t of Some c \<Rightarrow> c | None \<Rightarrow> mgetd 0 (baseline_cpu s) t) in
      \<lparr>pa_identity = identity_of s t, from_cpu = f, target_cpu = mgetd 0 (initial_target_cpu s) t, initial_pin = True,
       pa_emergency = (online_node hw f < 0), capacity_regret = 0, relation_regret = 0, load_regret = 0\<rparr>)"

definition delta_of :: "(int \<times> placement_action) list \<Rightarrow> placement_delta" where
  "delta_of xs = \<lparr>tid_to_cpu = fold (\<lambda>(t, a) m. mput t (target_cpu a) m) xs [], tid_to_mask = []\<rparr>"

definition initial_pinning ::
  "hardware_graph \<Rightarrow> int \<Rightarrow> solver_proposal \<Rightarrow> incremental_solver \<Rightarrow> solver_proposal result \<times> incremental_solver" where
  "initial_pinning hw cap q s =
     (let q1 = q\<lparr>sp_phase := phase s, initial_plan_confirmed := True\<rparr> in
      if sp_migration_budget q = 0 then (Inr q1, s)
      else
        (let pending = pending_pins hw s (sp_migration_budget q)
         in case repair_batch hw cap pending (project s pending) s of
              (Some e, s1) \<Rightarrow> (Inl e, s1)
            | (None, s1) \<Rightarrow>
                (let acts = map (pin_action hw s1) pending;
                     q2 = q1\<lparr>sp_actions := acts, sp_delta := delta_of (zip pending acts),
                             sp_ready := (acts \<noteq> []), sp_confirmation := initial_confirmation s1\<rparr>
                 in (Inr q2, if acts \<noteq> [] then s1\<lparr>is_outstanding := Some q2\<rparr> else s1))))"

section \<open>Loads of the committed placement\<close>

record inc_loads =
  ld_cpu :: "(int, double) omap"
  ld_node :: "(int, double) omap"
  ld_count :: "(int, int) omap"

definition committed_cpu :: "incremental_solver \<Rightarrow> int \<Rightarrow> int" where
  "committed_cpu s t =
     (case map_of (is_placement s) t of Some c \<Rightarrow> c | None \<Rightarrow> mgetd 0 (baseline_cpu s) t)"

definition current_loads :: "hardware_graph \<Rightarrow> incremental_solver \<Rightarrow> inc_loads" where
  "current_loads hw s =
     fold (\<lambda>(t, x) l. let c = committed_cpu s t in
         \<lparr>ld_cpu = madd c (demand x) (ld_cpu l), ld_node = madd (online_node hw c) (demand x) (ld_node l),
          ld_count = madd c 1 (ld_count l)\<rparr>)
       (is_threads s) \<lparr>ld_cpu = [], ld_node = [], ld_count = []\<rparr>"

abbreviation cpus_of_node :: "hardware_graph \<Rightarrow> int \<Rightarrow> int" where
  "cpus_of_node hw n \<equiv> mgetd 0 (node_cpu_count hw) n"

definition node_balance_cost :: "hardware_graph \<Rightarrow> (int, double) omap \<Rightarrow> double" where
  "node_balance_cost hw loads =
     sum_list (map (\<lambda>(n, cs). (mgetd 0 loads n)\<^sup>2 / real_of_int (max cs 1)) (node_cpu_count hw))"

definition node_utilization :: "hardware_graph \<Rightarrow> (int, double) omap \<Rightarrow> int \<Rightarrow> double" where
  "node_utilization hw loads n = mgetd 0 loads n / real_of_int (max (cpus_of_node hw n) 1)"

definition minimum_utilization :: "hardware_graph \<Rightarrow> (int, double) omap \<Rightarrow> double" where
  "minimum_utilization hw loads =
     min_element (\<lambda>u. u) (map (node_utilization hw loads) (mkeys (node_cpu_count hw)))"

section \<open>Dirty threads\<close>

definition overloaded_thread :: "hardware_graph \<Rightarrow> incremental_options \<Rightarrow> int \<Rightarrow> incremental_solver \<Rightarrow> inc_loads \<Rightarrow> int \<Rightarrow> bool" where
  "overloaded_thread hw opts cap s l t \<longleftrightarrow>
     (let c = committed_cpu s t; n = online_node hw c in
      n < 0 \<or> 1 < mgetd 0 (ld_cpu l) c \<or> cap < mgetd 0 (ld_count l) c \<or>
      (0 \<le> n \<and> (real_of_int (cpus_of_node hw n) < mgetd 0 (ld_node l) n \<or>
         minimum_utilization hw (ld_node l) + node_balance_threshold opts < node_utilization hw (ld_node l) n)))"

definition changed_demand :: "incremental_options \<Rightarrow> incremental_solver \<Rightarrow> int \<times> thread_demand \<Rightarrow> bool" where
  "changed_demand opts s x \<longleftrightarrow>
     (case map_of (previous_demand s) (fst x) of None \<Rightarrow> True
      | Some d \<Rightarrow> demand_dirty_threshold opts \<le> \<bar>d - demand (snd x)\<bar>)"

definition changed_score :: "incremental_options \<Rightarrow> incremental_solver \<Rightarrow> (int \<times> int) \<times> relation_edge \<Rightarrow> bool" where
  "changed_score opts s x \<longleftrightarrow>
     (let old = mgetd 0 (previous_edge_score s) (fst x);
          absolute = \<bar>score (snd x) - old\<bar>;
          relative = absolute / max \<bar>old\<bar> (1 / 10 ^ 9)
      in \<not> mhas (previous_edge_score s) (fst x) \<or> edge_dirty_absolute_threshold opts \<le> absolute \<or>
         edge_dirty_relative_threshold opts \<le> relative)"

definition put_ends :: "int \<times> int \<Rightarrow> int oset \<Rightarrow> int oset" where
  "put_ends k d = sput (snd k) (sput (fst k) d)"

definition dirty_set ::
  "hardware_graph \<Rightarrow> incremental_options \<Rightarrow> int \<Rightarrow> graph_delta option \<Rightarrow> inc_loads \<Rightarrow> incremental_solver \<Rightarrow> int oset" where
  "dirty_set hw opts cap delta l s =
     (let d0 = (case delta of None \<Rightarrow> [] | Some g \<Rightarrow> dirty_tids g);
          d1 = fold (\<lambda>x d. if delta = None \<and> changed_demand opts s x \<or> overloaded_thread hw opts cap s l (fst x)
                 then sput (fst x) d else d) (is_threads s) d0;
          d2 = (if delta = None
                then fold (\<lambda>x d. if changed_score opts s x then put_ends (fst x) d else d) (is_edges s) d1 else d1);
          d3 = (if delta = None
                then fold (\<lambda>k d. if mhas (is_edges s) k then d else put_ends k d) (mkeys (previous_edge_score s)) d2 else d2);
          tids = mkeys (is_threads s)
      in fold (\<lambda>n d. sput (tids ! ((scan_cursor s + n) mod length tids)) d) [0..<nat (rotating_scan_size opts)] d3)"

definition advance_scan :: "incremental_options \<Rightarrow> incremental_solver \<Rightarrow> incremental_solver" where
  "advance_scan opts s =
     s\<lparr>scan_cursor := (scan_cursor s + nat (rotating_scan_size opts)) mod length (is_threads s),
       previous_demand := map (\<lambda>(t, x). (t, demand x)) (is_threads s),
       previous_edge_score := map (\<lambda>(k, e). (k, score e)) (is_edges s)\<rparr>"

section \<open>Dissatisfaction\<close>

record dissatisfaction =
  ds_tid :: int
  ds_invalid :: bool
  ds_slots :: int
  ds_capacity :: double
  ds_node_balance :: double
  ds_relation :: double
  ds_load :: double

definition node_relation :: "hardware_graph \<Rightarrow> incremental_solver \<Rightarrow> relation_edge list \<Rightarrow> int \<Rightarrow> int \<Rightarrow> double" where
  "node_relation hw s es t node =
     relation_to (\<lambda>e c. score e * node_latency hw node (online_node hw c)) (is_placement s) es t"

definition dissatisfaction_of ::
  "hardware_graph \<Rightarrow> int \<Rightarrow> inc_loads \<Rightarrow> (int, relation_edge list) omap \<Rightarrow> incremental_solver \<Rightarrow> int \<Rightarrow> dissatisfaction" where
  "dissatisfaction_of hw cap l adj s t =
     (let c = mgetd 0 (is_placement s) t; n = online_node hw c; d = thread_demand_at s t;
          load = mgetd 0 (ld_cpu l) c;
          rels = map (\<lambda>m. (m, node_relation hw s (mgetd [] adj t) t m)) (mkeys (node_cpu_count hw));
          best = min_element (\<lambda>v. v) (map snd rels)
      in \<lparr>ds_tid = t, ds_invalid = (n < 0), ds_slots = max 0 (mgetd 0 (ld_count l) c - cap),
          ds_capacity = d * max 0 (load - 1) +
            (if 0 \<le> n then d * max 0 (mgetd 0 (ld_node l) n - real_of_int (cpus_of_node hw n)) else 0),
          ds_node_balance = (if 0 \<le> n
            then d * max 0 (node_utilization hw (ld_node l) n - minimum_utilization hw (ld_node l)) else 0),
          ds_relation = max 0 (mgetd 0 rels n - best),
          ds_load = (if 0 \<le> n
            then d * max 0 (load - min_element (\<lambda>v. v) (map (mgetd 0 (ld_cpu l)) (cpus_in_node hw n))) else 0)\<rparr>)"

definition dissatisfaction_key ::
  "incremental_solver \<Rightarrow> dissatisfaction \<Rightarrow>
   bool \<times> int \<times> double \<times> double \<times> double \<times> double \<times> double \<times> thread_identity" where
  "dissatisfaction_key s d =
     (\<not> ds_invalid d, - ds_slots d, - ds_capacity d, - ds_relation d, - ds_node_balance d, - ds_load d,
      - thread_demand_at s (ds_tid d), identity_of s (ds_tid d))"

definition rank_dissatisfied ::
  "hardware_graph \<Rightarrow> incremental_options \<Rightarrow> int \<Rightarrow> nat \<Rightarrow> inc_loads \<Rightarrow> (int, relation_edge list) omap \<Rightarrow> incremental_solver \<Rightarrow>
   int oset \<Rightarrow> dissatisfaction list" where
  "rank_dissatisfied hw opts cap budget l adj s dirty =
     take (min (nat (candidate_hard_limit opts)) (nat (candidate_multiplier opts) * budget))
       (sort_key (dissatisfaction_key s)
         (map (dissatisfaction_of hw cap l adj s)
           (filter (\<lambda>t. mhas (is_threads s) t \<and> mhas (is_placement s) t) dirty)))"

section \<open>Potential moves\<close>

record potential =
  po_actions :: "placement_action list"
  po_key :: string
  po_emergency :: bool
  po_gain :: double

definition action_text :: "placement_action \<Rightarrow> string" where
  "action_text a =
     show_int (tgid (pa_identity a)) @ '':'' @ show_int (tid (pa_identity a)) @ '':'' @
     show_nat (unat (starttime (pa_identity a))) @ '':'' @ show_int (from_cpu a) @ ''>'' @ show_int (target_cpu a) @ '';''"

definition action_key :: "placement_action list \<Rightarrow> string" where
  "action_key acts = concat (map action_text acts)"

definition incident_cost ::
  "hardware_graph \<Rightarrow> incremental_solver \<Rightarrow> relation_edge list \<Rightarrow> (int, int) omap \<Rightarrow> int \<Rightarrow> int \<Rightarrow> double" where
  "incident_cost hw s es overrides t c =
     relation_to (\<lambda>e p. score e * latency hw c (mgetd p overrides (other_end t e))) (is_placement s) es t"

definition cooling :: "incremental_options \<Rightarrow> uint64 \<Rightarrow> incremental_solver \<Rightarrow> int \<Rightarrow> bool" where
  "cooling opts now s t \<longleftrightarrow>
     (case map_of (last_moved_ns s) t of None \<Rightarrow> False | Some m \<Rightarrow> now - m < io_minimum_dwell_ns opts)"

record move =
  mv_cpu :: int
  mv_emergency :: bool
  mv_slots :: int
  mv_overload :: double
  mv_relation :: double
  mv_balance :: double
  mv_gain :: double
  mv_worse :: bool

text \<open>What moving a thread of demand \<open>d\<close> from its CPU to another one does.\<close>

definition move_effect ::
  "hardware_graph \<Rightarrow> incremental_options \<Rightarrow> int \<Rightarrow> inc_loads \<Rightarrow> incremental_solver \<Rightarrow> relation_edge list \<Rightarrow> int \<Rightarrow> cpu \<Rightarrow> move" where
  "move_effect hw opts cap l s es t info =
     (let source = mgetd 0 (is_placement s) t; c = cpu_id info; d = thread_demand_at s t;
          sn = online_node hw source; tn = cpu_node info;
          count = mgetd 0 (ld_count l); load = mgetd 0 (ld_cpu l); nload = mgetd 0 (ld_node l);
          ncpus = (\<lambda>n. real_of_int (cpus_of_node hw n));
          before_slots = max 0 (count source - cap) + max 0 (count c - cap);
          after_slots = max 0 (count source - 1 - cap) + max 0 (count c + 1 - cap);
          earlier = max 0 (load source - 1) + max 0 (load c - 1) +
            (if 0 \<le> sn then max 0 (nload sn - ncpus sn) else 0) +
            (if tn \<noteq> sn then max 0 (nload tn - ncpus tn) else 0);
          cross = (0 \<le> sn \<and> sn \<noteq> tn);
          later = max 0 (load source - d - 1) + max 0 (load c + d - 1) +
            (if cross then max 0 (nload sn - d - ncpus sn) + max 0 (nload tn + d - ncpus tn) else 0);
          balanced = (if cross then madd tn d (madd sn (- d) (ld_node l)) else ld_node l);
          before_balance = node_balance_cost hw (ld_node l);
          after_balance = node_balance_cost hw balanced;
          current = incident_cost hw s es [] t source;
          relation = incident_cost hw s es [] t c;
          balance_emergency = (cross \<and>
            node_utilization hw (ld_node l) tn + node_balance_threshold opts < node_utilization hw (ld_node l) sn \<and>
            after_balance + 1 / 10 ^ 12 < before_balance \<and> relation \<le> current + 1 / 10 ^ 12);
          emergency = (sn < 0 \<or> after_slots < before_slots \<or> later + 1 / 10 ^ 12 < earlier \<or> balance_emergency);
          gain = current - relation
      in \<lparr>mv_cpu = c, mv_emergency = emergency, mv_slots = after_slots, mv_overload = later, mv_relation = relation,
          mv_balance = after_balance, mv_gain = gain,
          mv_worse = (before_slots < after_slots \<or> \<not> emergency \<and> earlier + 1 / 10 ^ 12 < later \<or>
            \<not> emergency \<and> gain + 1 / 10 ^ 12 < minimum_relative_gain opts * max current (1 / 10 ^ 9))\<rparr>)"

definition move_key ::
  "hardware_graph \<Rightarrow> int \<Rightarrow> move \<Rightarrow> bool \<times> int \<times> double \<times> double \<times> double \<times> double \<times> int" where
  "move_key hw source m =
     (\<not> mv_emergency m, mv_slots m, mv_overload m, mv_relation m, mv_balance m, latency hw source (mv_cpu m), mv_cpu m)"

definition move_potential ::
  "hardware_graph \<Rightarrow> incremental_options \<Rightarrow> int \<Rightarrow> uint64 \<Rightarrow> inc_loads \<Rightarrow> (int, relation_edge list) omap \<Rightarrow> incremental_solver \<Rightarrow>
   dissatisfaction \<Rightarrow> potential list \<times> int oset \<Rightarrow> potential list \<times> int oset" where
  "move_potential hw opts cap now l adj s ds st =
     (let (pots, skipped) = st;
          t = ds_tid ds; source = mgetd 0 (is_placement s) t; cool = cooling opts now s t;
          moves = map (move_effect hw opts cap l s (mgetd [] adj t) t)
            (filter (\<lambda>c. online c \<and> cpu_id c \<noteq> source) (cpus hw));
          skipped' = (if \<exists>m \<in> set moves. cool \<and> \<not> mv_emergency m then sput t skipped else skipped);
          usable = filter (\<lambda>m. \<not> (cool \<and> \<not> mv_emergency m) \<and> \<not> mv_worse m) moves
      in if usable = [] then (pots, skipped')
         else
           (let b = min_element (move_key hw source) usable;
                a = \<lparr>pa_identity = identity_of s t, from_cpu = source, target_cpu = mv_cpu b, initial_pin = False,
                     pa_emergency = mv_emergency b, capacity_regret = ds_capacity ds,
                     relation_regret = ds_relation ds, load_regret = ds_load ds\<rparr>
            in (pots @ [\<lparr>po_actions = [a], po_key = action_key [a], po_emergency = mv_emergency b,
                         po_gain = mv_gain b\<rparr>], skipped')))"

definition swap_actions :: "incremental_solver \<Rightarrow> dissatisfaction \<Rightarrow> int \<Rightarrow> int \<Rightarrow> placement_action" where
  "swap_actions s ds f c =
     \<lparr>pa_identity = identity_of s (ds_tid ds), from_cpu = f, target_cpu = c, initial_pin = False, pa_emergency = False,
      capacity_regret = ds_capacity ds, relation_regret = ds_relation ds, load_regret = ds_load ds\<rparr>"

definition swap_overloads :: "hardware_graph \<Rightarrow> inc_loads \<Rightarrow> int \<Rightarrow> int \<Rightarrow> double \<Rightarrow> double \<Rightarrow> bool" where
  "swap_overloads hw l a b da db \<longleftrightarrow>
     (let load = mgetd 0 (ld_cpu l); nload = mgetd 0 (ld_node l);
          na = online_node hw a; nb = online_node hw b;
          ncpus = (\<lambda>n. real_of_int (cpus_of_node hw n))
      in max 0 (load a - 1) + max 0 (load b - 1) + 1 / 10 ^ 12 <
           max 0 (load a - da + db - 1) + max 0 (load b - db + da - 1) \<or>
         na \<noteq> nb \<and>
         max 0 (nload na - ncpus na) + max 0 (nload nb - ncpus nb) + 1 / 10 ^ 12 <
           max 0 (nload na - da + db - ncpus na) + max 0 (nload nb - db + da - ncpus nb))"

definition swap_potential ::
  "hardware_graph \<Rightarrow> incremental_options \<Rightarrow> uint64 \<Rightarrow> inc_loads \<Rightarrow> (int, relation_edge list) omap \<Rightarrow> incremental_solver \<Rightarrow>
   dissatisfaction \<times> dissatisfaction \<Rightarrow> potential list \<times> int oset \<Rightarrow> potential list \<times> int oset" where
  "swap_potential hw opts now l adj s ab st =
     (let (pots, skipped) = st; (da, db) = ab; a = ds_tid da; b = ds_tid db;
          ca = mgetd 0 (is_placement s) a; cb = mgetd 0 (is_placement s) b;
          cool_a = cooling opts now s a; cool_b = cooling opts now s b;
          skipped1 = (if cool_a then sput a skipped else skipped);
          skipped2 = (if cool_b then sput b skipped1 else skipped1);
          cost = (\<lambda>ov t c. incident_cost hw s (mgetd [] adj t) ov t c);
          earlier = cost [] a ca + cost [] b cb;
          ov = mput b ca (mput a cb []);
          gain = earlier - (cost ov a cb + cost ov b ca);
          acts = [swap_actions s da ca cb, swap_actions s db cb ca]
      in if ca = cb then (pots, skipped)
         else if cool_a \<or> cool_b then (pots, skipped2)
         else if gain + 1 / 10 ^ 12 < minimum_relative_gain opts * max earlier (1 / 10 ^ 9) \<or>
                 swap_overloads hw l ca cb (thread_demand_at s a) (thread_demand_at s b)
         then (pots, skipped)
         else (pots @ [\<lparr>po_actions = acts, po_key = action_key acts, po_emergency = False, po_gain = gain\<rparr>], skipped))"

definition find_potentials ::
  "hardware_graph \<Rightarrow> incremental_options \<Rightarrow> int \<Rightarrow> uint64 \<Rightarrow> inc_loads \<Rightarrow> (int, relation_edge list) omap \<Rightarrow> incremental_solver \<Rightarrow>
   dissatisfaction list \<Rightarrow> potential list \<times> int oset" where
  "find_potentials hw opts cap now l adj s ranked =
     (let (pots, skipped) =
            fold (swap_potential hw opts now l adj s) (ordered_pairs ranked)
              (fold (move_potential hw opts cap now l adj s) ranked ([], []))
      in (sort_key (\<lambda>p. (\<not> po_emergency p, - po_gain p, po_key p)) pots, skipped))"

section \<open>Selection of moves\<close>

definition slot_violation :: "hardware_graph \<Rightarrow> int \<Rightarrow> inc_loads \<Rightarrow> int" where
  "slot_violation hw cap l = sum_list (map (\<lambda>c. max 0 (mgetd 0 (ld_count l) (cpu_id c) - cap)) (cpus hw))"

definition total_overload :: "hardware_graph \<Rightarrow> inc_loads \<Rightarrow> double" where
  "total_overload hw l =
     sum_list (map (\<lambda>c. max 0 (mgetd 0 (ld_cpu l) (cpu_id c) - 1)) (cpus hw)) +
     sum_list (map (\<lambda>(n, cs). max 0 (mgetd 0 (ld_node l) n - real_of_int cs)) (node_cpu_count hw))"

definition utilization_span :: "hardware_graph \<Rightarrow> (int, double) omap \<Rightarrow> double" where
  "utilization_span hw loads =
     (let us = map (\<lambda>(n, cs). case map_of loads n of None \<Rightarrow> 0 | Some v \<Rightarrow> v / real_of_int cs) (node_cpu_count hw)
      in fold max us 0 - min_element (\<lambda>u. u) us)"

definition shift_load :: "hardware_graph \<Rightarrow> incremental_solver \<Rightarrow> placement_action \<Rightarrow> inc_loads \<Rightarrow> inc_loads" where
  "shift_load hw s a l =
     (let d = thread_demand_at s (tid (pa_identity a)); f = from_cpu a; c = target_cpu a;
          nf = online_node hw f; nc = online_node hw c
      in \<lparr>ld_cpu = madd c d (madd f (- d) (ld_cpu l)),
          ld_node = (if nf \<noteq> nc then madd nc d (madd nf (- d) (ld_node l)) else ld_node l),
          ld_count = madd c 1 (madd f (- 1) (ld_count l))\<rparr>)"

record selection =
  se_actions :: "placement_action list"
  se_selected :: "int oset"
  se_loads :: inc_loads

definition acceptable ::
  "hardware_graph \<Rightarrow> incremental_options \<Rightarrow> int \<Rightarrow> bool \<Rightarrow> inc_loads \<Rightarrow> inc_loads \<Rightarrow> bool" where
  "acceptable hw opts cap emergency l l' \<longleftrightarrow>
     (let before_slots = slot_violation hw cap l; after_slots = slot_violation hw cap l';
          earlier = total_overload hw l; later = total_overload hw l';
          before_balance = node_balance_cost hw (ld_node l); after_balance = node_balance_cost hw (ld_node l');
          capacity_improved = (after_slots < before_slots \<or> later + 1 / 10 ^ 12 < earlier);
          balance_improved = (after_balance + 1 / 10 ^ 12 < before_balance)
      in \<not> (before_slots < after_slots \<or> earlier + 1 / 10 ^ 12 < later \<or>
            emergency \<and> \<not> capacity_improved \<and> \<not> balance_improved \<or>
            \<not> emergency \<and> before_balance + 1 / 10 ^ 12 < after_balance \<and>
              node_balance_threshold opts < utilization_span hw (ld_node l')))"

definition select_potential ::
  "hardware_graph \<Rightarrow> incremental_options \<Rightarrow> int \<Rightarrow> nat \<Rightarrow> incremental_solver \<Rightarrow> potential \<Rightarrow> selection \<Rightarrow> selection" where
  "select_potential hw opts cap budget s p st =
     (let l' = fold (shift_load hw s) (po_actions p) (se_loads st) in
      if \<not> po_emergency p \<and> mgetd 0 (action_confirmations s) (po_key p) < proposal_confirmations opts \<or>
         budget < length (se_actions st) + length (po_actions p) \<or>
         (\<exists>a \<in> set (po_actions p). tid (pa_identity a) \<in> set (se_selected st)) \<or>
         \<not> acceptable hw opts cap (po_emergency p) (se_loads st) l'
      then st
      else \<lparr>se_actions = se_actions st @ po_actions p,
            se_selected = fold (\<lambda>a sel. sput (tid (pa_identity a)) sel) (po_actions p) (se_selected st),
            se_loads = l'\<rparr>)"

definition optimize ::
  "hardware_graph \<Rightarrow> incremental_options \<Rightarrow> int \<Rightarrow> uint64 \<Rightarrow> graph_delta option \<Rightarrow> solver_proposal \<Rightarrow> incremental_solver \<Rightarrow>
   solver_proposal \<times> incremental_solver" where
  "optimize hw opts cap now delta q s =
     (let q1 = q\<lparr>sp_phase := phase s, initial_plan_confirmed := True\<rparr>; budget = sp_migration_budget q in
      if budget = 0 then (q1, s)
      else
        (let l = current_loads hw s;
             adj = adjacency (map snd (is_edges s));
             dirty = dirty_set hw opts cap delta l s;
             s1 = advance_scan opts s;
             ranked = rank_dissatisfied hw opts cap budget l adj s1 dirty;
             (pots, skipped) = find_potentials hw opts cap now l adj s1 ranked;
             confs = fold (\<lambda>p m. mput (po_key p) (mgetd 0 (action_confirmations s1) (po_key p) + 1) m) pots [];
             s2 = s1\<lparr>action_confirmations := confs\<rparr>;
             sel = fold (select_potential hw opts cap budget s2) pots \<lparr>se_actions = [], se_selected = [], se_loads = l\<rparr>;
             acts = se_actions sel;
             q2 = q1\<lparr>maximum_cpu_threads := fold (\<lambda>(c, n) m. max m n) (ld_count l) (maximum_cpu_threads q1),
                     dirty_threads := length dirty, candidate_threads := length ranked,
                     cooldown_skipped_threads := length skipped, sp_actions := acts,
                     sp_delta := delta_of (map (\<lambda>a. (tid (pa_identity a), a)) acts), sp_ready := (acts \<noteq> [])\<rparr>
         in (q2, if acts \<noteq> [] then s2\<lparr>is_outstanding := Some q2\<rparr> else s2)))"

section \<open>Proposals\<close>

definition new_proposal ::
  "incremental_options \<Rightarrow> nat \<Rightarrow> int \<Rightarrow> nat \<Rightarrow> double \<Rightarrow> bool \<Rightarrow> incremental_solver \<Rightarrow> solver_proposal" where
  "new_proposal opts inputs cap predicted sim triggered s =
     \<lparr>sp_id = is_next_proposal_id s, sp_phase = Uninitialized, sp_delta = \<lparr>tid_to_cpu = [], tid_to_mask = []\<rparr>,
      sp_actions = [], eligible_threads = length (is_threads s), pinned_threads = length (pinned s),
      dirty_threads = 0, candidate_threads = 0, cooldown_skipped_threads = 0,
      sp_migration_budget = nat \<lfloor>real (length (is_threads s)) *
        (if phase s = InitialPinning then initial_migrated_threads_ratio opts else maximum_migrated_threads_ratio opts)\<rfloor>,
      sp_confirmation = 0, initial_plan_confirmed = False, sp_ready = False, sp_shadow = shadow s, node_overload = 0,
      sp_relation_cost = 0, sp_cpu_slot_cap = cap, maximum_cpu_threads = 0, predicted_demand_threads = predicted,
      relation_edges_input = inputs, hotspot_edges = length (is_edges s), hotspot_similarity = sim,
      sp_hotspot_stability_confirmation = hotspot_stability_confirmation s,
      hotspot_replan_triggered = triggered, global_replan_active = replan_existing_threads s\<rparr>"

definition inc_propose ::
  "hardware_graph \<Rightarrow> thread_demand list \<Rightarrow> relation_edge list \<Rightarrow> incremental_options \<Rightarrow> uint64 \<Rightarrow> graph_delta option \<Rightarrow>
   incremental_solver \<Rightarrow> solver_proposal result \<times> incremental_solver" where
  "inc_propose hw threads es opts now delta s0 =
     (case is_outstanding s0 of
        Some q \<Rightarrow> (Inr q, s0)
      | None \<Rightarrow>
          (if online_cpus hw = 0 then (Inl (Runtime_Error ''empty CPU envelope''), s0)
           else
             (let cap = cpu_slot_cap hw (length threads) opts;
                  (predicted, s1) = intake hw threads es opts cap s0;
                  (sim, triggered, s2) = take_hotspots es opts s1;
                  q = new_proposal opts (length es) cap predicted sim triggered s2;
                  s3 = s2\<lparr>is_next_proposal_id := is_next_proposal_id s2 + 1\<rparr>
              in if is_threads s3 = [] then (Inr (q\<lparr>sp_phase := Uninitialized\<rparr>), s3\<lparr>phase := Uninitialized\<rparr>)
                 else
                   (let s4 = (if phase s3 = Uninitialized then s3\<lparr>phase := NodePlanning\<rparr> else s3) in
                    if phase s4 = NodePlanning then node_planning hw opts cap q s4
                    else if phase s4 = InitialPinning then initial_pinning hw cap q s4
                    else (let (q', s') = optimize hw opts cap now delta q s4 in (Inr q', s'))))))"

definition commit_pin ::
  "uint64 \<Rightarrow> int oset \<Rightarrow> placement_action \<Rightarrow> incremental_solver \<Rightarrow> incremental_solver" where
  "commit_pin now done a s =
     (let t = tid (pa_identity a) in
      if done \<noteq> [] \<and> t \<notin> set done then s
      else s\<lparr>is_placement := mput t (target_cpu a) (is_placement s), pinned := sput t (pinned s),
             last_moved_ns := (if from_cpu a \<noteq> target_cpu a then mput t now (last_moved_ns s) else last_moved_ns s)\<rparr>)"

definition inc_commit :: "solver_proposal \<Rightarrow> uint64 \<Rightarrow> int oset \<Rightarrow> incremental_solver \<Rightarrow> incremental_solver" where
  "inc_commit q now done s =
     (case is_outstanding s of
        None \<Rightarrow> s
      | Some o' \<Rightarrow>
          (if sp_id o' \<noteq> sp_id q then s
           else
             (let s1 = fold (commit_pin now done) (sp_actions q) s;
                  s2 = (if phase s1 = InitialPinning \<and> initial_targets_effective s1
                        then s1\<lparr>phase := Optimizing, replan_existing_threads := False\<rparr> else s1)
              in s2\<lparr>is_generation := is_generation s2 + 1, is_outstanding := None\<rparr>)))"

definition inc_discard :: "solver_proposal \<Rightarrow> incremental_solver \<Rightarrow> incremental_solver" where
  "inc_discard q s =
     (case is_outstanding s of
        None \<Rightarrow> s
      | Some o' \<Rightarrow> if sp_id o' = sp_id q then s\<lparr>is_outstanding := None\<rparr> else s)"

end
