(* ===== verification/Incremental_Invariant.thy ===== *)
theory Incremental_Invariant
  imports Incremental_Solver
begin

text \<open>
  The invariant of \<^verbatim>\<open>IncrementalSolver\<close>: its maps are keyed by the thread they describe, and the
  threads it knows are those it has an identity for. Every operation keeps it.
\<close>

section \<open>The invariant\<close>

definition solver_ok :: "incremental_solver \<Rightarrow> bool" where
  "solver_ok s \<longleftrightarrow>
     mwf (identities s) \<and> mwf (is_threads s) \<and> mwf (is_placement s) \<and>
     dom (map_of (is_threads s)) = dom (map_of (identities s)) \<and>
     (\<forall>t i. map_of (identities s) t = Some i \<longrightarrow> tid i = t) \<and>
     \<not> stable_hotspot_replan_pending s"

lemma solver_ok_new: "solver_ok (new_incremental_solver sh)"
  by (simp add: solver_ok_def new_incremental_solver_def)

lemma solver_ok_remove: "solver_ok s \<Longrightarrow> solver_ok (inc_remove_thread t s)"
  by (auto simp: solver_ok_def inc_remove_thread_def split: if_splits)

lemma solver_ok_removes: "solver_ok s \<Longrightarrow> solver_ok (fold inc_remove_thread ts s)"
  by (induction ts arbitrary: s) (simp_all add: solver_ok_remove)

text \<open>Changes outside the fields of the invariant.\<close>

definition same_core :: "incremental_solver \<Rightarrow> incremental_solver \<Rightarrow> bool" where
  "same_core s s' \<longleftrightarrow>
     identities s' = identities s \<and> is_threads s' = is_threads s \<and> is_placement s' = is_placement s \<and>
     (stable_hotspot_replan_pending s' \<longrightarrow> stable_hotspot_replan_pending s)"

lemma solver_ok_same: "solver_ok s \<Longrightarrow> same_core s s' \<Longrightarrow> solver_ok s'"
  by (auto simp: solver_ok_def same_core_def)

lemma same_core_refl [simp]: "same_core s s"
  by (simp add: same_core_def)

lemma same_core_trans: "same_core s t \<Longrightarrow> same_core t u \<Longrightarrow> same_core s u"
  by (auto simp: same_core_def)

section \<open>The intake\<close>

lemma solver_ok_admit:
  assumes "solver_ok (fst st)"
  shows "solver_ok (fst (admit_thread hw opts cap n eff adj t st))"
proof -
  obtain s0 late added where st: "st = (s0, late, added)" by (cases st)
  let ?i = "td_tid t"
  define s1 where "s1 = (if (case map_of (identities s0) ?i of None \<Rightarrow> False | Some x \<Rightarrow> x \<noteq> td_identity t)
      then inc_remove_thread ?i s0 else s0)"
  have ok1: "solver_ok s1" using assms solver_ok_remove by (simp add: st s1_def)
  have dom: "dom (map_of (is_threads s1)) = dom (map_of (identities s1))" using ok1 by (simp add: solver_ok_def)
  obtain s2 x where out: "admit_thread hw opts cap n eff adj t st =
      (s2\<lparr>is_threads := mput ?i (t\<lparr>demand := mgetd 0 eff ?i\<rparr>) (is_threads s2)\<rparr>, x)"
    and s2: "is_threads s2 = is_threads s1" "is_placement s2 = is_placement s1"
      "stable_hotspot_replan_pending s2 = stable_hotspot_replan_pending s1"
      "identities s2 = (if mhas (identities s1) ?i then identities s1 else mput ?i (td_identity t) (identities s1))"
  proof (cases "mhas (identities s1) ?i")
    case True
    show ?thesis
      by (rule that [of s1 "(late, added)"]) (use True in \<open>simp_all add: admit_thread_def st s1_def [symmetric] Let_def\<close>)
  next
    case False
    define s where "s = s1\<lparr>identities := mput ?i (td_identity t) (identities s1),
        baseline_cpu := mput ?i (current_cpu t) (baseline_cpu s1)\<rparr>"
    define c where "c = join_target hw opts cap n s (mgetd [] adj ?i) t (mgetd 0 eff ?i)"
    show ?thesis
    proof (cases "phase s = InitialPinning \<or> phase s = Optimizing")
      case True
      show ?thesis
        by (rule that [of "s\<lparr>initial_target_node := mput ?i (online_node hw c) (initial_target_node s),
              initial_target_cpu := mput ?i c (initial_target_cpu s)\<rparr>" "(True, added + 1)"])
          (use True False in \<open>simp_all add: admit_thread_def st s1_def [symmetric] s_def [symmetric] c_def Let_def\<close>,
           use False in \<open>simp_all add: s_def\<close>)
    next
      case F: False
      show ?thesis
        by (rule that [of s "(late, added + 1)"])
          (use F False in \<open>simp_all add: admit_thread_def st s1_def [symmetric] s_def [symmetric] Let_def\<close>,
           use False in \<open>simp_all add: s_def\<close>)
    qed
  qed
  have "dom (map_of (identities s2)) = insert ?i (dom (map_of (identities s1)))"
    using s2(4) by (auto simp: mhas_dom)
  then show ?thesis unfolding out using ok1 s2 dom by (auto simp: solver_ok_def split: if_splits)
qed

lemma solver_ok_admits:
  "solver_ok (fst st) \<Longrightarrow> solver_ok (fst (fold (admit_thread hw opts cap n eff adj) ts st))"
  by (induction ts arbitrary: st) (simp_all add: solver_ok_admit)

lemma same_core_react: "same_core s (react_to_growth opts late added s)"
  by (simp add: react_to_growth_def same_core_def)

lemma same_core_finish: "same_core s (finish_pinning s)"
  by (simp add: finish_pinning_def same_core_def)

lemma solver_ok_intake:
  assumes "solver_ok s" "intake hw threads es opts cap s = (predicted, s')"
  shows "solver_ok s'"
proof -
  obtain s1 eff adj late added s2 where
    s1: "s1 = drop_stale threads (s\<lparr>group_peak_demand := update_peaks opts threads (group_peak_demand s)\<rparr>)"
    and s2: "fold (admit_thread hw opts cap (length threads) eff adj) threads (s1, False, 0) = (s2, late, added)"
    and s': "s' = finish_pinning (react_to_growth opts late added s2)"
    using assms(2) by (auto simp: intake_def Let_def split: prod.splits)
  have "solver_ok s1"
    unfolding s1 drop_stale_def
    by (rule solver_ok_removes, rule solver_ok_same [OF assms(1)]) (simp add: same_core_def)
  then have "solver_ok s2" using solver_ok_admits [of "(s1, False, 0)"] s2 by (metis fst_conv)
  then show ?thesis
    unfolding s' using solver_ok_same same_core_react same_core_finish by blast
qed

lemma hotspots_idle:
  assumes "\<not> stable_hotspot_replan_pending s" "take_hotspots es opts s = (sim, triggered, s')"
  shows "\<not> triggered \<and> same_core s s' \<and> phase s' = phase s \<and> is_outstanding s' = is_outstanding s \<and>
    is_next_proposal_id s' = is_next_proposal_id s"
  using assms by (auto simp: take_hotspots_def hotspot_trigger_def same_core_def Let_def)

section \<open>The phases\<close>

lemma same_core_planning:
  "node_planning hw opts cap q s = (r, s') \<Longrightarrow> same_core s s' \<and> is_outstanding s' = is_outstanding s"
  by (auto simp: node_planning_def confirm_nodes_def same_core_def Let_def split: sum.splits prod.splits if_splits)

lemma repair_batch_core:
  "repair_batch hw cap ts p s = (e, s') \<Longrightarrow>
   same_core s s' \<and> is_outstanding s' = is_outstanding s \<and> phase s' = phase s \<and> pinned s' = pinned s"
proof (induction ts arbitrary: p s)
  case (Cons t ts)
  show ?case
  proof (cases "repair_target hw cap s p t")
    case (Inl x)
    then show ?thesis using Cons.prems by simp
  next
    case (Inr c)
    define s1 where "s1 = (if mgetd 0 (pr_count p) (mgetd 0 (initial_target_cpu s) t) < cap then s
             else s\<lparr>initial_target_cpu := mput t c (initial_target_cpu s),
                    initial_target_node := mput t (online_node hw c) (initial_target_node s)\<rparr>)"
    have "same_core s s1 \<and> is_outstanding s1 = is_outstanding s \<and> phase s1 = phase s \<and> pinned s1 = pinned s"
      by (simp add: s1_def same_core_def)
    moreover have "repair_batch hw cap ts
        \<lparr>pr_count = madd c 1 (pr_count p), pr_load = madd c (thread_demand_at s t) (pr_load p)\<rparr> s1 = (e, s')"
      using Cons.prems Inr by (simp add: s1_def)
    ultimately show ?thesis using Cons.IH same_core_trans by metis
  qed
qed simp

lemma same_core_pinning: "initial_pinning hw cap q s = (r, s') \<Longrightarrow> same_core s s'"
  by (auto simp: initial_pinning_def same_core_def Let_def split: prod.splits option.splits if_splits
      dest!: repair_batch_core)

lemma same_core_optimize: "optimize hw opts cap now delta q s = (q', s') \<Longrightarrow> same_core s s'"
  by (auto simp: optimize_def advance_scan_def same_core_def Let_def split: prod.splits if_splits)

text \<open>What a fresh call of \<^verbatim>\<open>propose\<close> does after its intake, phase by phase.\<close>

definition begin_phase :: "incremental_solver \<Rightarrow> incremental_solver" where
  "begin_phase s =
     (if phase s = Uninitialized then s\<lparr>is_next_proposal_id := is_next_proposal_id s + 1, phase := NodePlanning\<rparr>
      else s\<lparr>is_next_proposal_id := is_next_proposal_id s + 1\<rparr>)"

definition phase_step ::
  "hardware_graph \<Rightarrow> incremental_options \<Rightarrow> int \<Rightarrow> uint64 \<Rightarrow> graph_delta option \<Rightarrow> solver_proposal \<Rightarrow> incremental_solver \<Rightarrow>
   solver_proposal result \<Rightarrow> incremental_solver \<Rightarrow> bool" where
  "phase_step hw opts cap now delta q s r s' \<longleftrightarrow>
     is_threads s = [] \<and> r = Inr (q\<lparr>sp_phase := Uninitialized\<rparr>) \<and> same_core s s' \<and> is_outstanding s' = is_outstanding s \<or>
     is_threads s \<noteq> [] \<and> (phase (begin_phase s) = NodePlanning \<and> node_planning hw opts cap q (begin_phase s) = (r, s') \<or>
       phase (begin_phase s) = InitialPinning \<and> initial_pinning hw cap q (begin_phase s) = (r, s') \<or>
       phase (begin_phase s) = Optimizing \<and> (\<exists>q'. optimize hw opts cap now delta q (begin_phase s) = (q', s') \<and> r = Inr q'))"

lemma begin_phase_core:
  "same_core s (begin_phase s)" "is_outstanding (begin_phase s) = is_outstanding s" "pinned (begin_phase s) = pinned s"
  by (simp_all add: begin_phase_def same_core_def)

lemma propose_run:
  assumes "is_outstanding s0 = None" "online_cpus hw \<noteq> 0"
    and "inc_propose hw threads es opts now delta s0 = (r, s')"
  obtains predicted s1 sim triggered s2 where
    "intake hw threads es opts (cpu_slot_cap hw (length threads) opts) s0 = (predicted, s1)"
    "take_hotspots es opts s1 = (sim, triggered, s2)"
    "phase_step hw opts (cpu_slot_cap hw (length threads) opts) now delta
       (new_proposal opts (length es) (cpu_slot_cap hw (length threads) opts) predicted sim triggered s2) s2 r s'"
proof -
  define cap where "cap = cpu_slot_cap hw (length threads) opts"
  obtain predicted s1 where i: "intake hw threads es opts cap s0 = (predicted, s1)" by fastforce
  obtain sim triggered s2 where h: "take_hotspots es opts s1 = (sim, triggered, s2)" by (metis prod_cases3)
  define q where "q = new_proposal opts (length es) cap predicted sim triggered s2"
  have run: "(r, s') = (if is_threads s2 = []
      then (Inr (q\<lparr>sp_phase := Uninitialized\<rparr>), s2\<lparr>is_next_proposal_id := is_next_proposal_id s2 + 1, phase := Uninitialized\<rparr>)
      else if phase (begin_phase s2) = NodePlanning then node_planning hw opts cap q (begin_phase s2)
      else if phase (begin_phase s2) = InitialPinning then initial_pinning hw cap q (begin_phase s2)
      else (let (q', s') = optimize hw opts cap now delta q (begin_phase s2) in (Inr q', s')))"
    using assms(3) [symmetric]
    by (cases "phase s2") (simp_all add: inc_propose_def assms(1,2) cap_def [symmetric] i h q_def begin_phase_def Let_def)
  have "phase (begin_phase s2) \<noteq> Uninitialized" by (simp add: begin_phase_def)
  then have "phase_step hw opts cap now delta q s2 r s'"
    unfolding phase_step_def using run
    by (cases "phase (begin_phase s2)") (auto simp: same_core_def split: if_splits prod.splits)
  then show ?thesis using that i h by (simp add: cap_def q_def)
qed

lemma phase_step_core: "phase_step hw opts cap now delta q s r s' \<Longrightarrow> same_core s s'"
  unfolding phase_step_def
  using same_core_trans [OF begin_phase_core(1) [of s]] same_core_planning same_core_pinning same_core_optimize by metis

lemma solver_ok_hotspots:
  assumes "solver_ok s" "take_hotspots es opts s = (sim, triggered, s')"
  shows "solver_ok s'" "\<not> triggered"
  using hotspots_idle [OF _ assms(2)] solver_ok_same [OF assms(1)] assms(1) by (auto simp: solver_ok_def)

lemma solver_ok_propose:
  assumes "solver_ok s0" "inc_propose hw threads es opts now delta s0 = (r, s')"
  shows "solver_ok s'"
proof (cases "is_outstanding s0 \<noteq> None \<or> online_cpus hw = 0")
  case True
  then show ?thesis using assms by (auto simp: inc_propose_def split: option.splits)
next
  case False
  then have f: "is_outstanding s0 = None" "online_cpus hw \<noteq> 0" by auto
  show ?thesis
  proof (rule propose_run [OF f assms(2)])
    fix predicted s1 sim triggered s2
    assume i: "intake hw threads es opts (cpu_slot_cap hw (length threads) opts) s0 = (predicted, s1)"
      and h: "take_hotspots es opts s1 = (sim, triggered, s2)"
      and p: "phase_step hw opts (cpu_slot_cap hw (length threads) opts) now delta
        (new_proposal opts (length es) (cpu_slot_cap hw (length threads) opts) predicted sim triggered s2) s2 r s'"
    have "solver_ok s2" using solver_ok_hotspots(1) [OF solver_ok_intake [OF assms(1) i] h] .
    then show "solver_ok s'" using solver_ok_same phase_step_core [OF p] by blast
  qed
qed

lemma solver_ok_commit_pin: "solver_ok s \<Longrightarrow> solver_ok (commit_pin now done a s)"
  by (simp add: commit_pin_def solver_ok_def Let_def)

lemma commit_pins_ok: "solver_ok s \<Longrightarrow> solver_ok (fold (commit_pin now done) acts s)"
  by (induction acts arbitrary: s) (simp_all add: solver_ok_commit_pin)

lemma solver_ok_commit: "solver_ok s \<Longrightarrow> solver_ok (inc_commit q now done s)"
  using commit_pins_ok [of s now "done" "sp_actions q"]
  by (simp add: inc_commit_def solver_ok_def Let_def split: option.splits)

lemma solver_ok_discard: "solver_ok s \<Longrightarrow> solver_ok (inc_discard q s)"
  by (auto simp: inc_discard_def solver_ok_def split: option.splits)

section \<open>Reachable solvers\<close>

inductive solver_reach :: "bool \<Rightarrow> incremental_solver \<Rightarrow> bool" for sh where
  start: "solver_reach sh (new_incremental_solver sh)"
| proposed: "solver_reach sh s \<Longrightarrow> inc_propose hw threads es opts now delta s = (r, s') \<Longrightarrow> solver_reach sh s'"
| committed: "solver_reach sh s \<Longrightarrow> solver_reach sh (inc_commit q now done s)"
| discarded: "solver_reach sh s \<Longrightarrow> solver_reach sh (inc_discard q s)"
| cleared: "solver_reach sh s \<Longrightarrow> solver_reach sh (inc_reset s)"
| removed: "solver_reach sh s \<Longrightarrow> solver_reach sh (inc_remove_thread t s)"

lemma solver_reach_ok: "solver_reach sh s \<Longrightarrow> solver_ok s"
proof (induction rule: solver_reach.induct)
  case (proposed s hw threads es opts now delta r s')
  then show ?case using solver_ok_propose by blast
qed (simp_all add: solver_ok_new solver_ok_commit solver_ok_discard inc_reset_def solver_ok_remove)

end
