(* ===== verification/Incremental_Pinning.thy ===== *)
theory Incremental_Pinning
  imports Incremental_Invariant
begin

text \<open>
  The slot cap of the pinning batches: a committed batch never puts a thread on a CPU that then
  holds more threads than the cap, whatever order the batches of a plan are committed in.
\<close>

section \<open>Counting threads on CPUs\<close>

definition threads_on :: "int set \<Rightarrow> (int \<rightharpoonup> int) \<Rightarrow> int \<Rightarrow> nat" where
  "threads_on T m c = card {t \<in> T. m t = Some c}"

lemma mgetd_count:
  "mgetd 0 (fold (\<lambda>(t, c) m. madd c 1 m) xs m0) k = mgetd 0 m0 k + int (length (filter (\<lambda>(t, c). c = k) xs))"
  by (induction xs arbitrary: m0) auto

lemma length_filter_on:
  assumes "mwf m"
  shows "length (filter (\<lambda>(t, c). c = k) (filter (\<lambda>(t, c). t \<in> T) m)) = threads_on T (map_of m) k"
proof -
  let ?xs = "filter (\<lambda>(t, c). c = k) (filter (\<lambda>(t, c). t \<in> T) m)"
  have "distinct (map fst ?xs)" using mwf_distinct [OF mwf_filter [OF mwf_filter [OF assms]]] .
  then have "length ?xs = card (fst ` set ?xs)" by (metis distinct_card length_map set_map)
  also have "fst ` set ?xs = {t \<in> T. map_of m t = Some k}" using mwf_entry [OF assms] by force
  finally show ?thesis by (simp add: threads_on_def)
qed

lemma threads_on_split:
  assumes "finite T" "P \<subseteq> T"
  shows "threads_on T m k = threads_on (T - P) m k + threads_on P m k"
proof -
  have "{t \<in> T. m t = Some k} = {t \<in> T - P. m t = Some k} \<union> {t \<in> P. m t = Some k}" using assms(2) by auto
  moreover have "finite {t \<in> T - P. m t = Some k}" "finite {t \<in> P. m t = Some k}"
    using assms finite_subset [OF assms(2)] by auto
  ultimately show ?thesis unfolding threads_on_def by (simp only:) (rule card_Un_disjoint, auto)
qed

lemma threads_on_list:
  assumes "distinct ps"
  shows "threads_on (set ps) m k = length (filter (\<lambda>t. m t = Some k) ps)"
proof -
  have "distinct (filter (\<lambda>t. m t = Some k) ps)" using assms by simp
  from distinct_card [OF this] show ?thesis by (simp add: threads_on_def)
qed

lemma project_count:
  assumes "mwf (is_placement s)" "distinct pending" "set pending \<subseteq> dom (map_of (is_threads s))"
  shows "mgetd 0 (pr_count (project s pending)) k =
    int (threads_on (dom (map_of (is_threads s)) - set pending) (map_of (is_placement s)) k)"
proof -
  let ?T = "dom (map_of (is_threads s))" and ?m = "map_of (is_placement s)"
  have sub: "mgetd 0 (pr_count (fold (\<lambda>t p. case map_of (is_placement s) t of None \<Rightarrow> p
      | Some c \<Rightarrow> \<lparr>pr_count = madd c (- 1) (pr_count p), pr_load = madd c (- thread_demand_at s t) (pr_load p)\<rparr>) ps p)) k =
    mgetd 0 (pr_count p) k - int (length (filter (\<lambda>t. ?m t = Some k) ps))" for ps p
    by (induction ps arbitrary: p) (auto split: option.splits)
  have kept: "filter (\<lambda>(t, c). mhas (is_threads s) t) (is_placement s) = filter (\<lambda>(t, c). t \<in> ?T) (is_placement s)"
    by (simp add: mhas_dom)
  have "mgetd 0 (pr_count (project s pending)) k = int (threads_on ?T ?m k) - int (threads_on (set pending) ?m k)"
    unfolding project_def Let_def sub
    using length_filter_on [OF assms(1), of k ?T] threads_on_list [OF assms(2), of ?m k]
    by (simp add: kept mgetd_count)
  moreover have "finite ?T" by (simp add: finite_dom_map_of)
  ultimately show ?thesis using threads_on_split [OF _ assms(3), of ?m k] by simp
qed

section \<open>The repair of a batch\<close>

lemma repair_target_available:
  assumes "repair_target hw cap s p t = Inr c"
  shows "mgetd 0 (pr_count p) c < cap"
    "mgetd 0 (pr_count p) (mgetd 0 (initial_target_cpu s) t) < cap \<Longrightarrow> c = mgetd 0 (initial_target_cpu s) t"
proof -
  let ?target = "mgetd 0 (initial_target_cpu s) t"
  let ?avail = "\<lambda>c. mgetd 0 (pr_count p) c < cap"
  let ?local = "cpus_in_node hw (mgetd 0 (initial_target_node s) t)"
  define cands where "cands = (if \<exists>c \<in> set ?local. ?avail c then ?local
      else map cpu_id (filter (\<lambda>c. online c \<and> ?avail (cpu_id c)) (cpus hw)))"
  let ?key = "\<lambda>c. (cap \<le> mgetd 0 (pr_count p) c, max 0 (mgetd 0 (pr_load p) c + thread_demand_at s t - 1),
      mgetd 0 (pr_load p) c, mgetd 0 (pr_count p) c, c)"
  have run: "Inr c = (if ?avail ?target then Inr ?target
      else if cands = [] then Inl (Runtime_Error ''initial pinning has no slot-cap-feasible CPU'')
      else Inr (min_element ?key cands))"
    using assms [symmetric] by (simp add: repair_target_def Let_def cands_def [symmetric])
  show "?avail ?target \<Longrightarrow> c = ?target" using run by simp
  show "?avail c"
  proof (cases "?avail ?target")
    case True
    then show ?thesis using run by simp
  next
    case False
    then have ne: "cands \<noteq> []" and c: "c = min_element ?key cands" using run by (auto split: if_splits)
    obtain x where x: "x \<in> set cands" "?avail x"
    proof (cases "\<exists>c \<in> set ?local. ?avail c")
      case True
      then show ?thesis using that by (auto simp: cands_def)
    next
      case no: False
      then have "\<forall>x \<in> set cands. ?avail x" by (auto simp: cands_def)
      then show ?thesis using that ne by (metis list.set_sel(1))
    qed
    have "?key c \<le> ?key x" unfolding c by (rule min_element_best(2) [OF ne x(1)])
    then show ?thesis using x(2) by (auto simp: less_eq_prod_def split: if_splits)
  qed
qed

lemma repair_batch_keeps:
  "repair_batch hw cap ts p s = (e, s') \<Longrightarrow> t \<notin> set ts \<Longrightarrow>
   map_of (initial_target_cpu s') t = map_of (initial_target_cpu s) t"
  by (induction ts arbitrary: p s) (auto split: sum.splits if_splits)

lemma repair_batch_slots:
  assumes "repair_batch hw cap ts p s = (None, s')" "distinct ts" "t \<in> set ts"
  shows "mgetd 0 (pr_count p) (mgetd 0 (initial_target_cpu s') t) +
    int (length (filter (\<lambda>u. mgetd 0 (initial_target_cpu s') u = mgetd 0 (initial_target_cpu s') t) ts)) \<le> cap"
  using assms
proof (induction ts arbitrary: p s t)
  case (Cons x ts)
  obtain c where c: "repair_target hw cap s p x = Inr c" using Cons.prems(1) by (auto split: sum.splits)
  define p1 where "p1 = \<lparr>pr_count = madd c 1 (pr_count p), pr_load = madd c (thread_demand_at s x) (pr_load p)\<rparr>"
  define s1 where "s1 = (if mgetd 0 (pr_count p) (mgetd 0 (initial_target_cpu s) x) < cap then s
             else s\<lparr>initial_target_cpu := mput x c (initial_target_cpu s),
                    initial_target_node := mput x (online_node hw c) (initial_target_node s)\<rparr>)"
  have run: "repair_batch hw cap ts p1 s1 = (None, s')" using Cons.prems(1) c by (simp add: p1_def s1_def)
  have d: "distinct ts" "x \<notin> set ts" using Cons.prems(2) by simp_all
  let ?tgt = "mgetd 0 (initial_target_cpu s')"
  have tx: "?tgt x = c"
    using repair_batch_keeps [OF run d(2)] repair_target_available(2) [OF c] by (auto simp: s1_def mgetd_def)
  have count: "mgetd 0 (pr_count p1) k = mgetd 0 (pr_count p) k + (if k = c then 1 else 0)" for k
    by (simp add: p1_def)
  show ?case
  proof (cases "\<exists>u \<in> set ts. ?tgt u = ?tgt t")
    case True
    then obtain u where u: "u \<in> set ts" "?tgt u = ?tgt t" by blast
    show ?thesis using Cons.IH [OF run d(1) u(1)] u(2) count [of "?tgt t"] tx by (auto split: if_splits)
  next
    case False
    then have "t = x" and "filter (\<lambda>u. ?tgt u = ?tgt t) ts = []" using Cons.prems(3) by (auto simp: filter_empty_conv)
    then show ?thesis using repair_target_available(1) [OF c] tx by simp
  qed
qed simp

section \<open>Commits\<close>

lemma commit_pins_placement:
  assumes "distinct (map (\<lambda>a. tid (pa_identity a)) acts)"
  shows "map_of (is_placement (fold (commit_pin now []) acts s)) t =
    (case map_of (map (\<lambda>a. (tid (pa_identity a), target_cpu a)) acts) t of
       None \<Rightarrow> map_of (is_placement s) t | Some c \<Rightarrow> Some c)"
  using assms
proof (induction acts arbitrary: s)
  case (Cons a acts)
  have "map_of (map (\<lambda>a. (tid (pa_identity a), target_cpu a)) acts) (tid (pa_identity a)) = None"
    using Cons.prems by (simp add: map_of_eq_None_iff image_image)
  then show ?case using Cons by (auto simp: commit_pin_def Let_def split: option.splits)
qed simp

lemma commit_pins_threads: "is_threads (fold (commit_pin now done) acts s) = is_threads s"
  by (induction acts arbitrary: s) (simp_all add: commit_pin_def Let_def)

lemma inc_commit_fields:
  assumes "is_outstanding s = Some q"
  shows "is_threads (inc_commit q now done s) = is_threads s"
    "is_placement (inc_commit q now done s) = is_placement (fold (commit_pin now done) (sp_actions q) s)"
    "is_outstanding (inc_commit q now done s) = None"
  using assms by (simp_all add: inc_commit_def Let_def commit_pins_threads)

lemma pending_pins_facts:
  assumes "mwf (is_threads s)"
  shows "distinct (pending_pins hw s b)" "set (pending_pins hw s b) \<subseteq> dom (map_of (is_threads s))" "length (pending_pins hw s b) \<le> b"
proof -
  have "distinct (mkeys (is_threads s))" using mwf_distinct [OF assms] by (simp add: mkeys_def)
  then show "distinct (pending_pins hw s b)" by (simp add: pending_pins_def Let_def)
  show "set (pending_pins hw s b) \<subseteq> dom (map_of (is_threads s))"
    unfolding pending_pins_def Let_def by (rule order_trans [OF set_take_subset]) auto
  show "length (pending_pins hw s b) \<le> b" by (simp add: pending_pins_def Let_def)
qed

section \<open>A pinning batch\<close>

lemma initial_pinning_run:
  assumes "initial_pinning hw cap q s = (Inr q', s')" "sp_ready q'" "\<not> sp_ready q"
  obtains pending s1 where
    "pending = pending_pins hw s (sp_migration_budget q)"
    "repair_batch hw cap pending (project s pending) s = (None, s1)"
    "sp_actions q' = map (pin_action hw s1) pending" "is_outstanding s' = Some q'" "same_core s1 s'"
    "sp_migration_budget q' = sp_migration_budget q" "sp_cpu_slot_cap q' = sp_cpu_slot_cap q"
  using assms
  by (auto simp: initial_pinning_def Let_def same_core_def split: if_splits prod.splits option.splits)

lemma pinning_slots:
  assumes ok: "solver_ok s" and run: "initial_pinning hw cap q s = (Inr q', s')" and "sp_ready q'" "\<not> sp_ready q"
  shows "is_outstanding s' = Some q'"
    "int (threads_on (dom (map_of (is_threads s'))) (map_of (is_placement (inc_commit q' now [] s'))) c) \<le>
       max cap (int (threads_on (dom (map_of (is_threads s'))) (map_of (is_placement s')) c))"
proof -
  obtain pending s1 where p: "pending = pending_pins hw s (sp_migration_budget q)"
    "repair_batch hw cap pending (project s pending) s = (None, s1)"
    "sp_actions q' = map (pin_action hw s1) pending" "is_outstanding s' = Some q'" "same_core s1 s'"
    using initial_pinning_run [OF run assms(3,4)] by metis
  then show "is_outstanding s' = Some q'" by blast
  have core: "same_core s s1" using repair_batch_core [OF p(2)] by blast
  let ?T = "dom (map_of (is_threads s))" and ?m = "map_of (is_placement s)"
  have same: "is_threads s' = is_threads s" "is_placement s' = is_placement s" "is_threads s1 = is_threads s"
    "identities s1 = identities s"
    using core p(5) by (simp_all add: same_core_def)
  have wf: "mwf (is_placement s)" "mwf (is_threads s)" "?T = dom (map_of (identities s))"
    and tids: "\<And>t i. map_of (identities s) t = Some i \<Longrightarrow> tid i = t"
    using ok by (auto simp: solver_ok_def)
  note pend = pending_pins_facts [OF wf(2), of hw "sp_migration_budget q", folded p(1)]
  let ?tgt = "mgetd 0 (initial_target_cpu s1)"
  have ident: "tid (pa_identity (pin_action hw s1 t)) = t" if t: "t \<in> set pending" for t
  proof -
    obtain i where "map_of (identities s) t = Some i" using t pend(2) wf(3) by blast
    then show ?thesis using tids by (simp add: pin_action_def Let_def same(4) mgetd_def)
  qed
  have target: "target_cpu (pin_action hw s1 t) = ?tgt t" for t by (simp add: pin_action_def Let_def)
  have acts: "map (\<lambda>a. (tid (pa_identity a), target_cpu a)) (sp_actions q') = map (\<lambda>t. (t, ?tgt t)) pending"
    using ident target by (simp add: p(3))
  have "map (\<lambda>a. tid (pa_identity a)) (sp_actions q') = pending" using ident by (simp add: p(3) map_idI)
  then have dist: "distinct (map (\<lambda>a. tid (pa_identity a)) (sp_actions q'))" using pend(1) by simp
  have placed: "map_of (is_placement (inc_commit q' now [] s')) t = (if t \<in> set pending then Some (?tgt t) else ?m t)" for t
    unfolding inc_commit_fields(2) [OF p(4)] commit_pins_placement [OF dist] acts
    by (simp add: same(2) map_of_map_keys map_of_eq_None_iff split: option.splits)
      (auto simp: map_of_eq_None_iff image_iff dest!: map_of_SomeD)
  let ?m' = "map_of (is_placement (inc_commit q' now [] s'))"
  have fin: "finite ?T" by (simp add: finite_dom_map_of)
  have rest: "threads_on (?T - set pending) ?m' c = threads_on (?T - set pending) ?m c"
    by (simp add: threads_on_def placed cong: conj_cong)
  have batch: "threads_on (set pending) ?m' c = length (filter (\<lambda>t. ?tgt t = c) pending)"
    using threads_on_list [OF pend(1), of ?m' c] placed by (simp cong: filter_cong)
  have split: "threads_on ?T ?m' c = threads_on (?T - set pending) ?m c + length (filter (\<lambda>t. ?tgt t = c) pending)"
    using threads_on_split [OF fin pend(2), of ?m' c] rest batch by simp
  have "int (threads_on ?T ?m' c) \<le> max cap (int (threads_on ?T ?m c))"
  proof (cases "\<exists>t \<in> set pending. ?tgt t = c")
    case True
    then obtain t where t: "t \<in> set pending" "?tgt t = c" by blast
    show ?thesis
      using repair_batch_slots [OF p(2) pend(1) t(1)] t(2) project_count [OF wf(1) pend(1,2), of c] split by simp
  next
    case False
    then have "filter (\<lambda>t. ?tgt t = c) pending = []" by (auto simp: filter_empty_conv)
    then show ?thesis using split threads_on_split [OF fin pend(2), of ?m c] by simp
  qed
  then show "int (threads_on (dom (map_of (is_threads s'))) ?m' c) \<le>
      max cap (int (threads_on (dom (map_of (is_threads s'))) (map_of (is_placement s')) c))"
    by (simp add: same)
qed

end
