(* ===== verification/Incremental_Moves.thy ===== *)
theory Incremental_Moves
  imports Incremental_Pinning
begin

text \<open>
  The moves of the optimisation phase: which threads they touch, that they stay within the
  budget, and that only an emergency moves a thread within its dwell time.
\<close>

section \<open>Potential moves\<close>

definition action_ok :: "incremental_options \<Rightarrow> uint64 \<Rightarrow> incremental_solver \<Rightarrow> bool \<Rightarrow> placement_action \<Rightarrow> bool" where
  "action_ok opts now s emergency a \<longleftrightarrow>
     map_of (is_placement s) (tid (pa_identity a)) = Some (from_cpu a) \<and> target_cpu a \<noteq> from_cpu a \<and>
     pa_emergency a = emergency \<and> (emergency \<or> \<not> cooling opts now s (tid (pa_identity a)))"

definition potential_ok :: "incremental_options \<Rightarrow> uint64 \<Rightarrow> incremental_solver \<Rightarrow> potential \<Rightarrow> bool" where
  "potential_ok opts now s p \<longleftrightarrow>
     (\<forall>a \<in> set (po_actions p). action_ok opts now s (po_emergency p) a) \<and>
     distinct (map (\<lambda>a. tid (pa_identity a)) (po_actions p))"

definition managed :: "incremental_solver \<Rightarrow> dissatisfaction \<Rightarrow> bool" where
  "managed s d \<longleftrightarrow> ds_tid d \<in> dom (map_of (is_threads s)) \<and> ds_tid d \<in> dom (map_of (is_placement s))"

lemma ranked_managed: "d \<in> set (rank_dissatisfied hw opts cap b l adj s dirty) \<Longrightarrow> managed s d"
  by (auto simp: rank_dissatisfied_def managed_def dissatisfaction_of_def Let_def mhas_dom dest!: in_set_takeD)

lemma identity_of_tid:
  assumes "solver_ok s" "t \<in> dom (map_of (is_threads s))"
  shows "tid (identity_of s t) = t"
proof -
  obtain i where "map_of (identities s) t = Some i" using assms by (auto simp: solver_ok_def)
  then show ?thesis using assms(1) by (simp add: mgetd_def solver_ok_def)
qed

lemma move_effect_cpu: "mv_cpu (move_effect hw opts cap l s es t c) = cpu_id c"
  by (simp add: move_effect_def Let_def)

lemma move_potential_ok:
  assumes ok: "solver_ok s" and m: "managed s ds"
    and pots: "\<forall>p \<in> set (fst st). potential_ok opts now s p"
  shows "\<forall>p \<in> set (fst (move_potential hw opts cap now l adj s ds st)). potential_ok opts now s p"
proof -
  obtain ps skipped where st: "st = (ps, skipped)" by fastforce
  let ?t = "ds_tid ds" and ?source = "mgetd 0 (is_placement s) (ds_tid ds)"
  let ?cool = "cooling opts now s ?t"
  define moves where "moves = map (move_effect hw opts cap l s (mgetd [] adj ?t) ?t)
      (filter (\<lambda>c. online c \<and> cpu_id c \<noteq> ?source) (cpus hw))"
  define usable where "usable = filter (\<lambda>m. \<not> (?cool \<and> \<not> mv_emergency m) \<and> \<not> mv_worse m) moves"
  define b where "b = min_element (move_key hw ?source) usable"
  define a where "a = \<lparr>pa_identity = identity_of s ?t, from_cpu = ?source, target_cpu = mv_cpu b, initial_pin = False,
      pa_emergency = mv_emergency b, capacity_regret = ds_capacity ds,
      relation_regret = ds_relation ds, load_regret = ds_load ds\<rparr>"
  have out: "fst (move_potential hw opts cap now l adj s ds st) =
      (if usable = [] then ps else ps @ [\<lparr>po_actions = [a], po_key = action_key [a], po_emergency = mv_emergency b, po_gain = mv_gain b\<rparr>])"
    unfolding move_potential_def st Let_def prod.case moves_def [symmetric] usable_def [symmetric] b_def [symmetric]
      a_def [symmetric] by simp
  have "action_ok opts now s (mv_emergency b) a" if "usable \<noteq> []"
  proof -
    have "b \<in> set usable" unfolding b_def by (rule min_element_best(1) [OF that])
    then have b: "b \<in> set moves" "\<not> (?cool \<and> \<not> mv_emergency b)" by (auto simp: usable_def)
    then have "mv_cpu b \<noteq> ?source" by (auto simp: moves_def move_effect_cpu)
    moreover have "tid (identity_of s ?t) = ?t" using identity_of_tid ok m by (simp add: managed_def)
    moreover have "map_of (is_placement s) ?t = Some ?source"
      using m by (auto simp: managed_def mgetd_def)
    ultimately show ?thesis using b(2) by (auto simp: action_ok_def a_def)
  qed
  then show ?thesis using pots out by (auto simp: st potential_ok_def)
qed

lemma swap_potential_ok:
  assumes ok: "solver_ok s" and m: "managed s da" "managed s db"
    and pots: "\<forall>p \<in> set (fst st). potential_ok opts now s p"
  shows "\<forall>p \<in> set (fst (swap_potential hw opts now l adj s (da, db) st)). potential_ok opts now s p"
proof -
  obtain ps skipped where st: "st = (ps, skipped)" by fastforce
  let ?a = "ds_tid da" and ?b = "ds_tid db"
  let ?ca = "mgetd 0 (is_placement s) ?a" and ?cb = "mgetd 0 (is_placement s) ?b"
  define acts where "acts = [swap_actions s da ?ca ?cb, swap_actions s db ?cb ?ca]"
  have id: "tid (identity_of s ?a) = ?a" "tid (identity_of s ?b) = ?b" using identity_of_tid ok m by (auto simp: managed_def)
  have pl: "map_of (is_placement s) ?a = Some ?ca" "map_of (is_placement s) ?b = Some ?cb"
    using m by (auto simp: managed_def mgetd_def)
  have good: "potential_ok opts now s \<lparr>po_actions = acts, po_key = k, po_emergency = False, po_gain = g\<rparr>"
    if "?ca \<noteq> ?cb" "\<not> cooling opts now s ?a" "\<not> cooling opts now s ?b" for k g
  proof -
    have "?a \<noteq> ?b" using that(1) by auto
    then show ?thesis using that id pl by (simp add: potential_ok_def acts_def swap_actions_def action_ok_def)
  qed
  obtain P k g where out: "fst (swap_potential hw opts now l adj s (da, db) st) =
      (if P then ps @ [\<lparr>po_actions = acts, po_key = k, po_emergency = False, po_gain = g\<rparr>] else ps)"
    and "P \<Longrightarrow> ?ca \<noteq> ?cb \<and> \<not> cooling opts now s ?a \<and> \<not> cooling opts now s ?b"
  proof -
    let ?gain = "incident_cost hw s (mgetd [] adj ?a) [] ?a ?ca + incident_cost hw s (mgetd [] adj ?b) [] ?b ?cb -
      (incident_cost hw s (mgetd [] adj ?a) (mput ?b ?ca (mput ?a ?cb [])) ?a ?cb +
       incident_cost hw s (mgetd [] adj ?b) (mput ?b ?ca (mput ?a ?cb [])) ?b ?ca)"
    let ?P = "?ca \<noteq> ?cb \<and> \<not> cooling opts now s ?a \<and> \<not> cooling opts now s ?b \<and>
      \<not> (?gain + 1 / 10 ^ 12 < minimum_relative_gain opts *
          max (incident_cost hw s (mgetd [] adj ?a) [] ?a ?ca + incident_cost hw s (mgetd [] adj ?b) [] ?b ?cb) (1 / 10 ^ 9) \<or>
        swap_overloads hw l ?ca ?cb (thread_demand_at s ?a) (thread_demand_at s ?b))"
    have "fst (swap_potential hw opts now l adj s (da, db) st) =
        (if ?P then ps @ [\<lparr>po_actions = acts, po_key = action_key acts, po_emergency = False, po_gain = ?gain\<rparr>] else ps)"
      unfolding swap_potential_def st Let_def acts_def by (simp split: if_splits)
    then show thesis using that by blast
  qed
  then show ?thesis using pots good by (auto simp: st)
qed

lemma ordered_pairs_set: "(x, y) \<in> set (ordered_pairs xs) \<Longrightarrow> x \<in> set xs \<and> y \<in> set xs"
  by (induction xs) auto

lemma find_potentials_ok:
  assumes "solver_ok s" "\<forall>d \<in> set ranked. managed s d" "find_potentials hw opts cap now l adj s ranked = (pots, skipped)"
  shows "\<forall>p \<in> set pots. potential_ok opts now s p"
proof -
  let ?ok = "\<lambda>st :: potential list \<times> int oset. \<forall>p \<in> set (fst st). potential_ok opts now s p"
  have "?ok (fold (move_potential hw opts cap now l adj s) ranked ([], []))"
    by (rule fold_inv [where P = ?ok]) (use assms(1,2) move_potential_ok in auto)
  then have "?ok (fold (swap_potential hw opts now l adj s) (ordered_pairs ranked)
      (fold (move_potential hw opts cap now l adj s) ranked ([], [])))"
  proof (rule fold_inv [where P = ?ok])
    fix x and st :: "potential list \<times> int oset" assume x: "x \<in> set (ordered_pairs ranked)" and st: "?ok st"
    obtain da db where p: "x = (da, db)" by fastforce
    then have "da \<in> set ranked" "db \<in> set ranked" using ordered_pairs_set [of da db ranked] x by simp_all
    then have "managed s da" "managed s db" using assms(2) by auto
    then show "?ok (swap_potential hw opts now l adj s x st)"
      unfolding p by (rule swap_potential_ok [OF assms(1) _ _ st])
  qed
  then show ?thesis using assms(3) by (auto simp: find_potentials_def Let_def split: prod.splits)
qed

section \<open>Selected moves\<close>

definition selection_ok :: "incremental_options \<Rightarrow> uint64 \<Rightarrow> nat \<Rightarrow> incremental_solver \<Rightarrow> selection \<Rightarrow> bool" where
  "selection_ok opts now budget s st \<longleftrightarrow>
     length (se_actions st) \<le> budget \<and> distinct (map (\<lambda>a. tid (pa_identity a)) (se_actions st)) \<and>
     set (se_selected st) = (\<lambda>a. tid (pa_identity a)) ` set (se_actions st) \<and>
     (\<forall>a \<in> set (se_actions st). action_ok opts now s (pa_emergency a) a)"

lemma fold_put_tids: "set (fold (\<lambda>a sel. sput (tid (pa_identity a)) sel) acts sel) = (\<lambda>a. tid (pa_identity a)) ` set acts \<union> set sel"
  by (induction acts arbitrary: sel) auto

lemma action_ok_emergency: "action_ok opts now s e a \<Longrightarrow> action_ok opts now s (pa_emergency a) a"
  by (simp add: action_ok_def)

lemma select_potential_ok:
  assumes "selection_ok opts now budget s st" "potential_ok opts now s p"
    and "action_confirmations s' = ac"
  shows "selection_ok opts now budget s (select_potential hw opts cap budget s' p st)"
proof (cases "select_potential hw opts cap budget s' p st = st")
  case False
  define l' where "l' = fold (shift_load hw s') (po_actions p) (se_loads st)"
  have g: "\<not> budget < length (se_actions st) + length (po_actions p)"
    "\<not> (\<exists>a \<in> set (po_actions p). tid (pa_identity a) \<in> set (se_selected st))"
    using False by (auto simp: select_potential_def Let_def split: if_splits)
  have "select_potential hw opts cap budget s' p st =
      \<lparr>se_actions = se_actions st @ po_actions p,
       se_selected = fold (\<lambda>a sel. sput (tid (pa_identity a)) sel) (po_actions p) (se_selected st), se_loads = l'\<rparr>"
    using False unfolding select_potential_def Let_def l'_def by (simp split: if_splits)
  moreover have "(\<lambda>a. tid (pa_identity a)) ` set (se_actions st) \<inter> (\<lambda>a. tid (pa_identity a)) ` set (po_actions p) = {}"
    using g(2) assms(1) by (auto simp: selection_ok_def) (metis image_eqI)
  moreover have "\<forall>a \<in> set (po_actions p). action_ok opts now s (pa_emergency a) a"
    using assms(2) action_ok_emergency by (auto simp: potential_ok_def)
  ultimately show ?thesis
    using assms g(1) by (auto simp: selection_ok_def potential_ok_def fold_put_tids)
qed (use assms in simp)

lemma optimize_moves:
  assumes ok: "solver_ok s" and run: "optimize hw opts cap now delta q s = (q', s')" and q: "sp_actions q = []"
  shows "length (sp_actions q') \<le> sp_migration_budget q'" "distinct (map (\<lambda>a. tid (pa_identity a)) (sp_actions q'))"
    "\<forall>a \<in> set (sp_actions q'). action_ok opts now s' (pa_emergency a) a"
proof -
  have "length (sp_actions q') \<le> sp_migration_budget q' \<and> distinct (map (\<lambda>a. tid (pa_identity a)) (sp_actions q')) \<and>
      (\<forall>a \<in> set (sp_actions q'). action_ok opts now s' (pa_emergency a) a)"
  proof (cases "sp_migration_budget q = 0")
    case True
    then show ?thesis using run q by (auto simp: optimize_def Let_def)
  next
    case False
    define l adj dirty where "l = current_loads hw s" and "adj = adjacency (map snd (is_edges s))"
      and "dirty = dirty_set hw opts cap delta l s"
    define s1 where "s1 = advance_scan opts s"
    define ranked where "ranked = rank_dissatisfied hw opts cap (sp_migration_budget q) l adj s1 dirty"
    obtain pots skipped where pots: "find_potentials hw opts cap now l adj s1 ranked = (pots, skipped)" by fastforce
    define s2 where "s2 = s1\<lparr>action_confirmations :=
        fold (\<lambda>p m. mput (po_key p) (mgetd 0 (action_confirmations s1) (po_key p) + 1) m) pots []\<rparr>"
    define sel where "sel = fold (select_potential hw opts cap (sp_migration_budget q) s2) pots
        \<lparr>se_actions = [], se_selected = [], se_loads = l\<rparr>"
    have out: "sp_actions q' = se_actions sel" "sp_migration_budget q' = sp_migration_budget q"
      "is_placement s' = is_placement s2" "last_moved_ns s' = last_moved_ns s2"
      using run False
      by (auto simp: optimize_def Let_def l_def [symmetric] adj_def [symmetric] dirty_def [symmetric] s1_def [symmetric]
          ranked_def [symmetric] pots s2_def [symmetric] sel_def [symmetric] split: if_splits)
    have ok1: "solver_ok s1" by (rule solver_ok_same [OF ok]) (simp add: s1_def advance_scan_def same_core_def)
    have good: "\<forall>p \<in> set pots. potential_ok opts now s1 p"
      using find_potentials_ok [OF ok1 _ pots] ranked_managed by (simp add: ranked_def)
    have "selection_ok opts now (sp_migration_budget q) s1 sel"
      unfolding sel_def
      by (rule fold_inv [where P = "selection_ok opts now (sp_migration_budget q) s1"])
        (use good select_potential_ok in \<open>auto simp: selection_ok_def\<close>)
    moreover have "is_placement s2 = is_placement s1" "last_moved_ns s2 = last_moved_ns s1" by (simp_all add: s2_def)
    then have "action_ok opts now s' e a = action_ok opts now s1 e a" for e a
      by (simp add: action_ok_def cooling_def out)
    ultimately show ?thesis by (simp add: selection_ok_def out)
  qed
  then show "length (sp_actions q') \<le> sp_migration_budget q'" "distinct (map (\<lambda>a. tid (pa_identity a)) (sp_actions q'))"
    "\<forall>a \<in> set (sp_actions q'). action_ok opts now s' (pa_emergency a) a" by auto
qed

end
