(* ===== verification/Hotspot_Properties.thy ===== *)
theory Hotspot_Properties
  imports Hotspots
begin

text \<open>
  The bounded cohort: it has exactly the configured size, and a thread that is already managed
  stays managed as long as it ranks within the limit.
\<close>

section \<open>The loops of the selection\<close>

lemma length_sput_le: "length (sput x s) \<le> Suc (length s)"
  by (induction s) auto

lemma retain_mono:
  "set sel \<subseteq> set (fold (\<lambda>t sel. if length sel < limit \<and> t \<in> P then sput t sel else sel) xs sel)"
proof (induction xs arbitrary: sel)
  case (Cons x xs)
  have "set sel \<subseteq> set (if length sel < limit \<and> x \<in> P then sput x sel else sel)" by auto
  then show ?case using Cons [of "if length sel < limit \<and> x \<in> P then sput x sel else sel"] by auto
qed simp

lemma retain_front:
  "t \<in> set (take (limit - length sel) xs) \<Longrightarrow> t \<in> P \<Longrightarrow>
   t \<in> set (fold (\<lambda>t sel. if length sel < limit \<and> t \<in> P then sput t sel else sel) xs sel)"
proof (induction xs arbitrary: sel)
  case (Cons x xs)
  define sel1 where "sel1 = (if length sel < limit \<and> x \<in> P then sput x sel else sel)"
  have room: "length sel < limit" using Cons.prems(1) by (cases "limit - length sel") auto
  have step: "fold (\<lambda>t sel. if length sel < limit \<and> t \<in> P then sput t sel else sel) (x # xs) sel =
      fold (\<lambda>t sel. if length sel < limit \<and> t \<in> P then sput t sel else sel) xs sel1"
    by (simp add: sel1_def)
  show ?case
  proof (cases "t = x")
    case True
    then have "t \<in> set sel1" using room Cons.prems(2) by (simp add: sel1_def)
    then show ?thesis unfolding step using retain_mono by blast
  next
    case False
    then have "t \<in> set (take (limit - length sel - 1) xs)"
      using Cons.prems(1) by (cases "limit - length sel") auto
    moreover have "limit - length sel - 1 \<le> limit - length sel1"
      using length_sput_le [of x sel] by (auto simp: sel1_def)
    ultimately have "t \<in> set (take (limit - length sel1) xs)"
      by (rule subsetD [OF set_take_subset_set_take, rotated])
    then show ?thesis unfolding step by (rule Cons.IH [OF _ Cons.prems(2)])
  qed
qed simp

definition cohort_ok :: "nat \<Rightarrow> int list \<Rightarrow> int oset \<Rightarrow> bool" where
  "cohort_ok limit ranked sel \<longleftrightarrow> swf sel \<and> set sel \<subseteq> set ranked \<and> length sel \<le> limit"

lemma cohort_ok_sput:
  "cohort_ok limit ranked sel \<Longrightarrow> x \<in> set ranked \<Longrightarrow> length sel < limit \<Longrightarrow> cohort_ok limit ranked (sput x sel)"
  using length_sput_le [of x sel] by (auto simp: cohort_ok_def)

lemma retain_ok: "cohort_ok limit ranked (retain_managed limit retention previous ranked)"
proof -
  have "cohort_ok limit ranked (fold (\<lambda>t sel. if length sel < limit \<and> t \<in> P then sput t sel else sel) xs sel)"
    if "cohort_ok limit ranked sel" "set xs \<subseteq> set ranked" for xs sel P
    using that by (induction xs arbitrary: sel) (auto simp: cohort_ok_sput)
  from this [of "[]" "take retention ranked" "set previous"] show ?thesis
    by (simp add: retain_managed_def cohort_ok_def set_take_subset)
qed

lemma growth_scan:
  fixes st :: "int \<times> double \<times> nat \<times> double \<times> double \<times> thread_identity"
  assumes "fold (\<lambda>t (bt, b). if t \<in> S then (bt, b)
      else (let c = key t in if bt < 0 \<or> b < c then (t, c) else (bt, b))) xs st = st'"
    and "\<forall>t \<in> set xs. 0 \<le> t" and "fst st < 0 \<or> fst st \<in> A - S"
  shows "(fst st' < 0 \<or> fst st' \<in> (A \<union> set xs) - S) \<and> (fst st' < 0 \<longrightarrow> fst st < 0 \<and> set xs \<subseteq> S)"
  using assms
proof (induction xs arbitrary: st A)
  case (Cons x xs)
  obtain bt b where st: "st = (bt, b)" by (cases st)
  define st1 where "st1 = (if x \<in> S then (bt, b) else (let c = key x in if bt < 0 \<or> b < c then (x, c) else (bt, b)))"
  have run: "fold (\<lambda>t (bt, b). if t \<in> S then (bt, b)
      else (let c = key t in if bt < 0 \<or> b < c then (t, c) else (bt, b))) xs st1 = st'"
    using Cons.prems(1) unfolding st st1_def by simp
  have step: "fst st1 < 0 \<or> fst st1 \<in> (insert x A) - S" "fst st1 < 0 \<Longrightarrow> bt < 0 \<and> x \<in> S"
    using Cons.prems(2,3) by (auto simp: st st1_def Let_def split: if_splits)
  have "\<forall>t \<in> set xs. 0 \<le> t" using Cons.prems(2) by simp
  from Cons.IH [OF run this step(1)] step(2)
  show ?case by (auto simp: st)
qed auto

lemma best_growth_ok:
  assumes "\<forall>t \<in> set ranked. 0 \<le> t"
  shows "if best_growth by degree adj ranked sel < 0 then set ranked \<subseteq> set sel
    else best_growth by degree adj ranked sel \<in> set ranked - set sel"
  using growth_scan [OF refl assms, of "(- 1, (- 1, 0, - 1, - 1, no_identity))" "{}" "set sel" "growth_key by degree adj sel"]
  by (auto simp: best_growth_def)

lemma grow_ok:
  assumes "\<forall>t \<in> set ranked. 0 \<le> t" "cohort_ok limit ranked sel" "limit - length sel \<le> n" "limit \<le> card (set ranked)"
  shows "cohort_ok limit ranked (grow_managed n limit by degree adj ranked sel) \<and>
    set sel \<subseteq> set (grow_managed n limit by degree adj ranked sel) \<and>
    length (grow_managed n limit by degree adj ranked sel) = limit"
  using assms(2,3)
proof (induction n arbitrary: sel)
  case 0
  then show ?case by (simp add: cohort_ok_def)
next
  case (Suc n)
  show ?case
  proof (cases "length sel < limit")
    case False
    then show ?thesis using Suc.prems by (simp add: cohort_ok_def)
  next
    case True
    let ?b = "best_growth by degree adj ranked sel"
    have "card (set sel) < card (set ranked)"
      using True assms(4) Suc.prems(1) swf_length_card by (fastforce simp: cohort_ok_def)
    then have "\<not> set ranked \<subseteq> set sel" by (meson List.finite_set card_mono not_less)
    then have b: "0 \<le> ?b" "?b \<in> set ranked" "?b \<notin> set sel"
      using best_growth_ok [OF assms(1), of "by" degree adj sel] by (auto split: if_splits)
    have "cohort_ok limit ranked (sput ?b sel)" using cohort_ok_sput Suc.prems(1) b(2) True by blast
    moreover have "length (sput ?b sel) = Suc (length sel)"
      using length_sput [of sel ?b] b(3) Suc.prems(1) by (simp add: cohort_ok_def)
    ultimately have ih: "cohort_ok limit ranked (grow_managed n limit by degree adj ranked (sput ?b sel)) \<and>
        set (sput ?b sel) \<subseteq> set (grow_managed n limit by degree adj ranked (sput ?b sel)) \<and>
        length (grow_managed n limit by degree adj ranked (sput ?b sel)) = limit"
      using Suc.IH [of "sput ?b sel"] Suc.prems(2) by simp
    have "grow_managed (Suc n) limit by degree adj ranked sel = grow_managed n limit by degree adj ranked (sput ?b sel)"
      using True b(1) by (simp add: Let_def)
    then show ?thesis using ih by auto
  qed
qed

lemma swap_scan:
  assumes "fold (\<lambda>(out, inn) (bo, bi, bg). let gain = g out inn in if gain \<le> eps then (bo, bi, bg)
      else if better gain inn out bg bi bo then (out, inn, gain) else (bo, bi, bg)) ps st = (bo', bi', bg')"
    and "\<forall>p \<in> set ps. P p" and "fst (snd st) < 0 \<or> P (fst st, fst (snd st))"
  shows "bi' < (0 :: int) \<or> P (bo', bi')"
  using assms
proof (induction ps arbitrary: st)
  case (Cons p ps)
  obtain out inn bo bi bg where p: "p = (out, inn)" "st = (bo, bi, bg)" by (cases p, cases st) auto
  define st1 where "st1 = (if g out inn \<le> eps then (bo, bi, bg)
      else if better (g out inn) inn out bg bi bo then (out, inn, g out inn) else (bo, bi, bg))"
  have "fst (snd st1) < 0 \<or> P (fst st1, fst (snd st1))"
    using Cons.prems(2,3) by (auto simp: p st1_def)
  moreover have "fold (\<lambda>(out, inn) (bo, bi, bg). let gain = g out inn in if gain \<le> eps then (bo, bi, bg)
      else if better gain inn out bg bi bo then (out, inn, gain) else (bo, bi, bg)) ps st1 = (bo', bi', bg')"
    using Cons.prems(1) by (simp add: p st1_def Let_def)
  ultimately show ?case using Cons.IH Cons.prems(2) by simp
qed simp

lemma best_swap_ok:
  assumes "best_swap by degree adj previous ranked sel = (bo, bi)" "0 \<le> bi"
  shows "bo \<in> set sel - set previous \<and> bi \<in> set ranked - set sel"
proof -
  let ?ps = "concat (map (\<lambda>out. map (\<lambda>inn. (out, inn)) (filter (\<lambda>t. t \<notin> set sel) ranked))
      (filter (\<lambda>t. t \<notin> set previous) sel))"
  let ?P = "\<lambda>(out, inn). out \<in> set sel - set previous \<and> inn \<in> set ranked - set sel"
  obtain bg where "fold (\<lambda>(out, inn) (bo, bi, bg). let gain = swap_gain adj sel out inn in
      if gain \<le> 1 / 10 ^ 12 then (bo, bi, bg)
      else if better_swap by degree gain inn out bg bi bo then (out, inn, gain) else (bo, bi, bg)) ?ps (- 1, - 1, 0) =
      (bo, bi, bg)"
    using assms(1) by (auto simp: best_swap_def Let_def split: prod.splits)
  from swap_scan [OF this, of ?P] show ?thesis using assms(2) by auto
qed

lemma refine_ok_managed:
  "cohort_ok limit ranked sel \<Longrightarrow>
   cohort_ok limit ranked (refine_managed n by degree adj previous ranked sel) \<and>
   length (refine_managed n by degree adj previous ranked sel) = length sel \<and>
   set sel \<inter> set previous \<subseteq> set (refine_managed n by degree adj previous ranked sel)"
proof (induction n arbitrary: sel)
  case (Suc n)
  obtain bo bi where b: "best_swap by degree adj previous ranked sel = (bo, bi)" by fastforce
  show ?case
  proof (cases "bi < 0")
    case True
    then show ?thesis using Suc.prems b by simp
  next
    case False
    then have s: "bo \<in> set sel" "bo \<notin> set previous" "bi \<in> set ranked" "bi \<notin> set sel"
      using best_swap_ok [OF b] by auto
    let ?sel = "sput bi (sdel bo sel)"
    have wf: "swf ?sel" "swf sel" using Suc.prems by (simp_all add: cohort_ok_def)
    then have len: "length ?sel = length sel"
      using s card_Suc_Diff1 [of "set sel" bo] by (simp add: swf_length_card)
    then have "cohort_ok limit ranked ?sel" using Suc.prems s wf by (auto simp: cohort_ok_def)
    from Suc.IH [OF this] show ?thesis using b False s len by auto
  qed
qed simp

section \<open>Ranks\<close>

lemma index_threads_lookup:
  assumes "distinct (map td_tid threads)"
  shows "map_of (index_threads threads) k = Some t \<longleftrightarrow> t \<in> set threads \<and> td_tid t = k"
    "mwf (index_threads threads)"
proof -
  show "mwf (index_threads threads)" by (simp add: index_threads_def mwf_fold_mput)
  have "map_of (index_threads threads) k = map_of (map (\<lambda>t. (td_tid t, t)) threads) k"
    using map_of_fold_mput [of "\<lambda>t. (td_tid t, t)" threads "[]" k] assms
    by (simp add: index_threads_def o_def split: option.splits)
  also have "\<dots> = Some t \<longleftrightarrow> (k, t) \<in> set (map (\<lambda>t. (td_tid t, t)) threads)"
    using assms by (intro map_of_eq_Some_iff) (simp add: o_def)
  finally show "map_of (index_threads threads) k = Some t \<longleftrightarrow> t \<in> set threads \<and> td_tid t = k" by auto
qed

lemma mhas_index_threads:
  assumes "distinct (map td_tid threads)"
  shows "mhas (index_threads threads) k \<longleftrightarrow> k \<in> td_tid ` set threads"
  using index_threads_lookup(1) [OF assms] by (auto simp: mhas_def image_iff)

text \<open>The order in which threads compete for a place in the cohort.\<close>

definition managed_rank ::
  "thread_demand list \<Rightarrow> relation_edge list \<Rightarrow> incremental_options \<Rightarrow> thread_demand \<Rightarrow> double \<times> double \<times> thread_identity" where
  "managed_rank threads es opts t =
     (- mgetd 0 (edge_degree (select_hotspot_edges es (index_threads threads) opts)) (td_tid t), - demand t, td_identity t)"

lemma hotspot_endpoints:
  "e \<in> set (select_hotspot_edges es by opts) \<Longrightarrow>
   mhas by (from_tid e) \<and> mhas by (to_tid e) \<and> from_tid e \<noteq> to_tid e"
  by (auto simp: select_hotspot_edges_def hotspot_candidates_def Let_def split: if_splits)

lemma seed_ok_managed:
  assumes "cohort_ok limit ranked sel" "\<And>e. e \<in> set hs \<Longrightarrow> from_tid e \<in> set ranked \<and> to_tid e \<in> set ranked"
  shows "cohort_ok limit ranked (seed_managed limit hs sel) \<and> set sel \<subseteq> set (seed_managed limit hs sel)"
proof (cases "sel = [] \<and> 2 \<le> limit \<and> hs \<noteq> []")
  case True
  let ?s = "min_element (\<lambda>e. (- score e, min (from_tid e) (to_tid e), max (from_tid e) (to_tid e))) hs"
  have "?s \<in> set hs" using True by (intro min_element_best) simp
  then have "from_tid ?s \<in> set ranked" "to_tid ?s \<in> set ranked" using assms(2) by blast+
  then show ?thesis
    using True length_sput_le [of "to_tid ?s" "[from_tid ?s]"] by (auto simp: seed_managed_def Let_def cohort_ok_def swf_def)
qed (use assms in \<open>auto simp: seed_managed_def\<close>)

lemma rank_threads_facts:
  assumes "distinct (map td_tid threads)"
  shows "set (rank_threads (index_threads threads) degree) = td_tid ` set threads"
    "distinct (rank_threads (index_threads threads) degree)"
    "td_tid t \<in> set (take k (rank_threads (index_threads threads) degree)) \<longleftrightarrow>
      td_tid t \<in> td_tid ` set threads \<and>
      card {u \<in> td_tid ` set threads.
        (- mgetd 0 degree u, - demand_at (index_threads threads) u, identity_at (index_threads threads) u) <
        (- mgetd 0 degree (td_tid t), - demand_at (index_threads threads) (td_tid t),
         identity_at (index_threads threads) (td_tid t))} < k"
proof -
  let ?by = "index_threads threads"
  let ?f = "\<lambda>t. (- mgetd 0 degree t, - demand_at ?by t, identity_at ?by t)"
  note look = index_threads_lookup [OF assms]
  have dom: "dom (map_of ?by) = td_tid ` set threads" using look(1) by (auto simp: dom_def image_iff)
  then have keys: "set (mkeys ?by) = td_tid ` set threads" by simp
  then show "set (rank_threads ?by degree) = td_tid ` set threads" by (simp add: rank_threads_def)
  have dist: "distinct (mkeys ?by)" using mwf_distinct [OF look(2)] by (simp add: mkeys_def)
  then show "distinct (rank_threads ?by degree)" by (simp add: rank_threads_def)
  have "tid (identity_at ?by u) = u" if u: "u \<in> set (mkeys ?by)" for u
  proof -
    obtain d where "map_of ?by u = Some d" using u unfolding mkeys_dom by blast
    then show ?thesis using look(1) [of u d] by (simp add: identity_at_def)
  qed
  then have "inj_on (identity_at ?by) (set (mkeys ?by))" by (rule inj_on_inverseI)
  then have "inj_on ?f (set (mkeys ?by))" unfolding inj_on_def by blast
  then have "distinct (map ?f (mkeys ?by))" using dist by (simp add: distinct_map)
  from in_take_sort_key [OF this, of "td_tid t" k] show "td_tid t \<in> set (take k (rank_threads ?by degree)) \<longleftrightarrow>
      td_tid t \<in> td_tid ` set threads \<and> card {u \<in> td_tid ` set threads. ?f u < ?f (td_tid t)} < k"
    by (simp add: rank_threads_def keys del: mkeys_dom)
qed

lemma length_managed:
  assumes "distinct (map td_tid threads)" "swf sel" "set sel \<subseteq> td_tid ` set threads"
  shows "length (filter (\<lambda>t. td_tid t \<in> set sel) threads) = length sel"
proof -
  have "distinct (map td_tid (filter (\<lambda>t. td_tid t \<in> set sel) threads))" using assms(1) by (simp add: distinct_map_filter)
  from distinct_card [OF this] have "length (filter (\<lambda>t. td_tid t \<in> set sel) threads) =
      card (td_tid ` {t \<in> set threads. td_tid t \<in> set sel})" by simp
  also have "td_tid ` {t \<in> set threads. td_tid t \<in> set sel} = set sel" using assms(3) by auto
  finally show ?thesis using swf_length_card [OF assms(2)] by simp
qed

section \<open>Properties\<close>

text \<open>
  When there are more threads than the configured maximum, the managed cohort has exactly
  that many, all of them threads of the input, and a thread that was managed and that fewer
  than the maximum outrank stays managed.
\<close>

theorem managed_cohort_bounded:
  assumes "distinct (map td_tid threads)" "\<forall>t \<in> set threads. 0 \<le> td_tid t"
    and "0 < maximum_managed_threads opts" "nat (maximum_managed_threads opts) < length threads"
    and "0 \<le> managed_thread_hysteresis_ratio opts"
  shows "length (select_managed_threads threads es previous opts) = nat (maximum_managed_threads opts) \<and>
    set (select_managed_threads threads es previous opts) \<subseteq> set threads \<and>
    (\<forall>t \<in> set threads. td_tid t \<in> set previous \<and>
       card {u \<in> set threads. managed_rank threads es opts u < managed_rank threads es opts t} < nat (maximum_managed_threads opts)
       \<longrightarrow> t \<in> set (select_managed_threads threads es previous opts))"
proof -
  define bt where "bt = index_threads threads"
  define hs where "hs = select_hotspot_edges es bt opts"
  define degree adj where "degree = edge_degree hs" and "adj = weighted_adjacency hs"
  define ranked where "ranked = rank_threads bt degree"
  define limit where "limit = nat (maximum_managed_threads opts)"
  define retention where "retention = min (length ranked) (nat \<lceil>real limit * (1 + managed_thread_hysteresis_ratio opts)\<rceil>)"
  define kept where "kept = retain_managed limit retention previous ranked"
  define grown where "grown = grow_managed limit limit bt degree adj ranked (seed_managed limit hs kept)"
  define sel where "sel = refine_managed limit bt degree adj previous ranked grown"
  have ranked: "set ranked = td_tid ` set threads" "distinct ranked"
    using rank_threads_facts(1,2) [OF assms(1)] by (simp_all add: ranked_def bt_def)
  have len: "length ranked = length threads"
    using ranked distinct_card [of ranked] distinct_card [OF assms(1)] by simp
  then have limit: "limit \<le> length ranked" "limit \<le> card (set ranked)"
    using assms(4) distinct_card [OF ranked(2)] by (simp_all add: limit_def)
  have run: "select_managed_threads threads es previous opts = filter (\<lambda>t. td_tid t \<in> set sel) threads"
    using assms(3,4) limit(1)
    by (simp add: select_managed_threads_def Let_def bt_def hs_def degree_def adj_def ranked_def limit_def
        retention_def kept_def grown_def sel_def min_absorb2)
  have "\<And>e. e \<in> set hs \<Longrightarrow> from_tid e \<in> set ranked \<and> to_tid e \<in> set ranked"
    using hotspot_endpoints [of _ es bt opts] mhas_index_threads [OF assms(1)] by (simp add: hs_def bt_def ranked)
  then have seeded: "cohort_ok limit ranked (seed_managed limit hs kept)" "set kept \<subseteq> set (seed_managed limit hs kept)"
    using seed_ok_managed [of limit ranked kept hs] retain_ok by (auto simp: kept_def)
  have pos: "\<forall>t \<in> set ranked. 0 \<le> t" using assms(2) ranked(1) by auto
  have grown: "cohort_ok limit ranked grown" "set (seed_managed limit hs kept) \<subseteq> set grown" "length grown = limit"
    using grow_ok [OF pos seeded(1) _ limit(2), of limit bt degree adj] by (simp_all add: grown_def)
  have sel: "cohort_ok limit ranked sel" "length sel = limit" "set grown \<inter> set previous \<subseteq> set sel"
    using refine_ok_managed [OF grown(1), of limit bt degree adj previous] grown(3) by (simp_all add: sel_def)
  have size: "length (filter (\<lambda>t. td_tid t \<in> set sel) threads) = limit"
    using length_managed [OF assms(1), of sel] sel(1,2) ranked(1) by (simp add: cohort_ok_def)
  have stays: "t \<in> set (filter (\<lambda>t. td_tid t \<in> set sel) threads)"
    if t: "t \<in> set threads" "td_tid t \<in> set previous"
      "card {u \<in> set threads. managed_rank threads es opts u < managed_rank threads es opts t} < limit" for t
  proof -
    let ?f = "\<lambda>t. (- mgetd 0 degree t, - demand_at bt t, identity_at bt t)"
    have key: "?f (td_tid u) = managed_rank threads es opts u" if "u \<in> set threads" for u
      using that index_threads_lookup(1) [OF assms(1), of "td_tid u" u]
      by (simp add: managed_rank_def degree_def hs_def bt_def demand_at_def identity_at_def)
    have "{u \<in> td_tid ` set threads. ?f u < ?f (td_tid t)} =
        td_tid ` {u \<in> set threads. managed_rank threads es opts u < managed_rank threads es opts t}"
      using key t(1) by fastforce
    then have "card {u \<in> td_tid ` set threads. ?f u < ?f (td_tid t)} < limit"
      using t(3) card_image_le [of "{u \<in> set threads. managed_rank threads es opts u < managed_rank threads es opts t}" td_tid]
      by simp
    then have front: "td_tid t \<in> set (take limit ranked)"
      using rank_threads_facts(3) [OF assms(1), of t limit degree] t(1) by (simp add: ranked_def bt_def)
    have "limit \<le> nat \<lceil>real limit * (1 + managed_thread_hysteresis_ratio opts)\<rceil>"
    proof -
      have "real limit \<le> real limit * (1 + managed_thread_hysteresis_ratio opts)" using assms(5) by (simp add: distrib_left)
      then show ?thesis by linarith
    qed
    then have "take limit (take retention ranked) = take limit ranked"
      using limit(1) by (simp add: retention_def min_def)
    then have "td_tid t \<in> set kept"
      using retain_front [of "td_tid t" limit "[]" "take retention ranked" "set previous"] front t(2)
      by (simp add: kept_def retain_managed_def)
    then show ?thesis using seeded(2) grown(2) sel(3) t(1,2) by auto
  qed
  show ?thesis unfolding run using size stays by (auto simp: limit_def)
qed

definition sample_incremental_options :: incremental_options where
  "sample_incremental_options = \<lparr>maximum_migrated_threads_ratio = 1, initial_migrated_threads_ratio = 1,
     proposal_confirmations = 1, initial_proposal_confirmations = 1, io_minimum_dwell_ns = 10, initial_node_passes = 1,
     initial_node_thread_slack_ratio = 1 / 2, candidate_multiplier = 4, candidate_hard_limit = 64,
     rotating_scan_size = 4, demand_dirty_threshold = 1 / 20, edge_dirty_absolute_threshold = 1,
     edge_dirty_relative_threshold = 1 / 10, minimum_relative_gain = 1 / 20, maximum_threads_per_cpu = 0,
     thread_slot_slack = 0, future_demand_floor = 1 / 50, group_peak_demand_ratio = 1 / 4,
     group_peak_demand_cap = 1 / 20, group_peak_decay = 19 / 20, node_balance_threshold = 1 / 20,
     hotspot_edges_per_thread = 4, hotspot_edge_quantile = 19 / 20, hotspot_component_boost = 4,
     maximum_managed_threads = 2, managed_thread_hysteresis_ratio = 1, hotspot_replan_growth_ratio = 1 / 4,
     hotspot_replan_min_threads = 8, hotspot_stability_threshold = 1 / 2, opt_hotspot_stability_confirmations = 3\<rparr>"

definition sample_three :: "thread_demand list" where
  "sample_three = [sample_thread_on 10 (1 / 2) 1, sample_thread_on 11 (3 / 4) 2, sample_thread_on 12 (1 / 4) 0]"

theorem managed_cohort_bounded_witness:
  "length (select_managed_threads sample_three [] [10] sample_incremental_options) = 2 \<and>
   sample_thread_on 10 (1 / 2) 1 \<in> set (select_managed_threads sample_three [] [10] sample_incremental_options)"
proof -
  have "card {u \<in> set sample_three. managed_rank sample_three [] sample_incremental_options u <
      managed_rank sample_three [] sample_incremental_options (sample_thread_on 10 (1 / 2) 1)} < 2"
    by code_simp
  moreover have "distinct (map td_tid sample_three)" "\<forall>t \<in> set sample_three. 0 \<le> td_tid t" "length sample_three = 3"
    "sample_thread_on 10 (1 / 2) 1 \<in> set sample_three" "td_tid (sample_thread_on 10 (1 / 2) 1) = 10"
    by (simp_all add: sample_three_def sample_thread_on_def)
  ultimately show ?thesis
    using managed_cohort_bounded [of sample_three sample_incremental_options "[]" "[10]"]
    by (simp add: sample_incremental_options_def)
qed

end
