(* ===== verification/Incremental_Run.thy ===== *)
theory Incremental_Run
  imports Incremental_Invariant Hotspot_Properties Domain_Safety
begin

text \<open>
  A run of \<^verbatim>\<open>IncrementalSolver\<close> evaluated step by step: two threads on a machine of two nodes are
  planned, pinned, and one of them is moved next to the other when a relation shows up.
\<close>

section \<open>Inputs\<close>

definition run_hardware :: hardware_graph where
  "run_hardware =
     \<lparr>cpus = [\<lparr>cpu_id = 0, cpu_node = 0, online = True\<rparr>, \<lparr>cpu_id = 1, cpu_node = 0, online = True\<rparr>,
              \<lparr>cpu_id = 2, cpu_node = 1, online = True\<rparr>],
      cpu_latency = [], node_distance = [((0, 0), 10), ((0, 1), 20), ((1, 0), 20), ((1, 1), 10)], node_calibrations = []\<rparr>"

definition run_threads :: "thread_demand list" where
  "run_threads = [sample_thread_on 10 (1 / 2) 0, sample_thread_on 11 (1 / 4) 2]"

definition run_options :: incremental_options where
  "run_options = sample_incremental_options\<lparr>node_balance_threshold := 1\<rparr>"

section \<open>First window: the plan\<close>

definition run_admitted :: incremental_solver where
  "run_admitted = (new_incremental_solver False)
     \<lparr>identities := [(10, Identity 1 10 5), (11, Identity 1 11 5)],
      is_threads := [(10, sample_thread_on 10 (1 / 2) 0), (11, sample_thread_on 11 (1 / 4) 2)],
      group_peak_demand := [(''w'', 1 / 2)], baseline_cpu := [(10, 0), (11, 2)]\<rparr>"

definition run_plan :: inc_node_plan where
  "run_plan = \<lparr>np_assigned = [(10, 0), (11, 1)], np_load = [(0, 1 / 2), (1, 1 / 4)], np_threads = [(0, 1), (1, 1)]\<rparr>"

definition run_planning :: incremental_solver where
  "run_planning = run_admitted\<lparr>is_next_proposal_id := 2, phase := NodePlanning\<rparr>"

definition run_planned :: incremental_solver where
  "run_planned = run_planning
     \<lparr>initial_confirmation := 1, previous_initial_target_node := [(10, 0), (11, 1)],
      initial_candidate_identities := [(10, Identity 1 10 5), (11, Identity 1 11 5)],
      initial_target_node := [(10, 0), (11, 1)], last_node_plan_population := 2,
      initial_target_cpu := [(10, 0), (11, 2)], phase := InitialPinning\<rparr>"

lemma run_cap: "cpu_slot_cap run_hardware (length run_threads) run_options = 1"
  by code_simp

lemma run_online: "online_cpus run_hardware = 3"
  by code_simp

lemma run_intake: "intake run_hardware run_threads [] run_options 1 (new_incremental_solver False) = (0, run_admitted)"
  by code_simp

lemma run_hotspots: "take_hotspots [] run_options run_admitted = (0, False, run_admitted)"
  by code_simp

lemma run_order: "order_cohort run_planning = ([10, 11], [10, 11])"
  by code_simp

lemma run_assign:
  "assign_thread run_hardware run_options 1 run_planning [] [10, 11] 10 \<lparr>np_assigned = [], np_load = [], np_threads = []\<rparr> =
     \<lparr>np_assigned = [(10, 0)], np_load = [(0, 1 / 2)], np_threads = [(0, 1)]\<rparr>"
  "assign_thread run_hardware run_options 1 run_planning [] [10, 11] 11
     \<lparr>np_assigned = [(10, 0)], np_load = [(0, 1 / 2)], np_threads = [(0, 1)]\<rparr> = run_plan"
  by code_simp+

lemma run_floors: "repair_floors run_hardware run_options 1 run_planning [] run_plan = Inr run_plan"
  by code_simp

lemma run_swap: "swap_pair run_hardware run_planning (10, 11) (False, run_plan) = (False, run_plan)"
  by code_simp

lemma run_edges: "is_edges run_planning = []" "nat (initial_node_passes run_options) = 1" "adjacency [] = []"
  by code_simp+

lemma run_plan_nodes: "plan_nodes run_hardware run_options 1 run_planning = Inr [(10, 0), (11, 1)]"
  by (simp add: plan_nodes_def run_edges run_order run_assign run_floors run_swap Let_def) (simp add: run_plan_def)

definition run_confirmed :: incremental_solver where
  "run_confirmed = run_planning
     \<lparr>initial_confirmation := 1, previous_initial_target_node := [(10, 0), (11, 1)],
      initial_candidate_identities := [(10, Identity 1 10 5), (11, Identity 1 11 5)],
      initial_target_node := [(10, 0), (11, 1)], last_node_plan_population := 2\<rparr>"

lemma run_targets:
  "fold (target_thread run_hardware 1 run_confirmed []) (demand_order run_confirmed) ([], [], []) =
   ([(0, 1 / 2), (2, 1 / 4)], [(0, 1), (2, 1)], [(10, 0), (11, 2)])"
  by code_simp

lemma run_node_planning: "snd (node_planning run_hardware run_options 1 q run_planning) = run_planned"
proof -
  have fields: "previous_initial_target_node run_planning = []" "identities run_planning = [(10, Identity 1 10 5), (11, Identity 1 11 5)]"
    "length (is_threads run_planning) = 2" "is_edges run_confirmed = []" "initial_proposal_confirmations run_options = 1"
    by code_simp+
  have s2: "run_planning\<lparr>initial_confirmation := 1, previous_initial_target_node := [(10, 0), (11, 1)],
      initial_candidate_identities := identities run_planning, initial_target_node := [(10, 0), (11, 1)],
      last_node_plan_population := length (is_threads run_planning)\<rparr> = run_confirmed"
    by (simp add: run_confirmed_def fields)
  have "run_confirmed\<lparr>initial_target_cpu := [(10, 0), (11, 2)], phase := InitialPinning\<rparr> = run_planned"
    by (simp add: run_confirmed_def run_planned_def)
  then show ?thesis
    unfolding node_planning_def run_plan_nodes sum.case confirm_nodes_def
    using run_targets s2 by (simp add: fields run_edges Let_def)
qed

lemma run_first: "\<exists>r. inc_propose run_hardware run_threads [] run_options 5 None (new_incremental_solver False) = (r, run_planned)"
proof -
  have f: "is_outstanding (new_incremental_solver False) = None" "is_next_proposal_id run_admitted = 1"
    "is_threads run_admitted \<noteq> []" "phase run_admitted = Uninitialized" "phase run_planning = NodePlanning"
    by code_simp+
  have "run_admitted\<lparr>is_next_proposal_id := 2, phase := NodePlanning\<rparr> = run_planning" by (simp add: run_planning_def)
  then have "snd (inc_propose run_hardware run_threads [] run_options 5 None (new_incremental_solver False)) = run_planned"
    using run_node_planning
    by (simp add: inc_propose_def run_cap run_online run_intake run_hotspots f Let_def)
  then show ?thesis by (metis prod.collapse)
qed

section \<open>Second window: the pins\<close>

definition run_pin :: "int \<Rightarrow> int \<Rightarrow> placement_action" where
  "run_pin t c = \<lparr>pa_identity = Identity 1 t 5, from_cpu = c, target_cpu = c, initial_pin = True, pa_emergency = False,
     capacity_regret = 0, relation_regret = 0, load_regret = 0\<rparr>"

definition run_pins :: solver_proposal where
  "run_pins = (new_proposal run_options 0 1 0 0 False run_planned)
     \<lparr>sp_phase := InitialPinning, initial_plan_confirmed := True, sp_actions := [run_pin 10 0, run_pin 11 2],
      sp_delta := \<lparr>tid_to_cpu = [(10, 0), (11, 2)], tid_to_mask = []\<rparr>, sp_ready := True, sp_confirmation := 1\<rparr>"

lemma run_second_intake:
  "intake run_hardware run_threads [] run_options 1 run_planned = (0, run_planned)"
  "take_hotspots [] run_options run_planned = (0, False, run_planned)"
  by code_simp+

lemma run_pinning:
  "initial_pinning run_hardware 1 (new_proposal run_options 0 1 0 0 False run_planned)
     (run_planned\<lparr>is_next_proposal_id := 3\<rparr>) =
   (Inr run_pins, run_planned\<lparr>is_next_proposal_id := 3, is_outstanding := Some run_pins\<rparr>)"
  by code_simp

lemma run_second:
  "inc_propose run_hardware run_threads [] run_options 6 None run_planned =
   (Inr run_pins, run_planned\<lparr>is_next_proposal_id := 3, is_outstanding := Some run_pins\<rparr>)"
proof -
  have f: "is_outstanding run_planned = None" "is_next_proposal_id run_planned = 2"
    "is_threads run_planned \<noteq> []" "phase run_planned = InitialPinning" 
    by code_simp+
  show ?thesis by (simp add: inc_propose_def run_cap run_online run_second_intake run_pinning f Let_def)
qed

definition run_pinned :: incremental_solver where
  "run_pinned = run_planned\<lparr>is_next_proposal_id := 3, is_placement := [(10, 0), (11, 2)], pinned := [10, 11],
     phase := Optimizing, is_generation := 1\<rparr>"

lemma run_commit: "inc_commit run_pins 7 [] (run_planned\<lparr>is_next_proposal_id := 3, is_outstanding := Some run_pins\<rparr>) = run_pinned"
  by code_simp

section \<open>Third window: a move\<close>

definition run_edge :: relation_edge where
  "run_edge = sample_edge 10 11 2"

definition run_related :: incremental_solver where
  "run_related = run_pinned\<lparr>is_edges := [((10, 11), run_edge)], previous_hotspot_keys := [(10, 11)]\<rparr>"

lemma run_third_intake:
  "intake run_hardware run_threads [run_edge] run_options 1 run_pinned = (0, run_pinned)"
  "take_hotspots [run_edge] run_options run_pinned = (0, False, run_related)"
  by code_simp+

definition run_loads :: inc_loads where
  "run_loads = \<lparr>ld_cpu = [(0, 1 / 2), (2, 1 / 4)], ld_node = [(0, 1 / 2), (1, 1 / 4)], ld_count = [(0, 1), (2, 1)]\<rparr>"

definition run_adjacency :: "(int, relation_edge list) omap" where
  "run_adjacency = [(10, [run_edge]), (11, [run_edge])]"

definition run_before :: incremental_solver where
  "run_before = run_related\<lparr>is_next_proposal_id := 4\<rparr>"

definition run_scanned :: incremental_solver where
  "run_scanned = run_before\<lparr>previous_demand := [(10, 1 / 2), (11, 1 / 4)], previous_edge_score := [((10, 11), 2)]\<rparr>"

definition run_wish :: "int \<Rightarrow> double \<Rightarrow> dissatisfaction" where
  "run_wish t g = \<lparr>ds_tid = t, ds_invalid = False, ds_slots = 0, ds_capacity = 0, ds_node_balance = 0, ds_relation = 20, ds_load = g\<rparr>"

definition run_move :: placement_action where
  "run_move = \<lparr>pa_identity = Identity 1 11 5, from_cpu = 2, target_cpu = 1, initial_pin = False, pa_emergency = False,
     capacity_regret = 0, relation_regret = 20, load_regret = 0\<rparr>"

definition run_potential :: potential where
  "run_potential = \<lparr>po_actions = [run_move], po_key = ''1:11:5:2>1;'', po_emergency = False, po_gain = 20\<rparr>"

lemma run_optimize_parts:
  "current_loads run_hardware run_before = run_loads"
  "adjacency (map snd (is_edges run_before)) = run_adjacency"
  "dirty_set run_hardware run_options 1 None run_loads run_before = [10, 11]"
  "advance_scan run_options run_before = run_scanned"
  by code_simp+

lemma run_rank:
  "rank_dissatisfied run_hardware run_options 1 2 run_loads run_adjacency run_scanned [10, 11] =
   [run_wish 10 (1 / 4), run_wish 11 0]"
  by code_simp

lemma run_potentials:
  "move_potential run_hardware run_options 1 20 run_loads run_adjacency run_scanned (run_wish 10 (1 / 4)) ([], []) = ([], [])"
  "move_potential run_hardware run_options 1 20 run_loads run_adjacency run_scanned (run_wish 11 0) ([], []) = ([run_potential], [])"
  "swap_potential run_hardware run_options 20 run_loads run_adjacency run_scanned (run_wish 10 (1 / 4), run_wish 11 0)
     ([run_potential], []) = ([run_potential], [])"
  by code_simp+

lemma run_find:
  "find_potentials run_hardware run_options 1 20 run_loads run_adjacency run_scanned [run_wish 10 (1 / 4), run_wish 11 0] =
   ([run_potential], [])"
  by (simp add: find_potentials_def run_potentials)

lemma run_select:
  "select_potential run_hardware run_options 1 2 (run_scanned\<lparr>action_confirmations := [(''1:11:5:2>1;'', 1)]\<rparr>) run_potential
     \<lparr>se_actions = [], se_selected = [], se_loads = run_loads\<rparr> =
   \<lparr>se_actions = [run_move], se_selected = [11],
    se_loads = \<lparr>ld_cpu = [(0, 1 / 2), (1, 1 / 4), (2, 0)], ld_node = [(0, 3 / 4), (1, 0)], ld_count = [(0, 1), (1, 1), (2, 0)]\<rparr>\<rparr>"
  by code_simp

lemma run_optimize:
  assumes "sp_migration_budget q = 2"
  shows "\<exists>q' s'. optimize run_hardware run_options 1 20 None q run_before = (q', s') \<and> sp_phase q' = Optimizing \<and>
    sp_actions q' = [run_move]"
proof -
  have f: "phase run_before = Optimizing" "po_key run_potential = ''1:11:5:2>1;''" "action_confirmations run_scanned = []"
    by code_simp+
  show ?thesis
    unfolding optimize_def Let_def assms run_optimize_parts f(1)
    by (simp add: run_rank run_find run_select f mgetd_def)
qed

lemma run_third:
  "\<exists>q s'. inc_propose run_hardware run_threads [run_edge] run_options 20 None run_pinned = (Inr q, s') \<and>
    sp_phase q = Optimizing \<and> sp_actions q = [run_move]"
proof -
  have f: "is_outstanding run_pinned = None" "is_next_proposal_id run_related = 3"
    "is_threads run_related \<noteq> []" "phase run_related = Optimizing" "phase run_before = Optimizing"
    "sp_migration_budget (new_proposal run_options 1 1 0 0 False run_related) = 2"
    by code_simp+
  have b: "run_related\<lparr>is_next_proposal_id := 4\<rparr> = run_before" by (simp add: run_before_def)
  obtain q s' where "optimize run_hardware run_options 1 20 None (new_proposal run_options 1 1 0 0 False run_related) run_before = (q, s')"
    "sp_phase q = Optimizing" "sp_actions q = [run_move]"
    using run_optimize [OF f(6)] by blast
  then have "inc_propose run_hardware run_threads [run_edge] run_options 20 None run_pinned = (Inr q, s')"
    by (simp add: inc_propose_def run_cap run_online run_third_intake f b Let_def)
  then show ?thesis using \<open>sp_phase q = Optimizing\<close> \<open>sp_actions q = [run_move]\<close> by blast
qed

section \<open>Reachability\<close>

lemma run_reach: "solver_reach False run_planned" "solver_reach False run_pinned"
proof -
  show planned: "solver_reach False run_planned" using run_first solver_reach.intros(1,2) by blast
  then show "solver_reach False run_pinned"
    using solver_reach.committed [OF solver_reach.proposed [OF _ run_second], of False run_pins 7 "[]"] run_commit by simp
qed

lemma run_idle: "is_outstanding run_planned = None" "is_outstanding run_pinned = None" "sp_ready run_pins"
  "sp_phase run_pins = InitialPinning" "sp_cpu_slot_cap run_pins = 1"
  by code_simp+

end
