(* ===== verification/Incremental_Properties.thy ===== *)
theory Incremental_Properties
  imports Incremental_Moves Incremental_Run
begin

text \<open>
  The properties of \<^verbatim>\<open>IncrementalSolver\<close> over every state its operations can reach.
\<close>

section \<open>Proposals of a phase\<close>

lemma planning_proposal:
  "node_planning hw opts cap q s = (Inr q', s') \<Longrightarrow>
   hotspot_replan_triggered q' = hotspot_replan_triggered q \<and> sp_cpu_slot_cap q' = sp_cpu_slot_cap q \<and>
   sp_ready q' = sp_ready q \<and> sp_actions q' = sp_actions q"
  by (auto simp: node_planning_def Let_def split: sum.splits prod.splits if_splits)

lemma pinning_proposal:
  "initial_pinning hw cap q s = (Inr q', s') \<Longrightarrow>
   hotspot_replan_triggered q' = hotspot_replan_triggered q \<and> sp_cpu_slot_cap q' = sp_cpu_slot_cap q \<and>
   sp_phase q' = phase s"
  by (auto simp: initial_pinning_def Let_def split: prod.splits option.splits if_splits)

lemma optimize_proposal:
  "optimize hw opts cap now delta q s = (q', s') \<Longrightarrow>
   hotspot_replan_triggered q' = hotspot_replan_triggered q \<and> sp_cpu_slot_cap q' = sp_cpu_slot_cap q \<and>
   sp_phase q' = phase s"
  by (auto simp: optimize_def Let_def split: prod.splits if_splits)

lemma planning_phase: "node_planning hw opts cap q s = (Inr q', s') \<Longrightarrow> phase s = NodePlanning \<Longrightarrow> sp_phase q' \<noteq> Optimizing"
  by (auto simp: node_planning_def confirm_nodes_def Let_def split: sum.splits prod.splits if_splits)

lemma new_proposal_fields [simp]:
  "sp_ready (new_proposal opts n cap p sim tr s) = False" "sp_actions (new_proposal opts n cap p sim tr s) = []"
  "hotspot_replan_triggered (new_proposal opts n cap p sim tr s) = tr" "sp_cpu_slot_cap (new_proposal opts n cap p sim tr s) = cap"
  by (simp_all add: new_proposal_def)

text \<open>A fresh proposal that was made without an error, and the state its phase started from.\<close>

definition fresh ::
  "hardware_graph \<Rightarrow> incremental_options \<Rightarrow> int \<Rightarrow> uint64 \<Rightarrow> graph_delta option \<Rightarrow> solver_proposal \<Rightarrow> incremental_solver \<Rightarrow>
   solver_proposal \<Rightarrow> incremental_solver \<Rightarrow> bool" where
  "fresh hw opts cap now delta q0 s q s' \<longleftrightarrow>
     solver_ok s \<and> phase_step hw opts cap now delta q0 s (Inr q) s' \<and> \<not> sp_ready q0 \<and> sp_actions q0 = [] \<and>
     \<not> hotspot_replan_triggered q0 \<and> sp_cpu_slot_cap q0 = cap"

lemma fresh_proposal:
  assumes "solver_ok s0" "is_outstanding s0 = None" "inc_propose hw threads es opts now delta s0 = (Inr q, s')"
  shows "\<exists>cap q0 s. fresh hw opts cap now delta q0 s q s'"
proof -
  have on: "online_cpus hw \<noteq> 0"
  proof
    assume "online_cpus hw = 0"
    then show False using assms(2,3) by (simp add: inc_propose_def)
  qed
  show ?thesis
  proof (rule propose_run [OF assms(2) on assms(3)])
    fix predicted s1 sim triggered s2
    assume i: "intake hw threads es opts (cpu_slot_cap hw (length threads) opts) s0 = (predicted, s1)"
      and h: "take_hotspots es opts s1 = (sim, triggered, s2)"
      and p: "phase_step hw opts (cpu_slot_cap hw (length threads) opts) now delta
        (new_proposal opts (length es) (cpu_slot_cap hw (length threads) opts) predicted sim triggered s2) s2 (Inr q) s'"
    have "solver_ok s2" "\<not> triggered" using solver_ok_hotspots [OF solver_ok_intake [OF assms(1) i] h] by auto
    then show ?thesis using p unfolding fresh_def by (intro exI conjI) (assumption | simp)+
  qed
qed

lemma fresh_pinning:
  assumes "fresh hw opts cap now delta q0 s q s'" "sp_ready q" "sp_phase q = InitialPinning"
  shows "solver_ok (begin_phase s) \<and> initial_pinning hw cap q0 (begin_phase s) = (Inr q, s') \<and> sp_cpu_slot_cap q = cap"
  using assms solver_ok_same [OF _ begin_phase_core(1) [of s]]
  by (auto simp: fresh_def phase_step_def dest: planning_proposal pinning_proposal optimize_proposal)

lemma fresh_optimizing:
  assumes "fresh hw opts cap now delta q0 s q s'" "sp_phase q = Optimizing"
  shows "solver_ok (begin_phase s) \<and> optimize hw opts cap now delta q0 (begin_phase s) = (q, s') \<and> sp_actions q0 = []"
  using assms solver_ok_same [OF _ begin_phase_core(1) [of s]]
  by (auto simp: fresh_def phase_step_def dest: planning_phase pinning_proposal)

section \<open>Moves within a node\<close>

lemma sum_list_same: "(\<And>x. x \<in> set xs \<Longrightarrow> f x = g x) \<Longrightarrow> sum_list (map f xs) = sum_list (map g xs)"
  by (metis map_eq_conv)

lemma same_node_shift:
  assumes "online_node hw (from_cpu a) = online_node hw (target_cpu a)" "from_cpu a \<noteq> target_cpu a"
    and "d = thread_demand_at s (tid (pa_identity a))" "0 \<le> d"
    and "mgetd 0 (ld_cpu l) (from_cpu a) \<le> 1" "mgetd 0 (ld_cpu l) (target_cpu a) + d \<le> 1"
    and "mgetd 0 (ld_count l) (from_cpu a) \<le> cap" "mgetd 0 (ld_count l) (target_cpu a) < cap"
  shows "ld_node (shift_load hw s a l) = ld_node l"
    "slot_violation hw cap (shift_load hw s a l) = slot_violation hw cap l"
    "total_overload hw (shift_load hw s a l) = total_overload hw l"
proof -
  show node: "ld_node (shift_load hw s a l) = ld_node l" using assms(1) by (simp add: shift_load_def Let_def)
  show "slot_violation hw cap (shift_load hw s a l) = slot_violation hw cap l"
    unfolding slot_violation_def using assms(2,7,8)
    by (intro sum_list_same) (auto simp: shift_load_def Let_def madd_def mgetd_def)
  have "max 0 (mgetd 0 (ld_cpu (shift_load hw s a l)) c - 1) = max 0 (mgetd 0 (ld_cpu l) c - 1)" for c
    using assms(2-6) by (auto simp: shift_load_def Let_def madd_def mgetd_def)
  then show "total_overload hw (shift_load hw s a l) = total_overload hw l"
    unfolding total_overload_def node by simp
qed

section \<open>Properties\<close>

text \<open>
  C27. When a batch of initial pins is committed in full, no CPU ends up with more threads than
  the slot cap of the proposal, unless it already had them before: the cap holds after every
  batch and not only when the whole plan is in place.
\<close>

theorem pinning_respects_slots:
  assumes "solver_reach sh s0" "is_outstanding s0 = None"
    and "inc_propose hw threads es opts now delta s0 = (Inr q, s1)" "sp_ready q" "sp_phase q = InitialPinning"
  shows "int (card {t \<in> dom (map_of (is_threads s1)). map_of (is_placement (inc_commit q later [] s1)) t = Some c}) \<le>
    max (sp_cpu_slot_cap q) (int (card {t \<in> dom (map_of (is_threads s1)). map_of (is_placement s1) t = Some c}))"
proof -
  obtain cap q0 s where f: "fresh hw opts cap now delta q0 s q s1"
    using fresh_proposal [OF solver_reach_ok [OF assms(1)] assms(2,3)] by blast
  have "\<not> sp_ready q0" using f by (simp add: fresh_def)
  then show ?thesis
    using pinning_slots(2) [of "begin_phase s" hw cap q0 q s1 later c] fresh_pinning [OF f assms(4,5)] assms(4)
    by (simp add: threads_on_def)
qed

theorem pinning_respects_slots_witness:
  "\<exists>q s1. inc_propose run_hardware run_threads [] run_options 6 None run_planned = (Inr q, s1) \<and>
    int (card {t \<in> dom (map_of (is_threads s1)). map_of (is_placement (inc_commit q 7 [] s1)) t = Some 2}) \<le>
    max 1 (int (card {t \<in> dom (map_of (is_threads s1)). map_of (is_placement s1) t = Some 2}))"
  using run_second pinning_respects_slots [OF run_reach(1) run_idle(1) run_second run_idle(3,4), of 7 2, unfolded run_idle(5)]
  by blast

text \<open>
  C28. A proposal of the optimisation phase moves at most the budgeted number of threads, each
  at most once and away from the CPU it is placed on, and a thread that moved less than the
  dwell time ago only in an emergency.
\<close>

theorem moves_respect_budget:
  assumes "solver_reach sh s0" "is_outstanding s0 = None"
    and "inc_propose hw threads es opts now delta s0 = (Inr q, s1)" "sp_phase q = Optimizing"
  shows "length (sp_actions q) \<le> sp_migration_budget q \<and> distinct (map (\<lambda>a. tid (pa_identity a)) (sp_actions q)) \<and>
    (\<forall>a \<in> set (sp_actions q).
       map_of (is_placement s1) (tid (pa_identity a)) = Some (from_cpu a) \<and> target_cpu a \<noteq> from_cpu a \<and>
       (pa_emergency a \<or> \<not> cooling opts now s1 (tid (pa_identity a))))"
proof -
  obtain cap q0 s where f: "fresh hw opts cap now delta q0 s q s1"
    using fresh_proposal [OF solver_reach_ok [OF assms(1)] assms(2,3)] by blast
  note o = fresh_optimizing [OF f assms(4)]
  show ?thesis
    using optimize_moves [of "begin_phase s" hw opts cap now delta q0 q s1] o by (auto simp: action_ok_def)
qed

theorem moves_respect_budget_witness:
  "\<exists>q s1. inc_propose run_hardware run_threads [run_edge] run_options 20 None run_pinned = (Inr q, s1) \<and>
    sp_actions q = [run_move] \<and> 1 \<le> sp_migration_budget q \<and> map_of (is_placement s1) 11 = Some 2 \<and>
    \<not> cooling run_options 20 s1 11"
proof -
  obtain q s1 where run: "inc_propose run_hardware run_threads [run_edge] run_options 20 None run_pinned = (Inr q, s1)"
    "sp_phase q = Optimizing" "sp_actions q = [run_move]" using run_third by blast
  show ?thesis
    using moves_respect_budget [OF run_reach(2) run_idle(2) run(1,2)] run(1,3)
    by (intro exI [of _ q] exI [of _ s1]) (simp add: run_move_def)
qed

text \<open>
  No proposal ever reports a replan triggered by stable hotspots: the flag that arms the
  trigger is cleared in several places and set in none.
\<close>

theorem hotspot_replan_never_triggered:
  assumes "solver_reach sh s0" "is_outstanding s0 = None" "inc_propose hw threads es opts now delta s0 = (Inr q, s1)"
  shows "\<not> hotspot_replan_triggered q \<and> \<not> stable_hotspot_replan_pending s1"
proof -
  obtain cap q0 s where f: "fresh hw opts cap now delta q0 s q s1"
    using fresh_proposal [OF solver_reach_ok [OF assms(1)] assms(2,3)] by blast
  then have "hotspot_replan_triggered q = hotspot_replan_triggered q0"
    by (auto simp: fresh_def phase_step_def dest: planning_proposal pinning_proposal optimize_proposal)
  moreover have "solver_ok s1" using solver_ok_propose [OF solver_reach_ok [OF assms(1)] assms(3)] .
  ultimately show ?thesis using f by (simp add: fresh_def solver_ok_def)
qed

theorem hotspot_replan_never_triggered_witness:
  "\<exists>q s1. inc_propose run_hardware run_threads [] run_options 6 None run_planned = (Inr q, s1) \<and>
    \<not> hotspot_replan_triggered q \<and> \<not> stable_hotspot_replan_pending s1"
  using hotspot_replan_never_triggered [OF run_reach(1) run_idle(1) run_second] run_second by blast

text \<open>
  On an overloaded node a move of a thread to a CPU of the same node that fits counts as an
  emergency, since the node's overload is in the cost before the move and not in the cost
  after it. The selection then refuses it, as the final check finds that nothing improved,
  although the same move would pass that check as an ordinary one.
\<close>

theorem same_node_move_refused:
  assumes "source = mgetd 0 (is_placement s) t" "cpu_id info \<noteq> source" "d = thread_demand_at s t" "0 \<le> d"
    and "online_node hw source = cpu_node info" "online_node hw (cpu_id info) = cpu_node info" "0 \<le> cpu_node info"
    and "real_of_int (mgetd 0 (node_cpu_count hw) (cpu_node info)) + 1 / 10 ^ 12 < mgetd 0 (ld_node l) (cpu_node info)"
    and "mgetd 0 (ld_cpu l) source \<le> 1" "mgetd 0 (ld_cpu l) (cpu_id info) + d \<le> 1"
    and "mgetd 0 (ld_count l) source \<le> cap" "mgetd 0 (ld_count l) (cpu_id info) < cap"
    and "from_cpu a = source" "target_cpu a = cpu_id info" "tid (pa_identity a) = t"
    and "po_actions p = [a]" "po_emergency p" "se_loads st = l"
  shows "mv_emergency (move_effect hw opts cap l s es t info) \<and>
    select_potential hw opts cap budget s p st = st \<and> acceptable hw opts cap False l (shift_load hw s a l)"
proof -
  have same: "ld_node (shift_load hw s a l) = ld_node l" "slot_violation hw cap (shift_load hw s a l) = slot_violation hw cap l"
    "total_overload hw (shift_load hw s a l) = total_overload hw l"
    using same_node_shift [of hw a d s l cap] assms(1-15) by simp_all
  have "mv_emergency (move_effect hw opts cap l s es t info)"
    using assms(1-10) by (simp add: move_effect_def Let_def)
  moreover have "\<not> acceptable hw opts cap True l (shift_load hw s a l)" by (simp add: acceptable_def same Let_def)
  then have "select_potential hw opts cap budget s p st = st"
    using assms(16-18) by (simp add: select_potential_def)
  ultimately show ?thesis by (simp add: acceptable_def same Let_def)
qed

definition crowded_hardware :: hardware_graph where
  "crowded_hardware =
     \<lparr>cpus = [\<lparr>cpu_id = 0, cpu_node = 0, online = True\<rparr>, \<lparr>cpu_id = 1, cpu_node = 0, online = True\<rparr>,
              \<lparr>cpu_id = 2, cpu_node = 0, online = True\<rparr>],
      cpu_latency = [], node_distance = [], node_calibrations = []\<rparr>"

definition crowded_loads :: inc_loads where
  "crowded_loads = \<lparr>ld_cpu = [(0, 1 / 2), (2, 3)], ld_node = [(0, 7 / 2)], ld_count = [(0, 1), (2, 3)]\<rparr>"

definition crowded_solver :: incremental_solver where
  "crowded_solver = (new_incremental_solver False)
     \<lparr>is_threads := [(10, sample_thread_on 10 (1 / 2) 0)], identities := [(10, Identity 1 10 5)], is_placement := [(10, 0)]\<rparr>"

theorem same_node_move_refused_witness:
  "\<exists>p. po_emergency p \<and> mv_emergency (move_effect crowded_hardware run_options 3 crowded_loads crowded_solver [] 10
       \<lparr>cpu_id = 1, cpu_node = 0, online = True\<rparr>) \<and>
     select_potential crowded_hardware run_options 3 4 crowded_solver p
       \<lparr>se_actions = [], se_selected = [], se_loads = crowded_loads\<rparr> =
     \<lparr>se_actions = [], se_selected = [], se_loads = crowded_loads\<rparr>"
proof -
  let ?a = "run_move\<lparr>pa_identity := Identity 1 10 5, from_cpu := 0, target_cpu := 1, pa_emergency := True\<rparr>"
  let ?p = "\<lparr>po_actions = [?a], po_key = [], po_emergency = True, po_gain = 0\<rparr>"
  let ?i = "\<lparr>cpu_id = 1, cpu_node = 0, online = True\<rparr>"
  have c: "mgetd 0 (is_placement crowded_solver) 10 = 0" "thread_demand_at crowded_solver 10 = 1 / 2"
    "online_node crowded_hardware 0 = 0" "online_node crowded_hardware 1 = 0" "mgetd 0 (node_cpu_count crowded_hardware) 0 = 3"
    by code_simp+
  have l: "mgetd 0 (ld_node crowded_loads) 0 = 7 / 2" "mgetd 0 (ld_cpu crowded_loads) 0 = 1 / 2"
    "mgetd 0 (ld_cpu crowded_loads) 1 = 0" "mgetd 0 (ld_count crowded_loads) 0 = 1" "mgetd 0 (ld_count crowded_loads) 1 = 0"
    by code_simp+
  have "mv_emergency (move_effect crowded_hardware run_options 3 crowded_loads crowded_solver [] 10 ?i) \<and>
      select_potential crowded_hardware run_options 3 4 crowded_solver ?p
        \<lparr>se_actions = [], se_selected = [], se_loads = crowded_loads\<rparr> =
      \<lparr>se_actions = [], se_selected = [], se_loads = crowded_loads\<rparr>"
    using same_node_move_refused [of 0 crowded_solver 10 ?i "1 / 2" crowded_hardware crowded_loads 3 ?a ?p
        "\<lparr>se_actions = [], se_selected = [], se_loads = crowded_loads\<rparr>" run_options "[]" 4]
    by (simp add: c l)
  then show ?thesis by (intro exI [of _ ?p]) simp
qed

end
