(* ===== verification/Incremental_Node_Plan.thy ===== *)
theory Incremental_Node_Plan
  imports Incremental_Run Incremental_Moves
begin

text \<open>
  The node plan of \<^verbatim>\<open>IncrementalSolver\<close>: the ordering loop visits every thread once within its
  counter, every thread gets a node of the machine, and a plan that is returned gives every
  node its floor of threads.
\<close>

section \<open>Order of the threads\<close>

definition loop_free :: "incremental_solver \<Rightarrow> bool" where
  "loop_free s \<longleftrightarrow> (\<forall>e \<in> snd ` set (is_edges s). from_tid e \<noteq> to_tid e)"

definition frontier_ok :: "int oset \<Rightarrow> frontier \<Rightarrow> bool" where
  "frontier_ok rem st \<longleftrightarrow>
     (\<forall>p. fst st = Some p \<longrightarrow> from_tid p \<in> set rem \<and> to_tid p \<in> set rem \<and> from_tid p \<noteq> to_tid p) \<and>
     (\<forall>b t. snd st = Some (b, t) \<longrightarrow> t \<in> set rem)"

lemma frontier_ok_scan: "frontier_ok rem st \<Longrightarrow> from_tid e \<noteq> to_tid e \<Longrightarrow> frontier_ok rem (scan_edge rem e st)"
  by (cases st) (simp add: frontier_ok_def scan_edge_def Let_def)

lemma frontier_ok_scans:
  assumes "loop_free s"
  shows "frontier_ok rem (fold (scan_edge rem) (map snd (is_edges s)) (None, None))"
proof (rule fold_inv)
  show "frontier_ok rem (None, None)" by (simp add: frontier_ok_def)
next
  fix e and st :: frontier assume "e \<in> set (map snd (is_edges s))" and st: "frontier_ok rem st"
  then have "from_tid e \<noteq> to_tid e" using assms by (auto simp: loop_free_def)
  then show "frontier_ok rem (scan_edge rem e st)" by (rule frontier_ok_scan [OF st])
qed

lemma next_threads_ok:
  assumes "loop_free s" "rem \<noteq> []" "next_threads s rem = (ts, seed)"
  shows "ts \<noteq> [] \<and> distinct ts \<and> set ts \<subseteq> set rem"
proof -
  obtain bp bf where scan: "fold (scan_edge rem) (map snd (is_edges s)) (None, None) = (bp, bf)" by fastforce
  then have ok: "frontier_ok rem (bp, bf)" using frontier_ok_scans [OF assms(1), of rem] by simp
  have "min_element (\<lambda>t. (- thread_demand_at s t, identity_of s t)) rem \<in> set rem"
    by (rule min_element_best(1) [OF assms(2)])
  then show ?thesis
    using assms(3) ok
    by (auto simp: next_threads_def scan frontier_ok_def Let_def split: option.splits if_splits prod.splits)
qed

lemma order_loop_covers:
  assumes "loop_free s"
  shows "swf rem \<Longrightarrow> length rem \<le> n \<Longrightarrow> distinct ordered \<Longrightarrow> set ordered \<inter> set rem = {} \<Longrightarrow>
    order_loop n s rem ordered seeds = (out, sd) \<Longrightarrow> distinct out \<and> set out = set ordered \<union> set rem"
proof (induction n arbitrary: rem ordered seeds)
  case (Suc n)
  show ?case
  proof (cases "rem = []")
    case False
    obtain ts seed where nt: "next_threads s rem = (ts, seed)" by fastforce
    then have ts: "ts \<noteq> []" "distinct ts" "set ts \<subseteq> set rem" using next_threads_ok [OF assms False] by auto
    define rem1 where "rem1 = fold sdel ts rem"
    have gone: "set (fold sdel xs r) = set r - set xs \<and> (swf r \<longrightarrow> swf (fold sdel xs r))" for xs and r :: "int oset"
      by (induction xs arbitrary: r) auto
    have rem1: "set rem1 = set rem - set ts" "swf rem1" using gone Suc.prems(1) by (auto simp: rem1_def)
    have "card (set rem1) < card (set rem)"
      using rem1(1) ts(1,3) by (intro psubset_card_mono) (auto simp: neq_Nil_conv)
    then have "length rem1 \<le> n"
      using Suc.prems(1,2) rem1(2) by (simp add: swf_distinct distinct_card)
    moreover have "distinct (ordered @ ts)" "set (ordered @ ts) \<inter> set rem1 = {}"
      using Suc.prems(3,4) ts rem1(1) by auto
    moreover have "order_loop n s rem1 (ordered @ ts) (if seed then sput (hd ts) seeds else seeds) = (out, sd)"
      using Suc.prems(5) False by (simp add: nt rem1_def)
    ultimately have "distinct out \<and> set out = set (ordered @ ts) \<union> set rem1"
      using Suc.IH [OF rem1(2)] by blast
    then show ?thesis using rem1(1) ts(3) by auto
  qed (use Suc.prems in auto)
qed auto

lemma order_cohort_covers:
  assumes "loop_free s" "mwf (is_threads s)" "order_cohort s = (ordered, seeds)"
  shows "distinct ordered \<and> set ordered = dom (map_of (is_threads s))"
proof -
  have "length (sfrom (mkeys (is_threads s))) = card (set (mkeys (is_threads s)))"
    by (metis set_sfrom swf_sfrom swf_distinct distinct_card)
  also have "\<dots> \<le> length (is_threads s)" using card_length [of "mkeys (is_threads s)"] by (simp add: mkeys_def)
  finally show ?thesis
    using order_loop_covers [OF assms(1) swf_sfrom, of "mkeys (is_threads s)" "length (is_threads s)" "[]" "[]"] assms(3)
    by (simp add: order_cohort_def)
qed

section \<open>Counting the threads of a node\<close>

definition hits :: "('k \<rightharpoonup> 'n) \<Rightarrow> 'n \<Rightarrow> int" where
  "hits m n = int (card {t. m t = Some n})"

lemma hits_new:
  assumes "finite (dom m)" "m t = None"
  shows "hits (m(t \<mapsto> a)) n = hits m n + (if n = a then 1 else 0)"
proof -
  have "finite {u. m u = Some n}" by (rule finite_subset [OF _ assms(1)]) auto
  moreover have "{u. (m(t \<mapsto> a)) u = Some n} = (if n = a then insert t {u. m u = Some n} else {u. m u = Some n})"
    using assms(2) by auto
  ultimately show ?thesis unfolding hits_def using assms(2) by (simp only:) (auto simp: card_insert_if)
qed

lemma hits_move:
  assumes "finite (dom m)" "m t = Some b"
  shows "hits (m(t \<mapsto> a)) n = hits m n + (if n = a then 1 else 0) - (if n = b then 1 else 0)"
proof -
  have "hits ((m(t := None))(t \<mapsto> b)) n = hits (m(t := None)) n + (if n = b then 1 else 0)"
    "hits ((m(t := None))(t \<mapsto> a)) n = hits (m(t := None)) n + (if n = a then 1 else 0)"
    by (rule hits_new; use assms(1) in simp)+
  moreover have "(m(t := None))(t \<mapsto> b) = m" using assms(2) by auto
  ultimately show ?thesis by simp
qed

lemma hits_swap:
  assumes "finite (dom m)" "m a = Some x" "m b = Some y" "x \<noteq> y"
  shows "hits (m(a \<mapsto> y, b \<mapsto> x)) n = hits m n"
proof -
  have "a \<noteq> b" using assms(2-4) by auto
  then show ?thesis
    using hits_move [of "m(a \<mapsto> y)" b y x n] hits_move [of m a x y n] assms by simp
qed

section \<open>Invariants of a plan\<close>

definition spread_ok :: "hardware_graph \<Rightarrow> int set \<Rightarrow> inc_node_plan \<Rightarrow> bool" where
  "spread_ok hw T p \<longleftrightarrow>
     mwf (np_assigned p) \<and> dom (map_of (np_assigned p)) = T \<and> ran (map_of (np_assigned p)) \<subseteq> set (nodes hw) \<and>
     (\<forall>n. mgetd 0 (np_threads p) n = hits (map_of (np_assigned p)) n)"

lemma node_cpu_count_keys: "set (mkeys (node_cpu_count hw)) = set (nodes hw)"
proof -
  have "dom (map_of (fold (\<lambda>n m. mput n (f n) m) ns m)) = set ns \<union> dom (map_of m)" for f :: "int \<Rightarrow> int" and ns m
    by (induction ns arbitrary: m) auto
  then show ?thesis by (simp add: node_cpu_count_def)
qed

lemma spread_ok_assign:
  assumes "spread_ok hw T p" "nodes hw \<noteq> []" "t \<notin> T"
  shows "spread_ok hw (insert t T) (assign_thread hw opts cap s adj seeds t p)"
proof -
  define b where "b = scan_min (assign_cost hw opts cap s (mgetd [] adj t) (t \<in> set seeds) p t)
            (mkeys (node_cpu_count hw)) (hd (nodes hw))"
  have "b \<in> insert (hd (nodes hw)) (set (mkeys (node_cpu_count hw)))" unfolding b_def by (rule scan_min_best(1))
  then have b: "b \<in> set (nodes hw)" using assms(2) hd_in_set node_cpu_count_keys by blast
  have f: "finite (dom (map_of (np_assigned p)))" "map_of (np_assigned p) t = None"
    using assms(1,3) by (auto simp: finite_dom_map_of spread_ok_def domIff)
  show ?thesis
    using assms(1) b hits_new [OF f, of b] f(2)
    unfolding assign_thread_def b_def [symmetric] Let_def by (auto simp: spread_ok_def)
qed

lemma spread_ok_assigns:
  assumes "nodes hw \<noteq> []"
  shows "spread_ok hw T p \<Longrightarrow> distinct ts \<Longrightarrow> set ts \<inter> T = {} \<Longrightarrow>
    spread_ok hw (T \<union> set ts) (fold (assign_thread hw opts cap s adj seeds) ts p)"
proof (induction ts arbitrary: T p)
  case (Cons t ts)
  have "spread_ok hw (insert t T) (assign_thread hw opts cap s adj seeds t p)"
    using spread_ok_assign [OF Cons.prems(1) assms] Cons.prems(3) by simp
  then have "spread_ok hw (insert t T \<union> set ts) (fold (assign_thread hw opts cap s adj seeds) ts
      (assign_thread hw opts cap s adj seeds t p))"
    using Cons.prems(2,3) by (intro Cons.IH) auto
  then show ?case by simp
qed simp

lemma spread_ok_move:
  assumes "spread_ok hw T p" "map_of (np_assigned p) t = Some a" "b \<in> set (nodes hw)" "a \<noteq> b"
  shows "spread_ok hw T \<lparr>np_assigned = mput t b (np_assigned p), np_load = l, np_threads = madd b 1 (madd a (- 1) (np_threads p))\<rparr>"
proof -
  have f: "finite (dom (map_of (np_assigned p)))" by (rule finite_dom_map_of)
  have "ran ((map_of (np_assigned p))(t \<mapsto> b)) \<subseteq> set (nodes hw)"
    using assms(1,3) unfolding spread_ok_def ran_def by (auto split: if_splits)
  moreover have "insert t T = T" using assms(1,2) by (auto simp: spread_ok_def)
  ultimately show ?thesis
    using assms(1,4) hits_move [OF f assms(2)] by (simp add: spread_ok_def)
qed

section \<open>Repair of the floors\<close>

lemma repair_candidate_found:
  assumes "fold (repair_candidate hw opts cap s adj p target) xs best = Some (t, a, dl)"
    and "\<And>t a dl. best = Some (t, a, dl) \<Longrightarrow> (t, a) \<in> set (np_assigned p) \<and> a \<noteq> target \<and> thread_floor hw opts s a < mgetd 0 (np_threads p) a"
    and "set xs \<subseteq> set (np_assigned p)"
  shows "(t, a) \<in> set (np_assigned p) \<and> a \<noteq> target \<and> thread_floor hw opts s a < mgetd 0 (np_threads p) a"
proof -
  let ?P = "\<lambda>best. \<forall>t a dl. best = Some (t, a, dl) \<longrightarrow>
    (t, a) \<in> set (np_assigned p) \<and> a \<noteq> target \<and> thread_floor hw opts s a < mgetd 0 (np_threads p) a"
  have "?P (fold (repair_candidate hw opts cap s adj p target) xs best)"
  proof (rule fold_inv [where P = ?P])
    show "?P best" using assms(2) by blast
  next
    fix x and b :: "(int \<times> int \<times> double) option" assume x: "x \<in> set xs" and b: "?P b"
    obtain u a where ux: "x = (u, a)" by fastforce
    then have "(u, a) \<in> set (np_assigned p)" using x assms(3) by auto
    then show "?P (repair_candidate hw opts cap s adj p target x b)"
      using b unfolding ux by (auto simp: repair_candidate_def Let_def split: option.splits if_splits prod.splits)
  qed
  then show ?thesis using assms(1) by simp
qed

lemma repair_node_ok:
  assumes "spread_ok hw T p" "target \<in> set (nodes hw)" "repair_node n hw opts cap s adj target p = Inr p'"
  shows "spread_ok hw T p' \<and> mgetd 0 (np_threads p') target = mgetd 0 (np_threads p) target + int n \<and>
    (\<forall>a. a \<noteq> target \<longrightarrow> thread_floor hw opts s a \<le> mgetd 0 (np_threads p) a \<longrightarrow> thread_floor hw opts s a \<le> mgetd 0 (np_threads p') a)"
  using assms
proof (induction n arbitrary: p)
  case (Suc n)
  obtain t a dl where found: "fold (repair_candidate hw opts cap s adj p target) (np_assigned p) None = Some (t, a, dl)"
    and next_node: "repair_node n hw opts cap s adj target
       \<lparr>np_assigned = mput t target (np_assigned p),
        np_load = madd target (thread_demand_at s t) (madd a (- thread_demand_at s t) (np_load p)),
        np_threads = madd target 1 (madd a (- 1) (np_threads p))\<rparr> = Inr p'"
    using Suc.prems(3) by (auto split: option.splits if_splits)
  have ta: "(t, a) \<in> set (np_assigned p)" "a \<noteq> target" "thread_floor hw opts s a < mgetd 0 (np_threads p) a"
    using repair_candidate_found [OF found] by auto
  have "map_of (np_assigned p) t = Some a"
    using ta(1) Suc.prems(1) mwf_entry [of "np_assigned p" t a] by (simp add: spread_ok_def)
  from Suc.IH [OF spread_ok_move [OF Suc.prems(1) this Suc.prems(2) ta(2)] Suc.prems(2) next_node] ta(2,3)
  show ?case by (auto split: if_splits)
qed simp

lemma repair_floors_ok:
  assumes "spread_ok hw T p" "repair_floors hw opts cap s adj p = Inr p'"
  shows "spread_ok hw T p' \<and> (\<forall>a \<in> set (nodes hw). thread_floor hw opts s a \<le> hits (map_of (np_assigned p')) a)"
proof -
  let ?f = "\<lambda>node p. repair_node (nat (thread_floor hw opts s node - mgetd 0 (np_threads p) node)) hw opts cap s adj node p"
  let ?low = "\<lambda>a p. thread_floor hw opts s a \<le> mgetd 0 (np_threads p) a"
  have "spread_ok hw T p' \<and> (\<forall>a \<in> D \<union> set ks. ?low a p')"
    if "rfold ?f ks p = Inr p'" "set ks \<subseteq> set (nodes hw)" "spread_ok hw T p" "\<forall>a \<in> D. ?low a p" for ks p D
    using that
  proof (induction ks arbitrary: p D)
    case (Cons k ks)
    obtain p1 where p1: "?f k p = Inr p1" "rfold ?f ks p1 = Inr p'"
      using Cons.prems(1) by (auto split: sum.splits)
    have r: "spread_ok hw T p1" "mgetd 0 (np_threads p1) k =
        mgetd 0 (np_threads p) k + int (nat (thread_floor hw opts s k - mgetd 0 (np_threads p) k))"
      "\<forall>a. a \<noteq> k \<longrightarrow> ?low a p \<longrightarrow> ?low a p1"
      using repair_node_ok [OF Cons.prems(3) _ p1(1)] Cons.prems(2) by auto
    have "?low k p1" using r(2) by linarith
    then have "?low a p1" if "a \<in> insert k D" for a using r(3) Cons.prems(4) that by (cases "a = k") auto
    then have "spread_ok hw T p' \<and> (\<forall>a \<in> insert k D \<union> set ks. ?low a p')"
      using Cons.IH [OF p1(2) _ r(1), of "insert k D"] Cons.prems(2) by simp
    then show ?case by auto
  qed simp
  from this [of "mkeys (node_cpu_count hw)" p "{}"] assms
  have "spread_ok hw T p'" "\<forall>a \<in> set (nodes hw). ?low a p'"
    unfolding repair_floors_def node_cpu_count_keys by auto
  then show ?thesis by (simp add: spread_ok_def)
qed

section \<open>Refinement by swaps\<close>

definition spread_as :: "hardware_graph \<Rightarrow> int set \<Rightarrow> (int \<Rightarrow> int) \<Rightarrow> inc_node_plan \<Rightarrow> bool" where
  "spread_as hw T h p \<longleftrightarrow>
     mwf (np_assigned p) \<and> dom (map_of (np_assigned p)) = T \<and> ran (map_of (np_assigned p)) \<subseteq> set (nodes hw) \<and>
     (\<forall>n. hits (map_of (np_assigned p)) n = h n)"

lemma spread_as_swap:
  assumes "spread_as hw T h (snd st)" "a \<in> T" "b \<in> T"
  shows "spread_as hw T h (snd (swap_pair hw s (a, b) st))"
proof -
  obtain ch p where st: "st = (ch, p)" by fastforce
  define m where "m = map_of (np_assigned p)"
  have ok: "mwf (np_assigned p)" "dom m = T" "ran m \<subseteq> set (nodes hw)" "\<forall>n. hits m n = h n"
    using assms(1) by (simp_all add: spread_as_def st m_def)
  have fin: "finite (dom m)" by (simp add: m_def finite_dom_map_of)
  obtain x y where xy: "m a = Some x" "m b = Some y" using ok(2) assms(2,3) by blast
  have r: "x \<in> set (nodes hw)" "y \<in> set (nodes hw)" using ok(3) xy unfolding ran_def by blast+
  have swapped: "spread_as hw T h q" if "x \<noteq> y" "np_assigned q = mput b x (mput a y (np_assigned p))" for q
  proof -
    have "ran (m(a \<mapsto> y, b \<mapsto> x)) \<subseteq> set (nodes hw)" using r ok(3) unfolding ran_def by (auto split: if_splits)
    moreover have "dom (m(a \<mapsto> y, b \<mapsto> x)) = T" using ok(2) assms(2,3) by auto
    moreover have "hits (m(a \<mapsto> y, b \<mapsto> x)) n = h n" for n using hits_swap [OF fin xy that(1)] ok(4) by simp
    moreover have "map_of (np_assigned q) = m(a \<mapsto> y, b \<mapsto> x)" by (simp add: that(2) m_def)
    ultimately show ?thesis using ok(1) unfolding spread_as_def by (simp add: that(2))
  qed
  have "np_assigned (snd (swap_pair hw s (a, b) st)) = np_assigned p \<or>
      x \<noteq> y \<and> np_assigned (snd (swap_pair hw s (a, b) st)) = mput b x (mput a y (np_assigned p))"
    using xy by (simp add: swap_pair_def st Let_def mgetd_def m_def)
  then show ?thesis
  proof
    assume "np_assigned (snd (swap_pair hw s (a, b) st)) = np_assigned p"
    then show ?thesis using assms(1) by (simp add: spread_as_def st)
  qed (use swapped in blast)
qed

lemma spread_as_passes:
  assumes "spread_as hw T h p" "set ts \<subseteq> T"
  shows "spread_as hw T h (run_passes n (\<lambda>p. fold (swap_pair hw s) (ordered_pairs ts) (False, p)) p)"
proof (rule run_passes_inv [where P = "spread_as hw T h"], rule assms(1), rule fold_snd_inv)
  fix x and st :: "bool \<times> inc_node_plan"
  assume x: "x \<in> set (ordered_pairs ts)" and st: "spread_as hw T h (snd st)"
  obtain a b where ab: "x = (a, b)" by fastforce
  then have "a \<in> T" "b \<in> T" using ordered_pairs_set [of a b ts] x assms(2) by auto
  then show "spread_as hw T h (snd (swap_pair hw s x st))" unfolding ab by (rule spread_as_swap [OF st])
qed simp

section \<open>Property\<close>

text \<open>
  The node plan gives every thread, and no other, a node of the machine, whatever the order
  the relations impose, and every node at least its floor of threads; the ordering loop and
  the repair loop stop within their counters.
\<close>

theorem plan_nodes_covers:
  assumes "mwf (is_threads s)" "loop_free s" "nodes hw \<noteq> []" "plan_nodes hw opts cap s = Inr plan"
  shows "dom (map_of plan) = dom (map_of (is_threads s)) \<and> ran (map_of plan) \<subseteq> set (nodes hw) \<and>
    (\<forall>n \<in> set (nodes hw). thread_floor hw opts s n \<le> int (card {t. map_of plan t = Some n}))"
proof -
  let ?T = "dom (map_of (is_threads s))"
  obtain ordered seeds where ord: "order_cohort s = (ordered, seeds)" by fastforce
  then have o: "distinct ordered" "set ordered = ?T" using order_cohort_covers [OF assms(2,1)] by auto
  define adj where "adj = adjacency (map snd (is_edges s))"
  define p where "p = fold (assign_thread hw opts cap s adj seeds) ordered \<lparr>np_assigned = [], np_load = [], np_threads = []\<rparr>"
  have "spread_ok hw {} \<lparr>np_assigned = [], np_load = [], np_threads = []\<rparr>" by (simp add: spread_ok_def hits_def mgetd_def)
  from spread_ok_assigns [OF assms(3) this o(1), where opts = opts and cap = cap and s = s and adj = adj and seeds = seeds]
  have p: "spread_ok hw ?T p" by (simp add: p_def o(2))
  obtain p' where p': "repair_floors hw opts cap s adj p = Inr p'"
    and plan: "plan = np_assigned (run_passes (nat (initial_node_passes opts))
      (\<lambda>p. fold (swap_pair hw s) (ordered_pairs ordered) (False, p)) p')"
    using assms(4) by (auto simp: plan_nodes_def ord adj_def p_def Let_def split: sum.splits)
  have r: "spread_ok hw ?T p'" "\<forall>a \<in> set (nodes hw). thread_floor hw opts s a \<le> hits (map_of (np_assigned p')) a"
    using repair_floors_ok [OF p p'] by auto
  have "spread_as hw ?T (hits (map_of (np_assigned p'))) p'" using r(1) by (simp add: spread_as_def spread_ok_def)
  from spread_as_passes [OF this, of ordered "nat (initial_node_passes opts)" s] r(2)
  show ?thesis by (simp add: o(2) plan spread_as_def hits_def)
qed

theorem plan_nodes_covers_witness:
  "plan_nodes run_hardware run_options 1 run_planning = Inr [(10, 0), (11, 1)] \<and>
   dom (map_of [(10 :: int, 0 :: int), (11, 1)]) = dom (map_of (is_threads run_planning))"
proof -
  have "mwf (is_threads run_planning)" "loop_free run_planning" "nodes run_hardware \<noteq> []"
    by (simp add: run_planning_def run_admitted_def mwf_def, simp add: loop_free_def run_edges, code_simp)
  from plan_nodes_covers [OF this run_plan_nodes] run_plan_nodes show ?thesis by blast
qed

end
