(* ===== verification/Runtime_Actions.thy ===== *)
theory Runtime_Actions
  imports Prelude
begin

text \<open>
  Effects of the runtime: an operation on a state returns a value, throws an exception, or
  never returns because it waits for a mutex that its own thread holds (\<^verbatim>\<open>std::mutex\<close> is not
  recursive). Sequencing, \<^verbatim>\<open>try\<close>/\<^verbatim>\<open>catch\<close> and loops are those of the C++ code; the state at
  the time of a throw is kept, since the operations are methods on one object.

  \<open>keeps P m\<close> says that an operation preserves \<open>P\<close> on every path out of it, the exceptional
  ones included; its rules follow the structure of an operation.
\<close>

section \<open>Operations\<close>

datatype 'a outcome = Returned 'a | Thrown exn | Blocked

type_synonym ('r, 'a) action = "'r \<Rightarrow> 'a outcome \<times> 'r"

definition give :: "'a \<Rightarrow> ('r, 'a) action" where
  "give x s = (Returned x, s)"

definition raise :: "exn \<Rightarrow> ('r, 'a) action" where
  "raise e s = (Thrown e, s)"

definition seq :: "('r, 'a) action \<Rightarrow> ('a \<Rightarrow> ('r, 'b) action) \<Rightarrow> ('r, 'b) action" where
  "seq m f s =
     (case m s of
        (Returned x, s') \<Rightarrow> f x s'
      | (Thrown e, s') \<Rightarrow> (Thrown e, s')
      | (Blocked, s') \<Rightarrow> (Blocked, s'))"

definition ask :: "('r \<Rightarrow> 'a) \<Rightarrow> ('r, 'a) action" where
  "ask f s = (Returned (f s), s)"

definition modify :: "('r \<Rightarrow> 'r) \<Rightarrow> ('r, unit) action" where
  "modify f s = (Returned (), f s)"

text \<open>A call that may throw.\<close>

definition from_result :: "'a result \<Rightarrow> ('r, 'a) action" where
  "from_result x s = (case x of Inl e \<Rightarrow> (Thrown e, s) | Inr v \<Rightarrow> (Returned v, s))"

text \<open>\<^verbatim>\<open>try\<close> and \<^verbatim>\<open>catch (const std::exception &)\<close>.\<close>

definition catching :: "('r, 'a) action \<Rightarrow> (exn \<Rightarrow> ('r, 'a) action) \<Rightarrow> ('r, 'a) action" where
  "catching m h s = (case m s of (Thrown e, s') \<Rightarrow> h e s' | r \<Rightarrow> r)"

fun each :: "('x \<Rightarrow> ('r, unit) action) \<Rightarrow> 'x list \<Rightarrow> ('r, unit) action" where
  "each f [] = give ()"
| "each f (x # xs) = seq (f x) (\<lambda>_. each f xs)"

section \<open>Evaluation\<close>

lemma seq_simps [simp]:
  "seq (give x) f = f x"
  "seq (ask g) f s = f (g s) s"
  "seq (modify u) k s = k () (u s)"
  "seq (raise e) f s = (Thrown e, s)"
  by (simp_all add: seq_def give_def ask_def modify_def raise_def fun_eq_iff)

lemma seq_from_result [simp]:
  "seq (from_result (Inr v)) f = f v" "seq (from_result (Inl e)) f s = (Thrown e, s)"
  by (simp_all add: seq_def from_result_def fun_eq_iff)

lemma seq_assoc: "seq (seq m f) g = seq m (\<lambda>x. seq (f x) g)"
  by (auto simp: seq_def fun_eq_iff split: prod.splits outcome.splits)

lemma seq_returned: "seq m f s = (Returned y, s') \<longleftrightarrow> (\<exists>x t. m s = (Returned x, t) \<and> f x t = (Returned y, s'))"
  by (auto simp: seq_def split: prod.splits outcome.splits)

section \<open>Preservation\<close>

definition keeps :: "('r \<Rightarrow> bool) \<Rightarrow> ('r, 'a) action \<Rightarrow> bool" where
  "keeps P m \<longleftrightarrow> (\<forall>s. P s \<longrightarrow> P (snd (m s)))"

named_theorems keeps_rules "preservation of a predicate, by the structure of an operation"

lemma keepsD: "keeps P m \<Longrightarrow> P s \<Longrightarrow> P (snd (m s))"
  by (simp add: keeps_def)

lemma keepsI: "(\<And>s. P s \<Longrightarrow> P (snd (m s))) \<Longrightarrow> keeps P m"
  by (simp add: keeps_def)

lemma keeps_give [keeps_rules]: "keeps P (give x)"
  by (simp add: keeps_def give_def)

lemma keeps_raise [keeps_rules]: "keeps P (raise e)"
  by (simp add: keeps_def raise_def)

lemma keeps_ask [keeps_rules]: "keeps P (ask f)"
  by (simp add: keeps_def ask_def)

lemma keeps_from_result [keeps_rules]: "keeps P (from_result x)"
  by (cases x) (simp_all add: keeps_def from_result_def)

lemma keeps_modify [keeps_rules]: "(\<And>s. P s \<Longrightarrow> P (f s)) \<Longrightarrow> keeps P (modify f)"
  by (simp add: keeps_def modify_def)

lemma keeps_seq [keeps_rules]: "keeps P m \<Longrightarrow> (\<And>x. keeps P (f x)) \<Longrightarrow> keeps P (seq m f)"
  by (fastforce simp: keeps_def seq_def split: prod.splits outcome.splits dest: spec)

lemma keeps_catching [keeps_rules]: "keeps P m \<Longrightarrow> (\<And>e. keeps P (h e)) \<Longrightarrow> keeps P (catching m h)"
  by (fastforce simp: keeps_def catching_def split: prod.splits outcome.splits dest: spec)

lemma keeps_each [keeps_rules]: "(\<And>x. keeps P (f x)) \<Longrightarrow> keeps P (each f xs)"
  by (induction xs) (simp_all add: keeps_rules)

text \<open>A value read from the state keeps what \<open>P\<close> says of it.\<close>

lemma keeps_read:
  "(\<And>v s. P s \<Longrightarrow> v = f s \<Longrightarrow> keeps P (g v)) \<Longrightarrow> keeps P (seq (ask f) g)"
  by (simp add: keeps_def)

lemma keeps_if [keeps_rules]: "(b \<Longrightarrow> keeps P m) \<Longrightarrow> (\<not> b \<Longrightarrow> keeps P n) \<Longrightarrow> keeps P (if b then m else n)"
  by simp

lemma keeps_option [keeps_rules]:
  "(x = None \<Longrightarrow> keeps P m) \<Longrightarrow> (\<And>v. x = Some v \<Longrightarrow> keeps P (f v)) \<Longrightarrow>
   keeps P (case x of None \<Rightarrow> m | Some v \<Rightarrow> f v)"
  by (cases x) simp_all

lemma keeps_prod [keeps_rules]: "(\<And>a b. x = (a, b) \<Longrightarrow> keeps P (f a b)) \<Longrightarrow> keeps P (case x of (a, b) \<Rightarrow> f a b)"
  by (cases x) simp

end
