(* ===== verification/Bpf_Events.thy ===== *)
theory Bpf_Events
  imports Prelude
begin

text \<open>
  The structures the BPF program shares with the supervisor, \<^verbatim>\<open>include/affinitygraph/bpf_events.h\<close>:
  events, the keys and values of the two aggregate maps, health counters. \<^verbatim>\<open>reserved\<close> fields are
  zero and left out of the records; their bytes are in the layout that \<open>Bpf_Reader\<close> gives.
\<close>

section \<open>Events of the BPF program\<close>

type_synonym uint32 = "32 word"

abbreviation TASK_FORK :: uint32 where "TASK_FORK \<equiv> 1"
abbreviation TASK_EXIT :: uint32 where "TASK_EXIT \<equiv> 2"
abbreviation FUTEX :: uint32 where "FUTEX \<equiv> 3"
abbreviation VFS :: uint32 where "VFS \<equiv> 4"
abbreviation TASK_EXEC :: uint32 where "TASK_EXEC \<equiv> 5"
abbreviation TASK_RENAME :: uint32 where "TASK_RENAME \<equiv> 6"
abbreviation AFFINITY :: uint32 where "AFFINITY \<equiv> 7"

definition MASK_BYTES :: nat where "MASK_BYTES = 128"

record bpf_event =
  ev_kind :: uint32
  ev_tgid :: uint32
  ev_tid :: uint32
  ev_peer_tid :: uint32
  ev_parent_tgid :: uint32
  ev_parent_tid :: uint32
  ev_mask_bytes :: uint32
  ev_timestamp_ns :: uint64
  ev_start_time_ns :: uint64
  ev_peer_start_time_ns :: uint64
  ev_value_ns :: uint64
  ev_resource :: uint64
  ev_start_routine :: uint64
  ev_comm :: string
  ev_mask :: "8 word list"

text \<open>A zero-initialised event.\<close>

definition zero_event :: bpf_event where
  "zero_event =
     \<lparr>ev_kind = 0, ev_tgid = 0, ev_tid = 0, ev_peer_tid = 0, ev_parent_tgid = 0, ev_parent_tid = 0,
      ev_mask_bytes = 0, ev_timestamp_ns = 0, ev_start_time_ns = 0, ev_peer_start_time_ns = 0,
      ev_value_ns = 0, ev_resource = 0, ev_start_routine = 0, ev_comm = replicate 16 (CHR 0x00),
      ev_mask = replicate 128 0\<rparr>"

text \<open>\<^verbatim>\<open>static_cast<int>\<close> of a 32-bit number.\<close>

abbreviation to_int :: "uint32 \<Rightarrow> int" where
  "to_int w \<equiv> sint w"

definition cpus_from_mask :: "bpf_event \<Rightarrow> cpu_mask" where
  "cpus_from_mask ev =
     map int (filter (\<lambda>b. bit (ev_mask ev ! (b div 8)) (b mod 8)) [0..<min (unat (ev_mask_bytes ev)) MASK_BYTES * 8])"

text \<open>The bytes of a name up to the first zero.\<close>

definition comm_name :: "bpf_event \<Rightarrow> string" where
  "comm_name ev = takeWhile (\<lambda>c. c \<noteq> CHR 0x00) (ev_comm ev)"

record futex_key =
  fk_tgid :: uint32
  fk_tid :: uint32
  fk_peer_tid :: uint32
  fk_start_time_ns :: uint64
  fk_peer_start_time_ns :: uint64

record futex_value =
  fv_count :: uint64
  fv_last_timestamp_ns :: uint64

record vfs_key =
  vk_tgid :: uint32
  vk_tid :: uint32
  vk_peer_tid :: uint32
  vk_start_time_ns :: uint64
  vk_peer_start_time_ns :: uint64
  vk_resource :: uint64

record vfs_value =
  vv_total_time_ns :: uint64
  vv_count :: uint64
  vv_last_timestamp_ns :: uint64

record bpf_counters =
  emitted :: uint64
  dropped :: uint64
  emitted_by_kind :: "uint64 list"
  dropped_by_kind :: "uint64 list"
  suppressed_by_kind :: "uint64 list"

definition zero_counters :: bpf_counters where
  "zero_counters = \<lparr>emitted = 0, dropped = 0, emitted_by_kind = replicate 8 0, dropped_by_kind = replicate 8 0,
     suppressed_by_kind = replicate 8 0\<rparr>"

record bpf_health_snapshot =
  hs_valid :: bool
  hs_error :: int
  hs_counters :: bpf_counters

end
