(* ===== verification/Configuration.thy ===== *)
theory Configuration
  imports Cpu_List Topology Domain_Solver Incremental_Solver
begin

text \<open>
  The configuration of \<^verbatim>\<open>src/config.cpp\<close>: the line-based reader of the TOML subset, the precedence
  of the CPU envelope (command line, environment, file, kernel) and the range check; and the
  options \<^verbatim>\<open>src/runtime.cpp\<close> derives from it for the solvers.

  The file is its text, or nothing when it cannot be opened; the environment is a function
  from names to values and the affinity mask of the process a predicate on CPU numbers, or
  nothing when the system call fails. Decimal values are exact, as everywhere in the model.
\<close>

section \<open>The configuration\<close>

datatype mode = Observe | Plan | Active

record config =
  cfg_mode :: mode
  cfg_dynamic :: bool
  cfg_static_quiescence_seconds :: int
  cfg_static_scan_seconds :: int
  cfg_cpus :: "int list"
  cfg_calibration_path :: string
  cfg_log_directory :: string
  cfg_socket_path :: string
  cfg_thread_profile_path :: string
  cfg_profile_output_path :: string
  cfg_experiment_id :: string
  cfg_test_id :: string
  cfg_sample_interval_seconds :: int
  cfg_graph_horizon_seconds :: int
  cfg_solve_interval_seconds :: int
  cfg_minimum_confidence :: double
  cfg_proposal_confirmations :: int
  cfg_initial_proposal_confirmations :: int
  cfg_minimum_dwell_seconds :: int
  cfg_maximum_migrated_threads_ratio :: double
  cfg_initial_migrated_threads_ratio :: double
  cfg_collector_failure_restore_seconds :: int
  cfg_solver :: string
  cfg_affinity_granularity :: string
  cfg_family_minimum_demand :: double
  cfg_family_minimum_internal_relation :: double
  cfg_family_minimum_self_containment :: double
  cfg_family_minimum_relative_internal :: double
  cfg_domain_merge_ratio :: double
  cfg_family_edges_per_family :: int
  cfg_family_stability_confirmations :: int
  cfg_domain_stability_confirmations :: int
  cfg_domain_plan_confirmations :: int
  cfg_maximum_threads_per_domain :: int
  cfg_domain_capacity_ratio :: double
  cfg_domain_expand_ratio :: double
  cfg_domain_expand_confirmations :: int
  cfg_domain_shrink_ratio :: double
  cfg_domain_shrink_confirmations :: int
  cfg_domain_minimum_dwell_seconds :: int
  cfg_initial_node_passes :: int
  cfg_initial_node_thread_slack_ratio :: double
  cfg_candidate_multiplier :: int
  cfg_candidate_hard_limit :: int
  cfg_rotating_scan_size :: int
  cfg_demand_dirty_threshold :: double
  cfg_edge_dirty_absolute_threshold :: double
  cfg_edge_dirty_relative_threshold :: double
  cfg_minimum_relative_gain :: double
  cfg_maximum_threads_per_cpu :: int
  cfg_thread_slot_slack :: int
  cfg_future_demand_floor :: double
  cfg_group_peak_demand_ratio :: double
  cfg_group_peak_demand_cap :: double
  cfg_group_peak_decay :: double
  cfg_node_balance_threshold :: double
  cfg_hotspot_edges_per_thread :: int
  cfg_hotspot_edge_quantile :: double
  cfg_hotspot_component_boost :: double
  cfg_maximum_managed_threads :: int
  cfg_managed_thread_hysteresis_ratio :: double
  cfg_hotspot_replan_growth_ratio :: double
  cfg_hotspot_replan_min_threads :: int
  cfg_hotspot_stability_threshold :: double
  cfg_hotspot_stability_confirmations :: int
  cfg_active_demand_threshold :: double
  cfg_inactive_demand_threshold :: double
  cfg_bpf_required :: bool
  cfg_pthread_uprobe :: bool
  cfg_relationship_calibration_id :: string
  cfg_activity_log_p95 :: double
  cfg_sync_log_p95 :: double
  cfg_share_log_p95 :: double

text \<open>The values a configuration starts from.\<close>

definition new_config :: config where
  "new_config =
     \<lparr>cfg_mode = Observe, cfg_dynamic = True, cfg_static_quiescence_seconds = 30, cfg_static_scan_seconds = 30,
      cfg_cpus = [], cfg_calibration_path = '''', cfg_log_directory = ''/tmp/affinitygraph'',
      cfg_socket_path = ''/tmp/affinitygraph.sock'', cfg_thread_profile_path = '''', cfg_profile_output_path = '''',
      cfg_experiment_id = '''', cfg_test_id = '''', cfg_sample_interval_seconds = 1, cfg_graph_horizon_seconds = 60,
      cfg_solve_interval_seconds = 10, cfg_minimum_confidence = 8 / 10, cfg_proposal_confirmations = 3,
      cfg_initial_proposal_confirmations = 1, cfg_minimum_dwell_seconds = 60,
      cfg_maximum_migrated_threads_ratio = 25 / 100, cfg_initial_migrated_threads_ratio = 1,
      cfg_collector_failure_restore_seconds = 30, cfg_solver = ''incremental-hotspot-v1'',
      cfg_affinity_granularity = ''singleton_cpu'', cfg_family_minimum_demand = 1,
      cfg_family_minimum_internal_relation = 1, cfg_family_minimum_self_containment = 2 / 10,
      cfg_family_minimum_relative_internal = 1 / 10, cfg_domain_merge_ratio = 25 / 100,
      cfg_family_edges_per_family = 4, cfg_family_stability_confirmations = 3,
      cfg_domain_stability_confirmations = 3, cfg_domain_plan_confirmations = 3,
      cfg_maximum_threads_per_domain = 1024, cfg_domain_capacity_ratio = 8 / 10, cfg_domain_expand_ratio = 9 / 10,
      cfg_domain_expand_confirmations = 3, cfg_domain_shrink_ratio = 55 / 100, cfg_domain_shrink_confirmations = 6,
      cfg_domain_minimum_dwell_seconds = 300, cfg_initial_node_passes = 2,
      cfg_initial_node_thread_slack_ratio = 5 / 10, cfg_candidate_multiplier = 4, cfg_candidate_hard_limit = 64,
      cfg_rotating_scan_size = 32, cfg_demand_dirty_threshold = 5 / 100, cfg_edge_dirty_absolute_threshold = 1,
      cfg_edge_dirty_relative_threshold = 1 / 10, cfg_minimum_relative_gain = 5 / 100,
      cfg_maximum_threads_per_cpu = 0, cfg_thread_slot_slack = 0, cfg_future_demand_floor = 2 / 100,
      cfg_group_peak_demand_ratio = 25 / 100, cfg_group_peak_demand_cap = 5 / 100, cfg_group_peak_decay = 95 / 100,
      cfg_node_balance_threshold = 5 / 100, cfg_hotspot_edges_per_thread = 4, cfg_hotspot_edge_quantile = 95 / 100,
      cfg_hotspot_component_boost = 4, cfg_maximum_managed_threads = 32, cfg_managed_thread_hysteresis_ratio = 1,
      cfg_hotspot_replan_growth_ratio = 25 / 100, cfg_hotspot_replan_min_threads = 8,
      cfg_hotspot_stability_threshold = 65 / 100, cfg_hotspot_stability_confirmations = 3,
      cfg_active_demand_threshold = 5 / 100, cfg_inactive_demand_threshold = 0, cfg_bpf_required = False,
      cfg_pthread_uprobe = True, cfg_relationship_calibration_id = ''clickhouse-gate2-fixed-v2'',
      cfg_activity_log_p95 = 24138804290562152 / 10 ^ 16, cfg_sync_log_p95 = 25591179487485345 / 10 ^ 16,
      cfg_share_log_p95 = 894730347830295 / 10 ^ 17\<rparr>"

section \<open>Settings\<close>

text \<open>What the value of a key is and which field it sets.\<close>

datatype setting =
    Mode_Setting
  | Cpus_Setting
  | String_Setting "string \<Rightarrow> config \<Rightarrow> config"
  | Bool_Setting "bool \<Rightarrow> config \<Rightarrow> config"
  | Int_Setting "int \<Rightarrow> config \<Rightarrow> config"
  | Double_Setting "double \<Rightarrow> config \<Rightarrow> config"

definition config_settings :: "(string \<times> setting) list" where
  "config_settings =
     [(''runtime.mode'', Mode_Setting),
      (''resources.cpus'', Cpus_Setting),
      (''resources.calibration_path'', String_Setting (\<lambda>v. cfg_calibration_path_update (\<lambda>_. v))),
      (''runtime.log_directory'', String_Setting (\<lambda>v. cfg_log_directory_update (\<lambda>_. v))),
      (''runtime.socket_path'', String_Setting (\<lambda>v. cfg_socket_path_update (\<lambda>_. v))),
      (''runtime.thread_profile'', String_Setting (\<lambda>v. cfg_thread_profile_path_update (\<lambda>_. v))),
      (''runtime.profile_output'', String_Setting (\<lambda>v. cfg_profile_output_path_update (\<lambda>_. v))),
      (''runtime.experiment_id'', String_Setting (\<lambda>v. cfg_experiment_id_update (\<lambda>_. v))),
      (''runtime.test_id'', String_Setting (\<lambda>v. cfg_test_id_update (\<lambda>_. v))),
      (''runtime.dynamic'', Bool_Setting (\<lambda>v. cfg_dynamic_update (\<lambda>_. v))),
      (''runtime.static_quiescence_seconds'', Int_Setting (\<lambda>v. cfg_static_quiescence_seconds_update (\<lambda>_. v))),
      (''runtime.static_quiescent_windows'', Int_Setting (\<lambda>v. cfg_static_quiescence_seconds_update (\<lambda>_. v))),
      (''runtime.static_scan_seconds'', Int_Setting (\<lambda>v. cfg_static_scan_seconds_update (\<lambda>_. v))),
      (''runtime.sample_interval_seconds'', Int_Setting (\<lambda>v. cfg_sample_interval_seconds_update (\<lambda>_. v))),
      (''runtime.graph_horizon_seconds'', Int_Setting (\<lambda>v. cfg_graph_horizon_seconds_update (\<lambda>_. v))),
      (''runtime.solve_interval_seconds'', Int_Setting (\<lambda>v. cfg_solve_interval_seconds_update (\<lambda>_. v))),
      (''runtime.minimum_confidence'', Double_Setting (\<lambda>v. cfg_minimum_confidence_update (\<lambda>_. v))),
      (''runtime.proposal_confirmations'', Int_Setting (\<lambda>v. cfg_proposal_confirmations_update (\<lambda>_. v))),
      (''runtime.initial_proposal_confirmations'', Int_Setting (\<lambda>v. cfg_initial_proposal_confirmations_update (\<lambda>_. v))),
      (''runtime.minimum_dwell_seconds'', Int_Setting (\<lambda>v. cfg_minimum_dwell_seconds_update (\<lambda>_. v))),
      (''runtime.maximum_migrated_threads_ratio'', Double_Setting (\<lambda>v. cfg_maximum_migrated_threads_ratio_update (\<lambda>_. v))),
      (''runtime.maximum_migrated_active_threads_ratio'', Double_Setting (\<lambda>v. cfg_maximum_migrated_threads_ratio_update (\<lambda>_. v))),
      (''runtime.initial_migrated_threads_ratio'', Double_Setting (\<lambda>v. cfg_initial_migrated_threads_ratio_update (\<lambda>_. v))),
      (''runtime.collector_failure_restore_seconds'', Int_Setting (\<lambda>v. cfg_collector_failure_restore_seconds_update (\<lambda>_. v))),
      (''runtime.solver'', String_Setting (\<lambda>v. cfg_solver_update (\<lambda>_. v))),
      (''runtime.affinity_granularity'', String_Setting (\<lambda>v. cfg_affinity_granularity_update (\<lambda>_. v))),
      (''runtime.family_minimum_demand'', Double_Setting (\<lambda>v. cfg_family_minimum_demand_update (\<lambda>_. v))),
      (''runtime.family_minimum_internal_relation'', Double_Setting (\<lambda>v. cfg_family_minimum_internal_relation_update (\<lambda>_. v))),
      (''runtime.family_minimum_self_containment'', Double_Setting (\<lambda>v. cfg_family_minimum_self_containment_update (\<lambda>_. v))),
      (''runtime.family_minimum_relative_internal'', Double_Setting (\<lambda>v. cfg_family_minimum_relative_internal_update (\<lambda>_. v))),
      (''runtime.domain_merge_ratio'', Double_Setting (\<lambda>v. cfg_domain_merge_ratio_update (\<lambda>_. v))),
      (''runtime.family_edges_per_family'', Int_Setting (\<lambda>v. cfg_family_edges_per_family_update (\<lambda>_. v))),
      (''runtime.family_stability_confirmations'', Int_Setting (\<lambda>v. cfg_family_stability_confirmations_update (\<lambda>_. v))),
      (''runtime.domain_stability_confirmations'', Int_Setting (\<lambda>v. cfg_domain_stability_confirmations_update (\<lambda>_. v))),
      (''runtime.domain_plan_confirmations'', Int_Setting (\<lambda>v. cfg_domain_plan_confirmations_update (\<lambda>_. v))),
      (''runtime.maximum_threads_per_domain'', Int_Setting (\<lambda>v. cfg_maximum_threads_per_domain_update (\<lambda>_. v))),
      (''runtime.domain_capacity_ratio'', Double_Setting (\<lambda>v. cfg_domain_capacity_ratio_update (\<lambda>_. v))),
      (''runtime.domain_expand_ratio'', Double_Setting (\<lambda>v. cfg_domain_expand_ratio_update (\<lambda>_. v))),
      (''runtime.domain_expand_confirmations'', Int_Setting (\<lambda>v. cfg_domain_expand_confirmations_update (\<lambda>_. v))),
      (''runtime.domain_shrink_ratio'', Double_Setting (\<lambda>v. cfg_domain_shrink_ratio_update (\<lambda>_. v))),
      (''runtime.domain_shrink_confirmations'', Int_Setting (\<lambda>v. cfg_domain_shrink_confirmations_update (\<lambda>_. v))),
      (''runtime.domain_minimum_dwell_seconds'', Int_Setting (\<lambda>v. cfg_domain_minimum_dwell_seconds_update (\<lambda>_. v))),
      (''runtime.initial_node_passes'', Int_Setting (\<lambda>v. cfg_initial_node_passes_update (\<lambda>_. v))),
      (''runtime.initial_node_thread_slack_ratio'', Double_Setting (\<lambda>v. cfg_initial_node_thread_slack_ratio_update (\<lambda>_. v))),
      (''runtime.candidate_multiplier'', Int_Setting (\<lambda>v. cfg_candidate_multiplier_update (\<lambda>_. v))),
      (''runtime.candidate_hard_limit'', Int_Setting (\<lambda>v. cfg_candidate_hard_limit_update (\<lambda>_. v))),
      (''runtime.rotating_scan_size'', Int_Setting (\<lambda>v. cfg_rotating_scan_size_update (\<lambda>_. v))),
      (''runtime.demand_dirty_threshold'', Double_Setting (\<lambda>v. cfg_demand_dirty_threshold_update (\<lambda>_. v))),
      (''runtime.edge_dirty_absolute_threshold'', Double_Setting (\<lambda>v. cfg_edge_dirty_absolute_threshold_update (\<lambda>_. v))),
      (''runtime.edge_dirty_relative_threshold'', Double_Setting (\<lambda>v. cfg_edge_dirty_relative_threshold_update (\<lambda>_. v))),
      (''runtime.minimum_relative_gain'', Double_Setting (\<lambda>v. cfg_minimum_relative_gain_update (\<lambda>_. v))),
      (''runtime.maximum_threads_per_cpu'', Int_Setting (\<lambda>v. cfg_maximum_threads_per_cpu_update (\<lambda>_. v))),
      (''runtime.thread_slot_slack'', Int_Setting (\<lambda>v. cfg_thread_slot_slack_update (\<lambda>_. v))),
      (''runtime.future_demand_floor'', Double_Setting (\<lambda>v. cfg_future_demand_floor_update (\<lambda>_. v))),
      (''runtime.group_peak_demand_ratio'', Double_Setting (\<lambda>v. cfg_group_peak_demand_ratio_update (\<lambda>_. v))),
      (''runtime.group_peak_demand_cap'', Double_Setting (\<lambda>v. cfg_group_peak_demand_cap_update (\<lambda>_. v))),
      (''runtime.group_peak_decay'', Double_Setting (\<lambda>v. cfg_group_peak_decay_update (\<lambda>_. v))),
      (''runtime.node_balance_threshold'', Double_Setting (\<lambda>v. cfg_node_balance_threshold_update (\<lambda>_. v))),
      (''runtime.hotspot_edges_per_thread'', Int_Setting (\<lambda>v. cfg_hotspot_edges_per_thread_update (\<lambda>_. v))),
      (''runtime.hotspot_edge_quantile'', Double_Setting (\<lambda>v. cfg_hotspot_edge_quantile_update (\<lambda>_. v))),
      (''runtime.hotspot_component_boost'', Double_Setting (\<lambda>v. cfg_hotspot_component_boost_update (\<lambda>_. v))),
      (''runtime.maximum_managed_threads'', Int_Setting (\<lambda>v. cfg_maximum_managed_threads_update (\<lambda>_. v))),
      (''runtime.managed_thread_hysteresis_ratio'', Double_Setting (\<lambda>v. cfg_managed_thread_hysteresis_ratio_update (\<lambda>_. v))),
      (''runtime.hotspot_replan_growth_ratio'', Double_Setting (\<lambda>v. cfg_hotspot_replan_growth_ratio_update (\<lambda>_. v))),
      (''runtime.hotspot_replan_min_threads'', Int_Setting (\<lambda>v. cfg_hotspot_replan_min_threads_update (\<lambda>_. v))),
      (''runtime.hotspot_stability_threshold'', Double_Setting (\<lambda>v. cfg_hotspot_stability_threshold_update (\<lambda>_. v))),
      (''runtime.hotspot_stability_confirmations'', Int_Setting (\<lambda>v. cfg_hotspot_stability_confirmations_update (\<lambda>_. v))),
      (''runtime.active_demand_threshold'', Double_Setting (\<lambda>v. cfg_active_demand_threshold_update (\<lambda>_. v))),
      (''runtime.inactive_demand_threshold'', Double_Setting (\<lambda>v. cfg_inactive_demand_threshold_update (\<lambda>_. v))),
      (''collector.required'', Bool_Setting (\<lambda>v. cfg_bpf_required_update (\<lambda>_. v))),
      (''collector.pthread_uprobe'', Bool_Setting (\<lambda>v. cfg_pthread_uprobe_update (\<lambda>_. v))),
      (''calibration.id'', String_Setting (\<lambda>v. cfg_relationship_calibration_id_update (\<lambda>_. v))),
      (''calibration.activity_log_p95'', Double_Setting (\<lambda>v. cfg_activity_log_p95_update (\<lambda>_. v))),
      (''calibration.sync_log_p95'', Double_Setting (\<lambda>v. cfg_sync_log_p95_update (\<lambda>_. v))),
      (''calibration.share_log_p95'', Double_Setting (\<lambda>v. cfg_share_log_p95_update (\<lambda>_. v)))]"

definition parse_mode :: "string \<Rightarrow> mode result" where
  "parse_mode m =
     (if m = ''observe'' then Inr Observe
      else if m = ''plan'' then Inr Plan
      else if m = ''active'' then Inr Active
      else Inl (Runtime_Error ''mode must be observe, plan, or active''))"

text \<open>The effect of an assignment; the flag says that the file has set the CPUs.\<close>

definition apply_setting :: "setting \<Rightarrow> string \<Rightarrow> config \<times> bool \<Rightarrow> (config \<times> bool) result" where
  "apply_setting setting v st =
     (let (c, from_toml) = st in
      case setting of
        Mode_Setting \<Rightarrow>
          (case unquote v of Inl e \<Rightarrow> Inl e
           | Inr m \<Rightarrow> (case parse_mode m of Inl e \<Rightarrow> Inl e | Inr x \<Rightarrow> Inr (c\<lparr>cfg_mode := x\<rparr>, from_toml)))
      | Cpus_Setting \<Rightarrow>
          (case unquote v of Inl e \<Rightarrow> Inl e
           | Inr t \<Rightarrow> (case parse_cpu_list t of Inl e \<Rightarrow> Inl e | Inr x \<Rightarrow> Inr (c\<lparr>cfg_cpus := x\<rparr>, True)))
      | String_Setting f \<Rightarrow> (case unquote v of Inl e \<Rightarrow> Inl e | Inr x \<Rightarrow> Inr (f x c, from_toml))
      | Bool_Setting f \<Rightarrow> (case boolean v of Inl e \<Rightarrow> Inl e | Inr x \<Rightarrow> Inr (f x c, from_toml))
      | Int_Setting f \<Rightarrow> (case stoi v of Inl e \<Rightarrow> Inl e | Inr x \<Rightarrow> Inr (f x c, from_toml))
      | Double_Setting f \<Rightarrow> (case stod v of Inl e \<Rightarrow> Inl e | Inr x \<Rightarrow> Inr (f x c, from_toml)))"

section \<open>The file\<close>

definition config_sections :: "string list" where
  "config_sections = [''runtime'', ''resources'', ''collector'', ''calibration'']"

record config_reader =
  rd_line :: nat
  rd_section :: string
  rd_config :: "config \<times> bool"

definition read_assignment :: "string \<Rightarrow> config_reader \<Rightarrow> config_reader result" where
  "read_assignment line r =
     (if CHR ''='' \<notin> set line
      then Inl (Runtime_Error (''invalid TOML assignment at line '' @ show_nat (rd_line r)))
      else
        (let key = rd_section r @ ''.'' @ trim (takeWhile (\<lambda>c. c \<noteq> CHR ''='') line);
             v = trim (tl (dropWhile (\<lambda>c. c \<noteq> CHR ''='') line))
         in case map_of config_settings key of
              None \<Rightarrow> Inl (Runtime_Error (''unknown TOML key '' @ [CHR 0x27] @ key @ [CHR 0x27] @
                '' at line '' @ show_nat (rd_line r)))
            | Some s \<Rightarrow> (case apply_setting s v (rd_config r) of
                Inl e \<Rightarrow> Inl e | Inr x \<Rightarrow> Inr (r\<lparr>rd_config := x\<rparr>))))"

definition read_config_line :: "string \<Rightarrow> config_reader \<Rightarrow> config_reader result" where
  "read_config_line raw r0 =
     (let r = r0\<lparr>rd_line := rd_line r0 + 1\<rparr>;
          line = trim (takeWhile (\<lambda>c. c \<noteq> CHR ''#'') raw)
      in if line = [] then Inr r
         else if hd line = CHR ''['' \<and> last line = CHR '']''
         then (let s = butlast (tl line) in
               if s \<in> set config_sections then Inr (r\<lparr>rd_section := s\<rparr>)
               else Inl (Runtime_Error (''unknown TOML section at line '' @ show_nat (rd_line r))))
         else read_assignment line r)"

definition read_config :: "string \<Rightarrow> (config \<times> bool) result" where
  "read_config content =
     (case rfold read_config_line (getline_parts (CHR 0x0A) content)
        \<lparr>rd_line = 0, rd_section = [], rd_config = (new_config, False)\<rparr> of
        Inl e \<Rightarrow> Inl e
      | Inr r \<Rightarrow> Inr (rd_config r))"

section \<open>CPU envelope\<close>

text \<open>\<^verbatim>\<open>CPU_SETSIZE\<close> is 1024.\<close>

definition detect_allowed_cpus :: "(int \<Rightarrow> bool) option \<Rightarrow> int list result" where
  "detect_allowed_cpus aff =
     (case aff of
        None \<Rightarrow> Inl (Runtime_Error ''sched_getaffinity failed while detecting CPUs'')
      | Some m \<Rightarrow>
          (let cs = filter m [0..1023] in
           if cs = [] then Inl (Runtime_Error ''process CPU affinity mask is empty'') else Inr cs))"

definition set_env :: "(string \<Rightarrow> string option) \<Rightarrow> string \<Rightarrow> string option" where
  "set_env getenv name = (case getenv name of None \<Rightarrow> None | Some v \<Rightarrow> if v = [] then None else Some v)"

definition choose_cpus ::
  "(string \<Rightarrow> string option) \<Rightarrow> (int \<Rightarrow> bool) option \<Rightarrow> string \<Rightarrow> config \<times> bool \<Rightarrow> int list result" where
  "choose_cpus getenv aff cpu_override st =
     (if cpu_override \<noteq> [] then parse_cpu_list cpu_override
      else case set_env getenv ''AFFINITY_CPUS'' of
             Some v \<Rightarrow> parse_cpu_list v
           | None \<Rightarrow> if \<not> snd st then detect_allowed_cpus aff else Inr (cfg_cpus (fst st)))"

section \<open>Validation and loading\<close>

definition unsupported :: "config \<Rightarrow> bool" where
  "unsupported c \<longleftrightarrow>
     cfg_sample_interval_seconds c < 0 \<or> cfg_graph_horizon_seconds c < cfg_sample_interval_seconds c \<or>
     cfg_solve_interval_seconds c < cfg_sample_interval_seconds c \<or> cfg_minimum_confidence c < 0 \<or>
     1 < cfg_minimum_confidence c \<or> cfg_static_quiescence_seconds c < 1 \<or>
     cfg_static_scan_seconds c < 0 \<or> cfg_proposal_confirmations c < 1 \<or>
     cfg_initial_proposal_confirmations c < 1 \<or> cfg_minimum_dwell_seconds c < 0 \<or>
     cfg_maximum_migrated_threads_ratio c < 0 \<or> 1 < cfg_maximum_migrated_threads_ratio c \<or>
     cfg_initial_migrated_threads_ratio c \<le> 0 \<or> 1 < cfg_initial_migrated_threads_ratio c \<or>
     cfg_collector_failure_restore_seconds c < 1 \<or>
     cfg_solver c \<noteq> ''incremental-hotspot-v1'' \<and> cfg_solver c \<noteq> ''numa-domain-v1'' \<or>
     cfg_affinity_granularity c \<noteq> ''singleton_cpu'' \<and> cfg_affinity_granularity c \<noteq> ''numa_node_mask'' \<or>
     cfg_solver c = ''numa-domain-v1'' \<and> cfg_affinity_granularity c \<noteq> ''numa_node_mask'' \<or>
     cfg_family_minimum_demand c < 0 \<or> cfg_family_minimum_internal_relation c < 0 \<or>
     cfg_family_minimum_self_containment c < 0 \<or> 1 < cfg_family_minimum_self_containment c \<or>
     cfg_family_minimum_relative_internal c < 0 \<or> 1 < cfg_family_minimum_relative_internal c \<or>
     cfg_domain_merge_ratio c < 0 \<or> cfg_family_edges_per_family c < 1 \<or>
     cfg_family_stability_confirmations c < 1 \<or> cfg_domain_stability_confirmations c < 1 \<or>
     cfg_domain_plan_confirmations c < 1 \<or> cfg_maximum_threads_per_domain c < 1 \<or>
     cfg_domain_capacity_ratio c \<le> 0 \<or> 1 < cfg_domain_capacity_ratio c \<or>
     cfg_domain_expand_ratio c \<le> 0 \<or> 1 < cfg_domain_expand_ratio c \<or>
     cfg_domain_expand_confirmations c < 1 \<or> cfg_domain_shrink_ratio c < 0 \<or>
     cfg_domain_expand_ratio c \<le> cfg_domain_shrink_ratio c \<or> cfg_domain_shrink_confirmations c < 1 \<or>
     cfg_domain_minimum_dwell_seconds c < 0 \<or> cfg_initial_node_passes c < 1 \<or>
     8 < cfg_initial_node_passes c \<or> cfg_initial_node_thread_slack_ratio c < 0 \<or>
     1 < cfg_initial_node_thread_slack_ratio c \<or> cfg_candidate_multiplier c < 1 \<or>
     cfg_candidate_hard_limit c < 1 \<or> cfg_rotating_scan_size c < 1 \<or>
     cfg_demand_dirty_threshold c < 0 \<or> cfg_edge_dirty_absolute_threshold c < 0 \<or>
     cfg_edge_dirty_relative_threshold c < 0 \<or> cfg_minimum_relative_gain c < 0 \<or>
     1 < cfg_minimum_relative_gain c \<or> cfg_maximum_threads_per_cpu c < 0 \<or>
     cfg_thread_slot_slack c < 0 \<or> cfg_future_demand_floor c < 0 \<or> 1 < cfg_future_demand_floor c \<or>
     cfg_group_peak_demand_ratio c < 0 \<or> 1 < cfg_group_peak_demand_ratio c \<or>
     cfg_group_peak_demand_cap c < 0 \<or> 1 < cfg_group_peak_demand_cap c \<or>
     cfg_group_peak_decay c < 0 \<or> 1 < cfg_group_peak_decay c \<or> cfg_node_balance_threshold c < 0 \<or>
     1 < cfg_node_balance_threshold c \<or> cfg_hotspot_edges_per_thread c < 1 \<or>
     cfg_hotspot_edge_quantile c < 0 \<or> 1 < cfg_hotspot_edge_quantile c \<or>
     cfg_hotspot_component_boost c < 0 \<or> cfg_maximum_managed_threads c < 0 \<or>
     cfg_managed_thread_hysteresis_ratio c < 0 \<or> cfg_hotspot_replan_growth_ratio c < 0 \<or>
     1 < cfg_hotspot_replan_growth_ratio c \<or> cfg_hotspot_replan_min_threads c < 1 \<or>
     cfg_hotspot_stability_threshold c < 0 \<or> 1 < cfg_hotspot_stability_threshold c \<or>
     cfg_hotspot_stability_confirmations c < 1 \<or> cfg_active_demand_threshold c \<le> 0 \<or>
     1 < cfg_active_demand_threshold c \<or> cfg_inactive_demand_threshold c < 0 \<or>
     cfg_active_demand_threshold c \<le> cfg_inactive_demand_threshold c \<or>
     cfg_relationship_calibration_id c = [] \<or> cfg_activity_log_p95 c \<le> 0 \<or>
     cfg_sync_log_p95 c \<le> 0 \<or> cfg_share_log_p95 c \<le> 0"

definition load_config ::
  "string option \<Rightarrow> (string \<Rightarrow> string option) \<Rightarrow> (int \<Rightarrow> bool) option \<Rightarrow> string \<Rightarrow> string \<Rightarrow> config result" where
  "load_config file getenv aff path cpu_override =
     (case file of
        None \<Rightarrow> Inl (Runtime_Error (''cannot open config: '' @ path))
      | Some content \<Rightarrow>
          (case read_config content of
             Inl e \<Rightarrow> Inl e
           | Inr st \<Rightarrow>
               (case choose_cpus getenv aff cpu_override st of
                  Inl e \<Rightarrow> Inl e
                | Inr cs \<Rightarrow>
                    (let c1 = (fst st)\<lparr>cfg_cpus := cs\<rparr>;
                         c = (case set_env getenv ''AFFINITY_THREAD_PROFILE'' of
                                None \<Rightarrow> c1 | Some p \<Rightarrow> c1\<lparr>cfg_thread_profile_path := p\<rparr>)
                     in if cfg_cpus c = [] then Inl (Runtime_Error ''CPU envelope is empty'')
                        else if unsupported c
                        then Inl (Runtime_Error ''configuration value outside supported range'')
                        else Inr c))))"

section \<open>Options of the solvers\<close>

definition seconds_ns :: "int \<Rightarrow> uint64" where
  "seconds_ns s = word_of_int s * 1000000000"

definition domain_options_of :: "config \<Rightarrow> numa_domain_options" where
  "domain_options_of c =
     \<lparr>family_minimum_demand = cfg_family_minimum_demand c,
      family_minimum_internal_relation = cfg_family_minimum_internal_relation c,
      family_minimum_self_containment = cfg_family_minimum_self_containment c,
      family_minimum_relative_internal = cfg_family_minimum_relative_internal c,
      domain_merge_ratio = cfg_domain_merge_ratio c,
      family_edges_per_family = nat (cfg_family_edges_per_family c),
      family_stability_confirmations = cfg_family_stability_confirmations c,
      domain_stability_confirmations = cfg_domain_stability_confirmations c,
      plan_confirmations = cfg_domain_plan_confirmations c,
      maximum_threads_per_domain = nat (cfg_maximum_threads_per_domain c),
      capacity_ratio = cfg_domain_capacity_ratio c, expand_ratio = cfg_domain_expand_ratio c,
      opt_expand_confirmations = cfg_domain_expand_confirmations c,
      shrink_ratio = cfg_domain_shrink_ratio c, opt_shrink_confirmations = cfg_domain_shrink_confirmations c,
      minimum_dwell_ns = seconds_ns (cfg_domain_minimum_dwell_seconds c)\<rparr>"

definition incremental_options_of :: "config \<Rightarrow> incremental_options" where
  "incremental_options_of c =
     \<lparr>maximum_migrated_threads_ratio = cfg_maximum_migrated_threads_ratio c,
      initial_migrated_threads_ratio = cfg_initial_migrated_threads_ratio c,
      proposal_confirmations = cfg_proposal_confirmations c,
      initial_proposal_confirmations = cfg_initial_proposal_confirmations c,
      io_minimum_dwell_ns = seconds_ns (cfg_minimum_dwell_seconds c),
      initial_node_passes = cfg_initial_node_passes c,
      initial_node_thread_slack_ratio = cfg_initial_node_thread_slack_ratio c,
      candidate_multiplier = cfg_candidate_multiplier c, candidate_hard_limit = cfg_candidate_hard_limit c,
      rotating_scan_size = cfg_rotating_scan_size c, demand_dirty_threshold = cfg_demand_dirty_threshold c,
      edge_dirty_absolute_threshold = cfg_edge_dirty_absolute_threshold c,
      edge_dirty_relative_threshold = cfg_edge_dirty_relative_threshold c,
      minimum_relative_gain = cfg_minimum_relative_gain c,
      maximum_threads_per_cpu = cfg_maximum_threads_per_cpu c, thread_slot_slack = cfg_thread_slot_slack c,
      future_demand_floor = cfg_future_demand_floor c, group_peak_demand_ratio = cfg_group_peak_demand_ratio c,
      group_peak_demand_cap = cfg_group_peak_demand_cap c, group_peak_decay = cfg_group_peak_decay c,
      node_balance_threshold = cfg_node_balance_threshold c,
      hotspot_edges_per_thread = nat (cfg_hotspot_edges_per_thread c),
      hotspot_edge_quantile = cfg_hotspot_edge_quantile c,
      hotspot_component_boost = cfg_hotspot_component_boost c,
      maximum_managed_threads = cfg_maximum_managed_threads c,
      managed_thread_hysteresis_ratio = cfg_managed_thread_hysteresis_ratio c,
      hotspot_replan_growth_ratio = cfg_hotspot_replan_growth_ratio c,
      hotspot_replan_min_threads = nat (cfg_hotspot_replan_min_threads c),
      hotspot_stability_threshold = cfg_hotspot_stability_threshold c,
      opt_hotspot_stability_confirmations = cfg_hotspot_stability_confirmations c\<rparr>"

section \<open>Lemmas\<close>

lemma load_config_accepted:
  assumes "load_config file getenv aff path cpu_override = Inr c"
  obtains content st where "file = Some content" "read_config content = Inr st"
    "choose_cpus getenv aff cpu_override st = Inr (cfg_cpus c)" "\<not> unsupported c"
    "c = (fst st)\<lparr>cfg_cpus := cfg_cpus c, cfg_thread_profile_path := cfg_thread_profile_path c\<rparr>"
  using assms by (auto simp: load_config_def Let_def split: option.splits sum.splits if_splits)

text \<open>A property of the configuration that no assignment of the file can break.\<close>

definition setting_keeps :: "(config \<times> bool \<Rightarrow> bool) \<Rightarrow> setting \<Rightarrow> bool" where
  "setting_keeps P s \<longleftrightarrow> (\<forall>v st st'. P st \<longrightarrow> apply_setting s v st = Inr st' \<longrightarrow> P st')"

lemma read_config_inv:
  assumes "P (new_config, False)" "\<forall>(k, s) \<in> set config_settings. setting_keeps P s" "read_config content = Inr st"
  shows "P st"
proof -
  have step: "P (rd_config r')" if "P (rd_config r)" "read_config_line l r = Inr r'" for l r r'
  proof -
    have "rd_config r' = rd_config r \<or> (\<exists>k s v. map_of config_settings k = Some s \<and>
        apply_setting s v (rd_config r) = Inr (rd_config r'))"
      using that(2)
      by (auto simp: read_config_line_def read_assignment_def Let_def split: if_splits option.splits sum.splits)
    moreover have "setting_keeps P s" if "map_of config_settings k = Some s" for k s
      using assms(2) map_of_SomeD [OF that] by auto
    ultimately show ?thesis using that(1) unfolding setting_keeps_def by metis
  qed
  obtain r where "rfold read_config_line (getline_parts (CHR 0x0A) content)
      \<lparr>rd_line = 0, rd_section = [], rd_config = (new_config, False)\<rparr> = Inr r" "st = rd_config r"
    using assms(3) by (auto simp: read_config_def split: sum.splits)
  then show ?thesis using rfold_inv [where P = "\<lambda>r. P (rd_config r)"] step assms(1) by fastforce
qed

lemma setting_keeps_intros:
  "(\<And>c b x. P (c, b) \<Longrightarrow> P (c\<lparr>cfg_mode := x\<rparr>, b)) \<Longrightarrow> setting_keeps P Mode_Setting"
  "(\<And>c b t x. P (c, b) \<Longrightarrow> parse_cpu_list t = Inr x \<Longrightarrow> P (c\<lparr>cfg_cpus := x\<rparr>, True)) \<Longrightarrow> setting_keeps P Cpus_Setting"
  "(\<And>c b x. P (c, b) \<Longrightarrow> P (f x c, b)) \<Longrightarrow> setting_keeps P (String_Setting f)"
  "(\<And>c b x. P (c, b) \<Longrightarrow> P (g x c, b)) \<Longrightarrow> setting_keeps P (Bool_Setting g)"
  "(\<And>c b x. P (c, b) \<Longrightarrow> int_min \<le> x \<Longrightarrow> x \<le> int_max \<Longrightarrow> P (h x c, b)) \<Longrightarrow> setting_keeps P (Int_Setting h)"
  "(\<And>c b x. P (c, b) \<Longrightarrow> P (k x c, b)) \<Longrightarrow> setting_keeps P (Double_Setting k)"
  by (auto simp: setting_keeps_def apply_setting_def Let_def stoi_def split: prod.splits sum.splits if_splits)

definition reader_ok :: "config \<times> bool \<Rightarrow> bool" where
  "reader_ok st \<longleftrightarrow>
     (snd st \<longrightarrow> cfg_cpus (fst st) \<noteq> [] \<and> swf (cfg_cpus (fst st)) \<and> set (cfg_cpus (fst st)) \<subseteq> {0..max_cpu}) \<and>
     cfg_minimum_dwell_seconds (fst st) \<le> int_max \<and> cfg_domain_minimum_dwell_seconds (fst st) \<le> int_max"

lemma reader_ok_settings: "\<forall>(k, s) \<in> set config_settings. setting_keeps reader_ok s"
  unfolding config_settings_def list.set ball_simps prod.case
  by (intro conjI TrueI; rule setting_keeps_intros; simp add: reader_ok_def parse_cpu_list_swf)

lemma reader_ok_start: "reader_ok (new_config, False)"
  by (simp add: reader_ok_def new_config_def int_max_def)

lemma reader_ok_read: "read_config t = Inr st \<Longrightarrow> reader_ok st"
  using read_config_inv [of reader_ok] reader_ok_settings reader_ok_start by blast

lemma detect_allowed_swf:
  assumes "detect_allowed_cpus aff = Inr cs"
  shows "cs \<noteq> [] \<and> swf cs \<and> set cs \<subseteq> {0..max_cpu}"
proof -
  have "sorted_wrt (<) [0..1023 :: int]" by (simp add: sorted_wrt_upto)
  then show ?thesis
    using assms by (auto simp: detect_allowed_cpus_def Let_def swf_def max_cpu_def sorted_wrt_filter split: option.splits if_splits)
qed

lemma choose_cpus_swf:
  "choose_cpus getenv aff ov st = Inr cs \<Longrightarrow> reader_ok st \<Longrightarrow> cs \<noteq> [] \<and> swf cs \<and> set cs \<subseteq> {0..max_cpu}"
  by (auto simp: choose_cpus_def reader_ok_def split: if_splits option.splits dest: parse_cpu_list_swf detect_allowed_swf)

lemma seconds_ns_exact:
  assumes "0 \<le> s" "s \<le> int_max"
  shows "unat (seconds_ns s) = nat s * 1000000000"
proof -
  have "unat (word_of_int s :: uint64) = nat s"
    using assms by (simp add: int_max_def unat_eq_nat_uint uint_word_of_int)
  then show ?thesis
    using assms by (simp add: seconds_ns_def unat_word_ariths int_max_def)
qed

section \<open>Properties\<close>

text \<open>
  A configuration that loads has a CPU envelope that is non-empty, strictly increasing and
  in the supported range. A CPU list on the command line decides it alone, otherwise a
  non-empty \<^verbatim>\<open>AFFINITY_CPUS\<close> does, whatever the file says.
\<close>

theorem load_config_envelope:
  assumes "load_config file getenv aff path cpu_override = Inr c"
  shows "cfg_cpus c \<noteq> [] \<and> sorted_wrt (<) (cfg_cpus c) \<and> set (cfg_cpus c) \<subseteq> {0..1048575} \<and>
    (cpu_override \<noteq> [] \<longrightarrow> parse_cpu_list cpu_override = Inr (cfg_cpus c)) \<and>
    (cpu_override = [] \<longrightarrow> (\<forall>v. getenv ''AFFINITY_CPUS'' = Some v \<and> v \<noteq> [] \<longrightarrow> parse_cpu_list v = Inr (cfg_cpus c)))"
proof (rule load_config_accepted [OF assms])
  fix content st
  assume run: "read_config content = Inr st" "choose_cpus getenv aff cpu_override st = Inr (cfg_cpus c)"
  have "cfg_cpus c \<noteq> [] \<and> swf (cfg_cpus c) \<and> set (cfg_cpus c) \<subseteq> {0..max_cpu}"
    using choose_cpus_swf [OF run(2) reader_ok_read [OF run(1)]] .
  then show ?thesis
    using run(2) by (auto simp: swf_def max_cpu_def choose_cpus_def set_env_def split: if_splits option.splits)
qed

definition sample_config_file :: string where
  "sample_config_file =
     ''[runtime]'' @ [CHR 0x0A] @ ''minimum_dwell_seconds = 5 # short'' @ [CHR 0x0A] @
     ''[resources]'' @ [CHR 0x0A] @ ''cpus = '' @ [CHR 0x22] @ ''0-3'' @ [CHR 0x22] @ [CHR 0x0A]"

definition sample_config :: config where
  "sample_config = new_config\<lparr>cfg_minimum_dwell_seconds := 5, cfg_cpus := [1, 2]\<rparr>"

definition sample_env :: "string \<Rightarrow> string option" where
  "sample_env name = (if name = ''AFFINITY_CPUS'' then Some ''1-2'' else None)"

lemma sample_config_load: "load_config (Some sample_config_file) sample_env None ''f'' [] = Inr sample_config"
  by code_simp

theorem load_config_envelope_witness:
  "load_config (Some sample_config_file) sample_env None ''f'' [] = Inr sample_config \<and>
   parse_cpu_list ''1-2'' = Inr (cfg_cpus sample_config)"
  using load_config_envelope [OF sample_config_load] sample_config_load by (simp add: sample_env_def)



end
