(* ===== verification/Thread_Profile.thy ===== *)
theory Thread_Profile
  imports Cpu_List Topology Core_Types
begin

text \<open>
  Thread profiles, \<^verbatim>\<open>src/thread_profile.cpp\<close> and its header: reading a profile with searches for
  \<^verbatim>\<open>"key": value\<close> in the text, the checks on its rules, matching threads against rules, and
  writing a profile.

  The regular expressions of the source are written out as searches: the first position at
  which the quoted key, a colon and a value of the right form follow each other. The text of
  a file is given (nothing when it cannot be opened); \<open>show_double\<close> is the decimal format of
  \<^verbatim>\<open>operator<<\<close> for \<^verbatim>\<open>double\<close>. \<^verbatim>\<open>std::binary_search\<close> runs on lists that are sorted here (CPU lists
  and envelopes), so it is membership.
\<close>

section \<open>Profiles\<close>

record thread_profile_match =
  m_comm :: "string option"
  m_comm_prefix :: "string option"
  m_cgroup :: "string option"
  m_cgroup_prefix :: "string option"
  m_tid :: "int option"

record thread_profile_rule =
  rule_id :: string
  rule_match :: thread_profile_match
  rule_allowed_cpus :: cpu_mask
  rule_affinities :: "cpu_mask list"
  rule_dynamic :: bool

record thread_profile_dynamic =
  dyn_enabled :: bool
  small_step_threads :: int
  large_change_ratio :: double
  large_step_threads :: int
  cooldown_seconds :: int

record thread_profile =
  schema_version :: int
  profile_id :: string
  generated_at :: string
  pf_status :: string
  source_commit :: string
  experiment_id :: string
  test_id :: string
  description :: string
  pf_dynamic :: thread_profile_dynamic
  placements :: "thread_profile_rule list"

record profile_assignment_record =
  as_rule_id :: string
  instance_number :: nat
  target_cpus :: cpu_mask
  as_allowed_cpus :: cpu_mask
  as_dynamic :: bool

section \<open>Fields of a JSON text\<close>

abbreviation quote_char :: char where
  "quote_char \<equiv> CHR 0x22"

abbreviation backslash :: char where
  "backslash \<equiv> CHR 0x5C"

definition quoted :: "string \<Rightarrow> string" where
  "quoted s = quote_char # s @ [quote_char]"

text \<open>What follows a prefix of the text.\<close>

fun after_prefix :: "string \<Rightarrow> string \<Rightarrow> string option" where
  "after_prefix [] s = Some s"
| "after_prefix (p # ps) [] = None"
| "after_prefix (p # ps) (c # cs) = (if p = c then after_prefix ps cs else None)"

text \<open>The quoted key, white space, a colon and white space.\<close>

definition match_key :: "string \<Rightarrow> string \<Rightarrow> string option" where
  "match_key key s =
     (case after_prefix (quoted key) s of
        None \<Rightarrow> None
      | Some r \<Rightarrow> (case dropWhile isspace r of
           [] \<Rightarrow> None
         | c # r' \<Rightarrow> if c = CHR '':'' then Some (dropWhile isspace r') else None))"

text \<open>\<^verbatim>\<open>std::regex_search\<close> for a key and a value read by \<open>val\<close>.\<close>

fun search_field :: "(string \<Rightarrow> 'a option) \<Rightarrow> string \<Rightarrow> string \<Rightarrow> 'a option" where
  "search_field val key [] = None"
| "search_field val key (c # cs) =
     (case match_key key (c # cs) of
        None \<Rightarrow> search_field val key cs
      | Some r \<Rightarrow> (case val r of None \<Rightarrow> search_field val key cs | Some v \<Rightarrow> Some v))"

definition string_value :: "string \<Rightarrow> string option option" where
  "string_value r =
     (if after_prefix ''null'' r \<noteq> None then Some None
      else case r of
        [] \<Rightarrow> None
      | c # r' \<Rightarrow>
          if c = quote_char \<and> quote_char \<in> set r' then Some (Some (takeWhile (\<lambda>x. x \<noteq> quote_char) r')) else None)"

definition string_field :: "string \<Rightarrow> string \<Rightarrow> string option" where
  "string_field s key = (case search_field string_value key s of None \<Rightarrow> None | Some v \<Rightarrow> v)"

definition string_field_or :: "string \<Rightarrow> string \<Rightarrow> string" where
  "string_field_or s key = (case string_field s key of None \<Rightarrow> [] | Some v \<Rightarrow> v)"

text \<open>An optional sign, digits, and a fraction when digits follow the point.\<close>

definition number_value :: "string \<Rightarrow> string option" where
  "number_value r =
     (let sign = (case r of [] \<Rightarrow> [] | c # r' \<Rightarrow> if c = CHR ''-'' \<or> c = CHR ''+'' then [c] else []);
          u = drop (length sign) r;
          ds = takeWhile isdigit u;
          rest = dropWhile isdigit u;
          fd = (case rest of [] \<Rightarrow> [] | c # r' \<Rightarrow> if c = CHR ''.'' then takeWhile isdigit r' else [])
      in if ds = [] then None
         else Some (sign @ ds @ (if fd = [] then [] else CHR ''.'' # fd)))"

definition field_missing :: "string \<Rightarrow> exn" where
  "field_missing key = Runtime_Error (''profile field missing: '' @ key)"

text \<open>\<^verbatim>\<open>std::stoll\<close> and the conversion to \<^verbatim>\<open>int\<close>, which keeps the low 32 bits.\<close>

definition stoll :: "string \<Rightarrow> int result" where
  "stoll s =
     (let (neg, u) = decimal_sign s; v = digits_value (takeWhile isdigit u); w = (if neg then - v else v)
      in if w < - (2 ^ 63) \<or> 2 ^ 63 \<le> w then Inl (Out_Of_Range ''stoll'') else Inr w)"

definition as_int :: "int \<Rightarrow> int" where
  "as_int v = (v + 2 ^ 31) mod 2 ^ 32 - 2 ^ 31"

definition int_field :: "string \<Rightarrow> string \<Rightarrow> int result" where
  "int_field s key =
     (case search_field number_value key s of
        None \<Rightarrow> Inl (field_missing key)
      | Some n \<Rightarrow> rbind (stoll n) (\<lambda>v. Inr (as_int v)))"

definition double_field :: "string \<Rightarrow> string \<Rightarrow> double result" where
  "double_field s key =
     (case search_field number_value key s of None \<Rightarrow> Inl (field_missing key) | Some n \<Rightarrow> stod n)"

definition bool_value :: "string \<Rightarrow> bool option" where
  "bool_value r =
     (if after_prefix ''true'' r \<noteq> None then Some True
      else if after_prefix ''false'' r \<noteq> None then Some False else None)"

definition bool_field :: "string \<Rightarrow> string \<Rightarrow> bool result" where
  "bool_field s key =
     (case search_field bool_value key s of None \<Rightarrow> Inl (field_missing key) | Some b \<Rightarrow> Inr b)"

section \<open>Containers\<close>

text \<open>The text from the first occurrence of a string on.\<close>

fun find_from :: "string \<Rightarrow> string \<Rightarrow> string option" where
  "find_from p [] = (if p = [] then Some [] else None)"
| "find_from p (c # cs) = (if after_prefix p (c # cs) \<noteq> None then Some (c # cs) else find_from p cs)"

text \<open>
  The loop over the container: \<open>prev\<close> is the character before, \<open>acc\<close> the characters from the
  opening bracket on, last first.
\<close>

fun scan_container :: "char \<Rightarrow> char \<Rightarrow> char \<Rightarrow> int \<Rightarrow> bool \<Rightarrow> string \<Rightarrow> string \<Rightarrow> string option" where
  "scan_container opn cls prev depth inq acc [] = None"
| "scan_container opn cls prev depth inq acc (c # cs) =
     (let inq' = (if c = quote_char \<and> prev \<noteq> backslash then \<not> inq else inq);
          d1 = (if c = opn then depth + 1 else depth);
          d2 = (if c = cls then d1 - 1 else d1)
      in if inq' then scan_container opn cls c depth inq' (c # acc) cs
         else if c = cls \<and> d2 = 0 then Some (tl (rev acc))
         else scan_container opn cls c d2 inq' (c # acc) cs)"

definition object_after :: "string \<Rightarrow> string \<Rightarrow> char \<Rightarrow> char \<Rightarrow> string result" where
  "object_after s key opn cls =
     (case find_from (quoted key) s of
        None \<Rightarrow> Inl (field_missing key)
      | Some r \<Rightarrow>
          (case dropWhile (\<lambda>c. c \<noteq> opn) r of
             [] \<Rightarrow> Inl (Runtime_Error (''profile container invalid: '' @ key))
           | t \<Rightarrow> (case scan_container opn cls quote_char 0 False [] t of
                None \<Rightarrow> Inl (Runtime_Error (''profile container unterminated: '' @ key))
              | Some v \<Rightarrow> Inr v)))"

fun scan_objects :: "char \<Rightarrow> int \<Rightarrow> bool \<Rightarrow> string \<Rightarrow> string \<Rightarrow> string list" where
  "scan_objects prev depth inq acc [] = []"
| "scan_objects prev depth inq acc (c # cs) =
     (let inq' = (if c = quote_char \<and> prev \<noteq> backslash then \<not> inq else inq) in
      if inq' then scan_objects c depth inq' (c # acc) cs
      else if c = CHR ''{'' then scan_objects c (depth + 1) inq' (if depth = 0 then [c] else c # acc) cs
      else if c = CHR ''}''
      then (let rest = scan_objects c (depth - 1) inq' (c # acc) cs in
            if depth - 1 = 0 then rev (c # acc) # rest else rest)
      else scan_objects c depth inq' (c # acc) cs)"

text \<open>The character before the first one is not read (\<^verbatim>\<open>i == 0\<close>), which any character but a backslash models.\<close>

definition json_objects :: "string \<Rightarrow> string list" where
  "json_objects s = scan_objects (CHR '' '') 0 False [] s"

section \<open>Checks on a rule\<close>

definition mask_subset :: "cpu_mask \<Rightarrow> cpu_mask \<Rightarrow> bool" where
  "mask_subset left right = list_all (\<lambda>c. c \<in> set right) left"

definition validate_rule :: "thread_profile_rule \<Rightarrow> cpu_mask \<Rightarrow> unit result" where
  "validate_rule rule envelope =
     (let m = rule_match rule in
      if rule_id rule = [] \<or> rule_affinities rule = [] \<or> rule_allowed_cpus rule = []
      then Inl (Runtime_Error ''profile rule requires id, allowed_cpus, and affinities'')
      else if m_comm m \<noteq> None \<and> m_comm_prefix m \<noteq> None \<or>
              m_cgroup m \<noteq> None \<and> m_cgroup_prefix m \<noteq> None \<or>
              m_comm m = None \<and> m_comm_prefix m = None \<and> m_cgroup m = None \<and> m_cgroup_prefix m = None \<and> m_tid m = None
      then Inl (Runtime_Error (''profile rule has invalid match fields: '' @ rule_id rule))
      else if \<not> mask_subset (rule_allowed_cpus rule) envelope
      then Inl (Runtime_Error (''profile allowed_cpus outside resource envelope: '' @ rule_id rule))
      else if length (rule_affinities rule) \<noteq> 1
      then Inl (Runtime_Error (''profile rule must have exactly one affinity: '' @ rule_id rule))
      else if hd (rule_affinities rule) = [] \<or> \<not> mask_subset (hd (rule_affinities rule)) (rule_allowed_cpus rule)
      then Inl (Runtime_Error (''profile affinity is invalid: '' @ rule_id rule))
      else Inr ())"

section \<open>Loading\<close>

text \<open>The digits of a \<^verbatim>\<open>tid\<close> and \<^verbatim>\<open>std::stoi\<close> of them.\<close>

definition digits_of_value :: "string \<Rightarrow> string option" where
  "digits_of_value r = (let ds = takeWhile isdigit r in if ds = [] then None else Some ds)"

definition load_tid :: "string \<Rightarrow> int option result" where
  "load_tid m =
     (case search_field digits_of_value ''tid'' m of
        None \<Rightarrow> Inr None
      | Some ds \<Rightarrow> rbind (stoi ds) (\<lambda>t. Inr (Some t)))"

definition load_rule :: "string \<Rightarrow> thread_profile_rule result" where
  "load_rule node =
     rbind (object_after node ''match'' (CHR ''{'') (CHR ''}'')) (\<lambda>m.
     rbind (load_tid m) (\<lambda>t.
     rbind (parse_cpu_list (string_field_or node ''allowed_cpus'')) (\<lambda>allowed.
     rbind (bool_field node ''dynamic'') (\<lambda>dyn.
     rbind (object_after node ''affinities'' (CHR ''['') (CHR '']'')) (\<lambda>affs.
     rbind (rmap (\<lambda>a. parse_cpu_list (string_field_or a ''cpus'')) (json_objects affs)) (\<lambda>cs.
       Inr \<lparr>rule_id = string_field_or node ''id'',
            rule_match = \<lparr>m_comm = string_field m ''comm'', m_comm_prefix = string_field m ''comm_prefix'',
              m_cgroup = string_field m ''cgroup'', m_cgroup_prefix = string_field m ''cgroup_prefix'', m_tid = t\<rparr>,
            rule_allowed_cpus = allowed, rule_affinities = cs, rule_dynamic = dyn\<rparr>))))))"

text \<open>The loop over the placements: the identifiers seen and the rules accepted so far.\<close>

definition add_rule ::
  "cpu_mask \<Rightarrow> string \<Rightarrow> string oset \<times> thread_profile_rule list \<Rightarrow> (string oset \<times> thread_profile_rule list) result" where
  "add_rule envelope node st =
     rbind (load_rule node) (\<lambda>rule.
       if rule_id rule \<in> set (fst st) then Inl (Runtime_Error (''duplicate profile rule id: '' @ rule_id rule))
       else rbind (validate_rule rule envelope) (\<lambda>_. Inr (sput (rule_id rule) (fst st), snd st @ [rule])))"

definition load_dynamic :: "string \<Rightarrow> thread_profile_dynamic result" where
  "load_dynamic d =
     rbind (bool_field d ''enabled'') (\<lambda>e.
     rbind (int_field d ''small_step_threads'') (\<lambda>s.
     rbind (double_field d ''large_change_ratio'') (\<lambda>r.
     rbind (int_field d ''large_step_threads'') (\<lambda>l.
     rbind (int_field d ''cooldown_seconds'') (\<lambda>c.
       Inr \<lparr>dyn_enabled = e, small_step_threads = s, large_change_ratio = r, large_step_threads = l,
            cooldown_seconds = c\<rparr>)))))"

definition load_metadata :: "string \<Rightarrow> thread_profile result" where
  "load_metadata doc =
     rbind (int_field doc ''schema_version'') (\<lambda>v.
     rbind (object_after doc ''source'' (CHR ''{'') (CHR ''}'')) (\<lambda>src.
     rbind (object_after doc ''applicability'' (CHR ''{'') (CHR ''}'')) (\<lambda>app.
     rbind (object_after doc ''dynamic'' (CHR ''{'') (CHR ''}'')) (\<lambda>d.
     rbind (load_dynamic d) (\<lambda>dyn.
       Inr \<lparr>schema_version = v, profile_id = string_field_or doc ''profile_id'',
            generated_at = string_field_or doc ''generated_at'', pf_status = string_field_or doc ''status'',
            source_commit = string_field_or src ''commit'', experiment_id = string_field_or src ''experiment_id'',
            test_id = string_field_or src ''test_id'', description = string_field_or app ''description'',
            pf_dynamic = dyn, placements = []\<rparr>)))))"

definition metadata_supported :: "thread_profile \<Rightarrow> bool" where
  "metadata_supported p \<longleftrightarrow>
     \<not> ((schema_version p \<noteq> 1 \<and> schema_version p \<noteq> 2) \<or> profile_id p = [] \<or> generated_at p = [] \<or>
        (pf_status p \<noteq> ''candidate'' \<and> pf_status p \<noteq> ''tested'') \<or>
        small_step_threads (pf_dynamic p) < 1 \<or>
        large_step_threads (pf_dynamic p) < small_step_threads (pf_dynamic p) \<or>
        large_change_ratio (pf_dynamic p) \<le> 0 \<or> 1 < large_change_ratio (pf_dynamic p) \<or>
        cooldown_seconds (pf_dynamic p) < 0)"

definition load_thread_profile :: "string option \<Rightarrow> string \<Rightarrow> cpu_mask \<Rightarrow> thread_profile result" where
  "load_thread_profile file path envelope =
     (case file of
        None \<Rightarrow> Inl (Runtime_Error (''cannot open thread profile: '' @ path))
      | Some doc \<Rightarrow>
          rbind (load_metadata doc) (\<lambda>p.
            if \<not> metadata_supported p then Inl (Runtime_Error ''thread profile has unsupported metadata'')
            else rbind (object_after doc ''placements'' (CHR ''['') (CHR '']'')) (\<lambda>pl.
                 rbind (rfold (add_rule envelope) (json_objects pl) ([], [])) (\<lambda>st.
                   Inr (p\<lparr>placements := snd st\<rparr>)))))"

section \<open>Matching\<close>

definition has_cgroup :: "thread_sample \<Rightarrow> string \<Rightarrow> bool \<Rightarrow> bool" where
  "has_cgroup sample v prefix =
     list_ex (\<lambda>path. if prefix then after_prefix v path \<noteq> None else path = v) (cgroups sample)"

definition optional_holds :: "('a \<Rightarrow> bool) \<Rightarrow> 'a option \<Rightarrow> bool" where
  "optional_holds P x = (case x of None \<Rightarrow> True | Some v \<Rightarrow> P v)"

definition profile_rule_matches :: "thread_profile_rule \<Rightarrow> thread_sample \<Rightarrow> bool" where
  "profile_rule_matches rule sample \<longleftrightarrow>
     (let m = rule_match rule in
      optional_holds (\<lambda>v. comm sample = v) (m_comm m) \<and>
      optional_holds (\<lambda>v. after_prefix v (comm sample) \<noteq> None) (m_comm_prefix m) \<and>
      optional_holds (\<lambda>v. has_cgroup sample v False) (m_cgroup m) \<and>
      optional_holds (\<lambda>v. has_cgroup sample v True) (m_cgroup_prefix m) \<and>
      optional_holds (\<lambda>v. tid (ts_identity sample) = v) (m_tid m))"

record assignments =
  next_instances :: "(string, nat) omap"
  assigned_profiles :: "(thread_identity, profile_assignment_record) omap"

definition profile_assignment ::
  "thread_profile \<Rightarrow> thread_sample \<Rightarrow> assignments \<Rightarrow> profile_assignment_record option \<times> assignments" where
  "profile_assignment profile sample as =
     (case map_of (assigned_profiles as) (ts_identity sample) of
        Some a \<Rightarrow> (Some a, as)
      | None \<Rightarrow>
          (case find (\<lambda>r. profile_rule_matches r sample) (placements profile) of
             None \<Rightarrow> (None, as)
           | Some r \<Rightarrow>
               (let i = mgetd 0 (next_instances as) (rule_id r);
                    a = \<lparr>as_rule_id = rule_id r, instance_number = i, target_cpus = hd (rule_affinities r),
                         as_allowed_cpus = rule_allowed_cpus r, as_dynamic = rule_dynamic r\<rparr>
                in (Some a, \<lparr>next_instances = mput (rule_id r) (i + 1) (next_instances as),
                             assigned_profiles = mput (ts_identity sample) a (assigned_profiles as)\<rparr>))))"

section \<open>Writing\<close>

definition esc :: "string \<Rightarrow> string" where
  "esc v = concat (map (\<lambda>c. if c = quote_char \<or> c = backslash then [backslash, c]
     else if c = CHR 0x0A then [backslash, CHR ''n''] else if 32 \<le> (of_char c :: nat) then [c] else []) v)"

definition json_pair :: "string \<Rightarrow> string \<Rightarrow> string" where
  "json_pair key v = quoted key @ '': '' @ v"

definition optional_json :: "string option \<Rightarrow> string" where
  "optional_json v = (case v of None \<Rightarrow> ''null'' | Some s \<Rightarrow> quoted (esc s))"

definition show_bool :: "bool \<Rightarrow> string" where
  "show_bool b = (if b then ''true'' else ''false'')"

fun separated :: "string \<Rightarrow> string list \<Rightarrow> string" where
  "separated s [] = []"
| "separated s [x] = x"
| "separated s (x # y # xs) = x @ s @ separated s (y # xs)"

definition write_rule :: "thread_profile_rule \<Rightarrow> string" where
  "write_rule rule =
     (let m = rule_match rule in
      ''    {'' @ json_pair ''id'' (quoted (esc (rule_id rule))) @ '', '' @ quoted ''match'' @ '': {'' @
      json_pair ''comm'' (optional_json (m_comm m)) @ '', '' @
      json_pair ''comm_prefix'' (optional_json (m_comm_prefix m)) @ '', '' @
      json_pair ''cgroup'' (optional_json (m_cgroup m)) @ '', '' @
      json_pair ''cgroup_prefix'' (optional_json (m_cgroup_prefix m)) @ '', '' @
      json_pair ''tid'' (case m_tid m of None \<Rightarrow> ''null'' | Some t \<Rightarrow> show_int t) @ ''}, '' @
      json_pair ''allowed_cpus'' (quoted (format_cpu_list (rule_allowed_cpus rule))) @ '', '' @
      json_pair ''dynamic'' (show_bool (rule_dynamic rule)) @ '', '' @ quoted ''affinities'' @ '': ['' @
      separated '','' (map (\<lambda>a. ''{'' @ json_pair ''cpus'' (quoted (format_cpu_list a)) @ ''}'') (rule_affinities rule)) @
      '']}'')"

definition write_dynamic :: "(double \<Rightarrow> string) \<Rightarrow> thread_profile_dynamic \<Rightarrow> string" where
  "write_dynamic show_double d =
     ''{'' @ json_pair ''enabled'' (show_bool (dyn_enabled d)) @ '', '' @
     json_pair ''small_step_threads'' (show_int (small_step_threads d)) @ '', '' @
     json_pair ''large_change_ratio'' (show_double (large_change_ratio d)) @ '', '' @
     json_pair ''large_step_threads'' (show_int (large_step_threads d)) @ '', '' @
     json_pair ''cooldown_seconds'' (show_int (cooldown_seconds d)) @ ''}''"

definition newline :: string where
  "newline = [CHR 0x0A]"

definition write_thread_profile :: "(double \<Rightarrow> string) \<Rightarrow> thread_profile \<Rightarrow> string" where
  "write_thread_profile show_double p =
     ''{'' @ newline @ ''  '' @ json_pair ''schema_version'' ''2'' @ '','' @ newline @
     ''  '' @ json_pair ''profile_id'' (quoted (esc (profile_id p))) @ '','' @ newline @
     ''  '' @ json_pair ''generated_at'' (quoted (esc (generated_at p))) @ '','' @ newline @
     ''  '' @ json_pair ''status'' (quoted (esc (pf_status p))) @ '','' @ newline @
     ''  '' @ quoted ''source'' @ '': {'' @ json_pair ''commit'' (quoted (esc (source_commit p))) @ '', '' @
       json_pair ''experiment_id'' (quoted (esc (experiment_id p))) @ '', '' @
       json_pair ''test_id'' (quoted (esc (test_id p))) @ ''},'' @ newline @
     ''  '' @ quoted ''applicability'' @ '': {'' @ json_pair ''description'' (quoted (esc (description p))) @ '', '' @
       quoted ''similarity'' @ '': {'' @ json_pair ''metric'' (quoted []) @ '', '' @ json_pair ''threshold'' ''null'' @ '', '' @
       json_pair ''reported_gap'' ''null'' @ ''}},'' @ newline @
     ''  '' @ quoted ''dynamic'' @ '': '' @ write_dynamic show_double (pf_dynamic p) @ '','' @ newline @
     ''  '' @ quoted ''placements'' @ '': ['' @ newline @
     separated ('','' @ newline) (map write_rule (placements p)) @
     (if placements p = [] then [] else newline) @ ''  ]'' @ newline @ ''}'' @ newline"

section \<open>Accepted rules\<close>

definition rule_ok :: "cpu_mask \<Rightarrow> thread_profile_rule \<Rightarrow> bool" where
  "rule_ok envelope r \<longleftrightarrow>
     (\<exists>cs. rule_affinities r = [cs] \<and> cs \<noteq> [] \<and> swf cs \<and> set cs \<subseteq> set (rule_allowed_cpus r)) \<and>
     set (rule_allowed_cpus r) \<subseteq> set envelope \<and> rule_id r \<noteq> []"

lemma rmap_all: "rmap f xs = Inr ys \<Longrightarrow> (\<And>x y. f x = Inr y \<Longrightarrow> P y) \<Longrightarrow> \<forall>y \<in> set ys. P y"
  by (induction xs arbitrary: ys) (auto simp: rbind_result)

lemma load_rule_masks: "load_rule node = Inr r \<Longrightarrow> \<forall>cs \<in> set (rule_affinities r). swf cs"
  by (auto simp: load_rule_def rbind_result dest!: rmap_all [where P = swf] dest: parse_cpu_list_swf)

lemma validate_rule_ok:
  assumes "validate_rule r envelope = Inr u" "\<forall>cs \<in> set (rule_affinities r). swf cs"
  shows "rule_ok envelope r"
proof -
  obtain cs where "rule_affinities r = [cs]"
    using assms(1) by (cases "rule_affinities r") (auto simp: validate_rule_def Let_def split: if_splits)
  then show ?thesis
    using assms by (auto simp: validate_rule_def rule_ok_def mask_subset_def list_all_iff Let_def split: if_splits)
qed

lemma add_rule_ok:
  assumes "set (fst st) = rule_id ` set (snd st) \<and> distinct (map rule_id (snd st)) \<and> (\<forall>r \<in> set (snd st). rule_ok envelope r)"
    and "add_rule envelope node st = Inr st'"
  shows "set (fst st') = rule_id ` set (snd st') \<and> distinct (map rule_id (snd st')) \<and> (\<forall>r \<in> set (snd st'). rule_ok envelope r)"
proof -
  obtain r u where r: "load_rule node = Inr r" "rule_id r \<notin> set (fst st)" "validate_rule r envelope = Inr u"
    and st': "st' = (sput (rule_id r) (fst st), snd st @ [r])"
    using assms(2) by (auto simp: add_rule_def rbind_result split: if_splits)
  have "rule_ok envelope r" using validate_rule_ok [OF r(3)] load_rule_masks [OF r(1)] by blast
  then show ?thesis using assms(1) r(2) by (auto simp: st')
qed

lemma load_rules_ok:
  assumes "rfold (add_rule envelope) items ([], []) = Inr st"
  shows "distinct (map rule_id (snd st)) \<and> (\<forall>r \<in> set (snd st). rule_ok envelope r)"
proof -
  let ?P = "\<lambda>st. set (fst st) = rule_id ` set (snd st) \<and> distinct (map rule_id (snd st)) \<and> (\<forall>r \<in> set (snd st). rule_ok envelope r)"
  have "?P st" by (rule rfold_inv [OF assms, where P = ?P]) (simp, rule add_rule_ok)
  then show ?thesis by blast
qed

section \<open>Assignments of threads\<close>

text \<open>
  Every assignment was made by a rule of the profile, and the instances of a rule are numbered
  from zero without repetition.
\<close>

definition assignments_ok :: "thread_profile \<Rightarrow> assignments \<Rightarrow> bool" where
  "assignments_ok p as \<longleftrightarrow>
     (\<forall>i a. map_of (assigned_profiles as) i = Some a \<longrightarrow>
        (\<exists>r \<in> set (placements p). as_rule_id a = rule_id r \<and> target_cpus a = hd (rule_affinities r) \<and>
           as_allowed_cpus a = rule_allowed_cpus r) \<and>
        instance_number a < mgetd 0 (next_instances as) (as_rule_id a)) \<and>
     (\<forall>i j a b. map_of (assigned_profiles as) i = Some a \<longrightarrow> map_of (assigned_profiles as) j = Some b \<longrightarrow> i \<noteq> j \<longrightarrow>
        as_rule_id a = as_rule_id b \<longrightarrow> instance_number a \<noteq> instance_number b)"

definition no_assignments :: assignments where
  "no_assignments = \<lparr>next_instances = [], assigned_profiles = []\<rparr>"

lemma assignments_ok_start: "assignments_ok p no_assignments"
  by (simp add: assignments_ok_def no_assignments_def)

lemma assignments_ok_step:
  assumes "assignments_ok p as" "profile_assignment p sample as = (res, as')"
  shows "assignments_ok p as'"
proof (cases "map_of (assigned_profiles as) (ts_identity sample)")
  case (Some a)
  then show ?thesis using assms by (simp add: profile_assignment_def)
next
  case None
  show ?thesis
  proof (cases "find (\<lambda>r. profile_rule_matches r sample) (placements p)")
    case f: None
    then show ?thesis using assms None by (simp add: profile_assignment_def)
  next
    case (Some r)
    define i where "i = mgetd 0 (next_instances as) (rule_id r)"
    define a where "a = \<lparr>as_rule_id = rule_id r, instance_number = i, target_cpus = hd (rule_affinities r),
         as_allowed_cpus = rule_allowed_cpus r, as_dynamic = rule_dynamic r\<rparr>"
    have as': "as' = \<lparr>next_instances = mput (rule_id r) (i + 1) (next_instances as),
        assigned_profiles = mput (ts_identity sample) a (assigned_profiles as)\<rparr>"
      using assms(2) None Some by (simp add: profile_assignment_def i_def a_def Let_def)
    have r: "r \<in> set (placements p)" using Some by (auto simp: find_Some_iff in_set_conv_nth)
    have new: "instance_number b < i" if "map_of (assigned_profiles as) j = Some b" "as_rule_id b = rule_id r" for j b
      using assms(1) that unfolding assignments_ok_def i_def by fastforce
    have fields: "as_rule_id a = rule_id r" "instance_number a = i" "target_cpus a = hd (rule_affinities r)"
      "as_allowed_cpus a = rule_allowed_cpus r" by (simp_all add: a_def)
    have old: "instance_number b < mgetd 0 (next_instances as') (as_rule_id b)"
      if "map_of (assigned_profiles as) j = Some b" for j b
    proof (cases "as_rule_id b = rule_id r")
      case True
      then show ?thesis using new [OF that] by (simp add: as')
    next
      case False
      then show ?thesis using assms(1) that by (simp add: as' assignments_ok_def)
    qed
    show ?thesis
      unfolding assignments_ok_def
    proof (intro conjI allI impI)
      fix j b assume j: "map_of (assigned_profiles as') j = Some b"
      show "\<exists>r \<in> set (placements p). as_rule_id b = rule_id r \<and> target_cpus b = hd (rule_affinities r) \<and> as_allowed_cpus b = rule_allowed_cpus r"
        using j r fields assms(1) by (auto simp: as' assignments_ok_def split: if_splits)
      show "instance_number b < mgetd 0 (next_instances as') (as_rule_id b)"
      proof (cases "j = ts_identity sample")
        case True
        then show ?thesis using j fields by (simp add: as')
      next
        case False
        then show ?thesis using j old [of j b] by (simp add: as')
      qed
    next
      fix j k b c
      assume *: "map_of (assigned_profiles as') j = Some b" "map_of (assigned_profiles as') k = Some c" "j \<noteq> k"
        "as_rule_id b = as_rule_id c"
      show "instance_number b \<noteq> instance_number c"
        using * fields new assms(1) by (auto simp: as' assignments_ok_def split: if_splits) (metis less_irrefl)+
    qed
  qed
qed

definition assign_all :: "thread_profile \<Rightarrow> thread_sample list \<Rightarrow> assignments \<Rightarrow> assignments" where
  "assign_all p samples as = fold (\<lambda>s as. snd (profile_assignment p s as)) samples as"

lemma assignments_ok_all: "assignments_ok p as \<Longrightarrow> assignments_ok p (assign_all p samples as)"
  unfolding assign_all_def
proof (induction samples arbitrary: as)
  case (Cons s samples)
  then show ?case using assignments_ok_step [of p as s] by (metis fold_simps(2) prod.collapse)
qed simp

lemma assignment_kept:
  assumes "map_of (assigned_profiles as) i = Some a"
  shows "map_of (assigned_profiles (snd (profile_assignment p s as))) i = Some a"
proof (cases "ts_identity s = i")
  case True
  then show ?thesis using assms by (simp add: profile_assignment_def)
next
  case False
  then show ?thesis using assms by (auto simp: profile_assignment_def Let_def split: option.split)
qed

lemma load_profile_rules:
  assumes "load_thread_profile file path envelope = Inr p"
  shows "distinct (map rule_id (placements p)) \<and> (\<forall>r \<in> set (placements p). rule_ok envelope r)"
  using assms load_rules_ok by (auto simp: load_thread_profile_def rbind_result split: option.splits if_splits)

section \<open>Property\<close>

text \<open>
  C30. A profile that loads assigns to a thread only CPUs that its rule allows and that are in the
  resource envelope, always at least one; a thread keeps its assignment, and two threads of
  the same rule have different instance numbers.
\<close>

theorem profile_assignments_safe:
  assumes "load_thread_profile file path envelope = Inr p"
    and "map_of (assigned_profiles (assign_all p samples no_assignments)) i = Some a"
  shows "target_cpus a \<noteq> [] \<and> sorted_wrt (<) (target_cpus a) \<and> set (target_cpus a) \<subseteq> set (as_allowed_cpus a) \<and>
    set (as_allowed_cpus a) \<subseteq> set envelope \<and>
    (\<forall>j b. map_of (assigned_profiles (assign_all p samples no_assignments)) j = Some b \<longrightarrow> i \<noteq> j \<longrightarrow>
       as_rule_id a = as_rule_id b \<longrightarrow> instance_number a \<noteq> instance_number b) \<and>
    map_of (assigned_profiles (assign_all p (samples @ later) no_assignments)) i = Some a"
proof -
  let ?as = "assign_all p samples no_assignments"
  have ok: "assignments_ok p ?as" by (rule assignments_ok_all [OF assignments_ok_start])
  obtain r where r: "r \<in> set (placements p)" "target_cpus a = hd (rule_affinities r)" "as_allowed_cpus a = rule_allowed_cpus r"
    using ok assms(2) unfolding assignments_ok_def by blast
  have "rule_ok envelope r" using load_profile_rules [OF assms(1)] r(1) by blast
  then have "target_cpus a \<noteq> [] \<and> sorted_wrt (<) (target_cpus a) \<and> set (target_cpus a) \<subseteq> set (as_allowed_cpus a) \<and>
      set (as_allowed_cpus a) \<subseteq> set envelope"
    using r by (auto simp: rule_ok_def swf_def)
  moreover have "map_of (assigned_profiles (assign_all p later as)) i = Some a"
    if "map_of (assigned_profiles as) i = Some a" for as
    using that unfolding assign_all_def by (induction later arbitrary: as) (simp_all add: assignment_kept)
  then have "map_of (assigned_profiles (assign_all p (samples @ later) no_assignments)) i = Some a"
    using assms(2) by (simp add: assign_all_def)
  ultimately show ?thesis using ok assms(2) unfolding assignments_ok_def by blast
qed

definition sample_profile :: thread_profile where
  "sample_profile = \<lparr>schema_version = 2, profile_id = ''p'', generated_at = ''g'', pf_status = ''tested'', source_commit = [],
     experiment_id = [], test_id = [], description = [],
     pf_dynamic = \<lparr>dyn_enabled = True, small_step_threads = 1, large_change_ratio = 1, large_step_threads = 1, cooldown_seconds = 0\<rparr>,
     placements = [\<lparr>rule_id = ''w'',
       rule_match = \<lparr>m_comm = Some ''k'', m_comm_prefix = None, m_cgroup = None, m_cgroup_prefix = None, m_tid = None\<rparr>,
       rule_allowed_cpus = [0, 1], rule_affinities = [[1]], rule_dynamic = True\<rparr>]\<rparr>"

text \<open>The same profile as a text, with at signs in place of the double ones.\<close>

definition sample_profile_file :: string where
  "sample_profile_file = map (\<lambda>c. if c = CHR ''@'' then quote_char else c)
     (''{@schema_version@:2,@profile_id@:@p@,@generated_at@:@g@,@status@:@tested@,@source@:{},@applicability@:{},'' @
      ''@dynamic@:{@enabled@:true,@small_step_threads@:1,@large_change_ratio@:1,@large_step_threads@:1,@cooldown_seconds@:0},'' @
      ''@placements@:[{@id@:@w@,@match@:{@comm@:@k@},@allowed_cpus@:@0-1@,@dynamic@:true,@affinities@:[{@cpus@:@1@}]}]}'')"

lemma sample_profile_load: "load_thread_profile (Some sample_profile_file) ''f'' [0, 1, 2] = Inr sample_profile"
  by code_simp

definition sample_worker :: "int \<Rightarrow> thread_sample" where
  "sample_worker t = \<lparr>ts_identity = Identity 1 t 5, timestamp_ns = 0, runtime_ns = 0, runqueue_ns = 0, voluntary_switches = 0,
     involuntary_switches = 0, recent_cpu = 0, ts_state = CHR ''R'', comm = ''k'', cgroups = [], allowed_cpus = [0, 1, 2],
     parent_tid = 1, start_routine = 0, start_symbol = []\<rparr>"

theorem profile_assignments_safe_witness:
  "\<exists>a. map_of (assigned_profiles (assign_all sample_profile [sample_worker 7, sample_worker 8] no_assignments)) (Identity 1 8 5) = Some a \<and>
     instance_number a = 1 \<and> target_cpus a \<noteq> [] \<and> set (target_cpus a) \<subseteq> set (as_allowed_cpus a)"
proof -
  have "map_of (assigned_profiles (assign_all sample_profile [sample_worker 7, sample_worker 8] no_assignments)) (Identity 1 8 5) =
      Some \<lparr>as_rule_id = ''w'', instance_number = 1, target_cpus = [1], as_allowed_cpus = [0, 1], as_dynamic = True\<rparr>"
    by code_simp
  with profile_assignments_safe [OF sample_profile_load this] show ?thesis by auto
qed

end
