(* ===== verification/Runtime_State.thy ===== *)
theory Runtime_State
  imports Runtime_Actions Bpf_Events Configuration Thread_Profile Graph_Window Incremental_Solver Domain_Solver Actuator
begin

text \<open>
  The state of the supervisor, \<^verbatim>\<open>include/affinitygraph/runtime.hpp\<close>, and the operations of \<^verbatim>\<open>src/runtime.cpp\<close> on its lifecycle
  tables: the events of the BPF program, pausing and resuming, the fatal path.

  The kernel is the abstract world \<open>'s\<close> of the actuator, read and written through \<open>get\<close> and
  \<open>put\<close>. The clock (\<^verbatim>\<open>monotonic_ns\<close>), the samples of \<^verbatim>\<open>/proc\<close> and the batches of the BPF reader
  are arguments. \<^verbatim>\<open>mutex_\<close> is the flag \<open>mutex_locked\<close>: taking it while it is held by the same
  thread never returns. \<^verbatim>\<open>bpf_pending_mutex_\<close> is only held around assignments and is left out.
  The log, the reader's own statistics and the control socket's bytes are not state of the model;
  \<^verbatim>\<open>kill(-root_pid_, SIGTERM)\<close> sets \<open>terminated\<close>. \<open>lifecycle\<close> is iterated in key order
  and \<open>pending_relations\<close> in insertion order (the code leaves both orders open).
\<close>

section \<open>The state\<close>

record lifecycle_record =
  lr_tgid :: int
  lr_parent_tgid :: int
  lr_parent_tid :: int
  lr_tid :: int
  lr_start_routine :: uint64
  bpf_start_time_ns :: uint64
  proc_starttime :: uint64
  created_ns :: uint64
  lr_start_symbol :: string
  lr_name :: string
  inherited_mask :: cpu_mask

definition new_lifecycle_record :: lifecycle_record where
  "new_lifecycle_record =
     \<lparr>lr_tgid = - 1, lr_parent_tgid = - 1, lr_parent_tid = - 1, lr_tid = - 1, lr_start_routine = 0,
      bpf_start_time_ns = 0, proc_starttime = 0, created_ns = 0, lr_start_symbol = [], lr_name = [],
      inherited_mask = []\<rparr>"

record relation_key =
  rk_kind :: uint32
  rk_tgid :: uint32
  rk_tid :: uint32
  rk_peer_tid :: uint32
  rk_start_time_ns :: uint64
  rk_peer_start_time_ns :: uint64

record relation_value =
  rv_timestamp_ns :: uint64
  rv_value_ns :: uint64

record pending_health_sample =
  ph_timestamp_ns :: uint64
  ph_health :: bpf_health_snapshot

record 's runtime =
  rt_config :: config
  effective_sample_seconds :: int
  sampling_stopped :: bool
  last_new_profile_match_ns :: uint64
  root_pid :: int
  collector_degraded :: bool
  rt_hardware :: hardware_graph
  rt_graph :: graph_window
  has_bpf_reader :: bool
  rt_actuator :: actuator
  rt_solver :: incremental_solver
  rt_domain_solver :: numa_domain_solver
  rt_profile :: "thread_profile option"
  rt_assignments :: assignments
  mutex_locked :: bool
  pending_lifecycle_events :: "bpf_event list"
  pending_relations :: "(relation_key \<times> relation_value) list"
  pending_health_samples :: "pending_health_sample list"
  pending_lifecycle_overflow :: uint64
  pending_relation_overflow :: uint64
  pending_relation_started_ns :: uint64
  last_bpf_health_sample_ns :: uint64
  lifecycle :: "(int, lifecycle_record) omap"
  pending_application_masks :: "(int, cpu_mask) omap"
  target_tgids :: "int oset"
  current_plan :: "(int, int) omap"
  current_masks :: "(int, cpu_mask) omap"
  active_cohort :: "int oset"
  selector_ready :: bool
  last_solve_ns :: uint64
  solve_window_sequence :: uint64
  collector_failed_since_ns :: uint64
  bpf_health :: bpf_health_snapshot
  bpf_health_history :: "(uint64 \<times> bpf_counters) list"
  bpf_window_loss_ratio :: double
  bpf_window_ready :: bool
  bpf_health_consecutive_failures :: int
  bpf_health_failed_since_ns :: uint64
  fatal_error :: string
  action_requested :: nat
  action_committed :: nat
  action_vanished :: nat
  action_rolled_back :: nat
  action_failures :: nat
  last_restore :: restore_result
  paused :: bool
  terminated :: bool
  world :: 's

text \<open>\<^verbatim>\<open>std::lock_guard lock(mutex_)\<close> around a block: released on every way out of it.\<close>

definition locked :: "('s runtime, 'a) action \<Rightarrow> ('s runtime, 'a) action" where
  "locked m s =
     (if mutex_locked s then (Blocked, s)
      else case m (s\<lparr>mutex_locked := True\<rparr>) of
        (Blocked, s') \<Rightarrow> (Blocked, s')
      | (r, s') \<Rightarrow> (r, s'\<lparr>mutex_locked := False\<rparr>))"

text \<open>The calls of the actuator, which act on the kernel.\<close>

definition run_restore_all ::
  "('s \<Rightarrow> int \<Rightarrow> cpu_mask \<Rightarrow> 's \<times> int option) \<Rightarrow> ('s runtime, restore_result) action" where
  "run_restore_all put s =
     (case restore_all put (world s) (rt_actuator s) of
        (w, a, r) \<Rightarrow> from_result r (s\<lparr>world := w, rt_actuator := a\<rparr>))"

definition run_restore ::
  "('s \<Rightarrow> int \<Rightarrow> cpu_mask \<Rightarrow> 's \<times> int option) \<Rightarrow> int oset \<Rightarrow> ('s runtime, restore_result) action" where
  "run_restore put ts s =
     (case restore_tids put ts (world s) (rt_actuator s) of
        (w, a, r) \<Rightarrow> from_result r (s\<lparr>world := w, rt_actuator := a\<rparr>))"

definition run_apply ::
  "('s \<Rightarrow> int \<Rightarrow> cpu_mask) \<Rightarrow> ('s \<Rightarrow> int \<Rightarrow> cpu_mask \<Rightarrow> 's \<times> int option) \<Rightarrow>
   placement_delta \<Rightarrow> int oset \<Rightarrow> ('s runtime, apply_result) action" where
  "run_apply get put d live s =
     (case apply_placement_delta get put d live (world s) (rt_actuator s) of
        (w, a, r) \<Rightarrow> (Returned r, s\<lparr>world := w, rt_actuator := a\<rparr>))"

section \<open>Construction\<close>

definition static_profile_effective :: "'s runtime \<Rightarrow> bool" where
  "static_profile_effective s \<longleftrightarrow>
     (case rt_profile s of
        None \<Rightarrow> False
      | Some p \<Rightarrow> placements p \<noteq> [] \<and> (\<not> cfg_dynamic (rt_config s) \<or> \<not> dyn_enabled (pf_dynamic p)))"

text \<open>
  The constructor: a degraded collector, or the NUMA strategy without a BPF reader, observes
  only; a profile that does not load is dropped; zero sampling needs a static profile. \<open>hw\<close> is
  the discovered and calibrated graph, \<open>profile\<close> the text of the profile file.
\<close>

definition effective_config :: "config \<Rightarrow> bool \<Rightarrow> bool \<Rightarrow> config" where
  "effective_config c reader degraded =
     (if degraded \<or> cfg_solver c = ''numa-domain-v1'' \<and> \<not> reader then c\<lparr>cfg_mode := Observe\<rparr> else c)"

definition load_profile :: "config \<Rightarrow> string option \<Rightarrow> thread_profile option" where
  "load_profile c profile =
     (if cfg_thread_profile_path c = [] then None
      else case load_thread_profile profile (cfg_thread_profile_path c) (cfg_cpus c) of Inl e \<Rightarrow> None | Inr p \<Rightarrow> Some p)"

definition new_runtime ::
  "config \<Rightarrow> int \<Rightarrow> bool \<Rightarrow> bool \<Rightarrow> hardware_graph \<Rightarrow> string option \<Rightarrow> uint64 \<Rightarrow> 's \<Rightarrow> 's runtime result" where
  "new_runtime c pid reader degraded hw profile start w =
     (let c' = effective_config c reader degraded;
          s = \<lparr>rt_config = c',
               effective_sample_seconds = (if cfg_sample_interval_seconds c = 0 then 1 else cfg_sample_interval_seconds c),
               sampling_stopped = False, last_new_profile_match_ns = start, root_pid = pid,
               collector_degraded = (degraded \<or> cfg_solver c = ''numa-domain-v1'' \<and> \<not> reader),
               rt_hardware = hw,
               rt_graph = new_graph_window (cfg_graph_horizon_seconds c)
                 \<lparr>activity_log_p95 = cfg_activity_log_p95 c, sync_log_p95 = cfg_sync_log_p95 c,
                  share_log_p95 = cfg_share_log_p95 c\<rparr>,
               has_bpf_reader = reader, rt_actuator = new_actuator,
               rt_solver = new_incremental_solver (cfg_mode c = Plan), rt_domain_solver = new_domain_solver,
               rt_profile = load_profile c profile,
               rt_assignments = \<lparr>next_instances = [], assigned_profiles = []\<rparr>, mutex_locked = False,
               pending_lifecycle_events = [], pending_relations = [], pending_health_samples = [],
               pending_lifecycle_overflow = 0, pending_relation_overflow = 0, pending_relation_started_ns = 0,
               last_bpf_health_sample_ns = 0, lifecycle = [], pending_application_masks = [],
               target_tgids = [pid], current_plan = [], current_masks = [], active_cohort = [],
               selector_ready = False, last_solve_ns = 0, solve_window_sequence = 0, collector_failed_since_ns = 0,
               bpf_health = \<lparr>hs_valid = False, hs_error = 0, hs_counters = zero_counters\<rparr>,
               bpf_health_history = [], bpf_window_loss_ratio = 0, bpf_window_ready = False,
               bpf_health_consecutive_failures = 0, bpf_health_failed_since_ns = 0, fatal_error = [],
               action_requested = 0, action_committed = 0, action_vanished = 0, action_rolled_back = 0,
               action_failures = 0, last_restore = new_restore_result 0, paused = False, terminated = False,
               world = w\<rparr>
      in if cfg_sample_interval_seconds c = 0 \<and> \<not> static_profile_effective s
         then Inl (Runtime_Error ''sample_interval_seconds=0 requires a static thread profile (runtime.dynamic=false or profile dynamic.enabled=false)'')
         else Inr s)"

section \<open>Pausing and the fatal path\<close>

definition pause :: "('s \<Rightarrow> int \<Rightarrow> cpu_mask \<Rightarrow> 's \<times> int option) \<Rightarrow> ('s runtime, unit) action" where
  "pause put =
     seq (modify (\<lambda>s. s\<lparr>paused := True\<rparr>)) (\<lambda>_.
     locked (seq (run_restore_all put) (\<lambda>r.
       modify (\<lambda>s. s\<lparr>last_restore := r, current_plan := [], current_masks := [], active_cohort := [],
         selector_ready := False, rt_solver := inc_reset (rt_solver s),
         rt_domain_solver := reset (rt_domain_solver s)\<rparr>))))"

definition resume :: "('s runtime, unit) action" where
  "resume = modify (\<lambda>s. s\<lparr>paused := False\<rparr>)"

definition trigger_fatal ::
  "('s \<Rightarrow> int \<Rightarrow> cpu_mask \<Rightarrow> 's \<times> int option) \<Rightarrow> string \<Rightarrow> ('s runtime, unit) action" where
  "trigger_fatal put message =
     seq (locked (seq (ask fatal_error) (\<lambda>f.
       if f \<noteq> [] then give False
       else seq (modify (\<lambda>s. s\<lparr>fatal_error := message\<rparr>)) (\<lambda>_. give True)))) (\<lambda>first.
     if first then seq (pause put) (\<lambda>_. modify (\<lambda>s. s\<lparr>terminated := True\<rparr>)) else give ())"

section \<open>Lifecycle\<close>

definition thread_started :: "lifecycle_record \<Rightarrow> ('s runtime, unit) action" where
  "thread_started r =
     locked (modify (\<lambda>s. s\<lparr>lifecycle := mput (lr_tid r) r (lifecycle s),
       target_tgids := (if 0 < lr_tgid r then sput (lr_tgid r) (target_tgids s) else target_tgids s)\<rparr>))"

definition thread_renamed :: "int \<Rightarrow> string \<Rightarrow> ('s runtime, unit) action" where
  "thread_renamed t name =
     locked (modify (\<lambda>s. case map_of (lifecycle s) t of
       None \<Rightarrow> s | Some r \<Rightarrow> s\<lparr>lifecycle := mput t (r\<lparr>lr_name := name\<rparr>) (lifecycle s)\<rparr>))"

definition thread_exited :: "int \<Rightarrow> ('s runtime, unit) action" where
  "thread_exited t =
     locked (modify (\<lambda>s. s\<lparr>lifecycle := mdel t (lifecycle s),
       pending_application_masks := mdel t (pending_application_masks s),
       current_plan := mdel t (current_plan s), current_masks := mdel t (current_masks s),
       active_cohort := sdel t (active_cohort s), rt_solver := inc_remove_thread t (rt_solver s),
       rt_domain_solver := remove_thread t (rt_domain_solver s)\<rparr>))"

definition application_affinity :: "int \<Rightarrow> cpu_mask \<Rightarrow> ('s runtime, unit) action" where
  "application_affinity t cs =
     (if cs = [] then give ()
      else locked (modify (\<lambda>s.
        if \<not> mhas (lifecycle s) t then s\<lparr>pending_application_masks := mput t cs (pending_application_masks s)\<rparr>
        else s\<lparr>rt_actuator := note_application_mask t cs (rt_actuator s)\<rparr>)))"

end
