(* ===== verification/Runtime_Events.thy ===== *)
theory Runtime_Events
  imports Runtime_State
begin

text \<open>
  The path of BPF events through the supervisor, \<^verbatim>\<open>src/runtime.cpp\<close>: the BPF thread merges the
  drained batches into bounded pending buffers (\<^verbatim>\<open>drain_bpf_once\<close>) and samples the health
  counters (\<^verbatim>\<open>run_bpf\<close>); the main thread takes the buffers over (\<^verbatim>\<open>consume_pending_bpf\<close>), handles
  the lifecycle events, prunes the relations and feeds them to the graph window, and evaluates
  the health of the last thirty seconds (\<^verbatim>\<open>sample_bpf_health\<close>).
\<close>

unbundle bit_operations_syntax

section \<open>The module of a start routine\<close>

text \<open>
  One line of \<^verbatim>\<open>/proc/<tgid>/maps\<close>, as \<^verbatim>\<open>sscanf\<close> reads it with \<^verbatim>\<open>%llx-%llx %4s %llx %*s %*s %n\<close>.
  The kernel writes plain hexadecimal digits, so the prefixes \<^verbatim>\<open>%llx\<close> also accepts are not read.
\<close>

definition hex_value :: "char \<Rightarrow> nat option" where
  "hex_value c =
     (let n = of_char c in
      if 48 \<le> n \<and> n \<le> 57 then Some (n - 48)
      else if 97 \<le> n \<and> n \<le> 102 then Some (n - 87)
      else if 65 \<le> n \<and> n \<le> 70 then Some (n - 55) else None)"

definition scan_hex :: "string \<Rightarrow> (uint64 \<times> string) option" where
  "scan_hex r =
     (let t = dropWhile isspace r; ds = takeWhile (\<lambda>c. hex_value c \<noteq> None) t in
      if ds = [] then None
      else Some (fold (\<lambda>c v. v * 16 + of_nat (the (hex_value c))) ds 0, drop (length ds) t))"

definition skip_word :: "string \<Rightarrow> string" where
  "skip_word r = dropWhile (\<lambda>c. \<not> isspace c) (dropWhile isspace r)"

definition skip_four :: "string \<Rightarrow> string option" where
  "skip_four r =
     (let t = dropWhile isspace r; w = takeWhile (\<lambda>c. \<not> isspace c) (take 4 t) in
      if w = [] then None else Some (drop (length w) t))"

definition parse_map_line :: "string \<Rightarrow> (uint64 \<times> uint64 \<times> uint64 \<times> string) option" where
  "parse_map_line l =
     (case scan_hex l of
        Some (b, CHR ''-'' # r1) \<Rightarrow>
          (case scan_hex r1 of
             Some (e, r2) \<Rightarrow>
               (case skip_four r2 of
                  Some r3 \<Rightarrow>
                    (case scan_hex r3 of
                       Some (off, r4) \<Rightarrow>
                         Some (b, e, off,
                           (if dropWhile isspace (skip_word r4) = [] then l
                            else dropWhile isspace (skip_word (skip_word r4))))
                     | None \<Rightarrow> None)
                | None \<Rightarrow> None)
           | None \<Rightarrow> None)
      | _ \<Rightarrow> None)"

fun show_hex :: "nat \<Rightarrow> string" where
  "show_hex n =
     (let d = n mod 16; c = char_of (if d < 10 then 48 + d else 87 + d)
      in if n < 16 then [c] else show_hex (n div 16) @ [c])"

declare show_hex.simps [simp del]

fun module_in :: "uint64 \<Rightarrow> string list \<Rightarrow> string" where
  "module_in a [] = ''0x'' @ show_hex (unat a)"
| "module_in a (l # ls) =
     (case parse_map_line l of
        None \<Rightarrow> module_in a ls
      | Some (b, e, off, path) \<Rightarrow>
          if a < b \<or> e \<le> a then module_in a ls
          else (let p = dropWhile (\<lambda>c. c = CHR '' '') path
                in (if p = [] then ''anonymous'' else p) @ ''+0x'' @ show_hex (unat (a - b + off))))"

definition module_offset :: "string list \<Rightarrow> uint64 \<Rightarrow> string" where
  "module_offset maps a = (if a = 0 then [] else module_in a maps)"

section \<open>Handling one event\<close>

definition fork_record :: "(int \<Rightarrow> string list) \<Rightarrow> bpf_event \<Rightarrow> lifecycle_record" where
  "fork_record maps ev =
     new_lifecycle_record\<lparr>lr_tgid := to_int (ev_tgid ev), lr_parent_tgid := to_int (ev_parent_tgid ev),
       lr_parent_tid := to_int (ev_parent_tid ev), lr_tid := to_int (ev_tid ev),
       lr_start_routine := ev_start_routine ev, bpf_start_time_ns := ev_start_time_ns ev,
       created_ns := ev_timestamp_ns ev, lr_name := comm_name ev,
       lr_start_symbol := module_offset (maps (to_int (ev_tgid ev))) (ev_start_routine ev)\<rparr>"

definition stale :: "uint64 \<Rightarrow> lifecycle_record \<Rightarrow> bool" where
  "stale start r \<longleftrightarrow> start \<noteq> 0 \<and> bpf_start_time_ns r \<noteq> 0 \<and> start \<noteq> bpf_start_time_ns r"

definition pair_observation :: "int \<Rightarrow> bpf_event \<Rightarrow> lifecycle_record \<Rightarrow> lifecycle_record \<Rightarrow> relation_observation" where
  "pair_observation eff ev from peer =
     (let agg = (if ev_resource ev \<noteq> 0 then max (real (unat (ev_resource ev)) / 10 ^ 9) (1 / 10 ^ 6) else real_of_int eff)
      in \<lparr>ro_from_tid = to_int (ev_tid ev), ro_to_tid = to_int (ev_peer_tid ev),
          from_starttime = proc_starttime from, to_starttime = proc_starttime peer,
          ro_timestamp_ns = ev_timestamp_ns ev,
          futex_per_second = (if ev_kind ev = FUTEX
            then real (unat (if ev_value_ns ev \<noteq> 0 then ev_value_ns ev else 1)) / agg else 0),
          ro_shared_vfs_seconds = (if ev_kind ev = FUTEX then 0
            else real (unat (ev_value_ns ev)) / 10 ^ 9 * real_of_int eff / agg),
          ro_active_overlap = 1\<rparr>)"

definition observe_pair :: "bpf_event \<Rightarrow> 's runtime \<Rightarrow> 's runtime" where
  "observe_pair ev s =
     (case (map_of (lifecycle s) (to_int (ev_tid ev)), map_of (lifecycle s) (to_int (ev_peer_tid ev))) of
        (Some from, Some peer) \<Rightarrow>
          if stale (ev_start_time_ns ev) from \<or> stale (ev_peer_start_time_ns ev) peer then s
          else s\<lparr>rt_graph := observe_relation (pair_observation (effective_sample_seconds s) ev from peer) (rt_graph s)\<rparr>
      | _ \<Rightarrow> s)"

definition handle_bpf_event :: "(int \<Rightarrow> string list) \<Rightarrow> bpf_event \<Rightarrow> ('s runtime, unit) action" where
  "handle_bpf_event maps ev =
     (if ev_kind ev = FUTEX \<or> ev_kind ev = VFS
      then seq (ask static_profile_effective) (\<lambda>static. if static then give () else locked (modify (observe_pair ev)))
      else if ev_kind ev = TASK_FORK then thread_started (fork_record maps ev)
      else if ev_kind ev = TASK_EXEC
      then locked (modify (\<lambda>s. s\<lparr>target_tgids := sput (to_int (ev_tgid ev)) (target_tgids s)\<rparr>))
      else if ev_kind ev = TASK_EXIT then thread_exited (to_int (ev_tid ev))
      else if ev_kind ev = TASK_RENAME then thread_renamed (to_int (ev_tid ev)) (comm_name ev)
      else if ev_kind ev = AFFINITY then application_affinity (to_int (ev_peer_tid ev)) (cpus_from_mask ev)
      else give ())"

section \<open>The pending buffers\<close>

definition lifecycle_limit :: nat where "lifecycle_limit = 65536"
definition relation_limit :: nat where "relation_limit = 524288"
definition health_history_limit :: nat where "health_history_limit = 64"

definition push_lifecycle :: "bpf_event \<Rightarrow> 's runtime \<Rightarrow> 's runtime" where
  "push_lifecycle ev s =
     (if lifecycle_limit \<le> length (pending_lifecycle_events s)
      then s\<lparr>pending_lifecycle_overflow := pending_lifecycle_overflow s + 1\<rparr>
      else s\<lparr>pending_lifecycle_events := pending_lifecycle_events s @ [ev]\<rparr>)"

definition relation_key_of :: "bpf_event \<Rightarrow> relation_key" where
  "relation_key_of ev =
     \<lparr>rk_kind = ev_kind ev, rk_tgid = ev_tgid ev, rk_tid = ev_tid ev, rk_peer_tid = ev_peer_tid ev,
      rk_start_time_ns = ev_start_time_ns ev, rk_peer_start_time_ns = ev_peer_start_time_ns ev\<rparr>"

definition add_value :: "bpf_event \<Rightarrow> relation_value \<Rightarrow> relation_value" where
  "add_value ev v =
     \<lparr>rv_timestamp_ns = max (rv_timestamp_ns v) (ev_timestamp_ns ev), rv_value_ns = rv_value_ns v + ev_value_ns ev\<rparr>"

definition merge_relation :: "uint64 \<Rightarrow> bpf_event \<Rightarrow> 's runtime \<Rightarrow> 's runtime" where
  "merge_relation now ev s =
     (let k = relation_key_of ev in
      if map_of (pending_relations s) k = None
      then if relation_limit \<le> length (pending_relations s)
           then s\<lparr>pending_relation_overflow := pending_relation_overflow s + 1\<rparr>
           else s\<lparr>pending_relation_started_ns :=
                    (if pending_relations s = [] then now else pending_relation_started_ns s),
                  pending_relations := pending_relations s @
                    [(k, \<lparr>rv_timestamp_ns = ev_timestamp_ns ev, rv_value_ns = ev_value_ns ev\<rparr>)]\<rparr>
      else s\<lparr>pending_relations :=
               map (\<lambda>(k', v). (k', if k' = k then add_value ev v else v)) (pending_relations s)\<rparr>)"

definition drain_bpf_once ::
  "bpf_event list \<Rightarrow> bpf_event list \<Rightarrow> bpf_event list \<Rightarrow> uint64 \<Rightarrow> 's runtime \<Rightarrow> 's runtime" where
  "drain_bpf_once events futex vfs now s =
     (if \<not> has_bpf_reader s then s
      else fold (merge_relation now) vfs (fold (merge_relation now) futex (fold push_lifecycle events s)))"

definition sample_health :: "uint64 \<Rightarrow> bpf_health_snapshot \<Rightarrow> 's runtime \<Rightarrow> 's runtime" where
  "sample_health now h s =
     (let kept = (if health_history_limit \<le> length (pending_health_samples s)
                  then tl (pending_health_samples s) else pending_health_samples s)
      in s\<lparr>pending_health_samples := kept @ [\<lparr>ph_timestamp_ns = now, ph_health = h\<rparr>],
           last_bpf_health_sample_ns := now\<rparr>)"

section \<open>Pairs of threads\<close>

definition pair_id :: "uint32 \<Rightarrow> uint32 \<Rightarrow> uint64" where
  "pair_id l r = push_bit 32 (ucast (min l r)) OR ucast (max l r)"

definition pair_first :: "uint64 \<Rightarrow> uint32" where
  "pair_first p = ucast (drop_bit 32 p)"

definition pair_second :: "uint64 \<Rightarrow> uint32" where
  "pair_second p = ucast p"

definition relation_weight :: "config \<Rightarrow> int \<Rightarrow> double \<Rightarrow> relation_key \<times> relation_value \<Rightarrow> double" where
  "relation_weight c eff agg x =
     (case x of (k, v) \<Rightarrow>
        if rk_kind k = FUTEX
        then 7 / 10 * min (ln (1 + real (unat (rv_value_ns v)) / agg) / cfg_sync_log_p95 c) 1
        else 3 / 10 * min (ln (1 + real (unat (rv_value_ns v)) / 10 ^ 9 * real_of_int eff / agg) / cfg_share_log_p95 c) 1)"

definition pair_weights ::
  "(relation_key \<times> relation_value \<Rightarrow> double) \<Rightarrow> (relation_key \<times> relation_value) list \<Rightarrow> (uint64, double) omap" where
  "pair_weights weight rels = fold (\<lambda>x. madd (pair_id (rk_tid (fst x)) (rk_peer_tid (fst x))) (weight x)) rels []"

definition incident_pairs :: "(uint64, double) omap \<Rightarrow> (uint32, (double \<times> uint64) list) omap" where
  "incident_pairs ws =
     fold (\<lambda>(p, w) m. mpush (pair_second p) (w, p) (mpush (pair_first p) (w, p) m)) ws []"

text \<open>The pairs kept: all of them for the NUMA strategy, the heaviest of each thread otherwise.\<close>

definition heaviest :: "nat \<Rightarrow> (double \<times> uint64) list \<Rightarrow> uint64 list" where
  "heaviest k cands = map snd (take k (sort_key (\<lambda>c. (- fst c, snd c)) cands))"

definition retained_pairs :: "config \<Rightarrow> (uint64, double) omap \<Rightarrow> uint64 oset" where
  "retained_pairs c ws =
     (if cfg_solver c = ''numa-domain-v1'' then sfrom (mkeys ws)
      else sfrom (concat (map (\<lambda>(t, cands). heaviest (nat (cfg_hotspot_edges_per_thread c)) cands) (incident_pairs ws))))"

definition resident_relations :: "uint64 oset \<Rightarrow> (int \<times> int) oset" where
  "resident_relations ps = sfrom (map (\<lambda>p. (to_int (pair_first p), to_int (pair_second p))) ps)"

definition relation_event :: "uint64 \<Rightarrow> relation_key \<times> relation_value \<Rightarrow> bpf_event" where
  "relation_event duration x =
     (case x of (k, v) \<Rightarrow>
        zero_event\<lparr>ev_kind := rk_kind k, ev_tgid := rk_tgid k, ev_tid := rk_tid k, ev_peer_tid := rk_peer_tid k,
          ev_start_time_ns := rk_start_time_ns k, ev_peer_start_time_ns := rk_peer_start_time_ns k,
          ev_timestamp_ns := rv_timestamp_ns v, ev_value_ns := rv_value_ns v, ev_resource := duration\<rparr>)"

section \<open>Taking the buffers over\<close>

definition take_pending :: "'s runtime \<Rightarrow> 's runtime" where
  "take_pending s =
     s\<lparr>pending_lifecycle_events := [], pending_relations := [], pending_lifecycle_overflow := 0,
       pending_relation_overflow := 0, pending_relation_started_ns := 0\<rparr>"

definition relation_duration :: "uint64 \<Rightarrow> uint64 \<Rightarrow> int \<Rightarrow> uint64" where
  "relation_duration now started eff =
     max (if started \<noteq> 0 then now - started else 0) (seconds_ns eff)"

definition consume_relations ::
  "(int \<Rightarrow> string list) \<Rightarrow> uint64 \<Rightarrow> (relation_key \<times> relation_value) list \<Rightarrow> ('s runtime, unit) action" where
  "consume_relations maps duration rels =
     seq (ask (\<lambda>s. retained_pairs (rt_config s)
           (pair_weights (relation_weight (rt_config s) (effective_sample_seconds s) (real (unat duration) / 10 ^ 9)) rels)))
     (\<lambda>kept.
     seq (locked (modify (\<lambda>s. s\<lparr>rt_graph := retain_relations (resident_relations kept) (rt_graph s)\<rparr>))) (\<lambda>_.
     each (\<lambda>x. handle_bpf_event maps (relation_event duration x))
       (filter (\<lambda>x. pair_id (rk_tid (fst x)) (rk_peer_tid (fst x)) \<in> set kept) rels)))"

definition consume_pending_bpf ::
  "('s \<Rightarrow> int \<Rightarrow> cpu_mask \<Rightarrow> 's \<times> int option) \<Rightarrow> (int \<Rightarrow> string list) \<Rightarrow> uint64 \<Rightarrow> ('s runtime, unit) action" where
  "consume_pending_bpf put maps now =
     seq (ask (\<lambda>s. s)) (\<lambda>s0.
     seq (modify take_pending) (\<lambda>_.
     seq (each (handle_bpf_event maps) (filter (\<lambda>e. ev_kind e \<noteq> TASK_EXIT) (pending_lifecycle_events s0))) (\<lambda>_.
     seq (consume_relations maps
            (relation_duration now (pending_relation_started_ns s0) (effective_sample_seconds s0))
            (pending_relations s0)) (\<lambda>_.
     seq (each (handle_bpf_event maps) (filter (\<lambda>e. ev_kind e = TASK_EXIT) (pending_lifecycle_events s0))) (\<lambda>_.
     if pending_lifecycle_overflow s0 \<noteq> 0 \<or> pending_relation_overflow s0 \<noteq> 0
     then trigger_fatal put ''BPF user-space pending buffer overflow'' else give ())))))"

section \<open>Health of the BPF program\<close>

definition health_window :: uint64 where "health_window = 30000000000"

fun trim_history :: "uint64 \<Rightarrow> (uint64 \<times> bpf_counters) list \<Rightarrow> (uint64 \<times> bpf_counters) list" where
  "trim_history now (a # b # h) = (if health_window \<le> now - fst b then trim_history now (b # h) else a # b # h)"
| "trim_history now h = h"

definition note_invalid_health :: "uint64 \<Rightarrow> bpf_health_snapshot \<Rightarrow> 's runtime \<Rightarrow> 's runtime" where
  "note_invalid_health now h s =
     s\<lparr>bpf_health := h, bpf_health_consecutive_failures := bpf_health_consecutive_failures s + 1,
       bpf_health_failed_since_ns := (if bpf_health_failed_since_ns s = 0 then now else bpf_health_failed_since_ns s)\<rparr>"

definition health_lost :: "uint64 \<Rightarrow> 's runtime \<Rightarrow> bool" where
  "health_lost now s \<longleftrightarrow> 3 \<le> bpf_health_consecutive_failures s \<or> 5000000000 \<le> now - bpf_health_failed_since_ns s"

definition extend_history ::
  "uint64 \<Rightarrow> bpf_counters \<Rightarrow> (uint64 \<times> bpf_counters) list \<Rightarrow> (uint64 \<times> bpf_counters) list" where
  "extend_history now c h =
     (let kept = (if h \<noteq> [] \<and> (emitted c < emitted (snd (last h)) \<or> dropped c < dropped (snd (last h))) then [] else h)
      in trim_history now (kept @ [(now, c)]))"

definition loss_ratio :: "bpf_counters \<Rightarrow> bpf_counters \<Rightarrow> double" where
  "loss_ratio oldest c =
     (let e = emitted c - emitted oldest; d = dropped c - dropped oldest; total = e + d
      in if total \<noteq> 0 then real (unat d) / real (unat total) else 0)"

definition note_valid_health :: "uint64 \<Rightarrow> bpf_health_snapshot \<Rightarrow> 's runtime \<Rightarrow> 's runtime" where
  "note_valid_health now h s =
     (let hist = extend_history now (hs_counters h) (bpf_health_history s)
      in s\<lparr>bpf_health := h, bpf_health_consecutive_failures := 0, bpf_health_failed_since_ns := 0,
           bpf_health_history := hist, bpf_window_ready := health_window \<le> now - fst (hd hist),
           bpf_window_loss_ratio := loss_ratio (snd (hd hist)) (hs_counters h)\<rparr>)"

definition evaluate_health ::
  "('s \<Rightarrow> int \<Rightarrow> cpu_mask \<Rightarrow> 's \<times> int option) \<Rightarrow> pending_health_sample \<Rightarrow> ('s runtime, unit) action" where
  "evaluate_health put x =
     (let now = ph_timestamp_ns x; h = ph_health x in
      if \<not> hs_valid h
      then seq (locked (seq (modify (note_invalid_health now h)) (\<lambda>_. ask (health_lost now)))) (\<lambda>fatal.
           if fatal then trigger_fatal put ''BPF health map unavailable'' else give ())
      else seq (locked (seq (modify (note_valid_health now h)) (\<lambda>_.
                  ask (\<lambda>s. bpf_window_ready s \<and> 1 / 100 \<le> bpf_window_loss_ratio s)))) (\<lambda>fatal.
           if fatal then trigger_fatal put ''30-second BPF loss ratio reached one percent'' else give ()))"

definition sample_bpf_health ::
  "('s \<Rightarrow> int \<Rightarrow> cpu_mask \<Rightarrow> 's \<times> int option) \<Rightarrow> uint64 \<Rightarrow> ('s runtime, unit) action" where
  "sample_bpf_health put now =
     seq (ask (\<lambda>s. (pending_health_samples s, last_bpf_health_sample_ns s))) (\<lambda>(samples, latest).
     seq (modify (\<lambda>s. s\<lparr>pending_health_samples := []\<rparr>)) (\<lambda>_.
     if samples = []
     then if latest \<noteq> 0 \<and> 10000000000 < now - latest
          then trigger_fatal put ''BPF health worker stopped sampling'' else give ()
     else each (evaluate_health put) samples))"

end
