(* ===== verification/Runtime_Windows.thy ===== *)
theory Runtime_Windows
  imports Runtime_Events
begin

text \<open>
  The supervisor's main loop, \<^verbatim>\<open>src/runtime.cpp\<close>: reconciling the lifecycle table with the samples
  of \<^verbatim>\<open>/proc\<close> and applying profile masks (\<^verbatim>\<open>reconcile_and_sample\<close>), one solve window of either
  strategy (\<^verbatim>\<open>maybe_solve\<close>, \<^verbatim>\<open>solve_numa_domains\<close>), one round of the loop (\<^verbatim>\<open>run\<close>), the control
  commands and the destructor. \<open>proc\<close> gives the samples of a process, or nothing when its
  directory is gone; the collector may throw.
\<close>

section \<open>Reconciling with the process table\<close>

text \<open>The lifecycle record of a sample, inserted or completed, and its saved masks.\<close>

definition sample_record :: "thread_sample \<Rightarrow> lifecycle_record" where
  "sample_record x =
     (let i = ts_identity x in
      new_lifecycle_record\<lparr>lr_tgid := tgid i, lr_parent_tgid := tgid i, lr_parent_tid := tgid i, lr_tid := tid i,
        created_ns := timestamp_ns x, proc_starttime := starttime i, lr_name := comm x\<rparr>)"

definition is_fresh :: "thread_sample \<Rightarrow> lifecycle_record option \<Rightarrow> bool" where
  "is_fresh x life \<longleftrightarrow>
     (case life of None \<Rightarrow> True
      | Some r \<Rightarrow> proc_starttime r \<noteq> 0 \<and> proc_starttime r \<noteq> starttime (ts_identity x))"

definition known_record :: "thread_sample \<Rightarrow> lifecycle_record option \<Rightarrow> lifecycle_record" where
  "known_record x life =
     (if is_fresh x life then sample_record x
      else let r = the life in
        if proc_starttime r = 0
        then r\<lparr>proc_starttime := starttime (ts_identity x), inherited_mask := allowed_cpus x, lr_name := comm x\<rparr>
        else r\<lparr>lr_name := comm x\<rparr>)"

definition admit_sample :: "thread_sample \<Rightarrow> 's runtime \<Rightarrow> lifecycle_record \<times> 's runtime" where
  "admit_sample x s =
     (let t = tid (ts_identity x); life = map_of (lifecycle s) t; r = known_record x life;
          a = (if is_fresh x life \<or> proc_starttime (the life) = 0
               then note_inherited_mask t (lr_parent_tid r) (allowed_cpus x) (rt_actuator s) else rt_actuator s);
          a' = (case map_of (pending_application_masks s) t of None \<Rightarrow> a | Some m \<Rightarrow> note_application_mask t m a)
      in (r, s\<lparr>lifecycle := mput t r (lifecycle s), rt_actuator := a',
               pending_application_masks := mdel t (pending_application_masks s)\<rparr>))"

text \<open>The local variables of the loop: the completed samples and the masks the profile asks for.\<close>

record scan =
  sc_samples :: "thread_sample list"
  sc_delta :: "(int, cpu_mask) omap"
  sc_live :: "int oset"
  sc_matches :: nat

definition match_profile :: "thread_sample \<Rightarrow> 's runtime \<times> scan \<Rightarrow> 's runtime \<times> scan" where
  "match_profile x st =
     (case st of (s, sc) \<Rightarrow>
        (case rt_profile s of
           None \<Rightarrow> (s, sc)
         | Some p \<Rightarrow>
             (let newly = \<not> mhas (assigned_profiles (rt_assignments s)) (ts_identity x);
                  (a, as) = profile_assignment p x (rt_assignments s);
                  s' = s\<lparr>rt_assignments := as\<rparr>
              in case a of
                   None \<Rightarrow> (s', sc)
                 | Some v \<Rightarrow>
                     (let target = set_intersection (target_cpus v) (allowed_cpus x); t = tid (ts_identity x) in
                      if \<not> newly \<or> target = [] then (s', sc)
                      else (s', sc\<lparr>sc_delta := mput t target (sc_delta sc), sc_live := sput t (sc_live sc),
                                   sc_matches := sc_matches sc + 1\<rparr>)))))"

definition reconcile_one :: "thread_sample \<Rightarrow> 's runtime \<times> scan \<Rightarrow> 's runtime \<times> scan" where
  "reconcile_one x st =
     (case st of (s, sc) \<Rightarrow>
        (let (r, s') = admit_sample x s;
             x' = x\<lparr>parent_tid := lr_parent_tid r, start_routine := lr_start_routine r, start_symbol := lr_start_symbol r\<rparr>
         in match_profile x' (s', sc\<lparr>sc_samples := sc_samples sc @ [x']\<rparr>)))"

definition drop_unseen :: "bool \<Rightarrow> int set \<Rightarrow> int \<Rightarrow> 's runtime \<Rightarrow> 's runtime" where
  "drop_unseen static seen t s =
     (if t \<in> seen then s
      else (let s' = (if static then s
                      else s\<lparr>current_plan := mdel t (current_plan s), current_masks := mdel t (current_masks s),
                             rt_domain_solver := remove_thread t (rt_domain_solver s)\<rparr>)
            in s'\<lparr>lifecycle := mdel t (lifecycle s')\<rparr>))"

fun gather :: "(int \<Rightarrow> thread_sample list result option) \<Rightarrow> int list \<Rightarrow> (int list \<times> thread_sample list) result" where
  "gather proc [] = Inr ([], [])"
| "gather proc (g # gs) =
     (case proc g of
        None \<Rightarrow> gather proc gs
      | Some xs \<Rightarrow> rbind xs (\<lambda>ys. rbind (gather proc gs) (\<lambda>(es, zs). Inr (g # es, ys @ zs))))"

text \<open>The block under the lock: the loop over the samples, the threads that are gone, the graph window.\<close>

definition scan_samples :: "bool \<Rightarrow> int list \<Rightarrow> thread_sample list \<Rightarrow> 's runtime \<Rightarrow> 's runtime \<times> scan" where
  "scan_samples static existing samples s =
     (let (s1, sc) = fold reconcile_one samples
            (s\<lparr>target_tgids := existing\<rparr>, \<lparr>sc_samples = [], sc_delta = [], sc_live = [], sc_matches = 0\<rparr>)
      in (fold (drop_unseen static ((\<lambda>x. tid (ts_identity x)) ` set samples)) (mkeys (lifecycle s1)) s1, sc))"

definition reconcile_samples :: "bool \<Rightarrow> int list \<Rightarrow> thread_sample list \<Rightarrow> ('s runtime, scan) action" where
  "reconcile_samples static existing samples s =
     (case scan_samples static existing samples s of
        (s1, sc) \<Rightarrow>
          if static then (Returned sc, s1)
          else seq (from_result (observe_threads (sc_samples sc) (rt_graph s1))) (\<lambda>w.
               seq (modify (\<lambda>s. s\<lparr>rt_graph := w\<rparr>)) (\<lambda>_. give sc)) s1)"

definition note_quiescence :: "bool \<Rightarrow> nat \<Rightarrow> uint64 \<Rightarrow> 's runtime \<Rightarrow> 's runtime" where
  "note_quiescence static matches now s =
     (if cfg_sample_interval_seconds (rt_config s) = 0 \<and> static \<and> \<not> sampling_stopped s
      then if 0 < matches then s\<lparr>last_new_profile_match_ns := now\<rparr>
           else if seconds_ns (cfg_static_quiescence_seconds (rt_config s)) \<le> now - last_new_profile_match_ns s
           then s\<lparr>sampling_stopped := True\<rparr> else s
      else s)"

definition scan_processes ::
  "('s \<Rightarrow> int \<Rightarrow> cpu_mask) \<Rightarrow> ('s \<Rightarrow> int \<Rightarrow> cpu_mask \<Rightarrow> 's \<times> int option) \<Rightarrow>
   (int \<Rightarrow> thread_sample list result option) \<Rightarrow> uint64 \<Rightarrow> ('s runtime, unit) action" where
  "scan_processes get put proc now =
     seq (ask static_profile_effective) (\<lambda>static.
     seq (locked (ask target_tgids)) (\<lambda>targets.
     seq (from_result (gather proc targets)) (\<lambda>(existing, samples).
     if samples = [] then raise (Runtime_Error ''no target task samples'')
     else seq (locked (reconcile_samples static existing samples)) (\<lambda>sc.
          seq (ask (\<lambda>s. cfg_mode (rt_config s))) (\<lambda>m.
          seq (if sc_delta sc \<noteq> [] \<and> m = Active
               then seq (run_apply get put \<lparr>tid_to_cpu = [], tid_to_mask = sc_delta sc\<rparr> (sc_live sc)) (\<lambda>_. give ())
               else give ()) (\<lambda>_.
          modify (\<lambda>s. (note_quiescence static (sc_matches sc) now s)\<lparr>collector_failed_since_ns := 0\<rparr>)))))))"

text \<open>\<open>t1\<close> is the clock at the quiescence check or at the first failure, \<open>t2\<close> at the check of the delay.\<close>

definition reconcile_and_sample ::
  "('s \<Rightarrow> int \<Rightarrow> cpu_mask) \<Rightarrow> ('s \<Rightarrow> int \<Rightarrow> cpu_mask \<Rightarrow> 's \<times> int option) \<Rightarrow>
   (int \<Rightarrow> thread_sample list result option) \<Rightarrow> uint64 \<Rightarrow> uint64 \<Rightarrow> ('s runtime, unit) action" where
  "reconcile_and_sample get put proc t1 t2 =
     catching (scan_processes get put proc t1) (\<lambda>_.
       seq (modify (\<lambda>s. s\<lparr>collector_failed_since_ns :=
              (if collector_failed_since_ns s = 0 then t1 else collector_failed_since_ns s)\<rparr>)) (\<lambda>_.
       seq (ask (\<lambda>s. seconds_ns (cfg_collector_failure_restore_seconds (rt_config s)) \<le> t2 - collector_failed_since_ns s
                     \<and> \<not> paused s)) (\<lambda>give_up.
       if give_up then pause put else give ())))"

section \<open>A window of the NUMA-domain strategy\<close>

definition bpf_healthy :: "'s runtime \<Rightarrow> bool" where
  "bpf_healthy s \<longleftrightarrow> hs_valid (bpf_health s) \<and> bpf_window_ready s \<and> bpf_window_loss_ratio s < 1 / 100"

definition count_actions :: "apply_result \<Rightarrow> 's runtime \<Rightarrow> 's runtime" where
  "count_actions r s =
     s\<lparr>action_requested := action_requested s + requested r, action_committed := action_committed s + committed r,
       action_vanished := action_vanished s + vanished r, action_rolled_back := action_rolled_back s + rolled_back r,
       action_failures := (if success r then action_failures s else action_failures s + 1)\<rparr>"

definition commit_domains :: "numa_domain_proposal \<Rightarrow> uint64 \<Rightarrow> int oset \<Rightarrow> ('s runtime, unit) action" where
  "commit_domains p now done' =
     seq (ask rt_domain_solver) (\<lambda>d.
     seq (from_result (commit p now done' d)) (\<lambda>d'.
     modify (\<lambda>s. s\<lparr>rt_domain_solver := d', current_masks := placement d'\<rparr>)))"

definition discard_domains :: "numa_domain_proposal \<Rightarrow> ('s runtime, unit) action" where
  "discard_domains p = modify (\<lambda>s. s\<lparr>rt_domain_solver := discard p (rt_domain_solver s)\<rparr>)"

text \<open>Release the masks of the threads that left their domains; \<open>False\<close> after a fatal failure.\<close>

definition release_threads ::
  "('s \<Rightarrow> int \<Rightarrow> cpu_mask \<Rightarrow> 's \<times> int option) \<Rightarrow> string \<Rightarrow> numa_domain_proposal \<Rightarrow> ('s runtime, bool) action" where
  "release_threads put message p =
     (if released_tids p = [] then give True
      else seq (run_restore put (released_tids p)) (\<lambda>r.
           seq (modify (\<lambda>s. s\<lparr>last_restore := r\<rparr>)) (\<lambda>_.
           if restore_success r then give True
           else seq (discard_domains p) (\<lambda>_. seq (trigger_fatal put message) (\<lambda>_. give False)))))"

definition invalid_window ::
  "('s \<Rightarrow> int \<Rightarrow> cpu_mask \<Rightarrow> 's \<times> int option) \<Rightarrow> numa_domain_proposal \<Rightarrow> uint64 \<Rightarrow> ('s runtime, unit) action" where
  "invalid_window put p now =
     seq (modify (\<lambda>s. s\<lparr>selector_ready := False\<rparr>)) (\<lambda>_.
     seq (ask (\<lambda>s. cfg_mode (rt_config s))) (\<lambda>m.
     seq (if m = Active then release_threads put ''invalid NUMA domain affinity restore failed'' p else give True) (\<lambda>ok.
     if ok then commit_domains p now [] else give ())))"

definition remove_all :: "int list \<Rightarrow> 's runtime \<Rightarrow> 's runtime" where
  "remove_all ts s = s\<lparr>rt_domain_solver := fold remove_thread ts (rt_domain_solver s)\<rparr>"

definition actuate_domains ::
  "('s \<Rightarrow> int \<Rightarrow> cpu_mask) \<Rightarrow> ('s \<Rightarrow> int \<Rightarrow> cpu_mask \<Rightarrow> 's \<times> int option) \<Rightarrow>
   thread_demand list \<Rightarrow> numa_domain_proposal \<Rightarrow> uint64 \<Rightarrow> ('s runtime, unit) action" where
  "actuate_domains get put ds p now =
     seq (release_threads put ''NUMA domain affinity restore failed'' p) (\<lambda>ok.
     if \<not> ok then give ()
     else
       seq (run_apply get put (np_delta p) (sfrom (map td_tid ds))) (\<lambda>r.
       seq (modify (count_actions r)) (\<lambda>_.
       if \<not> success r then discard_domains p
       else
         seq (modify (remove_all (vanished_tids r))) (\<lambda>_.
         if np_actions p \<noteq> [] \<and> committed_tids r = []
         then seq (modify (remove_all (released_tids p))) (\<lambda>_.
              seq (discard_domains p) (\<lambda>_.
              modify (\<lambda>s. s\<lparr>current_masks := placement (rt_domain_solver s)\<rparr>)))
         else commit_domains p now (committed_tids r)))))"

definition solve_numa_domains ::
  "('s \<Rightarrow> int \<Rightarrow> cpu_mask) \<Rightarrow> ('s \<Rightarrow> int \<Rightarrow> cpu_mask \<Rightarrow> 's \<times> int option) \<Rightarrow>
   thread_demand list \<Rightarrow> relation_edge list \<Rightarrow> (int, cpu_mask) omap \<Rightarrow> uint64 \<Rightarrow> ('s runtime, unit) action" where
  "solve_numa_domains get put ds es allowed now =
     seq (ask (\<lambda>s. has_bpf_reader s \<and> bpf_healthy s)) (\<lambda>gate.
     if \<not> gate then modify (\<lambda>s. s\<lparr>selector_ready := False\<rparr>)
     else
       seq (ask (\<lambda>s. propose (rt_hardware s) ds es allowed (domain_options_of (rt_config s)) now (rt_domain_solver s))) (\<lambda>x.
       seq (from_result x) (\<lambda>(d, p).
       seq (modify (\<lambda>s. s\<lparr>rt_domain_solver := d\<rparr>)) (\<lambda>_.
       if \<not> np_valid p then invalid_window put p now
       else
         seq (modify (\<lambda>s. s\<lparr>selector_ready := ready p \<or> effective (rt_domain_solver s)\<rparr>)) (\<lambda>_.
         if \<not> ready p then discard_domains p
         else if np_actions p = [] \<and> released_tids p = [] \<and> planned_masks p = placement d then discard_domains p
         else
           seq (ask (\<lambda>s. cfg_mode (rt_config s))) (\<lambda>m.
           if m = Plan then commit_domains p now [] else actuate_domains get put ds p now))))))"

section \<open>A window of the incremental strategy\<close>

text \<open>\<^verbatim>\<open>IncrementalOptions\<close> with its default values, and the fields the selector sets.\<close>

definition default_incremental_options :: incremental_options where
  "default_incremental_options =
     \<lparr>maximum_migrated_threads_ratio = 25 / 100, initial_migrated_threads_ratio = 1, proposal_confirmations = 3,
      initial_proposal_confirmations = 1, io_minimum_dwell_ns = 60000000000, initial_node_passes = 2,
      initial_node_thread_slack_ratio = 5 / 10, candidate_multiplier = 4, candidate_hard_limit = 64,
      rotating_scan_size = 32, demand_dirty_threshold = 5 / 100, edge_dirty_absolute_threshold = 1,
      edge_dirty_relative_threshold = 10 / 100, minimum_relative_gain = 5 / 100, maximum_threads_per_cpu = 0,
      thread_slot_slack = 0, future_demand_floor = 2 / 100, group_peak_demand_ratio = 25 / 100,
      group_peak_demand_cap = 5 / 100, group_peak_decay = 95 / 100, node_balance_threshold = 5 / 100,
      hotspot_edges_per_thread = 4, hotspot_edge_quantile = 95 / 100, hotspot_component_boost = 4,
      maximum_managed_threads = 32, managed_thread_hysteresis_ratio = 1, hotspot_replan_growth_ratio = 25 / 100,
      hotspot_replan_min_threads = 8, hotspot_stability_threshold = 65 / 100,
      opt_hotspot_stability_confirmations = 3\<rparr>"

definition selector_options :: "config \<Rightarrow> incremental_options" where
  "selector_options c =
     default_incremental_options\<lparr>hotspot_edges_per_thread := nat (cfg_hotspot_edges_per_thread c),
       hotspot_edge_quantile := cfg_hotspot_edge_quantile c, hotspot_component_boost := cfg_hotspot_component_boost c,
       maximum_managed_threads := cfg_maximum_managed_threads c,
       managed_thread_hysteresis_ratio := cfg_managed_thread_hysteresis_ratio c\<rparr>"

definition active_candidates :: "config \<Rightarrow> int oset \<Rightarrow> thread_demand list \<Rightarrow> thread_demand list" where
  "active_candidates c cohort ds =
     filter (\<lambda>d. cfg_active_demand_threshold c \<le> demand d \<or>
                 td_tid d \<in> set cohort \<and> cfg_inactive_demand_threshold c \<le> demand d)
       (filter (\<lambda>d. \<not> confidence d < cfg_minimum_confidence c) ds)"

definition select_cohort :: "thread_demand list \<Rightarrow> relation_edge list \<Rightarrow> 's runtime \<Rightarrow> thread_demand list" where
  "select_cohort ds es s =
     select_managed_threads (active_candidates (rt_config s) (active_cohort s) ds) es (active_cohort s)
       (selector_options (rt_config s))"

text \<open>Restore the threads that left the cohort and install the new one; \<open>False\<close> when the restore failed.\<close>

definition change_cohort ::
  "('s \<Rightarrow> int \<Rightarrow> cpu_mask \<Rightarrow> 's \<times> int option) \<Rightarrow> thread_demand list \<Rightarrow> ('s runtime, bool) action" where
  "change_cohort put managed =
     seq (ask (\<lambda>s. (filter (\<lambda>t. t \<notin> td_tid ` set managed) (active_cohort s), cfg_mode (rt_config s)))) (\<lambda>(cooling, m).
     seq (if cooling \<noteq> [] \<and> m = Active
          then seq (run_restore put cooling) (\<lambda>r. give (restore_success r)) else give True) (\<lambda>ok.
     if \<not> ok
     then seq (modify (\<lambda>s. s\<lparr>fatal_error := ''active cohort affinity restore failed'', terminated := True\<rparr>)) (\<lambda>_. give False)
     else
       seq (modify (\<lambda>s. s\<lparr>rt_solver := fold inc_remove_thread cooling (rt_solver s),
              current_plan := fold mdel cooling (current_plan s), active_cohort := sfrom (map td_tid managed)\<rparr>)) (\<lambda>_.
       seq (modify (\<lambda>s. if active_cohort s = [] \<and> cooling \<noteq> [] then s\<lparr>rt_solver := inc_reset (rt_solver s)\<rparr> else s)) (\<lambda>_.
       give True))))"

definition finish_actions :: "solver_proposal \<Rightarrow> uint64 \<Rightarrow> apply_result \<Rightarrow> 's runtime \<Rightarrow> 's runtime" where
  "finish_actions q now r s =
     (if \<not> success r then s\<lparr>rt_solver := inc_discard q (rt_solver s)\<rparr>
      else let v = fold inc_remove_thread (vanished_tids r) (rt_solver s);
               v' = (if committed_tids r = [] then inc_discard q v else inc_commit q now (committed_tids r) v)
           in s\<lparr>rt_solver := v', current_plan := is_placement v'\<rparr>)"

definition plan_actions ::
  "('s \<Rightarrow> int \<Rightarrow> cpu_mask) \<Rightarrow> ('s \<Rightarrow> int \<Rightarrow> cpu_mask \<Rightarrow> 's \<times> int option) \<Rightarrow>
   thread_demand list \<Rightarrow> solver_proposal \<Rightarrow> uint64 \<Rightarrow> ('s runtime, unit) action" where
  "plan_actions get put managed q now =
     (if \<not> sp_ready q then give ()
      else
        seq (ask (\<lambda>s. cfg_mode (rt_config s))) (\<lambda>m.
        if m = Plan
        then modify (\<lambda>s. let v = inc_commit q now [] (rt_solver s) in s\<lparr>rt_solver := v, current_plan := is_placement v\<rparr>)
        else
          seq (run_apply get put (sp_delta q) (sfrom (map td_tid managed))) (\<lambda>r.
          seq (modify (count_actions r)) (\<lambda>_. modify (finish_actions q now r)))))"

definition solve_incremental ::
  "('s \<Rightarrow> int \<Rightarrow> cpu_mask) \<Rightarrow> ('s \<Rightarrow> int \<Rightarrow> cpu_mask \<Rightarrow> 's \<times> int option) \<Rightarrow>
   thread_demand list \<Rightarrow> relation_edge list \<Rightarrow> graph_delta \<Rightarrow> uint64 \<Rightarrow> ('s runtime, unit) action" where
  "solve_incremental get put ds es delta now =
     seq (ask (select_cohort ds es)) (\<lambda>managed.
     seq (change_cohort put managed) (\<lambda>ok.
     if \<not> ok then give ()
     else
       seq (ask (\<lambda>s. has_bpf_reader s \<and> \<not> bpf_healthy s)) (\<lambda>waiting.
       if waiting then give ()
       else
         seq (modify (\<lambda>s. s\<lparr>selector_ready := True\<rparr>)) (\<lambda>_.
         if managed = [] then give ()
         else
           seq (ask (\<lambda>s. inc_propose (rt_hardware s) managed es (incremental_options_of (rt_config s)) now (Some delta) (rt_solver s)))
           (\<lambda>(q, v).
           seq (modify (\<lambda>s. s\<lparr>rt_solver := v\<rparr>)) (\<lambda>_.
           seq (from_result q) (\<lambda>q'. plan_actions get put managed q' now)))))))"

section \<open>A solve window\<close>

text \<open>The queries of the graph window, in the order the code makes them.\<close>

definition take_window ::
  "('s runtime, thread_demand list \<times> (int, cpu_mask) omap \<times> relation_edge list \<times> graph_delta) action" where
  "take_window =
     seq (ask (\<lambda>s. demands (rt_graph s))) (\<lambda>(ds, w1).
     seq (modify (\<lambda>s. s\<lparr>rt_graph := w1\<rparr>)) (\<lambda>_.
     seq (ask (\<lambda>s. thread_records (rt_graph s))) (\<lambda>(rs, w2).
     seq (modify (\<lambda>s. s\<lparr>rt_graph := w2\<rparr>)) (\<lambda>_.
     seq (from_result rs) (\<lambda>records.
     seq (ask (\<lambda>s. edges (rt_graph s))) (\<lambda>(es, w3).
     seq (modify (\<lambda>s. s\<lparr>rt_graph := w3\<rparr>)) (\<lambda>_.
     seq (ask (\<lambda>s. take_delta (cfg_demand_dirty_threshold (rt_config s)) (cfg_edge_dirty_absolute_threshold (rt_config s))
            (cfg_edge_dirty_relative_threshold (rt_config s)) (rt_graph s))) (\<lambda>(delta, w4).
     seq (modify (\<lambda>s. s\<lparr>rt_graph := w4\<rparr>)) (\<lambda>_.
     give (ds, fold (\<lambda>r m. mput (tid (tw_identity r)) (tw_allowed_cpus r) m) records [], es, delta))))))))))"

definition solve_window ::
  "('s \<Rightarrow> int \<Rightarrow> cpu_mask) \<Rightarrow> ('s \<Rightarrow> int \<Rightarrow> cpu_mask \<Rightarrow> 's \<times> int option) \<Rightarrow> uint64 \<Rightarrow> ('s runtime, unit) action" where
  "solve_window get put now =
     seq (modify (\<lambda>s. s\<lparr>solve_window_sequence := solve_window_sequence s + 1\<rparr>)) (\<lambda>_.
     seq take_window (\<lambda>(ds, allowed, es, delta).
     seq (ask (\<lambda>s. (cfg_mode (rt_config s), static_profile_effective s, cfg_solver (rt_config s)))) (\<lambda>(m, static, solver).
     if m = Observe \<or> static then give ()
     else if solver = ''numa-domain-v1'' then solve_numa_domains get put ds es allowed now
     else solve_incremental get put ds es delta now)))"

definition maybe_solve ::
  "('s \<Rightarrow> int \<Rightarrow> cpu_mask) \<Rightarrow> ('s \<Rightarrow> int \<Rightarrow> cpu_mask \<Rightarrow> 's \<times> int option) \<Rightarrow> uint64 \<Rightarrow> ('s runtime, unit) action" where
  "maybe_solve get put now =
     seq (ask (\<lambda>s. now - last_solve_ns s < seconds_ns (cfg_solve_interval_seconds (rt_config s)) \<or> paused s)) (\<lambda>skip.
     if skip then give ()
     else seq (modify (\<lambda>s. s\<lparr>last_solve_ns := now\<rparr>)) (\<lambda>_. locked (solve_window get put now)))"

section \<open>The main loop\<close>

text \<open>What the supervisor promises in its status.\<close>

definition policy_armed :: "'s runtime \<Rightarrow> bool" where
  "policy_armed s \<longleftrightarrow>
     cfg_mode (rt_config s) = Active \<and> \<not> paused s \<and> selector_ready s \<and> (\<not> has_bpf_reader s \<or> bpf_healthy s) \<and>
     fatal_error s = []"

definition active_effective :: "'s runtime \<Rightarrow> bool" where
  "active_effective s \<longleftrightarrow>
     cfg_mode (rt_config s) = Active \<and> \<not> paused s \<and> selector_ready s \<and>
     (if cfg_solver (rt_config s) = ''numa-domain-v1'' then current_masks s \<noteq> [] \<and> effective (rt_domain_solver s)
      else active_cohort s = [] \<and> current_plan s = [] \<and> pinned (rt_solver s) = [] \<or> inc_effective (rt_solver s)) \<and>
     (\<not> has_bpf_reader s \<or> bpf_healthy s) \<and> fatal_error s = []"

definition service_control_socket ::
  "('s \<Rightarrow> int \<Rightarrow> cpu_mask \<Rightarrow> 's \<times> int option) \<Rightarrow> string option \<Rightarrow> ('s runtime, unit) action" where
  "service_control_socket put request =
     (case request of
        None \<Rightarrow> give ()
      | Some text' \<Rightarrow>
          (let command = filter (\<lambda>c. \<not> isspace c) text' in
           if command = ''status'' \<or> command = ''dump'' then locked (give ())
           else if command = ''pause'' then seq (pause put) (\<lambda>_. locked (give ()))
           else if command = ''resume'' then seq resume (\<lambda>_. locked (give ()))
           else give ()))"

text \<open>The inputs of one round of the loop.\<close>

record tick =
  tk_request :: "string option"
  tk_now :: uint64
  tk_consume_ns :: uint64
  tk_maps :: "int \<Rightarrow> string list"
  tk_proc :: "int \<Rightarrow> thread_sample list result option"
  tk_scan_ns :: uint64
  tk_check_ns :: uint64

definition run_once ::
  "('s \<Rightarrow> int \<Rightarrow> cpu_mask) \<Rightarrow> ('s \<Rightarrow> int \<Rightarrow> cpu_mask \<Rightarrow> 's \<times> int option) \<Rightarrow> tick \<Rightarrow> uint64 \<Rightarrow> ('s runtime, uint64) action" where
  "run_once get put k next_sample =
     seq (service_control_socket put (tk_request k)) (\<lambda>_.
     seq (ask (\<lambda>s. \<not> sampling_stopped s \<or> 0 < cfg_static_scan_seconds (rt_config s))) (\<lambda>scanning.
     if scanning \<and> next_sample \<le> tk_now k
     then
       seq (consume_pending_bpf put (tk_maps k) (tk_consume_ns k)) (\<lambda>_.
       seq (ask has_bpf_reader) (\<lambda>reader.
       seq (if reader then sample_bpf_health put (tk_now k) else give ()) (\<lambda>_.
       seq (reconcile_and_sample get put (tk_proc k) (tk_scan_ns k) (tk_check_ns k)) (\<lambda>_.
       seq (maybe_solve get put (tk_now k)) (\<lambda>_.
       ask (\<lambda>s. tk_now k + seconds_ns (if sampling_stopped s then cfg_static_scan_seconds (rt_config s)
                                         else effective_sample_seconds s)))))))
     else give next_sample))"

text \<open>The destructor, up to the export of the profile, which changes nothing here.\<close>

definition shut_down ::
  "('s \<Rightarrow> int \<Rightarrow> cpu_mask \<Rightarrow> 's \<times> int option) \<Rightarrow> (int \<Rightarrow> string list) \<Rightarrow> uint64 \<Rightarrow> uint64 \<Rightarrow> ('s runtime, restore_result) action" where
  "shut_down put maps t now =
     seq (consume_pending_bpf put maps t) (\<lambda>_. seq (sample_bpf_health put now) (\<lambda>_. run_restore_all put))"

end
