(* ===== verification/Runtime_Invariant.thy ===== *)
theory Runtime_Invariant
  imports Runtime_Windows
begin

text \<open>
  Invariants of the supervisor. The locale \<open>actuator_invariant\<close> is the interface between the
  runtime and the actuator: a predicate of the mode, the kernel and the actuator that every call
  on the actuator keeps (and batches are only asked to keep it in \<open>Active\<close> mode) is kept by every
  operation of the runtime, on every way out of it. It is interpreted twice: for the modes that do
  not act, where the kernel is as before and no thread is recorded as acted on, and for the
  well-formedness of the actuator's books, in every mode.

  \<open>supervised\<close> are the states a supervisor reaches: the BPF thread's drains and health samples, the
  rounds of the main loop with any input, and the kernel changing on its own in between.
\<close>

section \<open>Locking\<close>

lemma keeps_locked [keeps_rules]:
  assumes "\<And>s b. P s \<Longrightarrow> P (s\<lparr>mutex_locked := b\<rparr>)" "keeps P m"
  shows "keeps P (locked m)"
proof (rule keepsI)
  fix s assume s: "P s"
  obtain r s' where m: "m (s\<lparr>mutex_locked := True\<rparr>) = (r, s')" by fastforce
  have "P s'" using keepsD [OF assms(2) assms(1) [OF s, of True]] m by simp
  then have "P (s'\<lparr>mutex_locked := False\<rparr>)" by (rule assms(1))
  with \<open>P s'\<close> s m show "P (snd (locked m s))" by (cases r) (simp_all add: locked_def)
qed

lemma fold_keeps: "P x \<Longrightarrow> (\<And>y x. P x \<Longrightarrow> P (f y x)) \<Longrightarrow> P (fold f ys x)"
  by (induction ys arbitrary: x) simp_all

section \<open>Invariants over the actuator\<close>

definition in_mode :: "(mode \<Rightarrow> 's \<Rightarrow> actuator \<Rightarrow> bool) \<Rightarrow> mode \<Rightarrow> 's runtime \<Rightarrow> bool" where
  "in_mode J md s \<longleftrightarrow> cfg_mode (rt_config s) = md \<and> J md (world s) (rt_actuator s)"

locale actuator_invariant =
  fixes get :: "'s \<Rightarrow> int \<Rightarrow> cpu_mask"
    and put :: "'s \<Rightarrow> int \<Rightarrow> cpu_mask \<Rightarrow> 's \<times> int option"
    and J :: "mode \<Rightarrow> 's \<Rightarrow> actuator \<Rightarrow> bool"
  assumes J_application: "J md w a \<Longrightarrow> J md w (note_application_mask t m a)"
    and J_inherited: "J md w a \<Longrightarrow> J md w (note_inherited_mask t t' m a)"
    and J_restore_all: "J md w a \<Longrightarrow> restore_all put w a = (w', a', r) \<Longrightarrow> J md w' a'"
    and J_restore: "J md w a \<Longrightarrow> restore_tids put ts w a = (w', a', r) \<Longrightarrow> J md w' a'"
    and J_apply: "J Active w a \<Longrightarrow> apply_placement_delta get put d live w a = (w', a', r') \<Longrightarrow> J Active w' a'"
begin

lemmas J_simps = in_mode_def J_application J_inherited

lemma J_run_restore_all [keeps_rules]: "keeps (in_mode J md) (run_restore_all put)"
  by (rule keepsI)
     (auto simp: in_mode_def run_restore_all_def from_result_def split: prod.splits sum.splits dest: J_restore_all)

lemma J_run_restore [keeps_rules]: "keeps (in_mode J md) (run_restore put ts)"
  by (rule keepsI)
     (auto simp: in_mode_def run_restore_def from_result_def split: prod.splits sum.splits dest: J_restore)

lemma J_run_apply [keeps_rules]: "keeps (in_mode J Active) (run_apply get put d live)"
  by (rule keepsI) (auto simp: in_mode_def run_apply_def split: prod.splits dest: J_apply)

text \<open>The mode read from the state is known.\<close>

lemma J_mode:
  "keeps (in_mode J md) (g md) \<Longrightarrow> keeps (in_mode J md) (seq (ask (\<lambda>s. cfg_mode (rt_config s))) g)"
  by (simp add: keeps_def in_mode_def)

lemma J_pause [keeps_rules]: "keeps (in_mode J md) (pause put)"
  unfolding pause_def by (rule keeps_rules | simp add: in_mode_def)+

lemma J_trigger_fatal [keeps_rules]: "keeps (in_mode J md) (trigger_fatal put m)"
  unfolding trigger_fatal_def by (rule keeps_rules | simp add: in_mode_def)+

lemma J_handle_bpf_event [keeps_rules]: "keeps (in_mode J md) (handle_bpf_event maps ev)"
  unfolding handle_bpf_event_def thread_started_def thread_exited_def thread_renamed_def application_affinity_def
  by (rule keeps_rules | simp add: J_simps observe_pair_def split: option.splits)+

lemma J_consume_pending_bpf [keeps_rules]: "keeps (in_mode J md) (consume_pending_bpf put maps now)"
  unfolding consume_pending_bpf_def consume_relations_def
  by (rule keeps_rules | simp add: in_mode_def take_pending_def)+

lemma J_sample_bpf_health [keeps_rules]: "keeps (in_mode J md) (sample_bpf_health put now)"
  unfolding sample_bpf_health_def evaluate_health_def Let_def
  by (rule keeps_rules | simp add: in_mode_def note_invalid_health_def note_valid_health_def Let_def)+

lemma J_reconcile_one: "in_mode J md (fst st) \<Longrightarrow> in_mode J md (fst (reconcile_one x st))"
  by (auto simp: reconcile_one_def match_profile_def admit_sample_def J_simps Let_def split: prod.splits option.splits)

lemma J_drop_unseen: "in_mode J md s \<Longrightarrow> in_mode J md (drop_unseen static seen t s)"
  by (simp add: drop_unseen_def in_mode_def Let_def)

lemma J_scan_samples: "in_mode J md s \<Longrightarrow> in_mode J md (fst (scan_samples static existing samples s))"
proof -
  assume s: "in_mode J md s"
  have "in_mode J md (fst (fold reconcile_one samples
      (s\<lparr>target_tgids := existing\<rparr>, \<lparr>sc_samples = [], sc_delta = [], sc_live = [], sc_matches = 0\<rparr>)))"
    by (rule fold_keeps [where P = "\<lambda>st. in_mode J md (fst st)"])
       (use s in \<open>simp add: in_mode_def\<close>, rule J_reconcile_one)
  then show ?thesis
    by (auto simp: scan_samples_def split: prod.splits intro!: fold_keeps [where P = "in_mode J md"] J_drop_unseen)
qed

lemma J_reconcile_samples [keeps_rules]: "keeps (in_mode J md) (reconcile_samples static existing samples)"
proof (rule keepsI)
  fix s assume "in_mode J md s"
  then have "in_mode J md (fst (scan_samples static existing samples s))" by (rule J_scan_samples)
  then show "in_mode J md (snd (reconcile_samples static existing samples s))"
    by (cases "observe_threads (sc_samples (snd (scan_samples static existing samples s)))
                 (rt_graph (fst (scan_samples static existing samples s)))")
       (auto simp: reconcile_samples_def in_mode_def give_def split: prod.splits)
qed

lemma J_scan_processes [keeps_rules]: "keeps (in_mode J md) (scan_processes get put proc now)"
proof (cases "md = Active")
  case True
  show ?thesis unfolding scan_processes_def True
    by (rule J_mode keeps_rules | simp add: in_mode_def note_quiescence_def)+
next
  case False
  then show ?thesis unfolding scan_processes_def
    by - (rule J_mode keeps_rules | simp add: in_mode_def note_quiescence_def)+
qed

lemma J_reconcile_and_sample [keeps_rules]: "keeps (in_mode J md) (reconcile_and_sample get put proc t1 t2)"
  unfolding reconcile_and_sample_def by (rule keeps_rules | simp add: in_mode_def)+

lemma J_commit_domains [keeps_rules]: "keeps (in_mode J md) (commit_domains p now ts)"
  unfolding commit_domains_def by (rule keeps_rules | simp add: in_mode_def)+

lemma J_discard_domains [keeps_rules]: "keeps (in_mode J md) (discard_domains p)"
  unfolding discard_domains_def by (rule keeps_rules | simp add: in_mode_def)+

lemma J_release_threads [keeps_rules]: "keeps (in_mode J md) (release_threads put m p)"
  unfolding release_threads_def by (rule keeps_rules | simp add: in_mode_def)+

lemma J_actuate_domains [keeps_rules]: "keeps (in_mode J Active) (actuate_domains get put ds p now)"
  unfolding actuate_domains_def by (rule keeps_rules | simp add: in_mode_def count_actions_def remove_all_def)+

lemma J_solve_numa_domains [keeps_rules]:
  assumes "md \<noteq> Observe"
  shows "keeps (in_mode J md) (solve_numa_domains get put ds es allowed now)"
proof -
  have "md = Plan \<or> md = Active" using assms by (cases md) auto
  then show ?thesis
    unfolding solve_numa_domains_def invalid_window_def
    by (elim disjE; hypsubst) (rule J_mode keeps_rules | simp add: in_mode_def)+
qed

lemma J_change_cohort [keeps_rules]: "keeps (in_mode J md) (change_cohort put managed)"
  unfolding change_cohort_def by (rule keeps_rules | simp add: in_mode_def)+

lemma J_solve_incremental [keeps_rules]:
  assumes "md \<noteq> Observe"
  shows "keeps (in_mode J md) (solve_incremental get put ds es delta now)"
proof -
  have "md = Plan \<or> md = Active" using assms by (cases md) auto
  then show ?thesis
    unfolding solve_incremental_def plan_actions_def
    by (elim disjE; hypsubst)
       (rule J_mode keeps_rules | simp add: in_mode_def Let_def count_actions_def finish_actions_def)+
qed

lemma J_take_window [keeps_rules]: "keeps (in_mode J md) take_window"
  unfolding take_window_def by (rule keeps_rules | simp add: in_mode_def)+

lemma J_mode_static_solver:
  "(\<And>b v. keeps (in_mode J md) (g (md, b, v))) \<Longrightarrow>
   keeps (in_mode J md) (seq (ask (\<lambda>s. (cfg_mode (rt_config s), static_profile_effective s, cfg_solver (rt_config s)))) g)"
  by (simp add: keeps_def in_mode_def)

lemma J_solve_window [keeps_rules]: "keeps (in_mode J md) (solve_window get put now)"
  unfolding solve_window_def by (rule J_mode_static_solver keeps_rules | simp add: in_mode_def)+

lemma J_maybe_solve [keeps_rules]: "keeps (in_mode J md) (maybe_solve get put now)"
  unfolding maybe_solve_def by (rule keeps_rules | simp add: in_mode_def)+

lemma J_run_once: "keeps (in_mode J md) (run_once get put k t)"
  unfolding run_once_def service_control_socket_def resume_def Let_def
  by (rule keeps_rules | simp add: in_mode_def)+

lemma J_shut_down: "keeps (in_mode J md) (shut_down put maps t now)"
  unfolding shut_down_def by (rule keeps_rules)+

lemma J_drain: "in_mode J md s \<Longrightarrow> in_mode J md (drain_bpf_once events futex vfs now s)"
  by (auto simp: drain_bpf_once_def intro!: fold_keeps [where P = "in_mode J md"])
     (auto simp: in_mode_def push_lifecycle_def merge_relation_def Let_def)

lemma J_sample_health: "in_mode J md s \<Longrightarrow> in_mode J md (sample_health now h s)"
  by (simp add: in_mode_def sample_health_def Let_def)

end

section \<open>The books of the actuator\<close>

lemma actuator_wf_roll_back: "actuator_wf (fst (snd st)) \<Longrightarrow> actuator_wf (fst (snd (roll_back put b ts st)))"
  unfolding roll_back_def
  by (rule fold_keeps [where P = "\<lambda>st. actuator_wf (fst (snd st))"])
     (auto simp: roll_back_one_def actuator_wf_def split: prod.splits)

lemma actuator_wf_apply_one:
  assumes "actuator_wf (fst (snd st))"
  shows "case apply_one get put live x b st of
    Inl st' \<Rightarrow> actuator_wf (fst (snd st')) | Inr (b', st') \<Rightarrow> actuator_wf (fst (snd st'))"
proof -
  obtain t cs s a r where x: "x = (t, cs)" "st = (s, a, r)" by (cases x, cases st) auto
  obtain b1 a1 where r: "remember get s t b a = (b1, a1)" by fastforce
  have wf: "actuator_wf a1" "t \<in> dom (map_of (restore_masks a1))"
    using assms x r by (auto simp: remember_def actuator_wf_def mhas_def split: if_splits)
  then have "actuator_wf (a1\<lparr>acted_tids := sput t (acted_tids a1)\<rparr>)" by (auto simp: actuator_wf_def)
  with wf assms x r show ?thesis
    by (auto simp: apply_one_def Let_def split: prod.splits option.splits intro!: actuator_wf_roll_back)
qed

lemma actuator_wf_apply_loop: "actuator_wf (fst (snd st)) \<Longrightarrow> actuator_wf (fst (snd (apply_loop get put live xs b st)))"
proof (induction xs arbitrary: b st)
  case Nil
  then show ?case by (cases st) (simp add: finish_batch_def)
next
  case (Cons x xs)
  show ?case using actuator_wf_apply_one [OF Cons.prems, of get put live x b] Cons.IH
    by (auto split: sum.splits)
qed

lemma actuator_wf_restore_loop:
  "actuator_wf a \<Longrightarrow> actuator_wf (fst (snd (restore_loop put ts (s, a, r))))"
  by (induction ts arbitrary: s a r) (auto simp: Let_def actuator_wf_forget split: option.splits prod.splits)

lemma acted_note [simp]:
  "acted_tids (note_application_mask t m a) = acted_tids a" "acted_tids (note_inherited_mask t p m a) = acted_tids a"
  by (simp_all add: note_application_mask_def note_inherited_mask_def)

lemma restore_loop_idle: "acted_tids a = [] \<Longrightarrow> restore_loop put ts (s, a, r) = (s, a, Inr r)"
  by (induction ts) simp_all

interpretation books: actuator_invariant get put "\<lambda>md w a. actuator_wf a"
proof unfold_locales
  show "actuator_wf a'" if "actuator_wf a" "restore_all put w a = (w', a', r)" for w w' a a' r
    using that by (auto simp: restore_all_def split: prod.splits sum.splits)
  show "actuator_wf a'" if "actuator_wf a" "restore_tids put ts w a = (w', a', r)" for ts w w' a a' r
    using actuator_wf_restore_loop [OF that(1), of put ts w "new_restore_result 0"] that(2) by (simp add: restore_tids_def)
  show "actuator_wf a'" if "actuator_wf a" "apply_placement_delta get put d live w a = (w', a', r')" for d live w w' a a' r'
    using actuator_wf_apply_loop [of "(w, a, new_apply_result (length (delta_masks d)))" get put live] that
    by (simp add: apply_placement_delta_def apply_delta_def) (metis fst_conv snd_conv)
qed (simp_all add: actuator_wf_note_application_mask actuator_wf_note_inherited_mask)

section \<open>Modes that do not act\<close>

interpretation idle: actuator_invariant get put "\<lambda>md w a. md \<noteq> Active \<and> acted_tids a = [] \<and> w = w0"
  by unfold_locales
     (auto simp: restore_all_def restore_tids_def restore_loop_idle new_restore_result_def new_actuator_def)

section \<open>Supervised states\<close>

text \<open>
  \<^verbatim>\<open>get\<close> and \<^verbatim>\<open>put\<close> are the backend. A round of the loop may end with an exception, which
  terminates the supervisor, or never return; its state then counts as reached too.
\<close>

inductive supervised ::
  "('s \<Rightarrow> int \<Rightarrow> cpu_mask) \<Rightarrow> ('s \<Rightarrow> int \<Rightarrow> cpu_mask \<Rightarrow> 's \<times> int option) \<Rightarrow> 's runtime \<Rightarrow> bool"
  for get put where
  start: "new_runtime c pid reader degraded hw profile t w = Inr s \<Longrightarrow> supervised get put s"
| kernel: "supervised get put s \<Longrightarrow> supervised get put (s\<lparr>world := w\<rparr>)"
| drain: "supervised get put s \<Longrightarrow> supervised get put (drain_bpf_once events futex vfs t s)"
| health: "supervised get put s \<Longrightarrow> supervised get put (sample_health t h s)"
| round: "supervised get put s \<Longrightarrow> supervised get put (snd (run_once get put k t s))"

lemma drain_kernel:
  "rt_actuator (drain_bpf_once events futex vfs t s) = rt_actuator s \<and>
   cfg_mode (rt_config (drain_bpf_once events futex vfs t s)) = cfg_mode (rt_config s)"
  by (auto simp: drain_bpf_once_def
        intro!: fold_keeps [where P = "\<lambda>s'. rt_actuator s' = rt_actuator s \<and> cfg_mode (rt_config s') = cfg_mode (rt_config s)"])
     (auto simp: push_lifecycle_def merge_relation_def Let_def)

lemma supervised_books: "supervised get put s \<Longrightarrow> actuator_wf (rt_actuator s)"
proof (induction rule: supervised.induct)
  case (round s k t)
  then show ?case
    using keepsD [OF books.J_run_once, of "cfg_mode (rt_config s)" s] by (simp add: in_mode_def)
next
  case (drain s events futex vfs t)
  then show ?case using drain_kernel [of events futex vfs t s] by simp
qed (auto simp: new_runtime_def Let_def sample_health_def split: if_splits)

lemma round_mode:
  "supervised get put s \<Longrightarrow> cfg_mode (rt_config (snd (run_once get put k t s))) = cfg_mode (rt_config s)"
  using keepsD [OF books.J_run_once, of "cfg_mode (rt_config s)" s] by (simp add: in_mode_def supervised_books)

lemma supervised_idle:
  "supervised get put s \<Longrightarrow> cfg_mode (rt_config s) \<noteq> Active \<Longrightarrow> acted_tids (rt_actuator s) = []"
proof (induction rule: supervised.induct)
  case (round s k t)
  then show ?case
    using keepsD [OF idle.J_run_once [where md = "cfg_mode (rt_config s)" and ?w0.0 = "world s"]] round_mode [OF round.hyps]
    by (simp add: in_mode_def)
next
  case (drain s events futex vfs t)
  then show ?case
    using drain_kernel [of events futex vfs t s] by simp
qed (auto simp: new_runtime_def new_actuator_def Let_def sample_health_def split: if_splits)

lemma idle_world:
  assumes "supervised get put s" "cfg_mode (rt_config s) \<noteq> Active"
  shows "world (snd (run_once get put k t s)) = world s" "world (snd (shut_down put maps t' now s)) = world s"
  using keepsD [OF idle.J_run_once [where md = "cfg_mode (rt_config s)" and ?w0.0 = "world s"]]
    keepsD [OF idle.J_shut_down [where md = "cfg_mode (rt_config s)" and ?w0.0 = "world s"]] supervised_idle [OF assms] assms(2)
  by (simp_all add: in_mode_def)

end
