(* ===== verification/Runtime_Control.thy ===== *)
theory Runtime_Control
  imports Runtime_Invariant Domain_Safety
begin

text \<open>
  What the supervisor's operations guarantee as a whole: the modes that only watch never write, a
  pause puts the saved masks back, and a committed window of the NUMA-domain strategy leaves every
  thread it acted on with the mask that the runtime records for it. Two theorems record where the
  composition breaks: the fatal path taken inside a window waits for the mutex that the window
  holds, and a thread number that is reused is restored to the mask of the thread that had it
  before.
\<close>

section \<open>A supervisor to start from\<close>

definition sample_runtime :: "config \<Rightarrow> 's \<Rightarrow> 's runtime" where
  "sample_runtime c w = projr (new_runtime c 1 True False sample_hardware None 5 w)"

lemma sample_runtime_start:
  assumes "cfg_sample_interval_seconds c \<noteq> 0"
  shows "supervised get put (sample_runtime c w)" "cfg_mode (rt_config (sample_runtime c w)) = cfg_mode c"
    "\<not> mutex_locked (sample_runtime c w)" "world (sample_runtime c w) = w"
  using assms supervised.start [of c 1 True False sample_hardware None 5 w]
  by (simp_all add: sample_runtime_def new_runtime_def effective_config_def Let_def)

text \<open>
  C1. A supervisor whose mode is observe or plan - as configured, or degraded at the start - never
  changes the affinity of any thread: in every state it reaches, whatever events, samples, control
  commands and failures it has seen, a round of its loop and its shutdown leave the kernel as it
  was.
\<close>

theorem shadow_modes_never_write:
  assumes "supervised get put s" "cfg_mode (rt_config s) \<noteq> Active"
  shows "world (snd (run_once get put k t s)) = world s \<and> world (snd (shut_down put maps t' now s)) = world s"
  using idle_world [OF assms] by simp

theorem shadow_modes_never_write_witness:
  "world (snd (shut_down fake_set (\<lambda>_. []) 7 8 (sample_runtime (new_config\<lparr>cfg_mode := Plan\<rparr>) \<lparr>masks = [(4, [0])], fail_tid = 9\<rparr>))) =
     \<lparr>masks = [(4, [0])], fail_tid = 9\<rparr>"
proof -
  let ?c = "new_config\<lparr>cfg_mode := Plan\<rparr>" and ?w = "\<lparr>masks = [(4, [0])], fail_tid = 9\<rparr>"
  have "cfg_sample_interval_seconds ?c \<noteq> 0" "cfg_mode ?c \<noteq> Active" by (simp_all add: new_config_def)
  then show ?thesis
    using shadow_modes_never_write [OF sample_runtime_start(1) [of ?c fake_get fake_set ?w]]
      sample_runtime_start(2,4) [of ?c ?w] by metis
qed

context affinity_backend begin

lemma restore_all_masks:
  assumes "actuator_wf a" "restore_all put w a = (w', a', res)"
  shows "a' = new_actuator \<and> (\<exists>r. res = Inr r \<and> (restore_success r \<longrightarrow> (\<forall>t. alive w' t \<longrightarrow>
    get w' t = (if t \<in> set (acted_tids a) then the (map_of (restore_masks a) t) else get w t))))"
proof -
  obtain w1 r where run: "restore_all_loop put (restore_masks a) (acted_tids a)
      (w, new_restore_result (length (acted_tids a))) = (w1, Inr r)"
    using restore_all_loop_total [of "acted_tids a" "restore_masks a" w "new_restore_result (length (acted_tids a))"] assms(1) by (auto simp: actuator_wf_def)
  then have "w' = w1" "a' = new_actuator" "res = Inr r" using assms(2) by (auto simp: restore_all_def)
  then show ?thesis
    using restore_all_loop_masks [OF run] assms(1) by (auto simp: restore_success_def actuator_wf_def swf_distinct)
qed

end

context linux_kernel begin

lemmas linux_restore_all_masks = linux.restore_all_masks

end



section \<open>Reused thread numbers\<close>

lemma admit_after_exit:
  assumes "\<not> mutex_locked s" "map_of (restore_masks (rt_actuator s)) (tid (ts_identity x)) = Some m"
  shows "rt_actuator (snd (admit_sample x (snd (thread_exited (tid (ts_identity x)) s)))) = rt_actuator s \<and>
    \<not> mutex_locked (snd (admit_sample x (snd (thread_exited (tid (ts_identity x)) s)))) \<and>
    world (snd (admit_sample x (snd (thread_exited (tid (ts_identity x)) s)))) = world s"
proof -
  let ?t = "tid (ts_identity x)"
  have "snd (thread_exited ?t s) = s\<lparr>lifecycle := mdel ?t (lifecycle s),
      pending_application_masks := mdel ?t (pending_application_masks s), current_plan := mdel ?t (current_plan s),
      current_masks := mdel ?t (current_masks s), active_cohort := sdel ?t (active_cohort s),
      rt_solver := inc_remove_thread ?t (rt_solver s), rt_domain_solver := remove_thread ?t (rt_domain_solver s)\<rparr>"
    using assms(1) by (cases s) (simp add: thread_exited_def locked_def modify_def)
  then show ?thesis using assms by (simp add: admit_sample_def note_inherited_mask_def mhas_def Let_def)
qed

lemma pause_run:
  assumes "restore_all put (world s) (rt_actuator s) = (w, a, Inr r)" "\<not> mutex_locked s"
  shows "\<exists>s'. pause put s = (Returned (), s') \<and> world s' = w \<and> last_restore s' = r"
  using assms by (simp add: pause_def locked_def run_restore_all_def from_result_def seq_def modify_def)

text \<open>
  C38. Where the saved masks go wrong: the exit of a thread leaves its entry in the actuator, and the
  first sample of a new thread with the same number does not replace it. The next restore writes
  the old thread's mask to the new thread, whatever mask the new thread was seen with.
\<close>

theorem reused_tid_restored_to_old_mask:
  assumes "linux_kernel getaff setaff alive" "actuator_wf (rt_actuator s)" "\<not> mutex_locked s"
    and "tid (ts_identity x) \<in> set (acted_tids (rt_actuator s))"
    and "map_of (restore_masks (rt_actuator s)) (tid (ts_identity x)) = Some m"
  shows "\<exists>s'. pause (linux_set getaff setaff) (snd (admit_sample x (snd (thread_exited (tid (ts_identity x)) s)))) = (Returned (), s') \<and>
    (restore_success (last_restore s') \<longrightarrow> alive (world s') (tid (ts_identity x)) \<longrightarrow>
       linux_get getaff (world s') (tid (ts_identity x)) = m)"
proof -
  let ?s = "snd (admit_sample x (snd (thread_exited (tid (ts_identity x)) s)))"
  note same = admit_after_exit [OF assms(3,5)]
  obtain w a res where run: "restore_all (linux_set getaff setaff) (world ?s) (rt_actuator ?s) = (w, a, res)"
    by (metis prod_cases3)
  then obtain r where r: "res = Inr r" "restore_success r \<longrightarrow> alive w (tid (ts_identity x)) \<longrightarrow> linux_get getaff w (tid (ts_identity x)) = m"
    using linux_kernel.linux_restore_all_masks [OF assms(1) _ run] same assms(2,4,5) by auto
  then show ?thesis using pause_run [OF run [unfolded r(1)]] same by metis
qed

definition reused_runtime :: "kernel runtime" where
  "reused_runtime = (sample_runtime (new_config\<lparr>cfg_mode := Active\<rparr>) \<lparr>thread_masks = [(10, [2, 3])], cpuset = [0, 1, 2, 3]\<rparr>)
     \<lparr>rt_actuator := \<lparr>restore_masks = [(10, [0, 1])], acted_tids = [10]\<rparr>\<rparr>"

lemma reused_restore:
  "restore_all (linux_set kernel_getaff kernel_setaff) \<lparr>thread_masks = [(10, [2, 3])], cpuset = [0, 1, 2, 3]\<rparr>
     \<lparr>restore_masks = [(10, [0, 1])], acted_tids = [10]\<rparr> =
   (\<lparr>thread_masks = [(10, [0, 1])], cpuset = [0, 1, 2, 3]\<rparr>, new_actuator,
    Inr \<lparr>rs_requested = 1, rs_restored = 1, rs_vanished = 0, rs_failed = 0\<rparr>)"
  by (simp add: actuator_eval)

theorem reused_tid_restored_to_old_mask_witness:
  "\<exists>s'. pause (linux_set kernel_getaff kernel_setaff)
       (snd (admit_sample (sample_worker 10) (snd (thread_exited 10 reused_runtime)))) = (Returned (), s') \<and>
     linux_get kernel_getaff (world s') 10 = [0, 1]"
proof -
  have f: "rt_actuator reused_runtime = \<lparr>restore_masks = [(10, [0, 1])], acted_tids = [10]\<rparr>" "\<not> mutex_locked reused_runtime"
    "world reused_runtime = \<lparr>thread_masks = [(10, [2, 3])], cpuset = [0, 1, 2, 3]\<rparr>"
    by (simp_all add: reused_runtime_def sample_runtime_def new_runtime_def new_config_def Let_def)
  have t [simp]: "tid (ts_identity (sample_worker 10)) = 10" by (simp add: sample_worker_def)
  have wf: "actuator_wf \<lparr>restore_masks = [(10, [0, 1])], acted_tids = [10]\<rparr>" by (simp add: actuator_wf_def mwf_def swf_def)
  have "map_of (restore_masks (rt_actuator reused_runtime)) (tid (ts_identity (sample_worker 10))) = Some [0, 1]" using f(1) by simp
  note same = admit_after_exit [OF f(2) this, unfolded t f]
  obtain s' where s': "pause (linux_set kernel_getaff kernel_setaff)
      (snd (admit_sample (sample_worker 10) (snd (thread_exited 10 reused_runtime)))) = (Returned (), s')"
    "world s' = \<lparr>thread_masks = [(10, [0, 1])], cpuset = [0, 1, 2, 3]\<rparr>" "restore_success (last_restore s')"
    using pause_run [of "linux_set kernel_getaff kernel_setaff" "snd (admit_sample (sample_worker 10) (snd (thread_exited 10 reused_runtime)))"]
      same reused_restore by (auto simp: restore_success_def)
  have "kernel_alive (world s') 10" by (simp add: s'(2) kernel_alive_def mhas_def)
  then show ?thesis
    using reused_tid_restored_to_old_mask [OF cpuset_kernel.linux_kernel_axioms _ f(2), of "sample_worker 10" "[0, 1]"] f(1) wf s' by auto
qed

section \<open>Committed windows\<close>

lemma fold_commit_action_lookup:
  assumes "\<forall>a \<in> set acts. tid (na_identity a) = t \<longrightarrow> na_target_mask a = m" "t \<in> set done'"
    and "map_of kept t = Some m \<or> t \<in> (\<lambda>a. tid (na_identity a)) ` set acts"
  shows "map_of (fold (commit_action done') acts kept) t = Some m"
  using assms
proof (induction acts arbitrary: kept)
  case (Cons a acts)
  have "map_of (commit_action done' a kept) t = Some m \<or> t \<in> (\<lambda>a. tid (na_identity a)) ` set acts"
    using Cons.prems by (auto simp: commit_action_def)
  then show ?case using Cons by simp
qed simp

lemma by_tid_input: "mhas (by_tid (aggregate_input xs es0)) t \<Longrightarrow> t \<in> td_tid ` set xs"
proof -
  have e: "by_tid (aggregate_edge e g) = by_tid g" for e g
    by (simp add: aggregate_edge_def Let_def split: option.splits)
  have es: "by_tid (fold aggregate_edge es g) = by_tid g" for es g
    by (induction es arbitrary: g) (simp_all add: e)
  have ts: "mhas (by_tid (fold aggregate_thread ts g)) t \<Longrightarrow> mhas (by_tid g) t \<or> t \<in> td_tid ` set ts" for ts g
  proof (induction ts arbitrary: g)
    case (Cons x ts)
    then have "mhas (by_tid (aggregate_thread x g)) t \<or> t \<in> td_tid ` set ts" by simp
    then show ?case by (auto simp: aggregate_thread_def mhas_def split: if_splits)
  qed simp
  show "mhas (by_tid (aggregate_input xs es0)) t \<Longrightarrow> t \<in> td_tid ` set xs"
    using ts [of xs empty_aggregate] by (simp add: aggregate_input_def es empty_aggregate_def mhas_def)
qed

lemma planned_observed:
  assumes "propose hw ds es allowed opts now s = Inr (d, p)" "t \<in> dom (map_of (planned_masks p))"
  shows "t \<in> td_tid ` set ds"
proof -
  obtain pd where pd: "proposal_of hw ds es allowed opts now s d p pd" using propose_result [OF assms(1)] .
  then have "masks_ok (aggregate_input ds es) allowed (pd_domains pd) (pd_masks pd)"
    using plan_domains_masks by (auto simp: proposal_of_def)
  then have "mhas (by_tid (aggregate_input ds es)) t"
    using assms(2) pd by (auto simp: masks_ok_def mask_ok_def proposal_of_def)
  then show ?thesis by (rule by_tid_input)
qed

lemma delta_has_actions:
  assumes "propose hw ds es allowed opts now s = Inr (d, p)" "tid_to_mask (np_delta p) \<noteq> []"
  shows "np_actions p \<noteq> []"
proof -
  obtain pd where "proposal_of hw ds es allowed opts now s d p pd" using propose_result [OF assms(1)] .
  then have "tid_to_mask (np_delta p) = action_delta (np_actions p)" by (simp add: proposal_of_def)
  then show ?thesis using assms(2) by (auto simp: action_delta_def)
qed

lemma trigger_fatal_locked: "mutex_locked s \<Longrightarrow> trigger_fatal put msg s = (Blocked, s)"
  by (simp add: trigger_fatal_def locked_def seq_def)

lemma release_locked:
  assumes "mutex_locked s" "release_threads put msg p s = (Returned ok, s1)"
  shows "ok \<and> action_failures s1 = action_failures s \<and> rt_domain_solver s1 = rt_domain_solver s"
proof (cases "released_tids p = []")
  case False
  obtain w a r where r: "restore_tids put (released_tids p) (world s) (rt_actuator s) = (w, a, r)" by (metis prod_cases3)
  show ?thesis
    using assms False r
    by (cases r) (auto simp: release_threads_def run_restore_def from_result_def discard_domains_def seq_def modify_def
        give_def trigger_fatal_locked split: if_splits)
qed (use assms in \<open>simp add: release_threads_def give_def\<close>)

text \<open>A window that acts, returns and counts no failed batch has committed what the batch wrote.\<close>

lemma actuate_domains_run:
  assumes run: "actuate_domains get put ds p now s = (Returned (), s')"
    and "mutex_locked s" "action_failures s' = action_failures s"
  obtains w0 a0 a r where
    "apply_placement_delta get put (np_delta p) (sfrom (map td_tid ds)) w0 a0 = (world s', a, r)" "success r"
    "committed_tids r \<noteq> [] \<Longrightarrow> \<exists>d d'. commit p now (committed_tids r) d = Inr d' \<and> current_masks s' = placement d'"
proof -
  obtain ok s1 where rel: "release_threads put ''NUMA domain affinity restore failed'' p s = (Returned ok, s1)"
    using run unfolding actuate_domains_def seq_returned by auto
  then have s1: "release_threads put ''NUMA domain affinity restore failed'' p s = (Returned True, s1)"
    "action_failures s1 = action_failures s"
    using release_locked [OF assms(2) rel] by simp_all
  obtain w a r where r: "apply_placement_delta get put (np_delta p) (sfrom (map td_tid ds)) (world s1) (rt_actuator s1) = (w, a, r)"
    by (metis prod_cases3)
  let ?s2 = "count_actions r (s1\<lparr>world := w, rt_actuator := a\<rparr>)"
  have rest: "(if \<not> success r then discard_domains p
       else seq (modify (remove_all (vanished_tids r))) (\<lambda>_.
         if np_actions p \<noteq> [] \<and> committed_tids r = []
         then seq (modify (remove_all (released_tids p))) (\<lambda>_.
              seq (discard_domains p) (\<lambda>_. modify (\<lambda>s. s\<lparr>current_masks := placement (rt_domain_solver s)\<rparr>)))
         else commit_domains p now (committed_tids r))) ?s2 = (Returned (), s')"
    using run s1(1) r unfolding actuate_domains_def by (simp add: seq_def run_apply_def modify_def)
  have ok: "success r"
  proof (rule ccontr)
    assume "\<not> success r"
    then have "action_failures s' = action_failures s + 1"
      using rest s1(2) by (auto simp: discard_domains_def modify_def count_actions_def)
    then show False using assms(3) by simp
  qed
  note eval = modify_def seq_def remove_all_def commit_domains_def from_result_def ask_def discard_domains_def count_actions_def
  have "world s' = w" using rest ok by (auto simp: eval split: if_splits sum.splits)
  moreover have "\<exists>d d'. commit p now (committed_tids r) d = Inr d' \<and> current_masks s' = placement d'"
    if "committed_tids r \<noteq> []"
  proof -
    have "\<exists>d'. commit p now (committed_tids r) (fold remove_thread (vanished_tids r) (rt_domain_solver s1)) = Inr d' \<and>
        current_masks s' = placement d'"
      using rest ok that by (auto simp: eval split: sum.splits)
    then show ?thesis by blast
  qed
  ultimately show thesis using that [of "world s1" "rt_actuator s1" a r] r ok by simp
qed

lemma actuate_domains_installs:
  assumes kernel: "linux_kernel getaff setaff alive"
    and p: "propose hw ds es allowed opts now0 s0 = Inr (d, p)" "ready p"
    and run: "actuate_domains (linux_get getaff) (linux_set getaff setaff) ds p now s = (Returned (), s')"
    and "mutex_locked s" "action_failures s' = action_failures s"
    and t: "map_of (tid_to_mask (np_delta p)) t = Some m" "alive (world s') t"
  shows "linux_get getaff (world s') t = m \<and> map_of (current_masks s') t = Some m"
proof -
  obtain pd where pd: "proposal_of hw ds es allowed opts now0 s0 d p pd" using propose_result [OF p(1)] .
  have delta: "tid_to_cpu (np_delta p) = []" "mwf (tid_to_mask (np_delta p))"
    "set (tid_to_mask (np_delta p)) = action_pair ` set (np_actions p)"
    using pd p(2) proposal_delta [OF pd p(2)] mwf_filter [OF proposal_plan_wf [OF pd]]
    by (auto simp: proposal_of_def to_write_def simp flip: list.set_map)
  have masks: "delta_masks (np_delta p) = tid_to_mask (np_delta p)" using delta(1) by (simp add: delta_masks_def)
  obtain w0 a0 a r where r: "apply_placement_delta (linux_get getaff) (linux_set getaff setaff) (np_delta p)
      (sfrom (map td_tid ds)) w0 a0 = (world s', a, r)" "success r"
    and commit: "committed_tids r \<noteq> [] \<Longrightarrow> \<exists>d d'. commit p now (committed_tids r) d = Inr d' \<and> current_masks s' = placement d'"
    using actuate_domains_run [OF run assms(5,6)] by blast
  note batch = linux_kernel.linux_placement_committed [OF kernel delta(2) r]
  have entry: "(t, m) \<in> set (tid_to_mask (np_delta p))" using t(1) by (rule map_of_SomeD)
  then have "t \<in> dom (map_of (planned_masks p))"
    using proposal_delta [OF pd p(2)] by (auto simp: to_write_def dom_map_of_conv_image_fst intro: rev_image_eqI)
  then have live: "t \<in> set (sfrom (map td_tid ds))" using planned_observed [OF p(1)] by simp
  have "t \<in> set (committed_tids r) \<union> set (vanished_tids r)" using batch t(1) masks by (metis domI)
  moreover have "t \<notin> set (vanished_tids r)" using batch live t(2) by (elim conjE) blast
  ultimately have committed: "t \<in> set (committed_tids r)" by simp
  then obtain d1 d2 where d2: "commit p now (committed_tids r) d1 = Inr d2" "current_masks s' = placement d2"
    using commit by (metis empty_iff empty_set)
  have acts: "na_target_mask a = m" if "a \<in> set (np_actions p)" "tid (na_identity a) = t" for a
  proof -
    have "(t, na_target_mask a) \<in> set (tid_to_mask (np_delta p))"
      unfolding delta(3) by (rule rev_image_eqI [OF that(1)]) (simp add: action_pair_def that(2))
    then show ?thesis using mwf_entry [OF delta(2)] t(1) by simp
  qed
  obtain b where b: "b \<in> set (np_actions p)" "action_pair b = (t, m)" using entry delta(3) by auto
  have "t \<in> (\<lambda>a. tid (na_identity a)) ` set (np_actions p)"
    by (rule rev_image_eqI [OF b(1)]) (use b(2) in \<open>simp add: action_pair_def\<close>)
  then have "map_of (placement d2) t = Some m"
    using commit_result(2) [OF d2(1)] fold_commit_action_lookup [OF _ committed] acts
    by (simp add: commit_placement_def Let_def)
  moreover have "map_of (tid_to_mask (np_delta p)) t = Some (linux_get getaff (world s') t)"
    using batch committed masks by (elim conjE) simp
  ultimately show ?thesis using t(1) d2(2) by simp
qed


section \<open>The fatal path inside a window\<close>

text \<open>
  C37. When releasing a thread fails for another reason than its exit, the window takes the fatal path
  while it holds the mutex. The call never returns: nothing is recorded, nothing is restored, the
  target is not terminated, and the mutex stays locked, so that no control command is answered
  any more.
\<close>

theorem failed_release_blocks_window:
  assumes "\<not> mutex_locked s" "cfg_mode (rt_config s) = Active" "has_bpf_reader s" "bpf_healthy s"
    and "propose (rt_hardware s) ds es allowed (domain_options_of (rt_config s)) now (rt_domain_solver s) = Inr (d, p)"
    and "released_tids p \<noteq> []" "ready p \<or> \<not> np_valid p"
    and "restore_tids put (released_tids p) (world s) (rt_actuator s) = (w, a, Inr r)" "\<not> restore_success r"
  shows "\<exists>s'. locked (solve_numa_domains get put ds es allowed now) s = (Blocked, s') \<and> mutex_locked s' \<and>
    paused s' = paused s \<and> fatal_error s' = fatal_error s \<and> terminated s' = terminated s \<and> rt_actuator s' = a"
proof -
  have gate: "has_bpf_reader (s\<lparr>mutex_locked := True\<rparr>)" "bpf_healthy (s\<lparr>mutex_locked := True\<rparr>)"
    using assms(3,4) by (simp_all add: bpf_healthy_def)
  show ?thesis
    using assms gate
    by (auto simp: locked_def solve_numa_domains_def invalid_window_def actuate_domains_def release_threads_def
        run_restore_def from_result_def discard_domains_def trigger_fatal_def seq_def ask_def modify_def give_def)
qed

definition window_config :: config where
  "window_config = new_config\<lparr>cfg_mode := Active, cfg_solver := ''numa-domain-v1'',
     cfg_family_minimum_self_containment := 0, cfg_family_minimum_relative_internal := 0, cfg_domain_merge_ratio := 1,
     cfg_family_stability_confirmations := 1, cfg_domain_stability_confirmations := 1, cfg_domain_plan_confirmations := 1,
     cfg_maximum_threads_per_domain := 8, cfg_domain_capacity_ratio := 1, cfg_domain_expand_ratio := 1,
     cfg_domain_expand_confirmations := 1, cfg_domain_shrink_ratio := 0, cfg_domain_shrink_confirmations := 1,
     cfg_domain_minimum_dwell_seconds := 1\<rparr>"

definition window_runtime :: "numa_domain_solver \<Rightarrow> actuator \<Rightarrow> 's \<Rightarrow> 's runtime" where
  "window_runtime d a w = (sample_runtime window_config w)\<lparr>rt_domain_solver := d, rt_actuator := a,
     bpf_health := \<lparr>hs_valid = True, hs_error = 0, hs_counters = zero_counters\<rparr>, bpf_window_ready := True\<rparr>"

lemma window_runtime_fields:
  "rt_config (window_runtime d a w) = window_config" "\<not> mutex_locked (window_runtime d a w)"
  "has_bpf_reader (window_runtime d a w)" "bpf_healthy (window_runtime d a w)"
  "rt_hardware (window_runtime d a w) = sample_hardware" "rt_domain_solver (window_runtime d a w) = d"
  "rt_actuator (window_runtime d a w) = a" "world (window_runtime d a w) = w" "action_failures (window_runtime d a w) = 0"
  by (simp_all add: window_runtime_def sample_runtime_def new_runtime_def effective_config_def bpf_healthy_def
      window_config_def new_config_def Let_def)

lemma window_config_mode: "cfg_mode window_config = Active"
  by (simp add: window_config_def)

lemma release_propose_facts:
  "case propose sample_hardware [] [] [] (domain_options_of window_config) 5 (new_domain_solver\<lparr>placement := [(5, [0])]\<rparr>) of
     Inl e \<Rightarrow> False | Inr (d, p) \<Rightarrow> released_tids p = [5] \<and> ready p"
  by code_simp

lemma window_propose_facts:
  "case propose sample_hardware sample_threads [sample_edge 10 11 2] sample_allowed (domain_options_of window_config) 5
          new_domain_solver of
     Inl e \<Rightarrow> False
   | Inr (d, p) \<Rightarrow> ready p \<and> np_valid p \<and> released_tids p = [] \<and> np_delta p = \<lparr>tid_to_cpu = [], tid_to_mask = [(10, [2, 3])]\<rparr>"
  by code_simp

theorem failed_release_blocks_window_witness:
  "\<exists>s'. locked (solve_numa_domains fake_get fake_set [] [] [] 5)
     (window_runtime (new_domain_solver\<lparr>placement := [(5, [0])]\<rparr>) \<lparr>restore_masks = [(5, [0, 1])], acted_tids = [5]\<rparr>
        \<lparr>masks = [(5, [0])], fail_tid = 5\<rparr>) = (Blocked, s') \<and> mutex_locked s' \<and> fatal_error s' = []"
proof -
  let ?d = "new_domain_solver\<lparr>placement := [(5, [0])]\<rparr>" and ?a = "\<lparr>restore_masks = [(5, [0, 1])], acted_tids = [5]\<rparr>"
    and ?w = "\<lparr>masks = [(5, [0])], fail_tid = 5\<rparr>"
  obtain d p where p: "propose sample_hardware [] [] [] (domain_options_of window_config) 5 ?d = Inr (d, p)"
    "released_tids p = [5]" "ready p"
    using release_propose_facts by (auto split: sum.splits)
  have r: "restore_tids fake_set [5] ?w ?a = (?w, ?a, Inr \<lparr>rs_requested = 1, rs_restored = 0, rs_vanished = 0, rs_failed = 1\<rparr>)"
    by (simp add: restore_tids_def new_restore_result_def fake_set_def EPERM_def ESRCH_def Let_def)
  have f: "fatal_error (window_runtime ?d ?a ?w) = []"
    by (simp add: window_runtime_def sample_runtime_def new_runtime_def window_config_def new_config_def Let_def)
  show ?thesis
    using failed_release_blocks_window [of "window_runtime ?d ?a ?w" "[]" "[]" "[]" 5 d p fake_set ?w ?a _ fake_get] p r f
    by (auto simp: window_runtime_fields window_config_mode restore_success_def)
qed

text \<open>A kernel with the two threads of the sample proposal.\<close>

definition window_kernel :: "int oset \<Rightarrow> kernel" where
  "window_kernel m = \<lparr>thread_masks = [(10, m), (11, [0, 1, 2, 3])], cpuset = [0, 1, 2, 3]\<rparr>"

lemma window_apply:
  "apply_placement_delta (linux_get kernel_getaff) (linux_set kernel_getaff kernel_setaff)
     \<lparr>tid_to_cpu = [], tid_to_mask = [(10, [2, 3])]\<rparr> [10, 11] (window_kernel [0, 1, 2, 3]) new_actuator =
   (window_kernel [2, 3], \<lparr>restore_masks = [(10, [0, 1, 2, 3])], acted_tids = [10]\<rparr>,
    (new_apply_result 1)\<lparr>success := True, applied := 1, committed := 1, committed_tids := [10]\<rparr>)"
  by (simp add: actuator_eval window_kernel_def delta_masks_def)


end
