(* ===== verification/Runtime_Buffers.thy ===== *)
theory Runtime_Buffers
  imports Runtime_Control
begin

text \<open>
  The path of the BPF events: how batches are merged into the pending buffers and what happens when
  they overflow, which relations and lifecycle records survive when the main thread takes a
  buffer over, and what the thirty-second health window measures.
\<close>

section \<open>Pairs\<close>

text \<open>The key of a pair gives back its two threads, in order, and does not depend on their order.\<close>

lemma pair_id_round_trip:
  "pair_first (pair_id l r) = min l r \<and> pair_second (pair_id l r) = max l r \<and> pair_id l r = pair_id r l"
proof -
  have a: "ucast (drop_bit 32 (or (push_bit 32 (ucast a)) (ucast b :: 64 word))) = a" for a b :: uint32
    by (rule bit_word_eqI) (auto simp: bit_simps dest: bit_imp_le_length)
  have b: "ucast (or (push_bit 32 (ucast a)) (ucast b :: 64 word)) = b" for a b :: uint32
    by (rule bit_word_eqI) (auto simp: bit_simps)
  show ?thesis using a b by (simp add: pair_first_def pair_second_def pair_id_def min.commute max.commute)
qed

section \<open>Relations\<close>

definition tids_of_key :: "relation_key \<Rightarrow> int set" where
  "tids_of_key k = {to_int (rk_tid k), to_int (rk_peer_tid k)}"

definition relations_within :: "relation_key set \<Rightarrow> 's runtime \<Rightarrow> bool" where
  "relations_within ks s \<longleftrightarrow> (\<forall>p \<in> fst ` set (relation_histories (rt_graph s)). \<exists>k \<in> ks. {fst p, snd p} = tids_of_key k)"

lemma within_retained:
  assumes "set kept \<subseteq> (\<lambda>x. pair_id (rk_tid (fst x)) (rk_peer_tid (fst x))) ` set rels"
  shows "relations_within (fst ` set rels) (s\<lparr>rt_graph := retain_relations (resident_relations kept) (rt_graph s)\<rparr>)"
proof -
  have "\<exists>k \<in> fst ` set rels. {fst p, snd p} = tids_of_key k" if p: "p \<in> set (resident_relations kept)" for p
  proof -
    obtain i where i: "i \<in> set kept" "p = (to_int (pair_first i), to_int (pair_second i))"
      using p by (auto simp: resident_relations_def)
    then obtain x where x: "x \<in> set rels" "i = pair_id (rk_tid (fst x)) (rk_peer_tid (fst x))" using assms by auto
    have "{fst p, snd p} = tids_of_key (fst x)"
      using pair_id_round_trip [of "rk_tid (fst x)" "rk_peer_tid (fst x)"] i(2) x(2)
      by (auto simp: tids_of_key_def min_def max_def)
    then show ?thesis using x(1) by blast
  qed
  then show ?thesis by (auto simp: relations_within_def retain_relations_def Let_def)
qed

lemma keys_observe_relation:
  "fst ` set (relation_histories (observe_relation r w)) \<subseteq>
   insert (edge_key (ro_from_tid r) (ro_to_tid r)) (fst ` set (relation_histories w))"
  by (simp add: observe_relation_def mpush_def Let_def keys_mput subset_insertI)

lemma within_observe:
  assumes "relations_within ks s" "k \<in> ks" "rk_tid k = ev_tid ev" "rk_peer_tid k = ev_peer_tid ev"
  shows "relations_within ks (observe_pair ev s)"
proof -
  let ?e = "edge_key (to_int (ev_tid ev)) (to_int (ev_peer_tid ev))"
  have e: "{fst ?e, snd ?e} = tids_of_key k" using assms(3,4) by (auto simp: edge_key_def tids_of_key_def min_def max_def)
  have "relations_within ks (s\<lparr>rt_graph := observe_relation r (rt_graph s)\<rparr>)"
    if "ro_from_tid r = to_int (ev_tid ev)" "ro_to_tid r = to_int (ev_peer_tid ev)" for r
    unfolding relations_within_def
  proof
    fix p assume "p \<in> fst ` set (relation_histories (rt_graph (s\<lparr>rt_graph := observe_relation r (rt_graph s)\<rparr>)))"
    then have "p = ?e \<or> p \<in> fst ` set (relation_histories (rt_graph s))"
      using keys_observe_relation [of r "rt_graph s"] that by auto
    then show "\<exists>k \<in> ks. {fst p, snd p} = tids_of_key k"
      using e assms(1,2) unfolding relations_within_def by blast
  qed
  moreover have "ro_from_tid (pair_observation i ev f g) = to_int (ev_tid ev)"
    "ro_to_tid (pair_observation i ev f g) = to_int (ev_peer_tid ev)" for i f g
    by (simp_all add: pair_observation_def Let_def)
  ultimately show ?thesis using assms(1) by (simp add: observe_pair_def split: option.splits)
qed

lemma within_handle:
  assumes "k \<in> ks" "rk_tid k = ev_tid ev" "rk_peer_tid k = ev_peer_tid ev"
  shows "keeps (relations_within ks) (handle_bpf_event maps ev)"
  unfolding handle_bpf_event_def thread_started_def thread_exited_def thread_renamed_def application_affinity_def
  by (rule keeps_rules | (rule within_observe [OF _ assms], assumption) | simp add: relations_within_def split: option.splits)+

lemma within_exit: "ev_kind ev = TASK_EXIT \<Longrightarrow> keeps (relations_within ks) (handle_bpf_event maps ev)"
  unfolding handle_bpf_event_def thread_exited_def
  by (rule keeps_rules | simp add: relations_within_def)+

lemma within_trigger_fatal: "keeps (relations_within ks) (trigger_fatal put msg)"
proof -
  have "keeps (relations_within ks) (run_restore_all put)"
    by (rule keepsI) (auto simp: run_restore_all_def from_result_def relations_within_def split: prod.splits sum.splits)
  then show ?thesis
    unfolding trigger_fatal_def pause_def by - (rule keeps_rules | assumption | simp add: relations_within_def)+
qed

lemma keeps_each_in: "(\<And>x. x \<in> set xs \<Longrightarrow> keeps P (f x)) \<Longrightarrow> keeps P (each f xs)"
  by (induction xs) (simp_all add: keeps_rules)

lemma mpush_values:
  assumes "\<forall>e \<in> set m. set (snd e) \<subseteq> A" "v \<in> A"
  shows "\<forall>e \<in> set (mpush k v m). set (snd e) \<subseteq> A"
proof -
  have "set (mgetd [] m k) \<subseteq> A"
  proof (cases "map_of m k")
    case (Some v)
    then have "set v \<subseteq> A" using assms(1) map_of_SomeD [OF Some] by (metis snd_conv)
    then show ?thesis using Some by (simp add: mgetd_def)
  qed (simp add: mgetd_def)
  then have "\<forall>e \<in> insert (k, mgetd [] m k @ [v]) (set m). set (snd e) \<subseteq> A" using assms by simp
  then show ?thesis using set_mput_subset [of k "mgetd [] m k @ [v]" m] unfolding mpush_def by (meson subsetD)
qed

abbreviation pair_of :: "relation_key \<times> relation_value \<Rightarrow> uint64" where
  "pair_of x \<equiv> pair_id (rk_tid (fst x)) (rk_peer_tid (fst x))"

lemma retained_subset: "set (retained_pairs c (pair_weights w rels)) \<subseteq> pair_of ` set rels"
proof -
  have "fst ` set (fold (\<lambda>x. madd (pair_of x) (w x)) rels m) \<subseteq> pair_of ` set rels \<union> fst ` set m" for m
  proof (induction rels arbitrary: m)
    case (Cons x rels)
    then show ?case using Cons.IH [of "madd (pair_of x) (w x) m"] by (auto simp: madd_def keys_mput)
  qed simp
  from this [of "[]"] have keys: "fst ` set (pair_weights w rels) \<subseteq> pair_of ` set rels"
    by (simp add: pair_weights_def)
  have "\<forall>e \<in> set (fold (\<lambda>(p, w) m. mpush (pair_second p) (w, p) (mpush (pair_first p) (w, p) m)) ws m). set (snd e) \<subseteq> A"
    if "\<forall>e \<in> set m. set (snd e) \<subseteq> A" "\<forall>(p, w) \<in> set ws. (w, p) \<in> A" for ws m A
    using that
  proof (induction ws arbitrary: m)
    case (Cons x ws)
    obtain p v where x: "x = (p, v)" by fastforce
    have "\<forall>e \<in> set (mpush (pair_second p) (v, p) (mpush (pair_first p) (v, p) m)). set (snd e) \<subseteq> A"
      using Cons.prems x by (intro mpush_values) auto
    then show ?case using Cons x by simp
  qed simp
  note fold_ok = this [of "[]" "{c. snd c \<in> pair_of ` set rels}" "pair_weights w rels"]
  have all: "\<forall>(p, w) \<in> set (pair_weights w rels). (w, p) \<in> {c. snd c \<in> pair_of ` set rels}"
  proof clarify
    fix p v assume "(p, v) \<in> set (pair_weights w rels)"
    then have "p \<in> fst ` set (pair_weights w rels)" by (rule rev_image_eqI) simp
    then show "snd (v, p) \<in> pair_of ` set rels" using keys by auto
  qed
  have inc: "snd ` set cs \<subseteq> pair_of ` set rels" if "(t, cs) \<in> set (incident_pairs (pair_weights w rels))" for t cs
    using bspec [OF fold_ok [OF _ all] that [unfolded incident_pairs_def]] by auto
  have "set (heaviest n cs) \<subseteq> snd ` set cs" for n cs
    using set_take_subset [of n "sort_key (\<lambda>c. (- fst c, snd c)) cs"] by (auto simp: heaviest_def)
  then have "set (heaviest n cs) \<subseteq> pair_of ` set rels" if "(t, cs) \<in> set (incident_pairs (pair_weights w rels))" for n t cs
    using inc [OF that] by (meson subset_trans)
  then have "\<Union> ((\<lambda>(t, cs). set (heaviest n cs)) ` set (incident_pairs (pair_weights w rels))) \<subseteq> pair_of ` set rels" for n
    by (intro UN_least) (use subsetD in \<open>fastforce simp del: image_iff\<close>)
  then show ?thesis using keys by (auto simp: retained_pairs_def mkeys_def split_def simp del: image_iff)
qed

section \<open>Taking the buffers over\<close>

lemma returned_keeps: "keeps P m \<Longrightarrow> m s = (r, s') \<Longrightarrow> P s \<Longrightarrow> P s'"
  by (metis keepsD snd_conv)

text \<open>The stages of a call that returns.\<close>

lemma consume_stages:
  assumes "consume_pending_bpf put maps now s = (Returned (), s')"
  obtains s1 s2 s3 where
    "each (handle_bpf_event maps) (filter (\<lambda>e. ev_kind e \<noteq> TASK_EXIT) (pending_lifecycle_events s)) (take_pending s) = (Returned (), s1)"
    "consume_relations maps (relation_duration now (pending_relation_started_ns s) (effective_sample_seconds s))
       (pending_relations s) s1 = (Returned (), s2)"
    "each (handle_bpf_event maps) (filter (\<lambda>e. ev_kind e = TASK_EXIT) (pending_lifecycle_events s)) s2 = (Returned (), s3)"
    "(if pending_lifecycle_overflow s \<noteq> 0 \<or> pending_relation_overflow s \<noteq> 0
      then trigger_fatal put ''BPF user-space pending buffer overflow'' else give ()) s3 = (Returned (), s')"
  using assms unfolding consume_pending_bpf_def by (simp add: seq_returned) blast

lemma consume_relations_stages:
  assumes "consume_relations maps d rels s = (Returned (), s')"
  obtains kept t where "set kept \<subseteq> pair_of ` set rels"
    "locked (modify (\<lambda>s. s\<lparr>rt_graph := retain_relations (resident_relations kept) (rt_graph s)\<rparr>)) s = (Returned (), t)"
    "each (\<lambda>x. handle_bpf_event maps (relation_event d x)) (filter (\<lambda>x. pair_of x \<in> set kept) rels) t = (Returned (), s')"
proof -
  let ?kept = "retained_pairs (rt_config s)
    (pair_weights (relation_weight (rt_config s) (effective_sample_seconds s) (real (unat d) / 10 ^ 9)) rels)"
  obtain t where "locked (modify (\<lambda>s. s\<lparr>rt_graph := retain_relations (resident_relations ?kept) (rt_graph s)\<rparr>)) s = (Returned (), t)"
    "each (\<lambda>x. handle_bpf_event maps (relation_event d x)) (filter (\<lambda>x. pair_of x \<in> set ?kept) rels) t = (Returned (), s')"
    using assms unfolding consume_relations_def by (auto simp: seq_returned)
  then show thesis using that [of ?kept t] retained_subset by blast
qed

text \<open>
  C39. After the main thread has taken the pending buffers over, the graph window has relations only
  between threads that were related in this very batch: a pair that was not observed since the
  last sample loses its whole history, whatever the horizon of the window; after an interval
  without relations none is left.
\<close>

theorem relations_only_of_last_batch:
  assumes "consume_pending_bpf put maps now s = (Returned (), s')"
  shows "(\<lambda>(p, h). {fst p, snd p}) ` set (relation_histories (rt_graph s')) \<subseteq>
    (\<lambda>(k, v). {to_int (rk_tid k), to_int (rk_peer_tid k)}) ` set (pending_relations s)"
proof -
  let ?ks = "fst ` set (pending_relations s)"
  let ?d = "relation_duration now (pending_relation_started_ns s) (effective_sample_seconds s)"
  obtain s1 s2 s3 where st: "consume_relations maps ?d (pending_relations s) s1 = (Returned (), s2)"
    "each (handle_bpf_event maps) (filter (\<lambda>e. ev_kind e = TASK_EXIT) (pending_lifecycle_events s)) s2 = (Returned (), s3)"
    "(if pending_lifecycle_overflow s \<noteq> 0 \<or> pending_relation_overflow s \<noteq> 0
      then trigger_fatal put ''BPF user-space pending buffer overflow'' else give ()) s3 = (Returned (), s')"
    using consume_stages [OF assms(1)] by metis
  obtain kept s1' where r: "set kept \<subseteq> pair_of ` set (pending_relations s)"
    "locked (modify (\<lambda>s. s\<lparr>rt_graph := retain_relations (resident_relations kept) (rt_graph s)\<rparr>)) s1 = (Returned (), s1')"
    "each (\<lambda>x. handle_bpf_event maps (relation_event ?d x)) (filter (\<lambda>x. pair_of x \<in> set kept) (pending_relations s)) s1' = (Returned (), s2)"
    by (rule consume_relations_stages [OF st(1)])
  have "rt_graph s1' = retain_relations (resident_relations kept) (rt_graph s1)"
    using r(2) by (auto simp: locked_def modify_def split: if_splits)
  then have "relations_within ?ks s1'"
    using within_retained [OF r(1), of s1] by (simp add: relations_within_def)
  moreover have k: "keeps (relations_within ?ks) (each (\<lambda>x. handle_bpf_event maps (relation_event ?d x))
      (filter (\<lambda>x. pair_of x \<in> set kept) (pending_relations s)))"
    by (rule keeps_each_in, rule within_handle [where k = "fst x" for x]) (auto simp: relation_event_def zero_event_def split: prod.splits)
  ultimately have "relations_within ?ks s2" using returned_keeps [OF k r(3)] by simp
  moreover have k': "keeps (relations_within ?ks) (each (handle_bpf_event maps) (filter (\<lambda>e. ev_kind e = TASK_EXIT) (pending_lifecycle_events s)))"
    by (rule keeps_each_in, rule within_exit) simp
  ultimately have "relations_within ?ks s3" using returned_keeps [OF k' st(2)] by simp
  then have "relations_within ?ks s'"
    using returned_keeps [OF keeps_if [OF within_trigger_fatal keeps_give] st(3)] by simp
  then show ?thesis unfolding relations_within_def tids_of_key_def by (fastforce simp: image_iff)
qed

section \<open>Exits and overflow\<close>

lemma exit_keeps_gone: "ev_kind ev = TASK_EXIT \<Longrightarrow> keeps (\<lambda>s. map_of (lifecycle s) t = None) (handle_bpf_event maps ev)"
  unfolding handle_bpf_event_def thread_exited_def by (rule keeps_rules | simp)+

lemma exit_removes:
  assumes "ev_kind ev = TASK_EXIT" "handle_bpf_event maps ev s = (Returned (), s')"
  shows "map_of (lifecycle s') (to_int (ev_tid ev)) = None"
  using assms by (auto simp: handle_bpf_event_def thread_exited_def locked_def modify_def split: if_splits)

lemma exits_remove:
  assumes "each (handle_bpf_event maps) evs s = (Returned (), s')" "\<forall>e \<in> set evs. ev_kind e = TASK_EXIT" "ev \<in> set evs"
  shows "map_of (lifecycle s') (to_int (ev_tid ev)) = None"
  using assms
proof (induction evs arbitrary: s)
  case (Cons e evs)
  obtain s1 where s1: "handle_bpf_event maps e s = (Returned (), s1)" "each (handle_bpf_event maps) evs s1 = (Returned (), s')"
    using Cons.prems(1) by (auto simp: seq_returned)
  show ?case
  proof (cases "ev \<in> set evs")
    case False
    then have gone: "map_of (lifecycle s1) (to_int (ev_tid ev)) = None" using Cons.prems exit_removes [OF _ s1(1)] by auto
    have k: "keeps (\<lambda>s. map_of (lifecycle s) (to_int (ev_tid ev)) = None) (each (handle_bpf_event maps) evs)"
      by (rule keeps_each_in, rule exit_keeps_gone) (use Cons.prems(2) in simp)
    show ?thesis by (rule returned_keeps [OF k s1(2) gone])
  qed (use Cons s1 in auto)
qed simp

lemma fatal_keeps_lifecycle: "keeps (\<lambda>s. map_of (lifecycle s) t = None) (trigger_fatal put msg)"
proof -
  have "keeps (\<lambda>s. map_of (lifecycle s) t = None) (run_restore_all put)"
    by (rule keepsI) (auto simp: run_restore_all_def from_result_def split: prod.splits sum.splits)
  then show ?thesis unfolding trigger_fatal_def pause_def by - (rule keeps_rules | assumption | simp)+
qed

lemma pause_returned:
  assumes "pause put s = (Returned (), s')"
  shows "paused s' \<and> fatal_error s' = fatal_error s"
proof -
  obtain w a r where r: "restore_all put (world s) (rt_actuator s) = (w, a, r)" by (metis prod_cases3)
  show ?thesis
    using assms r by (cases r) (auto simp: pause_def locked_def run_restore_all_def from_result_def seq_def modify_def split: if_splits)
qed

lemma trigger_fatal_effect:
  assumes "trigger_fatal put msg s = (Returned (), s')" "fatal_error s = []"
  shows "fatal_error s' = msg \<and> paused s' \<and> terminated s'"
proof -
  have free: "\<not> mutex_locked s" using assms(1) by (auto simp: trigger_fatal_def locked_def seq_def)
  obtain t where "pause put (s\<lparr>fatal_error := msg\<rparr>) = (Returned (), t)" "s' = t\<lparr>terminated := True\<rparr>"
    using assms free by (cases s) (auto simp: trigger_fatal_def locked_def seq_returned ask_def modify_def give_def seq_def
        split: prod.splits outcome.splits)
  then show ?thesis using pause_returned by fastforce
qed

text \<open>
  A thread number with an exit event in a batch has no lifecycle record afterwards, even when a
  new thread with the same number was started later in the same batch: exits are handled after
  everything else, without comparing start times.
\<close>

theorem exits_are_handled_last:
  assumes "consume_pending_bpf put maps now s = (Returned (), s')"
    and "ev \<in> set (pending_lifecycle_events s)" "ev_kind ev = TASK_EXIT"
  shows "map_of (lifecycle s') (to_int (ev_tid ev)) = None"
proof -
  obtain s2 s3 where st: "each (handle_bpf_event maps) (filter (\<lambda>e. ev_kind e = TASK_EXIT) (pending_lifecycle_events s)) s2 = (Returned (), s3)"
    "(if pending_lifecycle_overflow s \<noteq> 0 \<or> pending_relation_overflow s \<noteq> 0
      then trigger_fatal put ''BPF user-space pending buffer overflow'' else give ()) s3 = (Returned (), s')"
    using consume_stages [OF assms(1)] by metis
  have "map_of (lifecycle s3) (to_int (ev_tid ev)) = None" by (rule exits_remove [OF st(1)]) (use assms(2,3) in auto)
  then show ?thesis using returned_keeps [OF keeps_if [OF fatal_keeps_lifecycle keeps_give] st(2)] by simp
qed


lemmas consume_eval =
  consume_pending_bpf_def consume_relations_def handle_bpf_event_def thread_started_def thread_exited_def trigger_fatal_def pause_def
  locked_def seq_def ask_def modify_def give_def take_pending_def retained_pairs_def pair_weights_def incident_pairs_def mkeys_def
  sfrom_def resident_relations_def retain_relations_def run_restore_all_def restore_all_def from_result_def

definition quiet_runtime :: "fake_backend runtime" where
  "quiet_runtime = (sample_runtime new_config \<lparr>masks = [], fail_tid = 0\<rparr>)
     \<lparr>rt_graph := (new_graph_window 60 \<lparr>activity_log_p95 = 1, sync_log_p95 = 1, share_log_p95 = 1\<rparr>)
        \<lparr>relation_histories := [((1, 2), [])]\<rparr>\<rparr>"

lemma quiet_runtime_fields:
  "pending_lifecycle_events quiet_runtime = []" "pending_relations quiet_runtime = []" "\<not> mutex_locked quiet_runtime"
  "pending_lifecycle_overflow quiet_runtime = 0" "pending_relation_overflow quiet_runtime = 0" "fatal_error quiet_runtime = []"
  "rt_actuator quiet_runtime = new_actuator"
  by (simp_all add: quiet_runtime_def sample_runtime_def new_runtime_def new_config_def Let_def)

theorem relations_only_of_last_batch_witness:
  "\<exists>s'. consume_pending_bpf fake_set (\<lambda>_. []) 9 quiet_runtime = (Returned (), s') \<and>
     relation_histories (rt_graph quiet_runtime) = [((1, 2), [])] \<and> relation_histories (rt_graph s') = []"
proof -
  obtain s' where s': "consume_pending_bpf fake_set (\<lambda>_. []) 9 quiet_runtime = (Returned (), s')"
    by (simp add: consume_eval quiet_runtime_fields)
  show ?thesis
    using relations_only_of_last_batch [OF s'] s' by (simp add: quiet_runtime_fields) (simp add: quiet_runtime_def)
qed

text \<open>Thread 7 exits, and a new thread 7 starts, within one batch.\<close>

definition reuse_events :: "bpf_event list" where
  "reuse_events = [zero_event\<lparr>ev_kind := TASK_EXIT, ev_tid := 7\<rparr>, zero_event\<lparr>ev_kind := TASK_FORK, ev_tid := 7, ev_start_time_ns := 5\<rparr>]"

theorem exits_are_handled_last_witness:
  "\<exists>s'. consume_pending_bpf fake_set (\<lambda>_. []) 9 (quiet_runtime\<lparr>pending_lifecycle_events := reuse_events\<rparr>) = (Returned (), s') \<and>
     map_of (lifecycle s') 7 = None"
proof -
  let ?s = "quiet_runtime\<lparr>pending_lifecycle_events := reuse_events\<rparr>"
  obtain s' where s': "consume_pending_bpf fake_set (\<lambda>_. []) 9 ?s = (Returned (), s')"
    by (simp add: consume_eval quiet_runtime_fields reuse_events_def)
  have "map_of (lifecycle s') (to_int (ev_tid (zero_event\<lparr>ev_kind := TASK_EXIT, ev_tid := 7\<rparr>))) = None"
    by (rule exits_are_handled_last [OF s']) (simp_all add: reuse_events_def)
  then show ?thesis using s' by simp
qed


section \<open>The pending buffers\<close>

definition pending_value :: "relation_key \<Rightarrow> 's runtime \<Rightarrow> uint64" where
  "pending_value k s = (case map_of (pending_relations s) k of None \<Rightarrow> 0 | Some v \<Rightarrow> rv_value_ns v)"

definition key_total :: "relation_key \<Rightarrow> bpf_event list \<Rightarrow> uint64" where
  "key_total k evs = sum_list (map ev_value_ns (filter (\<lambda>e. relation_key_of e = k) evs))"

lemma map_of_update_entry:
  "map_of (map (\<lambda>(k', v). (k', if k' = k then f v else v)) m) q = map_option (\<lambda>v. if q = k then f v else v) (map_of m q)"
  by (induction m) auto

lemma merge_relation_value:
  assumes "length (pending_relations s) < relation_limit"
  shows "pending_value k (merge_relation now ev s) = pending_value k s + (if relation_key_of ev = k then ev_value_ns ev else 0)"
  using assms
  by (auto simp: merge_relation_def pending_value_def map_of_update_entry add_value_def Let_def not_le map_add_def
      split: option.splits)

lemma merge_relation_size:
  "length (pending_relations s) \<le> length (pending_relations (merge_relation now ev s))"
  "length (pending_relations (merge_relation now ev s)) \<le> Suc (length (pending_relations s))"
  "length (pending_relations s) \<le> relation_limit \<Longrightarrow> length (pending_relations (merge_relation now ev s)) \<le> relation_limit"
  by (auto simp: merge_relation_def Let_def)

lemma merge_all_value:
  assumes "length (pending_relations s) + length evs \<le> relation_limit"
  shows "pending_value k (fold (merge_relation now) evs s) = pending_value k s + key_total k evs \<and>
    length (pending_relations (fold (merge_relation now) evs s)) \<le> length (pending_relations s) + length evs"
  using assms
proof (induction evs arbitrary: s)
  case (Cons e evs)
  have "length (pending_relations (merge_relation now e s)) + length evs \<le> relation_limit"
    using Cons.prems merge_relation_size(2) [of now e s] by simp
  note ih = Cons.IH [OF this]
  have "pending_value k (merge_relation now e s) = pending_value k s + (if relation_key_of e = k then ev_value_ns e else 0)"
    by (rule merge_relation_value) (use Cons.prems in simp)
  then show ?case using ih merge_relation_size(2) [of now e s] by (auto simp: key_total_def)
qed (simp add: key_total_def)

lemma merge_all_bounded:
  "length (pending_relations s) \<le> relation_limit \<Longrightarrow> length (pending_relations (fold (merge_relation now) evs s)) \<le> relation_limit"
  by (rule fold_keeps [where P = "\<lambda>s. length (pending_relations s) \<le> relation_limit"]) (simp_all add: merge_relation_size(3))

lemma push_frame: "pending_relations (fold push_lifecycle evs s) = pending_relations s"
  by (rule fold_keeps [where P = "\<lambda>s'. pending_relations s' = pending_relations s"]) (simp_all add: push_lifecycle_def)

lemma merge_frame: "pending_lifecycle_events (fold (merge_relation now) evs s) = pending_lifecycle_events s"
  by (rule fold_keeps [where P = "\<lambda>s'. pending_lifecycle_events s' = pending_lifecycle_events s"])
     (simp_all add: merge_relation_def Let_def)

lemma push_fits:
  "length (pending_lifecycle_events s) + length evs \<le> lifecycle_limit \<Longrightarrow>
   pending_lifecycle_events (fold push_lifecycle evs s) = pending_lifecycle_events s @ evs"
proof (induction evs arbitrary: s)
  case (Cons e evs)
  then have "push_lifecycle e s = s\<lparr>pending_lifecycle_events := pending_lifecycle_events s @ [e]\<rparr>"
    by (simp add: push_lifecycle_def)
  then show ?case using Cons.IH [of "push_lifecycle e s"] Cons.prems by simp
qed simp

lemma push_bounded:
  "length (pending_lifecycle_events s) \<le> lifecycle_limit \<Longrightarrow>
   length (pending_lifecycle_events (fold push_lifecycle evs s)) \<le> lifecycle_limit"
  by (rule fold_keeps [where P = "\<lambda>s. length (pending_lifecycle_events s) \<le> lifecycle_limit"]) (simp_all add: push_lifecycle_def)

text \<open>
  While the buffers have room, every lifecycle event is kept in order and the pending value of a
  relation grows by the values of its events.
\<close>

lemma drain_merges_batches:
  assumes "has_bpf_reader s" "length (pending_relations s) + length futex + length vfs \<le> relation_limit"
    and "length (pending_lifecycle_events s) + length events \<le> lifecycle_limit"
  shows "pending_lifecycle_events (drain_bpf_once events futex vfs now s) = pending_lifecycle_events s @ events \<and>
    pending_value k (drain_bpf_once events futex vfs now s) = pending_value k s + key_total k (futex @ vfs)"
proof -
  let ?s1 = "fold push_lifecycle events s" and ?m = "fold (merge_relation now)"
  have p: "pending_value k ?s1 = pending_value k s" "length (pending_relations ?s1) = length (pending_relations s)"
    by (simp_all add: pending_value_def push_frame)
  have f: "pending_value k (?m futex ?s1) = pending_value k s + key_total k futex"
    "length (pending_relations (?m futex ?s1)) \<le> length (pending_relations s) + length futex"
    using merge_all_value [of ?s1 futex k now] p assms(2) by simp_all
  have "pending_value k (?m vfs (?m futex ?s1)) = pending_value k (?m futex ?s1) + key_total k vfs"
    using merge_all_value [of "?m futex ?s1" vfs k now] f(2) assms(2) by simp
  then show ?thesis
    using assms(1,3) f(1) by (simp add: drain_bpf_once_def merge_frame push_fits key_total_def)
qed

lemma drain_bounded:
  assumes "length (pending_relations s) \<le> relation_limit" "length (pending_lifecycle_events s) \<le> lifecycle_limit"
  shows "length (pending_relations (drain_bpf_once events futex vfs now s)) \<le> relation_limit \<and>
    length (pending_lifecycle_events (drain_bpf_once events futex vfs now s)) \<le> lifecycle_limit"
  using assms by (simp add: drain_bpf_once_def merge_all_bounded push_frame merge_frame push_bounded)

section \<open>Health\<close>

definition counters_le :: "uint64 \<times> bpf_counters \<Rightarrow> uint64 \<times> bpf_counters \<Rightarrow> bool" where
  "counters_le x y \<longleftrightarrow> emitted (snd x) \<le> emitted (snd y) \<and> dropped (snd x) \<le> dropped (snd y)"

definition health_window_ok :: "'s runtime \<Rightarrow> bool" where
  "health_window_ok s \<longleftrightarrow>
     (let h = bpf_health_history s in
      h = [] \<or> sorted_wrt counters_le h \<and> bpf_window_loss_ratio s = loss_ratio (snd (hd h)) (snd (last h)) \<and>
        (bpf_window_ready s \<longleftrightarrow> health_window \<le> fst (last h) - fst (hd h)) \<and>
        (2 \<le> length h \<longrightarrow> fst (last h) - fst (h ! 1) < health_window))"

lemma trim_history_facts:
  "h \<noteq> [] \<Longrightarrow> trim_history now h \<noteq> [] \<and> last (trim_history now h) = last h \<and>
   (sorted_wrt R h \<longrightarrow> sorted_wrt R (trim_history now h)) \<and>
   (2 \<le> length (trim_history now h) \<longrightarrow> now - fst (trim_history now h ! 1) < health_window)"
  by (induction now h rule: trim_history.induct) (auto simp: not_le)

lemma counters_le_trans: "counters_le x y \<Longrightarrow> counters_le y z \<Longrightarrow> counters_le x z"
  by (auto simp: counters_le_def)

lemma sorted_counters_snoc:
  assumes "sorted_wrt counters_le h" "h \<noteq> []" "counters_le (last h) x"
  shows "sorted_wrt counters_le (h @ [x])"
proof -
  obtain b l where h: "h = b @ [l]" using assms(2) by (cases h rule: rev_cases) auto
  have "counters_le y x" if "y \<in> set b" for y
    using that assms(1,3) counters_le_trans [of y l x] by (simp add: h sorted_wrt_append)
  then show ?thesis using assms(1,3) by (auto simp: h sorted_wrt_append)
qed

lemma health_note_valid: "health_window_ok s \<Longrightarrow> health_window_ok (note_valid_health now h s)"
proof -
  assume ok: "health_window_ok s"
  let ?c = "hs_counters h"
  define kept where "kept = (if bpf_health_history s \<noteq> [] \<and> (emitted ?c < emitted (snd (last (bpf_health_history s))) \<or>
      dropped ?c < dropped (snd (last (bpf_health_history s)))) then [] else bpf_health_history s)"
  have "sorted_wrt counters_le (kept @ [(now, ?c)])"
  proof (cases "kept = []")
    case False
    then have "kept = bpf_health_history s" "counters_le (last kept) (now, ?c)"
      by (auto simp: kept_def counters_le_def not_less split: if_splits)
    then show ?thesis using ok False sorted_counters_snoc by (auto simp: health_window_ok_def Let_def)
  qed simp
  moreover have "extend_history now ?c (bpf_health_history s) = trim_history now (kept @ [(now, ?c)])"
    by (simp add: extend_history_def kept_def Let_def)
  ultimately show ?thesis
    using trim_history_facts [of "kept @ [(now, ?c)]" now counters_le]
    by (simp add: health_window_ok_def note_valid_health_def Let_def)
qed

lemma health_evaluate: "keeps health_window_ok (evaluate_health put x)"
proof -
  have r: "keeps health_window_ok (run_restore_all put)"
    by (rule keepsI) (auto simp: run_restore_all_def from_result_def health_window_ok_def split: prod.splits sum.splits)
  have f: "keeps health_window_ok (trigger_fatal put m)" for m
    unfolding trigger_fatal_def pause_def by (rule keeps_rules r | simp add: health_window_ok_def)+
  show ?thesis
    unfolding evaluate_health_def Let_def
    by (rule keeps_rules f health_note_valid | assumption | simp add: health_window_ok_def note_invalid_health_def)+
qed

text \<open>Without wrap-around in the sum, the ratio is that of the two differences, within 0 and 1.\<close>

lemma loss_ratio_exact:
  assumes "counters_le (t, o') (t', c)" "unat (emitted c - emitted o') + unat (dropped c - dropped o') < 2 ^ 64"
  shows "loss_ratio o' c = (let e = unat (emitted c) - unat (emitted o'); d = unat (dropped c) - unat (dropped o')
           in if e + d = 0 then 0 else real d / real (e + d)) \<and> 0 \<le> loss_ratio o' c \<and> loss_ratio o' c \<le> 1"
proof -
  let ?e = "emitted c - emitted o'" and ?d = "dropped c - dropped o'"
  have diff: "unat ?e = unat (emitted c) - unat (emitted o')" "unat ?d = unat (dropped c) - unat (dropped o')"
    using assms(1) by (auto simp: counters_le_def unat_sub)
  have total: "unat (?e + ?d) = unat ?e + unat ?d" using assms(2) by (subst unat_add_lem [THEN iffD1]) (simp_all add: unat_add_lem [symmetric])
  have "?e + ?d = 0 \<longleftrightarrow> unat ?e + unat ?d = 0" using total by (metis unat_0 unat_eq_zero)
  then have "loss_ratio o' c = (if unat ?e + unat ?d = 0 then 0 else real (unat ?d) / real (unat ?e + unat ?d))"
    using total by (simp add: loss_ratio_def Let_def del: of_nat_unat)
  moreover have "0 \<le> real d / real (e + d) \<and> real d / real (e + d) \<le> 1" if "e + d \<noteq> 0" for e d :: nat
    using that by (auto simp: divide_le_eq)
  ultimately show ?thesis unfolding Let_def diff by (metis order_refl zero_le_one)
qed

text \<open>
  C35. After any sequence of health samples from a fresh start, the loss ratio is the share of dropped
  events among all events between the oldest and the newest retained sample, without wrap-around
  and between 0 and 1; the window counts as ready exactly when these samples are at least thirty
  seconds apart, and it reaches no further back than needed.
\<close>

theorem health_window_exact:
  assumes "bpf_health_history s = []" "each (evaluate_health put) samples s = (res, s')"
    and "bpf_health_history s' = (t0, c0) # h" "last (bpf_health_history s') = (t, c)"
    and "unat (emitted c) + unat (dropped c) < 2 ^ 64"
  shows "bpf_window_loss_ratio s' =
      (let e = unat (emitted c) - unat (emitted c0); d = unat (dropped c) - unat (dropped c0)
       in if e + d = 0 then 0 else real d / real (e + d)) \<and>
    0 \<le> bpf_window_loss_ratio s' \<and> bpf_window_loss_ratio s' \<le> 1 \<and>
    (bpf_window_ready s' \<longleftrightarrow> 30000000000 \<le> t - t0) \<and>
    (\<forall>t1 c1 h'. h = (t1, c1) # h' \<longrightarrow> t - t1 < 30000000000)"
proof -
  have "health_window_ok s'"
    by (rule returned_keeps [OF keeps_each [OF health_evaluate] assms(2)]) (simp add: health_window_ok_def assms(1))
  then have ok: "sorted_wrt counters_le ((t0, c0) # h)" "bpf_window_loss_ratio s' = loss_ratio c0 c"
    "bpf_window_ready s' \<longleftrightarrow> health_window \<le> t - t0" "h \<noteq> [] \<Longrightarrow> t - fst (hd h) < health_window"
    using assms(3,4) by (auto simp: health_window_ok_def Let_def Suc_le_eq hd_conv_nth)
  have le: "counters_le (t0, c0) (t, c)"
    using ok(1) assms(3,4) by (cases "h = []") (auto simp: counters_le_def, (metis last_in_set snd_conv)+)
  have "unat (emitted c - emitted c0) + unat (dropped c - dropped c0) < 2 ^ 64"
    using le assms(5) by (simp add: counters_le_def unat_sub)
  then show ?thesis
    using loss_ratio_exact [OF le] ok(2-4) by (auto simp: health_window_def)
qed

definition health_sample :: "uint64 \<Rightarrow> uint64 \<Rightarrow> uint64 \<Rightarrow> pending_health_sample" where
  "health_sample t e d = \<lparr>ph_timestamp_ns = t, ph_health = \<lparr>hs_valid = True, hs_error = 0,
     hs_counters = zero_counters\<lparr>emitted := e, dropped := d\<rparr>\<rparr>\<rparr>"

theorem health_window_exact_witness:
  "\<exists>s'. each (evaluate_health fake_set) [health_sample 0 100 0, health_sample 40000000000 299 1] quiet_runtime = (Returned (), s') \<and>
     bpf_window_ready s' \<and> bpf_window_loss_ratio s' = 1 / 200"
proof -
  let ?old = "zero_counters\<lparr>emitted := 100, dropped := 0\<rparr>" and ?new = "zero_counters\<lparr>emitted := 299, dropped := 1\<rparr>"
  have hist: "bpf_health_history quiet_runtime = []"
    by (simp add: quiet_runtime_def sample_runtime_def new_runtime_def new_config_def Let_def)
  obtain s' where s': "each (evaluate_health fake_set) [health_sample 0 100 0, health_sample 40000000000 299 1] quiet_runtime = (Returned (), s')"
    "bpf_health_history s' = (0, ?old) # [(40000000000, ?new)]"
    by (simp add: evaluate_health_def health_sample_def locked_def seq_def ask_def modify_def give_def note_valid_health_def
        extend_history_def loss_ratio_def health_window_def hist quiet_runtime_fields Let_def)
  show ?thesis
    using health_window_exact [OF hist s'(1,2), of 40000000000 ?new] s' by (simp add: Let_def)
qed

end
