(* ===== verification/Bpf_Reader.thy ===== *)
theory Bpf_Reader
  imports Bpf_Events
begin

text \<open>
  The user-space reader of the BPF maps, \<^verbatim>\<open>src/bpf_reader.cpp\<close>: the ring buffer of lifecycle events
  (\<^verbatim>\<open>drain\<close>), the two aggregate maps (\<^verbatim>\<open>drain_futex_aggregates\<close>, \<^verbatim>\<open>drain_vfs_aggregates\<close>) and the
  health counters (\<^verbatim>\<open>health\<close>).

  The shared pages of the ring are the record \<open>ring\<close>: the two positions and the data area, which
  the kernel maps twice in a row so that a record that wraps can be read in one piece. The
  \<^verbatim>\<open>bpf\<close> system calls are parameters: \<open>batch\<close> for \<^verbatim>\<open>BPF_MAP_LOOKUP_AND_DELETE_BATCH\<close>,
  \<open>first_key\<close> for \<^verbatim>\<open>BPF_MAP_GET_NEXT_KEY\<close> from the start and \<open>take_elem\<close> for
  \<^verbatim>\<open>BPF_MAP_LOOKUP_AND_DELETE_ELEM\<close>, on a world \<open>'w\<close>. What the documentation of these calls
  promises is the locale \<open>aggregate_map\<close>.
\<close>

unbundle bit_operations_syntax

section \<open>Bytes\<close>

text \<open>Little-endian numbers, as on every machine the program is built for.\<close>

fun le_value :: "8 word list \<Rightarrow> 'a::len word" where
  "le_value [] = 0"
| "le_value (b # bs) = ucast b OR push_bit 8 (le_value bs)"

fun le_bytes :: "nat \<Rightarrow> 'a::len word \<Rightarrow> 8 word list" where
  "le_bytes 0 w = []"
| "le_bytes (Suc n) w = ucast w # le_bytes n (drop_bit 8 w)"

definition bytes_at :: "(nat \<Rightarrow> 8 word) \<Rightarrow> nat \<Rightarrow> nat \<Rightarrow> 8 word list" where
  "bytes_at data a n = map data [a..<a + n]"

text \<open>\<^verbatim>\<open>affinitygraph_bpf_event\<close> in memory: 224 bytes, by the offsets of its fields.\<close>

definition EVENT_BYTES :: nat where "EVENT_BYTES = 224"

definition u32_at :: "8 word list \<Rightarrow> nat \<Rightarrow> uint32" where
  "u32_at bs i = le_value (take 4 (drop i bs))"

definition u64_at :: "8 word list \<Rightarrow> nat \<Rightarrow> uint64" where
  "u64_at bs i = le_value (take 8 (drop i bs))"

definition decode_event :: "8 word list \<Rightarrow> bpf_event" where
  "decode_event bs =
     \<lparr>ev_kind = u32_at bs 0, ev_tgid = u32_at bs 4, ev_tid = u32_at bs 8, ev_peer_tid = u32_at bs 12,
      ev_parent_tgid = u32_at bs 16, ev_parent_tid = u32_at bs 20, ev_mask_bytes = u32_at bs 24,
      ev_timestamp_ns = u64_at bs 32, ev_start_time_ns = u64_at bs 40, ev_peer_start_time_ns = u64_at bs 48,
      ev_value_ns = u64_at bs 56, ev_resource = u64_at bs 64, ev_start_routine = u64_at bs 72,
      ev_comm = map (\<lambda>b. char_of (unat b)) (take 16 (drop 80 bs)),
      ev_mask = take 128 (drop 96 bs)\<rparr>"

definition encode_event :: "bpf_event \<Rightarrow> 8 word list" where
  "encode_event e =
     le_bytes 4 (ev_kind e) @ le_bytes 4 (ev_tgid e) @ le_bytes 4 (ev_tid e) @ le_bytes 4 (ev_peer_tid e) @
     le_bytes 4 (ev_parent_tgid e) @ le_bytes 4 (ev_parent_tid e) @ le_bytes 4 (ev_mask_bytes e) @ replicate 4 0 @
     le_bytes 8 (ev_timestamp_ns e) @ le_bytes 8 (ev_start_time_ns e) @ le_bytes 8 (ev_peer_start_time_ns e) @
     le_bytes 8 (ev_value_ns e) @ le_bytes 8 (ev_resource e) @ le_bytes 8 (ev_start_routine e) @
     map (\<lambda>c. of_nat (of_char c)) (ev_comm e) @ ev_mask e"

definition event_wf :: "bpf_event \<Rightarrow> bool" where
  "event_wf e \<longleftrightarrow> length (ev_comm e) = 16 \<and> length (ev_mask e) = 128"

section \<open>State\<close>

record reader_stats =
  capacity_bytes :: uint64
  occupancy_bytes :: uint64
  max_occupancy_bytes :: uint64
  drain_calls :: uint64
  events_consumed :: uint64
  last_batch_events :: uint64
  max_batch_events :: uint64
  last_drain_ns :: uint64
  max_drain_ns :: uint64
  last_max_lag_ns :: uint64
  max_lag_ns :: uint64
  futex_aggregate_records :: uint64
  futex_handoffs :: uint64
  vfs_aggregate_records :: uint64
  vfs_handoffs :: uint64

definition zero_stats :: reader_stats where
  "zero_stats =
     \<lparr>capacity_bytes = 0, occupancy_bytes = 0, max_occupancy_bytes = 0, drain_calls = 0, events_consumed = 0,
      last_batch_events = 0, max_batch_events = 0, last_drain_ns = 0, max_drain_ns = 0, last_max_lag_ns = 0,
      max_lag_ns = 0, futex_aggregate_records = 0, futex_handoffs = 0, vfs_aggregate_records = 0, vfs_handoffs = 0\<rparr>"

record ring =
  consumer_pos :: uint64
  producer_pos :: uint64
  ring_data :: "nat \<Rightarrow> 8 word"

record reader =
  rd_health_fd :: int
  rd_futex_fd :: int
  rd_vfs_fd :: int
  rd_capacity :: uint64
  rd_stats :: reader_stats

text \<open>
  The constructor and \<^verbatim>\<open>make_bpf_reader\<close>. \<open>info\<close> is what \<^verbatim>\<open>BPF_OBJ_GET_INFO_BY_FD\<close> reports (type
  and capacity), \<open>consumer\<close> and \<open>producer\<close> say whether the two \<^verbatim>\<open>mmap\<close> calls succeed, \<open>reason\<close> is
  the text of \<^verbatim>\<open>errno\<close>.
\<close>

definition BPF_MAP_TYPE_RINGBUF :: nat where "BPF_MAP_TYPE_RINGBUF = 27"

definition new_reader ::
  "int \<Rightarrow> int \<Rightarrow> int \<Rightarrow> (nat \<times> uint32) option \<Rightarrow> bool \<Rightarrow> bool \<Rightarrow> string \<Rightarrow> reader result" where
  "new_reader health_fd futex_fd vfs_fd info consumer producer reason =
     (case info of
        None \<Rightarrow> Inl (Runtime_Error (''cannot query BPF ring buffer capacity: '' @ reason))
      | Some (ty, entries) \<Rightarrow>
          if ty \<noteq> BPF_MAP_TYPE_RINGBUF \<or> entries = 0
          then Inl (Runtime_Error (''cannot query BPF ring buffer capacity: '' @ reason))
          else if \<not> consumer \<or> \<not> producer then Inl (Runtime_Error (''cannot mmap BPF ring buffer: '' @ reason))
          else Inr \<lparr>rd_health_fd = health_fd, rd_futex_fd = futex_fd, rd_vfs_fd = vfs_fd, rd_capacity = ucast entries,
                    rd_stats = zero_stats\<lparr>capacity_bytes := ucast entries\<rparr>\<rparr>)"

definition make_bpf_reader ::
  "int \<Rightarrow> int \<Rightarrow> int \<Rightarrow> int \<Rightarrow> (nat \<times> uint32) option \<Rightarrow> bool \<Rightarrow> bool \<Rightarrow> string \<Rightarrow> reader option result" where
  "make_bpf_reader events_fd health_fd futex_fd vfs_fd info consumer producer reason =
     (if events_fd < 0 then Inr None
      else rbind (new_reader health_fd futex_fd vfs_fd info consumer producer reason) (\<lambda>r. Inr (Some r)))"

section \<open>The ring of lifecycle events\<close>

abbreviation BUSY_BIT :: nat where "BUSY_BIT \<equiv> 31"
abbreviation DISCARD_BIT :: nat where "DISCARD_BIT \<equiv> 30"

definition header_at :: "(nat \<Rightarrow> 8 word) \<Rightarrow> uint64 \<Rightarrow> uint64 \<Rightarrow> uint32" where
  "header_at data cap pos = le_value (bytes_at data (unat (pos AND (cap - 1))) 4)"

definition payload_length :: "uint32 \<Rightarrow> uint32" where
  "payload_length h = h AND NOT (push_bit BUSY_BIT 1 OR push_bit DISCARD_BIT 1)"

definition event_at :: "(nat \<Rightarrow> 8 word) \<Rightarrow> uint64 \<Rightarrow> uint64 \<Rightarrow> bpf_event" where
  "event_at data cap pos = decode_event (bytes_at data (unat (pos AND (cap - 1)) + 8) EVENT_BYTES)"

definition record_span :: "uint32 \<Rightarrow> uint64" where
  "record_span h = (ucast (payload_length h) + 8 + 7) AND NOT 7"

definition note_lag :: "uint64 \<Rightarrow> bpf_event \<Rightarrow> uint64 \<Rightarrow> uint64" where
  "note_lag started e lag = (if ev_timestamp_ns e \<le> started then max lag (started - ev_timestamp_ns e) else lag)"

text \<open>The loop of \<^verbatim>\<open>drain\<close>; \<open>None\<close> is a loop that never ends.\<close>

partial_function (option) drain_loop ::
  "(nat \<Rightarrow> 8 word) \<Rightarrow> uint64 \<Rightarrow> uint64 \<Rightarrow> uint64 \<Rightarrow> uint64 \<Rightarrow> bpf_event list \<Rightarrow> uint64 \<Rightarrow>
   (uint64 \<times> bpf_event list \<times> uint64) option" where
  "drain_loop data cap started end_pos pos acc lag =
     (if pos < end_pos
      then (let h = header_at data cap pos in
            if bit h BUSY_BIT then Some (pos, acc, lag)
            else if \<not> bit h DISCARD_BIT \<and> EVENT_BYTES \<le> unat (payload_length h)
            then (let e = event_at data cap pos
                  in drain_loop data cap started end_pos (pos + record_span h) (acc @ [e]) (note_lag started e lag))
            else drain_loop data cap started end_pos (pos + record_span h) acc lag)
      else Some (pos, acc, lag))"

definition drain :: "uint64 \<Rightarrow> uint64 \<Rightarrow> ring \<Rightarrow> reader \<Rightarrow> (bpf_event list \<times> ring \<times> reader) option" where
  "drain started finished g r =
     (let st = rd_stats r; first = producer_pos g - consumer_pos g in
      case drain_loop (ring_data g) (rd_capacity r) started (producer_pos g) (consumer_pos g) [] 0 of
        None \<Rightarrow> None
      | Some (pos, evs, lag) \<Rightarrow>
          Some (evs, g\<lparr>consumer_pos := pos\<rparr>,
            r\<lparr>rd_stats := st\<lparr>occupancy_bytes := producer_pos g - pos,
                 max_occupancy_bytes := max (max_occupancy_bytes st) first,
                 drain_calls := drain_calls st + 1,
                 events_consumed := events_consumed st + of_nat (length evs),
                 last_batch_events := of_nat (length evs),
                 max_batch_events := max (max_batch_events st) (of_nat (length evs)),
                 last_drain_ns := finished - started,
                 max_drain_ns := max (max_drain_ns st) (finished - started),
                 last_max_lag_ns := lag, max_lag_ns := max (max_lag_ns st) lag\<rparr>\<rparr>))"

section \<open>Health counters\<close>

definition EBADF :: int where "EBADF = 9"

definition reader_health :: "(int + bpf_counters) \<Rightarrow> reader \<Rightarrow> bpf_health_snapshot" where
  "reader_health lookup r =
     (if rd_health_fd r < 0 then \<lparr>hs_valid = False, hs_error = EBADF, hs_counters = zero_counters\<rparr>
      else case lookup of
        Inl err \<Rightarrow> \<lparr>hs_valid = False, hs_error = err, hs_counters = zero_counters\<rparr>
      | Inr c \<Rightarrow> \<lparr>hs_valid = True, hs_error = 0, hs_counters = c\<rparr>)"

section \<open>The aggregate maps\<close>

definition batch_size :: nat where "batch_size = 4096"
definition drain_limit :: nat where "drain_limit = 16384"

definition ENOENT :: int where "ENOENT = 2"
definition EINVAL :: int where "EINVAL = 22"
definition EOPNOTSUPP :: int where "EOPNOTSUPP = 95"

text \<open>
  The loop over batches. A call answers with an error number (zero for success), the count that
  stands in \<^verbatim>\<open>attr.batch.count\<close> afterwards, the entries it has written to the front of the two
  arrays, and the cursor; the arrays keep the rest of their contents. The result says whether
  batches are supported.
\<close>

function take_batches ::
  "('w \<Rightarrow> 'c option \<Rightarrow> nat \<Rightarrow> 'w \<times> int \<times> nat \<times> 'e list \<times> 'c) \<Rightarrow> 'c option \<Rightarrow> nat \<Rightarrow> 'e list \<Rightarrow> 'w \<Rightarrow> 'e list \<Rightarrow>
   'w \<times> 'e list \<times> bool" where
  "take_batches batch cursor drained slots w acc =
     (if drain_limit \<le> drained then (w, acc, True)
      else case batch w cursor (min batch_size (drain_limit - drained)) of
        (w', err, count, written, cursor') \<Rightarrow>
          (let slots' = written @ drop (length written) slots; acc' = acc @ take count slots' in
           if err = 0
           then if count = 0 then (w', acc', True)
                else take_batches batch (Some cursor') (drained + count) slots' w' acc'
           else if err = ENOENT then (w', acc', True)
           else (w', acc', \<not> (cursor = None \<and> (err = EINVAL \<or> err = EOPNOTSUPP)))))"
  by pat_completeness auto
termination
  by (relation "measure (\<lambda>(batch, cursor, drained, slots, w, acc). drain_limit - drained)") auto

declare take_batches.simps [simp del]

text \<open>Where batches are not supported: one element at a time, always from the first key.\<close>

fun take_singly ::
  "('w \<Rightarrow> 'k option) \<Rightarrow> ('w \<Rightarrow> 'k \<Rightarrow> 'w \<times> 'v option) \<Rightarrow> nat \<Rightarrow> 'w \<Rightarrow> ('k \<times> 'v) list \<Rightarrow> 'w \<times> ('k \<times> 'v) list" where
  "take_singly first_key take_elem 0 w acc = (w, acc)"
| "take_singly first_key take_elem (Suc n) w acc =
     (case first_key w of
        None \<Rightarrow> (w, acc)
      | Some k \<Rightarrow>
          (case take_elem w k of
             (w', None) \<Rightarrow> take_singly first_key take_elem n w' acc
           | (w', Some v) \<Rightarrow> take_singly first_key take_elem n w' (acc @ [(k, v)])))"

definition drain_aggregates ::
  "('w \<Rightarrow> 'c option \<Rightarrow> nat \<Rightarrow> 'w \<times> int \<times> nat \<times> ('k \<times> 'v) list \<times> 'c) \<Rightarrow>
   ('w \<Rightarrow> 'k option) \<Rightarrow> ('w \<Rightarrow> 'k \<Rightarrow> 'w \<times> 'v option) \<Rightarrow> 'k \<times> 'v \<Rightarrow> 'w \<Rightarrow> 'w \<times> ('k \<times> 'v) list" where
  "drain_aggregates batch first_key take_elem zero w =
     (case take_batches batch None 0 (replicate batch_size zero) w [] of
        (w', xs, supported) \<Rightarrow>
          if supported then (w', xs) else take_singly first_key take_elem drain_limit w' xs)"

definition futex_event :: "futex_key \<times> futex_value \<Rightarrow> bpf_event" where
  "futex_event x =
     (case x of (k, v) \<Rightarrow>
        zero_event\<lparr>ev_kind := FUTEX, ev_tgid := fk_tgid k, ev_tid := fk_tid k, ev_peer_tid := fk_peer_tid k,
          ev_timestamp_ns := fv_last_timestamp_ns v, ev_start_time_ns := fk_start_time_ns k,
          ev_peer_start_time_ns := fk_peer_start_time_ns k, ev_value_ns := fv_count v\<rparr>)"

definition zero_futex :: "futex_key \<times> futex_value" where
  "zero_futex =
     (\<lparr>fk_tgid = 0, fk_tid = 0, fk_peer_tid = 0, fk_start_time_ns = 0, fk_peer_start_time_ns = 0\<rparr>,
      \<lparr>fv_count = 0, fv_last_timestamp_ns = 0\<rparr>)"

definition drain_futex_aggregates ::
  "('w \<Rightarrow> 'c option \<Rightarrow> nat \<Rightarrow> 'w \<times> int \<times> nat \<times> (futex_key \<times> futex_value) list \<times> 'c) \<Rightarrow>
   ('w \<Rightarrow> futex_key option) \<Rightarrow> ('w \<Rightarrow> futex_key \<Rightarrow> 'w \<times> futex_value option) \<Rightarrow> 'w \<Rightarrow> reader \<Rightarrow>
   'w \<times> bpf_event list \<times> reader" where
  "drain_futex_aggregates batch first_key take_elem w r =
     (if rd_futex_fd r < 0 then (w, [], r)
      else case drain_aggregates batch first_key take_elem zero_futex w of
        (w', xs) \<Rightarrow>
          (w', map futex_event xs,
           r\<lparr>rd_stats := (rd_stats r)\<lparr>
               futex_aggregate_records := futex_aggregate_records (rd_stats r) + of_nat (length xs),
               futex_handoffs := futex_handoffs (rd_stats r) + sum_list (map (\<lambda>x. fv_count (snd x)) xs)\<rparr>\<rparr>))"

definition vfs_event :: "vfs_key \<times> vfs_value \<Rightarrow> bpf_event" where
  "vfs_event x =
     (case x of (k, v) \<Rightarrow>
        zero_event\<lparr>ev_kind := VFS, ev_tgid := vk_tgid k, ev_tid := vk_tid k, ev_peer_tid := vk_peer_tid k,
          ev_timestamp_ns := vv_last_timestamp_ns v, ev_start_time_ns := vk_start_time_ns k,
          ev_peer_start_time_ns := vk_peer_start_time_ns k, ev_value_ns := vv_total_time_ns v,
          ev_resource := vk_resource k\<rparr>)"

definition zero_vfs :: "vfs_key \<times> vfs_value" where
  "zero_vfs =
     (\<lparr>vk_tgid = 0, vk_tid = 0, vk_peer_tid = 0, vk_start_time_ns = 0, vk_peer_start_time_ns = 0, vk_resource = 0\<rparr>,
      \<lparr>vv_total_time_ns = 0, vv_count = 0, vv_last_timestamp_ns = 0\<rparr>)"

definition drain_vfs_aggregates ::
  "('w \<Rightarrow> 'c option \<Rightarrow> nat \<Rightarrow> 'w \<times> int \<times> nat \<times> (vfs_key \<times> vfs_value) list \<times> 'c) \<Rightarrow>
   ('w \<Rightarrow> vfs_key option) \<Rightarrow> ('w \<Rightarrow> vfs_key \<Rightarrow> 'w \<times> vfs_value option) \<Rightarrow> 'w \<Rightarrow> reader \<Rightarrow>
   'w \<times> bpf_event list \<times> reader" where
  "drain_vfs_aggregates batch first_key take_elem w r =
     (if rd_vfs_fd r < 0 then (w, [], r)
      else case drain_aggregates batch first_key take_elem zero_vfs w of
        (w', xs) \<Rightarrow>
          (w', map vfs_event xs,
           r\<lparr>rd_stats := (rd_stats r)\<lparr>
               vfs_aggregate_records := vfs_aggregate_records (rd_stats r) + of_nat (length xs),
               vfs_handoffs := vfs_handoffs (rd_stats r) + sum_list (map (\<lambda>x. vv_count (snd x)) xs)\<rparr>\<rparr>))"

end
