(* ===== verification/Bpf_Ring.thy ===== *)
theory Bpf_Ring
  imports Bpf_Reader
begin

text \<open>
  The ring buffer of lifecycle events. The layout the kernel documents for its ring buffer (a
  header of eight bytes with length and flags, the payload, rounded up to eight bytes) is the
  predicate \<open>laid_out\<close>; the loop of \<^verbatim>\<open>drain\<close> in \<^verbatim>\<open>src/bpf_reader.cpp\<close> returns exactly the events of the
  records up to the first one that is still being written, and leaves the rest for the next call.
\<close>

unbundle bit_operations_syntax

section \<open>Bytes\<close>

lemma le_value_bytes_take: "le_value (le_bytes n w) = take_bit (8 * n) (w :: 'a::len word)"
proof (induction n arbitrary: w)
  case (Suc n)
  have "ucast (ucast w :: 8 word) OR push_bit 8 (take_bit (8 * n) (drop_bit 8 w)) = take_bit (8 * Suc n) w"
    by (rule bit_word_eqI) (auto simp: bit_simps)
  with Suc show ?case by simp
qed simp

lemma le_value_bytes [simp]:
  "le_value (le_bytes 4 (w :: uint32)) = w" "le_value (le_bytes 8 (v :: uint64)) = v"
  by (simp_all add: le_value_bytes_take take_bit_word_eq_self)

lemma length_le_bytes [simp]: "length (le_bytes n w) = n"
  by (induction n arbitrary: w) simp_all

lemma char_byte [simp]: "char_of (unat (of_nat (of_char c) :: 8 word)) = c"
  by (simp add: take_bit_eq_mod unat_of_nat)

lemma length_encode_event: "event_wf e \<Longrightarrow> length (encode_event e) = EVENT_BYTES"
  by (simp add: encode_event_def event_wf_def EVENT_BYTES_def)

lemma decode_encode_event: "event_wf e \<Longrightarrow> decode_event (encode_event e) = e"
  by (simp add: decode_event_def encode_event_def event_wf_def u32_at_def u64_at_def comp_def)

section \<open>Records\<close>


lemma ring_offset: "unat ((pos :: uint64) AND (2 ^ k - 1)) = unat pos mod 2 ^ k"
proof -
  have "pos AND (2 ^ k - 1) = take_bit k pos"
    unfolding take_bit_eq_mask mask_eq_exp_minus_1 by (rule refl)
  then show ?thesis by (metis unsigned_take_bit_eq take_bit_eq_mod)
qed

lemma round_up_8: "unat ((w :: uint64) AND NOT 7) = unat w div 8 * 8"
proof -
  have m: "(7 :: uint64) = mask 3" by (simp add: mask_eq_exp_minus_1)
  have "w AND NOT 7 = push_bit 3 (drop_bit 3 w)"
    unfolding m by (rule bit_word_eqI) (auto simp: bit_simps)
  then have "unat (w AND NOT 7) = take_bit 64 (push_bit 3 (unat (drop_bit 3 w)))"
    by (simp add: unsigned_push_bit_eq)
  moreover have "unat (drop_bit 3 w) = unat w div 8" by (simp add: drop_bit_eq_div unat_div)
  moreover have "unat w div 8 * 8 < 2 ^ 64" using unsigned_less [of w, where ?'a = nat] by (simp add: less_mult_imp_div_less)
  ultimately show ?thesis by (simp add: push_bit_eq_mult take_bit_eq_mod)
qed

record ring_record =
  rr_busy :: bool
  rr_discard :: bool
  rr_payload :: "8 word list"

definition header_of :: "ring_record \<Rightarrow> uint32" where
  "header_of r =
     of_nat (length (rr_payload r)) OR (if rr_busy r then push_bit BUSY_BIT 1 else 0) OR
     (if rr_discard r then push_bit DISCARD_BIT 1 else 0)"

definition span_of :: "ring_record \<Rightarrow> nat" where
  "span_of r = (length (rr_payload r) + 15) div 8 * 8"

text \<open>The layout the kernel documents for its ring buffer, from a position on.\<close>

fun laid_out :: "(nat \<Rightarrow> 8 word) \<Rightarrow> nat \<Rightarrow> nat \<Rightarrow> ring_record list \<Rightarrow> bool" where
  "laid_out data cap pos [] = True"
| "laid_out data cap pos (r # rs) \<longleftrightarrow>
     length (rr_payload r) < 2 ^ 30 \<and> bytes_at data (pos mod cap) 4 = le_bytes 4 (header_of r) \<and>
     bytes_at data (pos mod cap + 8) (length (rr_payload r)) = rr_payload r \<and>
     laid_out data cap (pos + span_of r) rs"

lemma small_high_bits: "n < 2 ^ 30 \<Longrightarrow> \<not> bit (of_nat n :: uint32) 30 \<and> \<not> bit (of_nat n :: uint32) 31"
  by (metis bit_take_bit_iff of_nat_take_bit less_irrefl take_bit_nat_eq_self_iff unsigned_of_nat
      numeral_less_iff semiring_norm(68,76,78,80,81) not_less take_bit_of_nat)

lemma flag_bits:
  "bit (push_bit BUSY_BIT 1 :: uint32) n \<longleftrightarrow> n = BUSY_BIT" "bit (push_bit DISCARD_BIT 1 :: uint32) n \<longleftrightarrow> n = DISCARD_BIT"
  unfolding bit_push_bit_iff bit_1_iff by auto

lemma header_bits:
  assumes "length (rr_payload r) < 2 ^ 30"
  shows "bit (header_of r) BUSY_BIT = rr_busy r" "bit (header_of r) DISCARD_BIT = rr_discard r"
    "payload_length (header_of r) = of_nat (length (rr_payload r))"
    "unat (payload_length (header_of r)) = length (rr_payload r)"
proof -
  note hi = small_high_bits [OF assms]
  show "bit (header_of r) BUSY_BIT = rr_busy r" "bit (header_of r) DISCARD_BIT = rr_discard r"
    using hi by (auto simp: header_of_def bit_simps)
  show p: "payload_length (header_of r) = of_nat (length (rr_payload r))"
  proof (rule bit_word_eqI)
    fix n assume n: "n < LENGTH(32)"
    show "bit (payload_length (header_of r)) n = bit (of_nat (length (rr_payload r)) :: uint32) n"
      unfolding payload_length_def header_of_def bit_and_iff bit_or_iff bit_not_iff if_distrib [of "\<lambda>w. bit w n"] flag_bits
      using hi n by (auto simp: possible_bit_def)
  qed
  have "length (rr_payload r) < 2 ^ 32" using assms by simp
  then show "unat (payload_length (header_of r)) = length (rr_payload r)"
    unfolding p by (simp add: unat_of_nat take_bit_eq_mod)
qed

lemma record_span_of:
  assumes "length (rr_payload r) < 2 ^ 30"
  shows "unat (record_span (header_of r)) = span_of r"
proof -
  have "unat (ucast (payload_length (header_of r)) + 8 + 7 :: uint64) = length (rr_payload r) + 15"
    using assms by (simp add: header_bits unat_word_ariths unat_of_nat take_bit_eq_mod unsigned_ucast_eq)
  then show ?thesis unfolding record_span_def round_up_8 span_of_def by simp
qed

lemma span_positive: "0 < span_of r"
  by (simp add: span_of_def)

definition complete_record :: "ring_record \<Rightarrow> bool" where
  "complete_record r \<longleftrightarrow> \<not> rr_discard r \<and> EVENT_BYTES \<le> length (rr_payload r)"

definition record_event :: "ring_record \<Rightarrow> bpf_event" where
  "record_event r = decode_event (take EVENT_BYTES (rr_payload r))"

definition ready_records :: "ring_record list \<Rightarrow> ring_record list" where
  "ready_records rs = takeWhile (\<lambda>r. \<not> rr_busy r) rs"

definition spans :: "ring_record list \<Rightarrow> nat" where
  "spans rs = sum_list (map span_of rs)"

lemma bytes_at_prefix: "bytes_at data a n = xs \<Longrightarrow> m \<le> n \<Longrightarrow> bytes_at data a m = take m xs"
  by (auto simp: bytes_at_def take_map)

lemma laid_out_event:
  assumes "laid_out (ring_data g) (2 ^ k) (unat pos) (r # rs)" "complete_record r"
  shows "event_at (ring_data g) (2 ^ k) pos = record_event r"
  using assms bytes_at_prefix [of "ring_data g" "unat pos mod 2 ^ k + 8" "length (rr_payload r)" "rr_payload r" EVENT_BYTES]
  by (simp add: event_at_def record_event_def complete_record_def ring_offset)

lemma laid_out_header:
  assumes "laid_out (ring_data g) (2 ^ k) (unat pos) (r # rs)"
  shows "header_at (ring_data g) (2 ^ k) pos = header_of r"
  using assms by (simp add: header_at_def ring_offset)

lemma drain_laid_out:
  assumes "laid_out (ring_data g) (2 ^ k) (unat pos) rs" "unat end_pos = unat pos + spans rs"
  shows "drain_loop (ring_data g) (2 ^ k) started end_pos pos acc lag =
    Some (pos + of_nat (spans (ready_records rs)),
      acc @ map record_event (filter complete_record (ready_records rs)),
      fold (note_lag started) (map record_event (filter complete_record (ready_records rs))) lag)"
  using assms
proof (induction rs arbitrary: pos acc lag)
  case Nil
  then have "end_pos = pos" by (simp add: spans_def word_unat_eq_iff)
  then show ?case by (subst drain_loop.simps) (simp add: ready_records_def spans_def)
next
  case (Cons r rs)
  let ?h = "header_of r"
  have len: "length (rr_payload r) < 2 ^ 30" using Cons.prems(1) by simp
  have step: "pos < end_pos" using Cons.prems(2) span_positive [of r] by (simp add: word_less_nat_alt spans_def)
  have h: "header_at (ring_data g) (2 ^ k) pos = ?h" using laid_out_header Cons.prems(1) .
  have "unat pos + span_of r < 2 ^ 64"
    using Cons.prems(2) unsigned_less [of end_pos, where ?'a = nat] by (simp add: spans_def)
  then have pos': "unat (pos + record_span ?h) = unat pos + span_of r"
    using record_span_of [OF len] by (simp add: unat_word_ariths)
  have span: "record_span ?h = of_nat (span_of r)" using record_span_of [OF len] by (metis of_nat_unat ucast_id)
  have IH: "drain_loop (ring_data g) (2 ^ k) started end_pos (pos + record_span ?h) acc' lag' =
    Some (pos + record_span ?h + of_nat (spans (ready_records rs)),
      acc' @ map record_event (filter complete_record (ready_records rs)),
      fold (note_lag started) (map record_event (filter complete_record (ready_records rs))) lag')" for acc' lag'
    using Cons.IH [of "pos + record_span ?h"] Cons.prems pos' by (simp add: spans_def add.assoc)
  show ?case
  proof (cases "rr_busy r")
    case True
    then show ?thesis using step h header_bits [OF len]
      by (subst drain_loop.simps) (simp add: ready_records_def spans_def)
  next
    case False
    note ev = laid_out_event [OF Cons.prems(1)]
    show ?thesis
    proof (cases "complete_record r")
      case True
      then show ?thesis using step h header_bits [OF len] False IH ev [OF True]
        by (subst drain_loop.simps)
          (simp add: ready_records_def spans_def complete_record_def span add.assoc Let_def)
    next
      case no: False
      then have "\<not> (\<not> bit ?h DISCARD_BIT \<and> EVENT_BYTES \<le> unat (payload_length ?h))"
        using header_bits [OF len] by (auto simp: complete_record_def)
      then show ?thesis using step h header_bits(1) [OF len] False IH no
        by (subst drain_loop.simps) (auto simp: ready_records_def spans_def span add.assoc Let_def)
    qed
  qed
qed

text \<open>Whatever the shared pages hold, the loop ends below the point where a step could wrap.\<close>

lemma payload_length_take: "payload_length h = take_bit 30 h"
proof (rule bit_word_eqI)
  fix n assume "n < LENGTH(32)"
  then show "bit (payload_length h) n = bit (take_bit 30 h) n"
    unfolding payload_length_def bit_and_iff bit_or_iff bit_not_iff flag_bits bit_take_bit_iff
    by (auto simp: possible_bit_def)
qed

lemma record_span_bounds: "8 \<le> unat (record_span h) \<and> unat (record_span h) < 2 ^ 31"
proof -
  have p: "unat (payload_length h) < 2 ^ 30"
    unfolding payload_length_take unsigned_take_bit_eq by (rule take_bit_nat_less_exp)
  then have "unat (ucast (payload_length h) + 8 + 7 :: uint64) = unat (payload_length h) + 15"
    by (simp add: unat_word_ariths unsigned_ucast_eq take_bit_eq_mod)
  then have "unat (record_span h) = (unat (payload_length h) + 15) div 8 * 8"
    unfolding record_span_def round_up_8 by simp
  then show ?thesis using p by simp linarith
qed

lemma drain_loop_returns:
  assumes "unat end_pos \<le> 2 ^ 64 - 2 ^ 31"
  shows "\<exists>r. drain_loop data cap started end_pos pos acc lag = Some r"
proof (induction "unat end_pos - unat pos" arbitrary: pos acc lag rule: less_induct)
  case less
  show ?case
  proof (cases "pos < end_pos")
    case True
    let ?h = "header_at data cap pos"
    have "unat (pos + record_span ?h) = unat pos + unat (record_span ?h)"
      using True record_span_bounds [of ?h] assms by (simp add: unat_word_ariths word_less_nat_alt)
    then have "unat end_pos - unat (pos + record_span ?h) < unat end_pos - unat pos"
      using True record_span_bounds [of ?h] unfolding word_less_nat_alt by linarith
    note IH = less [OF this]
    show ?thesis using IH by (subst drain_loop.simps) (auto simp: Let_def)
  next
    case False
    then show ?thesis by (subst drain_loop.simps) simp
  qed
qed

text \<open>With any contents of the shared pages a drain returns.\<close>

theorem drain_returns:
  assumes "unat (producer_pos g) \<le> 2 ^ 64 - 2 ^ 31"
  shows "\<exists>evs g' r'. drain started finished g r = Some (evs, g', r') \<and> ring_data g' = ring_data g \<and>
    producer_pos g' = producer_pos g \<and> events_consumed (rd_stats r') = events_consumed (rd_stats r) + of_nat (length evs)"
proof -
  obtain p evs lag where "drain_loop (ring_data g) (rd_capacity r) started (producer_pos g) (consumer_pos g) [] 0 = Some (p, evs, lag)"
    using drain_loop_returns [OF assms] by (metis prod_cases3)
  then show ?thesis by (simp add: drain_def Let_def)
qed

definition event_record :: "bpf_event \<Rightarrow> ring_record" where
  "event_record e = \<lparr>rr_busy = False, rr_discard = False, rr_payload = encode_event e\<rparr>"

lemma event_record_facts:
  assumes "event_wf e"
  shows "span_of (event_record e) = 232" "complete_record (event_record e)" "record_event (event_record e) = e"
  using assms
  by (simp_all add: event_record_def span_of_def complete_record_def record_event_def length_encode_event decode_encode_event EVENT_BYTES_def)

lemma ready_event_records:
  "rest = [] \<or> rr_busy (hd rest) \<Longrightarrow> ready_records (map event_record evs @ rest) = map event_record evs"
  by (induction evs) (cases rest; auto simp: ready_records_def event_record_def)+

lemma laid_out_append:
  "laid_out data cap pos (xs @ ys) \<longleftrightarrow> laid_out data cap pos xs \<and> laid_out data cap (pos + spans xs) ys"
  by (induction xs arbitrary: pos) (auto simp: spans_def add.assoc)

lemma event_records:
  assumes "list_all event_wf evs"
  shows "spans (map event_record evs) = 232 * length evs" "filter complete_record (map event_record evs) = map event_record evs"
    "map record_event (map event_record evs) = evs"
  using assms by (induction evs) (simp_all add: spans_def event_record_facts)

text \<open>
  C34. A drain delivers the events of the ring exactly once and in order: when the ring holds
  complete events followed by nothing or by a record that is still being written, the drain
  returns these events byte for byte, counts them, and moves the consumer behind them, where the
  rest is laid out for the next drain. A record that runs over the end of the buffer is no
  exception.
\<close>

theorem ring_delivers:
  assumes cap: "rd_capacity r = 2 ^ k"
    and ring: "laid_out (ring_data g) (2 ^ k) (unat (consumer_pos g)) (map event_record evs @ rest)"
      "unat (producer_pos g) = unat (consumer_pos g) + spans (map event_record evs @ rest)"
    and "rest = [] \<or> rr_busy (hd rest)" "list_all event_wf evs"
  shows "\<exists>g' r'. drain started finished g r = Some (evs, g', r') \<and>
    unat (consumer_pos g') = unat (consumer_pos g) + 232 * length evs \<and>
    laid_out (ring_data g') (2 ^ k) (unat (consumer_pos g')) rest \<and>
    unat (producer_pos g') = unat (consumer_pos g') + spans rest \<and>
    events_consumed (rd_stats r') = events_consumed (rd_stats r) + of_nat (length evs)"
proof -
  note ready = ready_event_records [OF assms(4), of evs] and es = event_records [OF assms(5)]
  have sp: "spans (map event_record evs @ rest) = 232 * length evs + spans rest"
    using es(1) by (simp add: spans_def)
  have small: "unat (consumer_pos g) + 232 * length evs < 2 ^ 64"
    using ring(2) sp unsigned_less [of "producer_pos g", where ?'a = nat] by simp
  then have pos: "unat (consumer_pos g + of_nat (232 * length evs)) = unat (consumer_pos g) + 232 * length evs"
    by (simp add: unat_word_ariths unat_of_nat take_bit_eq_mod)
  show ?thesis
    using drain_laid_out [OF ring, of started "[]" 0, unfolded ready es(2,3)] ring pos sp
    by (simp add: drain_def cap es laid_out_append Let_def)
qed

text \<open>A record that starts at byte 488 of a ring of 512 bytes and runs over its end.\<close>

definition sample_ring :: ring where
  "sample_ring = \<lparr>consumer_pos = 488, producer_pos = 720,
     ring_data = (\<lambda>i. if i < 488 then 0 else (le_bytes 4 (224 :: uint32) @ replicate 4 0 @ encode_event zero_event) ! (i - 488))\<rparr>"

definition sample_reader :: reader where
  "sample_reader = \<lparr>rd_health_fd = 3, rd_futex_fd = 4, rd_vfs_fd = 5, rd_capacity = 512, rd_stats = zero_stats\<rparr>"

lemma bytes_at_list:
  assumes "a \<le> b" "b - a + n \<le> length bs"
  shows "bytes_at (\<lambda>i. if i < a then 0 else bs ! (i - a)) b n = take n (drop (b - a) bs)"
  by (rule nth_equalityI) (use assms in \<open>auto simp: bytes_at_def\<close>)

lemma zero_event_wf: "event_wf zero_event"
  by (simp add: event_wf_def zero_event_def)

lemma sample_ring_laid_out:
  "laid_out (ring_data sample_ring) (2 ^ 9) (unat (consumer_pos sample_ring)) (map event_record [zero_event] @ [])"
proof -
  let ?bs = "le_bytes 4 (224 :: uint32) @ replicate 4 0 @ encode_event zero_event"
  note len = length_encode_event [OF zero_event_wf, unfolded EVENT_BYTES_def]
  have "bytes_at (ring_data sample_ring) 488 4 = le_bytes 4 (224 :: uint32)"
    "bytes_at (ring_data sample_ring) 496 224 = encode_event zero_event"
    using bytes_at_list [of 488 488 4 ?bs] bytes_at_list [of 488 496 224 ?bs] by (simp_all add: sample_ring_def len)
  then show ?thesis by (simp add: event_record_def header_of_def len sample_ring_def)
qed

theorem ring_delivers_witness:
  "\<exists>g' r'. drain 5 7 sample_ring sample_reader = Some ([zero_event], g', r') \<and> unat (consumer_pos g') = 720"
proof -
  have "unat (producer_pos sample_ring) = unat (consumer_pos sample_ring) + spans (map event_record [zero_event] @ [])"
    using event_record_facts(1) [OF zero_event_wf] by (simp add: sample_ring_def spans_def)
  then show ?thesis
    using ring_delivers [OF _ sample_ring_laid_out, where ?r = sample_reader and ?started = 5 and ?finished = 7]
    by (auto simp: sample_reader_def zero_event_wf sample_ring_def)
qed

end
