(* ===== verification/Bpf_Program.thy ===== *)
theory Bpf_Program
  imports Bpf_Events "HOL-Library.AList"
begin

text \<open>
  The BPF program, \<^verbatim>\<open>bpf/affinitygraph.bpf.c\<close>: which processes are tracked, the lifecycle events
  it emits into the ring buffer, the handoffs it counts in the two aggregate maps, and the health
  counters. One definition per hook, as a function on the maps; the kernel is taken to run them
  one at a time.

  A map is an association list without duplicate keys. What the kernel decides is an argument: the
  record \<open>hook\<close> has the current thread, the clock and the results of the helper calls that can fail
  (an update that fails leaves the map as it is), \<open>task_info\<close> what \<^verbatim>\<open>bpf_probe_read_kernel\<close> reads
  of a task (a read that fails gives zero). Entries of a \<^verbatim>\<open>BPF_MAP_TYPE_LRU_HASH\<close> may vanish between
  hooks; that is a step of \<open>Bpf_Accounting\<close>.
\<close>

unbundle bit_operations_syntax

section \<open>Maps\<close>

record target =
  tg_root_tgid :: uint32
  tg_start_time_ns :: uint64

record thread_key =
  th_tgid :: uint32
  th_tid :: uint32

record pending_pthread =
  pp_routine :: uint64
  pp_timestamp_ns :: uint64

record waiter_key =
  wk_tgid :: uint32
  wk_address :: uint64

record waiter_value =
  wv_tid :: uint32
  wv_start_time_ns :: uint64

record resource_key =
  rs_tgid :: uint32
  rs_device :: uint32
  rs_inode :: uint64

record resource_value =
  rs_tid :: uint32
  rs_timestamp_ns :: uint64
  rs_start_time_ns :: uint64

record pending_affinity =
  pa_target_tid :: uint32
  pa_mask_bytes :: uint32
  pa_mask :: "8 word list"

record bpf_program =
  pids :: "(uint32 \<times> target) list"
  events :: "bpf_event list"
  health :: "bpf_counters option"
  rename_throttle :: "(thread_key \<times> uint64) list"
  pending_pthreads :: "(thread_key \<times> pending_pthread) list"
  waiters :: "(waiter_key \<times> waiter_value) list"
  futex_aggregates :: "(futex_key \<times> futex_value) list"
  vfs_aggregates :: "(vfs_key \<times> vfs_value) list"
  resources :: "(resource_key \<times> resource_value) list"
  pending_affinities :: "(thread_key \<times> pending_affinity) list"

record task_info =
  ti_tgid :: uint32
  ti_tid :: uint32
  ti_start_boottime :: uint64
  ti_leader_start :: "uint64 option"
  ti_comm :: string

record hook =
  hk_current :: uint64
  hk_task :: task_info
  hk_now :: uint64
  hk_emit_ns :: uint64
  hk_ring :: int
  hk_update :: int
  hk_store :: int

definition store :: "int \<Rightarrow> 'k \<Rightarrow> 'v \<Rightarrow> ('k \<times> 'v) list \<Rightarrow> ('k \<times> 'v) list" where
  "store rc k v m = (if rc = 0 then AList.update k v m else m)"

definition current_tgid :: "hook \<Rightarrow> uint32" where
  "current_tgid h = ucast (drop_bit 32 (hk_current h))"

definition current_tid :: "hook \<Rightarrow> uint32" where
  "current_tid h = ucast (hk_current h)"

section \<open>Tracking and accounting\<close>

definition tracked_task :: "uint32 \<Rightarrow> task_info \<Rightarrow> bpf_program \<Rightarrow> bool" where
  "tracked_task tgid task s \<longleftrightarrow>
     (case map_of (pids s) tgid of
        None \<Rightarrow> False
      | Some t \<Rightarrow>
          tg_start_time_ns t = 0 \<or>
          tg_start_time_ns t = (case ti_leader_start task of None \<Rightarrow> ti_start_boottime task | Some g \<Rightarrow> g))"

definition current_tracked :: "uint32 \<Rightarrow> hook \<Rightarrow> bpf_program \<Rightarrow> bool" where
  "current_tracked tgid h s \<longleftrightarrow> tracked_task tgid (hk_task h) s"

definition KIND_COUNT :: nat where "KIND_COUNT = 8"

definition bump :: "uint32 \<Rightarrow> uint64 list \<Rightarrow> uint64 list" where
  "bump kind xs = (if unat kind < KIND_COUNT then xs[unat kind := xs ! unat kind + 1] else xs)"

definition account_emit :: "uint32 \<Rightarrow> int \<Rightarrow> bpf_program \<Rightarrow> bpf_program" where
  "account_emit kind rc s =
     (case health s of
        None \<Rightarrow> s
      | Some c \<Rightarrow>
          s\<lparr>health := Some
             (if rc \<noteq> 0 then c\<lparr>dropped := dropped c + 1, dropped_by_kind := bump kind (dropped_by_kind c)\<rparr>
              else c\<lparr>emitted := emitted c + 1, emitted_by_kind := bump kind (emitted_by_kind c)\<rparr>)\<rparr>)"

definition emit_event :: "hook \<Rightarrow> bpf_event \<Rightarrow> bpf_program \<Rightarrow> bpf_program" where
  "emit_event h e s =
     (let e' = e\<lparr>ev_timestamp_ns := hk_emit_ns h\<rparr>
      in account_emit (ev_kind e') (hk_ring h)
           (if hk_ring h = 0 then s\<lparr>events := events s @ [e']\<rparr> else s))"

definition account_suppressed :: "uint32 \<Rightarrow> bpf_program \<Rightarrow> bpf_program" where
  "account_suppressed kind s =
     (case health s of
        None \<Rightarrow> s
      | Some c \<Rightarrow> s\<lparr>health := Some (c\<lparr>suppressed_by_kind := bump kind (suppressed_by_kind c)\<rparr>)\<rparr>)"

section \<open>Lifecycle hooks\<close>

definition on_fork :: "hook \<Rightarrow> task_info \<Rightarrow> bpf_program \<Rightarrow> bpf_program" where
  "on_fork h child s =
     (let ptgid = current_tgid h; ptid = current_tid h in
      if \<not> current_tracked ptgid h s then s
      else
        (let e = zero_event\<lparr>ev_kind := TASK_FORK, ev_tgid := ti_tgid child, ev_tid := ti_tid child,
               ev_parent_tgid := ptgid, ev_parent_tid := ptid, ev_start_time_ns := ti_start_boottime child,
               ev_comm := ti_comm child\<rparr>;
             s1 = s\<lparr>rename_throttle := AList.delete \<lparr>th_tgid = ti_tgid child, th_tid = ti_tid child\<rparr> (rename_throttle s)\<rparr>
         in if ti_tgid child \<noteq> ptgid
            then let next_target = \<lparr>tg_root_tgid = (case map_of (pids s1) ptgid of None \<Rightarrow> ptgid | Some p \<Rightarrow> tg_root_tgid p),
                       tg_start_time_ns = ti_start_boottime child\<rparr>
                 in emit_event h e (s1\<lparr>pids := store (hk_update h) (ti_tgid child) next_target (pids s1)\<rparr>)
            else let k = \<lparr>th_tgid = ptgid, th_tid = ptid\<rparr>
                 in case map_of (pending_pthreads s1) k of
                      None \<Rightarrow> emit_event h e s1
                    | Some p \<Rightarrow> emit_event h (e\<lparr>ev_start_routine := pp_routine p\<rparr>)
                        (s1\<lparr>pending_pthreads := AList.delete k (pending_pthreads s1)\<rparr>)))"

definition on_exec :: "hook \<Rightarrow> task_info \<Rightarrow> bpf_program \<Rightarrow> bpf_program" where
  "on_exec h task s =
     (let g = ti_tgid task in
      if \<not> tracked_task g task s then s
      else
        (let s1 = (case map_of (pids s) g of
               None \<Rightarrow> s
             | Some t \<Rightarrow> if tg_start_time_ns t = 0
                 then s\<lparr>pids := store (hk_update h) g (t\<lparr>tg_start_time_ns := ti_start_boottime task\<rparr>) (pids s)\<rparr> else s)
         in emit_event h (zero_event\<lparr>ev_kind := TASK_EXEC, ev_tgid := g, ev_tid := ti_tid task,
              ev_start_time_ns := ti_start_boottime task, ev_comm := ti_comm task\<rparr>) s1))"

definition on_exit :: "hook \<Rightarrow> task_info \<Rightarrow> bpf_program \<Rightarrow> bpf_program" where
  "on_exit h task s =
     (if \<not> tracked_task (ti_tgid task) task s then s
      else emit_event h (zero_event\<lparr>ev_kind := TASK_EXIT, ev_tgid := ti_tgid task, ev_tid := ti_tid task,
             ev_start_time_ns := ti_start_boottime task\<rparr>)
             (s\<lparr>rename_throttle := AList.delete \<lparr>th_tgid = ti_tgid task, th_tid = ti_tid task\<rparr> (rename_throttle s)\<rparr>))"

definition RENAME_MIN_INTERVAL_NS :: uint64 where "RENAME_MIN_INTERVAL_NS = 500000000"

text \<open>\<open>name\<close> is the new name, sixteen bytes as \<^verbatim>\<open>bpf_probe_read_kernel_str\<close> leaves them.\<close>

definition on_rename :: "hook \<Rightarrow> task_info \<Rightarrow> string \<Rightarrow> bpf_program \<Rightarrow> bpf_program" where
  "on_rename h task name s =
     (if \<not> tracked_task (ti_tgid task) task s then s
      else let k = \<lparr>th_tgid = ti_tgid task, th_tid = ti_tid task\<rparr> in
        if (case map_of (rename_throttle s) k of
              None \<Rightarrow> False | Some last_ns \<Rightarrow> hk_now h - last_ns < RENAME_MIN_INTERVAL_NS)
        then account_suppressed TASK_RENAME s
        else emit_event h (zero_event\<lparr>ev_kind := TASK_RENAME, ev_tgid := ti_tgid task, ev_tid := ti_tid task,
               ev_start_time_ns := ti_start_boottime task, ev_comm := name\<rparr>)
               (s\<lparr>rename_throttle := store (hk_store h) k (hk_now h) (rename_throttle s)\<rparr>))"

section \<open>Start routines and affinity calls\<close>

definition on_pthread_create :: "hook \<Rightarrow> uint64 \<Rightarrow> bpf_program \<Rightarrow> bpf_program" where
  "on_pthread_create h routine s =
     (if \<not> current_tracked (current_tgid h) h s then s
      else s\<lparr>pending_pthreads := store (hk_update h) \<lparr>th_tgid = current_tgid h, th_tid = current_tid h\<rparr>
             \<lparr>pp_routine = routine, pp_timestamp_ns = hk_now h\<rparr> (pending_pthreads s)\<rparr>)"

definition on_pthread_create_return :: "hook \<Rightarrow> bpf_program \<Rightarrow> bpf_program" where
  "on_pthread_create_return h s =
     (if \<not> current_tracked (current_tgid h) h s then s
      else s\<lparr>pending_pthreads := AList.delete \<lparr>th_tgid = current_tgid h, th_tid = current_tid h\<rparr> (pending_pthreads s)\<rparr>)"

text \<open>\<open>pid\<close>, \<open>len\<close>: the arguments of the call; \<open>user\<close>: the bytes read at its third argument.\<close>

definition on_sched_setaffinity_enter :: "hook \<Rightarrow> uint64 \<Rightarrow> uint64 \<Rightarrow> 8 word list \<Rightarrow> bpf_program \<Rightarrow> bpf_program" where
  "on_sched_setaffinity_enter h pid len user s =
     (if \<not> current_tracked (current_tgid h) h s then s
      else let n = min len (of_nat MASK_BYTES) in
        s\<lparr>pending_affinities := store (hk_update h) \<lparr>th_tgid = current_tgid h, th_tid = current_tid h\<rparr>
            \<lparr>pa_target_tid = (if pid \<noteq> 0 then ucast pid else current_tid h), pa_mask_bytes = ucast n,
             pa_mask = take MASK_BYTES (take (unat n) user @ replicate MASK_BYTES 0)\<rparr> (pending_affinities s)\<rparr>)"

definition on_sched_setaffinity_exit :: "hook \<Rightarrow> int \<Rightarrow> bpf_program \<Rightarrow> bpf_program" where
  "on_sched_setaffinity_exit h ret s =
     (let k = \<lparr>th_tgid = current_tgid h, th_tid = current_tid h\<rparr> in
      case map_of (pending_affinities s) k of
        None \<Rightarrow> s
      | Some p \<Rightarrow>
          (let s1 = (if ret = 0
                     then emit_event h (zero_event\<lparr>ev_kind := AFFINITY, ev_tgid := th_tgid k, ev_tid := th_tid k,
                            ev_peer_tid := pa_target_tid p, ev_mask_bytes := pa_mask_bytes p, ev_mask := pa_mask p\<rparr>) s
                     else s)
           in s1\<lparr>pending_affinities := AList.delete k (pending_affinities s1)\<rparr>))"

section \<open>Handoffs\<close>

definition FUTEX_CMD_MASK :: uint32 where "FUTEX_CMD_MASK = 0x7f"

definition count_futex :: "hook \<Rightarrow> futex_key \<Rightarrow> bpf_program \<Rightarrow> bpf_program" where
  "count_futex h k s =
     (case map_of (futex_aggregates s) k of
        Some v \<Rightarrow> account_emit FUTEX 0 (s\<lparr>futex_aggregates := AList.update k
                    \<lparr>fv_count = fv_count v + 1, fv_last_timestamp_ns = hk_now h\<rparr> (futex_aggregates s)\<rparr>)
      | None \<Rightarrow> account_emit FUTEX (hk_update h) (s\<lparr>futex_aggregates := store (hk_update h) k
                    \<lparr>fv_count = 1, fv_last_timestamp_ns = hk_now h\<rparr> (futex_aggregates s)\<rparr>))"

definition on_futex :: "hook \<Rightarrow> uint64 \<Rightarrow> uint64 \<Rightarrow> bpf_program \<Rightarrow> bpf_program" where
  "on_futex h address op s =
     (if \<not> current_tracked (current_tgid h) h s then s
      else let k = \<lparr>wk_tgid = current_tgid h, wk_address = address\<rparr>;
               command = ucast op AND FUTEX_CMD_MASK
        in if command = 0 \<or> command = 9
           then s\<lparr>waiters := store (hk_store h) k
                  \<lparr>wv_tid = current_tid h, wv_start_time_ns = ti_start_boottime (hk_task h)\<rparr> (waiters s)\<rparr>
           else let s1 = (case map_of (waiters s) k of
                  None \<Rightarrow> s
                | Some w \<Rightarrow>
                    if wv_tid w = current_tid h then s
                    else count_futex h \<lparr>fk_tgid = current_tgid h, fk_tid = current_tid h, fk_peer_tid = wv_tid w,
                           fk_start_time_ns = ti_start_boottime (hk_task h), fk_peer_start_time_ns = wv_start_time_ns w\<rparr> s)
             in s1\<lparr>waiters := AList.delete k (waiters s1)\<rparr>)"

record inode_info =
  in_mode :: "16 word"
  in_ino :: uint64
  in_rdev :: uint32

definition S_IFMT :: "16 word" where "S_IFMT = 0xF000"
definition S_IFIFO :: "16 word" where "S_IFIFO = 0x1000"
definition S_IFCHR :: "16 word" where "S_IFCHR = 0x2000"

definition count_vfs :: "hook \<Rightarrow> vfs_key \<Rightarrow> uint64 \<Rightarrow> bpf_program \<Rightarrow> bpf_program" where
  "count_vfs h k elapsed s =
     (case map_of (vfs_aggregates s) k of
        Some v \<Rightarrow> account_emit VFS 0 (s\<lparr>vfs_aggregates := AList.update k
                    \<lparr>vv_total_time_ns = vv_total_time_ns v + elapsed, vv_count = vv_count v + 1,
                     vv_last_timestamp_ns = hk_now h\<rparr> (vfs_aggregates s)\<rparr>)
      | None \<Rightarrow> account_emit VFS (hk_update h) (s\<lparr>vfs_aggregates := store (hk_update h) k
                    \<lparr>vv_total_time_ns = elapsed, vv_count = 1, vv_last_timestamp_ns = hk_now h\<rparr> (vfs_aggregates s)\<rparr>))"

text \<open>
  The hooks of \<^verbatim>\<open>read\<close> and \<^verbatim>\<open>write\<close>. \<open>inode_of\<close> follows the pointers from the task to the inode of a
  descriptor; it gives nothing where one of them is null.
\<close>

definition account_fd :: "hook \<Rightarrow> (uint32 \<Rightarrow> inode_info option) \<Rightarrow> uint64 \<Rightarrow> bpf_program \<Rightarrow> bpf_program" where
  "account_fd h inode_of arg s =
     (if \<not> current_tracked (current_tgid h) h s then s
      else let fd = ucast arg :: uint32 in
        if 4096 \<le> fd then s
        else case inode_of fd of
          None \<Rightarrow> s
        | Some i \<Rightarrow>
            if in_mode i AND S_IFMT \<noteq> S_IFIFO \<and> in_mode i AND S_IFMT \<noteq> S_IFCHR then s
            else
              (let k = \<lparr>rs_tgid = current_tgid h, rs_device = in_rdev i, rs_inode = in_ino i\<rparr>;
                   g = ti_start_boottime (hk_task h);
                   s1 = (case map_of (resources s) k of
                     None \<Rightarrow> s
                   | Some p \<Rightarrow>
                       if rs_tid p = current_tid h then s
                       else count_vfs h \<lparr>vk_tgid = current_tgid h, vk_tid = current_tid h, vk_peer_tid = rs_tid p,
                              vk_start_time_ns = g, vk_peer_start_time_ns = rs_start_time_ns p, vk_resource = in_ino i\<rparr>
                              (if rs_timestamp_ns p < hk_now h then hk_now h - rs_timestamp_ns p else 0) s)
               in s1\<lparr>resources := store (hk_store h) k
                    \<lparr>rs_tid = current_tid h, rs_timestamp_ns = hk_now h, rs_start_time_ns = g\<rparr> (resources s1)\<rparr>))"

end
