(* ===== verification/Bpf_Aggregates.thy ===== *)
theory Bpf_Aggregates
  imports Bpf_Reader "HOL-Library.Multiset"
begin

text \<open>
  The drains of the aggregate maps of \<^verbatim>\<open>src/bpf_reader.cpp\<close> over any kernel that keeps the contract of
  the \<^verbatim>\<open>bpf\<close> system call, stated as the locale \<open>aggregate_map\<close>: a drain returns the entries that left
  the map, each once. Where batches are not supported the first call leaves the requested count in
  place, and the drain returns that many zeroed elements as well. The contract is interpreted on
  association lists, the maps of \<open>Bpf_Program\<close>.
\<close>

section \<open>The kernel's promise on aggregate maps\<close>

text \<open>
  What the \<^verbatim>\<open>bpf\<close> system call documents for a hash map: a batch that succeeds, or ends the map with
  \<^verbatim>\<open>ENOENT\<close>, hands over as many entries as it counts and deletes exactly these; any other failure
  changes nothing, and an answer to a call without a cursor need not touch the count; an element
  that is taken is deleted, and the first key can be taken.
\<close>

locale aggregate_map =
  fixes batch :: "('k \<times> 'v) list \<Rightarrow> 'c option \<Rightarrow> nat \<Rightarrow> ('k \<times> 'v) list \<times> int \<times> nat \<times> ('k \<times> 'v) list \<times> 'c"
    and first_key :: "('k \<times> 'v) list \<Rightarrow> 'k option"
    and take_elem :: "('k \<times> 'v) list \<Rightarrow> 'k \<Rightarrow> ('k \<times> 'v) list \<times> 'v option"
  assumes batch_takes: "batch m c n = (m', err, cnt, taken, c') \<Longrightarrow> err = 0 \<or> err = ENOENT \<Longrightarrow>
      cnt = length taken \<and> cnt \<le> n \<and> mset m = mset taken + mset m'"
    and batch_fails: "batch m c n = (m', err, cnt, taken, c') \<Longrightarrow> err \<noteq> 0 \<Longrightarrow> err \<noteq> ENOENT \<Longrightarrow>
      taken = [] \<and> m' = m \<and> (c \<noteq> None \<longrightarrow> cnt = 0)"
    and first_none: "first_key m = None \<Longrightarrow> m = []"
    and first_some: "first_key m = Some k \<Longrightarrow> \<exists>m' v. take_elem m k = (m', Some v)"
    and take_some: "take_elem m k = (m', Some v) \<Longrightarrow> mset m = add_mset (k, v) (mset m')"
    and take_none: "take_elem m k = (m', None) \<Longrightarrow> m' = m"
begin

lemma take_batches_entries:
  assumes "take_batches batch cursor drained slots m acc = (m', xs, ok)" "cursor = None \<Longrightarrow> set slots \<subseteq> {zero}"
  shows "\<exists>ys j. mset xs = mset acc + mset ys + replicate_mset j zero \<and> mset m = mset ys + mset m'"
  using assms
proof (induction "drain_limit - drained" arbitrary: cursor drained slots m acc rule: less_induct)
  case less
  obtain m1 err cnt taken c1 where call: "batch m cursor (min batch_size (drain_limit - drained)) = (m1, err, cnt, taken, c1)"
    by (metis prod_cases5)
  let ?slots = "taken @ drop (length taken) slots"
  consider "drain_limit \<le> drained" | "drained < drain_limit" "err = 0" "cnt \<noteq> 0" |
    "drained < drain_limit" "err = 0 \<and> cnt = 0 \<or> err = ENOENT" | "drained < drain_limit" "err \<noteq> 0" "err \<noteq> ENOENT"
    by linarith
  then show ?case
  proof cases
    case 1
    then have "m' = m" "xs = acc" using less.prems(1) by (auto simp: take_batches.simps [of _ _ drained])
    then show ?thesis by (intro exI [of _ "[]"] exI [of _ 0]) simp
  next
    case 2
    have run: "take_batches batch (Some c1) (drained + cnt) ?slots m1 (acc @ take cnt ?slots) = (m', xs, ok)"
      using less.prems(1) 2 call by (simp add: take_batches.simps [of _ _ drained] Let_def)
    have "drain_limit - (drained + cnt) < drain_limit - drained" using 2 by linarith
    then obtain ys j where "mset xs = mset (acc @ take cnt ?slots) + mset ys + replicate_mset j zero" "mset m1 = mset ys + mset m'"
      using less.hyps [OF _ run] by blast
    then show ?thesis using batch_takes [OF call] 2 by (intro exI [of _ "taken @ ys"] exI [of _ j]) (simp add: ac_simps)
  next
    case 3
    then have "m' = m1" "xs = acc @ take cnt ?slots"
      using less.prems(1) call by (auto simp: take_batches.simps [of _ _ drained] Let_def ENOENT_def split: if_splits)
    then show ?thesis using batch_takes [OF call] 3 by (intro exI [of _ taken] exI [of _ 0]) auto
  next
    case 4
    then have r: "m' = m1" "xs = acc @ take cnt ?slots"
      using less.prems(1) call by (auto simp: take_batches.simps [of _ _ drained] Let_def split: if_splits)
    note f = batch_fails [OF call 4(2,3)]
    have "set (take cnt slots) \<subseteq> {zero}" if "cursor = None"
      using less.prems(2) [OF that] by (auto dest: in_set_takeD)
    then have "take cnt slots = replicate (length (take cnt slots)) zero" if "cursor = None"
      using that by (intro replicate_eqI) auto
    then have "mset (take cnt slots) = replicate_mset (length (take cnt slots)) zero"
      using f by (cases "cursor = None") (metis mset_replicate, simp)
    then show ?thesis using r f by (intro exI [of _ "[]"] exI [of _ "length (take cnt slots)"]) simp
  qed
qed

lemma take_singly_entries:
  "take_singly first_key take_elem n m acc = (m', xs) \<Longrightarrow> \<exists>ys. mset xs = mset acc + mset ys \<and> mset m = mset ys + mset m'"
proof (induction n arbitrary: m acc)
  case (Suc n)
  show ?case
  proof (cases "first_key m")
    case None
    then show ?thesis using Suc.prems by (intro exI [of _ "[]"]) simp
  next
    case (Some k)
    obtain m1 v where t: "take_elem m k = (m1, v)" by (metis prod.exhaust)
    show ?thesis
    proof (cases v)
      case None
      then show ?thesis using Suc.IH [of m1 acc] Suc.prems Some t take_none [of m k m1] by simp
    next
      case v: (Some w)
      then obtain ys where "mset xs = mset (acc @ [(k, w)]) + mset ys" "mset m1 = mset ys + mset m'"
        using Suc.IH [of m1 "acc @ [(k, w)]"] Suc.prems Some t by auto
      then show ?thesis using take_some [of m k m1 w] t v by (intro exI [of _ "(k, w) # ys"]) simp
    qed
  qed
qed (auto intro: exI [of _ "[]"])

text \<open>Taking one element at a time empties a map that is within the limit.\<close>

lemma take_singly_complete: "length m \<le> n \<Longrightarrow> take_singly first_key take_elem n m acc = (m', xs) \<Longrightarrow> m' = []"
proof (induction n arbitrary: m acc)
  case (Suc n)
  show ?case
  proof (cases "first_key m")
    case None
    then show ?thesis using Suc.prems first_none by simp
  next
    case (Some k)
    then obtain m1 v where t: "take_elem m k = (m1, Some v)" using first_some by blast
    from take_some [OF t] have "length m = Suc (length m1)" by (metis size_add_mset size_mset)
    then show ?thesis using Suc.IH [of m1 "acc @ [(k, v)]"] Suc.prems Some t by simp
  qed
qed simp

text \<open>What a drain returns: the entries that left the map, and zeroed elements where batches are not supported.\<close>

lemma drain_aggregates_entries:
  assumes "drain_aggregates batch first_key take_elem zero m = (m', xs)"
  shows "\<exists>ys j. mset xs = mset ys + replicate_mset j zero \<and> mset m = mset ys + mset m'"
proof -
  obtain m1 ys ok where run: "take_batches batch None 0 (replicate batch_size zero) m [] = (m1, ys, ok)"
    by (metis prod_cases3)
  have "set (replicate batch_size zero) \<subseteq> {zero}" by auto
  then obtain zs j where j: "mset ys = mset zs + replicate_mset j zero" "mset m = mset zs + mset m1"
    using take_batches_entries [OF run, of zero] by auto
  show ?thesis
  proof (cases ok)
    case True
    then show ?thesis using assms run j by (auto simp: drain_aggregates_def)
  next
    case False
    then have "take_singly first_key take_elem drain_limit m1 ys = (m', xs)"
      using assms run by (simp add: drain_aggregates_def)
    from take_singly_entries [OF this] obtain us where "mset xs = mset ys + mset us" "mset m1 = mset us + mset m'" by blast
    then show ?thesis using j by (intro exI [of _ "zs @ us"] exI [of _ j]) (simp add: ac_simps)
  qed
qed

lemma drain_aggregates_weight:
  fixes f :: "'k \<times> 'v \<Rightarrow> 'a::comm_monoid_add"
  assumes "drain_aggregates batch first_key take_elem zero m = (m', xs)" "f zero = 0"
  shows "sum_list (map f xs) + sum_list (map f m') = sum_list (map f m)"
proof -
  obtain ys j where "mset xs = mset ys + replicate_mset j zero" "mset m = mset ys + mset m'"
    using drain_aggregates_entries [OF assms(1)] by blast
  then have "sum_mset (image_mset f (mset xs)) = sum_mset (image_mset f (mset ys)) + sum_mset (replicate_mset j 0)"
    "sum_mset (image_mset f (mset m)) = sum_mset (image_mset f (mset ys)) + sum_mset (image_mset f (mset m'))"
    using assms(2) by simp_all
  moreover have "sum_mset (replicate_mset j (0 :: 'a)) = 0" by (induction j) simp_all
  ultimately show ?thesis by (simp add: sum_mset_sum_list flip: mset_map)
qed

lemma drain_aggregates_subset:
  "drain_aggregates batch first_key take_elem zero m = (m', xs) \<Longrightarrow> set m' \<subseteq> set m"
  by (auto dest!: drain_aggregates_entries dest: mset_eq_setD [of _ "_ @ _", simplified])

lemma drain_aggregates_keys:
  assumes "drain_aggregates batch first_key take_elem zero m = (m', xs)" "distinct (map fst m)"
  shows "distinct (map fst m')"
proof -
  obtain ys where "mset m = mset (ys @ m')"
    using drain_aggregates_entries [OF assms(1)] by (metis mset_append)
  then have "mset (map fst m) = mset (map fst (ys @ m'))" by (metis mset_map)
  then have "distinct (map fst (ys @ m'))" using assms(2) mset_eq_imp_distinct_iff by blast
  then show ?thesis by simp
qed

end

text \<open>A hash map as an association list, drained from its front; \<open>z\<close> is the cursor it answers with.\<close>

definition alist_batch :: "'c \<Rightarrow> ('k \<times> 'v) list \<Rightarrow> 'c option \<Rightarrow> nat \<Rightarrow> ('k \<times> 'v) list \<times> int \<times> nat \<times> ('k \<times> 'v) list \<times> 'c" where
  "alist_batch z m c n = (drop n m, (if length m \<le> n then ENOENT else 0), min n (length m), take n m, z)"

definition alist_first :: "('k \<times> 'v) list \<Rightarrow> 'k option" where
  "alist_first m = (case m of [] \<Rightarrow> None | e # _ \<Rightarrow> Some (fst e))"

fun alist_take :: "('k \<times> 'v) list \<Rightarrow> 'k \<Rightarrow> ('k \<times> 'v) list \<times> 'v option" where
  "alist_take [] k = ([], None)"
| "alist_take ((l, v) # m) k = (if l = k then (m, Some v) else case alist_take m k of (m', x) \<Rightarrow> ((l, v) # m', x))"

lemma alist_take_some: "alist_take m k = (m', Some v) \<Longrightarrow> mset m = add_mset (k, v) (mset m')"
  by (induction m k arbitrary: m' rule: alist_take.induct) (auto split: if_splits prod.splits)

lemma alist_take_none: "alist_take m k = (m', None) \<Longrightarrow> m' = m"
  by (induction m k arbitrary: m' rule: alist_take.induct) (auto split: if_splits prod.splits)

lemma alist_first_some: "alist_first m = Some k \<Longrightarrow> \<exists>m' v. alist_take m k = (m', Some v)"
  by (cases m) (auto simp: alist_first_def)

lemma alist_batch_takes:
  "alist_batch z m c n = (m', err, cnt, taken, c') \<Longrightarrow> cnt = length taken \<and> cnt \<le> n \<and> mset m = mset taken + mset m'"
  by (auto simp: alist_batch_def simp flip: mset_append)

lemma alist_batch_error: "alist_batch z m c n = (m', err, cnt, taken, c') \<Longrightarrow> err = 0 \<or> err = ENOENT"
  by (auto simp: alist_batch_def)

interpretation front: aggregate_map "alist_batch z" alist_first alist_take for z
  by unfold_locales (auto simp: alist_first_def split: list.splits
    dest: alist_batch_takes alist_batch_error alist_take_some alist_take_none alist_first_some [unfolded alist_first_def])

end
