(* ===== verification/Bpf_Accounting.thy ===== *)
theory Bpf_Accounting
  imports Bpf_Program Bpf_Aggregates
begin

text \<open>
  The BPF program and its reader together: every handoff the program counts is in the aggregate map
  or has been drained, and every lifecycle event it counts is in the ring.
\<close>

section \<open>Runs\<close>

text \<open>
  The program as loaded, with the target process the launcher enters, and its runs: hooks in any
  order, evictions from the LRU maps, and drains of the aggregate maps by the reader.
\<close>

definition new_program :: "uint32 \<Rightarrow> target \<Rightarrow> bpf_program" where
  "new_program tgid t =
     \<lparr>pids = [(tgid, t)], events = [], health = Some zero_counters, rename_throttle = [], pending_pthreads = [],
      waiters = [], futex_aggregates = [], vfs_aggregates = [], resources = [], pending_affinities = []\<rparr>"

inductive hook_step :: "bpf_program \<Rightarrow> bpf_program \<Rightarrow> bool" where
  fork: "hook_step s (on_fork h child s)"
| exec: "hook_step s (on_exec h task s)"
| exit: "hook_step s (on_exit h task s)"
| rename: "hook_step s (on_rename h task name s)"
| create: "hook_step s (on_pthread_create h routine s)"
| created: "hook_step s (on_pthread_create_return h s)"
| setaffinity: "hook_step s (on_sched_setaffinity_enter h pid len user s)"
| setaffinity_done: "hook_step s (on_sched_setaffinity_exit h ret s)"
| futex: "hook_step s (on_futex h address op s)"
| fd: "hook_step s (account_fd h inode_of arg s)"

inductive observed :: "uint32 \<Rightarrow> target \<Rightarrow> bpf_program \<Rightarrow> reader \<Rightarrow> bool" for tgid t where
  start: "rd_stats r = zero_stats\<lparr>capacity_bytes := c\<rparr> \<Longrightarrow> observed tgid t (new_program tgid t) r"
| hook: "observed tgid t s r \<Longrightarrow> hook_step s s' \<Longrightarrow> observed tgid t s' r"
| evict: "observed tgid t s r \<Longrightarrow> set ws \<subseteq> set (waiters s) \<Longrightarrow> set rs \<subseteq> set (resources s) \<Longrightarrow>
    set ts \<subseteq> set (rename_throttle s) \<Longrightarrow> observed tgid t (s\<lparr>waiters := ws, resources := rs, rename_throttle := ts\<rparr>) r"
| drain_futex: "observed tgid t s r \<Longrightarrow> aggregate_map (batch :: _ \<Rightarrow> futex_key option \<Rightarrow> _) first_key take_elem \<Longrightarrow>
    drain_futex_aggregates batch first_key take_elem (futex_aggregates s) r = (m, evs, r') \<Longrightarrow>
    observed tgid t (s\<lparr>futex_aggregates := m\<rparr>) r'"
| drain_vfs: "observed tgid t s r \<Longrightarrow> aggregate_map (batch :: _ \<Rightarrow> vfs_key option \<Rightarrow> _) first_key take_elem \<Longrightarrow>
    drain_vfs_aggregates batch first_key take_elem (vfs_aggregates s) r = (m, evs, r') \<Longrightarrow>
    observed tgid t (s\<lparr>vfs_aggregates := m\<rparr>) r'"

section \<open>Counters\<close>

definition futex_pending :: "bpf_program \<Rightarrow> uint64" where
  "futex_pending s = sum_list (map (\<lambda>x. fv_count (snd x)) (futex_aggregates s))"

definition vfs_pending :: "bpf_program \<Rightarrow> uint64" where
  "vfs_pending s = sum_list (map (\<lambda>x. vv_count (snd x)) (vfs_aggregates s))"

definition events_of :: "nat \<Rightarrow> bpf_program \<Rightarrow> uint64" where
  "events_of k s = of_nat (length (filter (\<lambda>e. unat (ev_kind e) = k) (events s)))"

definition counted :: "uint64 \<Rightarrow> uint64 \<Rightarrow> bpf_program \<Rightarrow> bool" where
  "counted fh vh s \<longleftrightarrow>
     distinct (map fst (futex_aggregates s)) \<and> distinct (map fst (vfs_aggregates s)) \<and>
     (\<exists>c. health s = Some c \<and> length (emitted_by_kind c) = KIND_COUNT \<and> length (dropped_by_kind c) = KIND_COUNT \<and>
       emitted c = sum_list (emitted_by_kind c) \<and> dropped c = sum_list (dropped_by_kind c) \<and>
       emitted_by_kind c ! 3 = futex_pending s + fh \<and> emitted_by_kind c ! 4 = vfs_pending s + vh \<and>
       (\<forall>k < KIND_COUNT. k \<noteq> 3 \<longrightarrow> k \<noteq> 4 \<longrightarrow> emitted_by_kind c ! k = events_of k s))"

lemma sum_list_add_at:
  fixes xs :: "'a::comm_monoid_add list"
  shows "i < length xs \<Longrightarrow> sum_list (xs[i := xs ! i + d]) = sum_list xs + d"
  by (induction xs arbitrary: i) (auto simp: ac_simps nth_Cons split: nat.splits)

lemma sum_list_bump:
  "unat kind < KIND_COUNT \<Longrightarrow> length xs = KIND_COUNT \<Longrightarrow> sum_list (bump kind xs) = sum_list xs + 1"
  by (simp add: bump_def sum_list_add_at)

lemma bump_nth:
  "unat kind < KIND_COUNT \<Longrightarrow> length xs = KIND_COUNT \<Longrightarrow> k < KIND_COUNT \<Longrightarrow>
   bump kind xs ! k = xs ! k + (if k = unat kind then 1 else 0)"
  by (simp add: bump_def nth_list_update)

lemma length_bump [simp]: "length (bump kind xs) = length xs"
  by (simp add: bump_def)

lemmas bump_facts = sum_list_bump [unfolded KIND_COUNT_def] bump_nth [unfolded KIND_COUNT_def]

lemmas counted_defs = counted_def KIND_COUNT_def futex_pending_def vfs_pending_def events_of_def

lemma counted_emit:
  assumes "counted fh vh s" "unat (ev_kind e) < KIND_COUNT" "ev_kind e \<noteq> FUTEX" "ev_kind e \<noteq> VFS"
  shows "counted fh vh (emit_event h e s)"
proof -
  have "unat (ev_kind e) \<noteq> 3" "unat (ev_kind e) \<noteq> 4" using assms(3,4) by (auto simp: word_unat_eq_iff)
  then show ?thesis
    using assms
    by (auto simp: counted_defs emit_event_def account_emit_def bump_facts Let_def)
qed

lemma sum_list_alist_update:
  fixes f :: "'k \<times> 'v \<Rightarrow> 'a::ab_group_add"
  assumes "distinct (map fst m)"
  shows "sum_list (map f (AList.update k v m)) =
    sum_list (map f m) + f (k, v) - (case map_of m k of None \<Rightarrow> 0 | Some u \<Rightarrow> f (k, u))"
  using assms by (induction m) (auto simp: algebra_simps split: option.splits dest: map_of_SomeD)

lemma counted_futex:
  assumes "counted fh vh s"
  shows "counted fh vh (count_futex h k s)"
  using assms
  by (auto simp: counted_defs count_futex_def account_emit_def store_def bump_facts sum_list_alist_update distinct_update
      split: option.splits)

lemma counted_vfs:
  assumes "counted fh vh s"
  shows "counted fh vh (count_vfs h k elapsed s)"
  using assms
  by (auto simp: counted_defs count_vfs_def account_emit_def store_def bump_facts sum_list_alist_update distinct_update
      split: option.splits)

lemma counted_frame [simp]:
  "counted fh vh (s\<lparr>pids := a\<rparr>) = counted fh vh s" "counted fh vh (s\<lparr>rename_throttle := b\<rparr>) = counted fh vh s"
  "counted fh vh (s\<lparr>pending_pthreads := c\<rparr>) = counted fh vh s" "counted fh vh (s\<lparr>waiters := d\<rparr>) = counted fh vh s"
  "counted fh vh (s\<lparr>resources := e\<rparr>) = counted fh vh s" "counted fh vh (s\<lparr>pending_affinities := f\<rparr>) = counted fh vh s"
  by (simp_all add: counted_defs)

lemma counted_suppressed [simp]: "counted fh vh (account_suppressed k s) = counted fh vh s"
  by (auto simp: counted_defs account_suppressed_def split: option.splits)

lemma counted_lifecycle [intro]:
  assumes "counted fh vh s" "ev_kind e \<in> {TASK_FORK, TASK_EXIT, TASK_EXEC, TASK_RENAME, AFFINITY}"
  shows "counted fh vh (emit_event h e s)"
  by (rule counted_emit [OF assms(1)]) (use assms(2) in \<open>auto simp: KIND_COUNT_def\<close>)

lemma counted_hook: "hook_step s s' \<Longrightarrow> counted fh vh s \<Longrightarrow> counted fh vh s'"
proof (induction rule: hook_step.induct)
  case (fork s h child)
  then show ?case by (auto simp: on_fork_def Let_def split: option.splits)
next
  case (exec s h task)
  then show ?case by (auto simp: on_exec_def Let_def split: option.splits)
next
  case (exit s h task)
  then show ?case by (auto simp: on_exit_def)
next
  case (rename s h task name)
  then show ?case by (auto simp: on_rename_def Let_def split: option.splits)
next
  case (create s h routine)
  then show ?case by (simp add: on_pthread_create_def)
next
  case (created s h)
  then show ?case by (simp add: on_pthread_create_return_def)
next
  case (setaffinity s h pid len user)
  then show ?case by (simp add: on_sched_setaffinity_enter_def Let_def)
next
  case (setaffinity_done s h ret)
  then show ?case by (auto simp: on_sched_setaffinity_exit_def Let_def split: option.splits)
next
  case (futex s h address op)
  then show ?case by (auto simp: on_futex_def Let_def counted_futex split: option.splits)
next
  case (fd s h inode_of arg)
  then show ?case by (auto simp: account_fd_def Let_def counted_vfs split: option.splits)
qed

lemma counted_drain_futex:
  assumes "counted (futex_handoffs (rd_stats r)) vh s" "aggregate_map batch first_key take_elem"
    "drain_futex_aggregates batch first_key take_elem (futex_aggregates s) r = (m, evs, r')"
  shows "counted (futex_handoffs (rd_stats r')) vh (s\<lparr>futex_aggregates := m\<rparr>) \<and> vfs_handoffs (rd_stats r') = vfs_handoffs (rd_stats r)"
proof (cases "rd_futex_fd r < 0")
  case True
  then show ?thesis using assms by (auto simp: drain_futex_aggregates_def)
next
  case False
  obtain m1 xs where d: "drain_aggregates batch first_key take_elem zero_futex (futex_aggregates s) = (m1, xs)"
    by (metis prod.exhaust)
  note agg = aggregate_map.drain_aggregates_weight [OF assms(2) d, of "\<lambda>x. fv_count (snd x)"]
    aggregate_map.drain_aggregates_keys [OF assms(2) d]
  show ?thesis using False assms(1,3) d agg
    by (auto simp: drain_futex_aggregates_def counted_defs zero_futex_def algebra_simps)
qed

lemma counted_drain_vfs:
  assumes "counted fh (vfs_handoffs (rd_stats r)) s" "aggregate_map batch first_key take_elem"
    "drain_vfs_aggregates batch first_key take_elem (vfs_aggregates s) r = (m, evs, r')"
  shows "counted fh (vfs_handoffs (rd_stats r')) (s\<lparr>vfs_aggregates := m\<rparr>) \<and> futex_handoffs (rd_stats r') = futex_handoffs (rd_stats r)"
proof (cases "rd_vfs_fd r < 0")
  case True
  then show ?thesis using assms by (auto simp: drain_vfs_aggregates_def)
next
  case False
  obtain m1 xs where d: "drain_aggregates batch first_key take_elem zero_vfs (vfs_aggregates s) = (m1, xs)"
    by (metis prod.exhaust)
  note agg = aggregate_map.drain_aggregates_weight [OF assms(2) d, of "\<lambda>x. vv_count (snd x)"]
    aggregate_map.drain_aggregates_keys [OF assms(2) d]
  show ?thesis using False assms(1,3) d agg
    by (auto simp: drain_vfs_aggregates_def counted_defs zero_vfs_def algebra_simps)
qed

lemma counted_start: "counted 0 0 (new_program tgid t)"
  by (auto simp: counted_defs new_program_def zero_counters_def less_Suc_eq numeral_eq_Suc)

lemma observed_counted:
  "observed tgid t s r \<Longrightarrow> counted (futex_handoffs (rd_stats r)) (vfs_handoffs (rd_stats r)) s"
proof (induction rule: observed.induct)
  case (start r c)
  then show ?case using counted_start by (simp add: zero_stats_def)
qed (auto simp: counted_hook dest: counted_drain_futex counted_drain_vfs)

text \<open>
  C31. The health counters are exact across the kernel and the supervisor: in every run the counter
  of emitted futex handoffs is what the aggregate map holds plus what the reader has drained, and
  likewise for file handoffs; for every other kind it is the number of events the ring accepted;
  and the totals are the sums over the kinds (all of this modulo the width of the counters).
\<close>

theorem handoffs_accounted:
  assumes "observed tgid t s r"
  shows "\<exists>c. health s = Some c \<and> emitted c = sum_list (emitted_by_kind c) \<and> dropped c = sum_list (dropped_by_kind c) \<and>
    emitted_by_kind c ! unat FUTEX = futex_pending s + futex_handoffs (rd_stats r) \<and>
    emitted_by_kind c ! unat VFS = vfs_pending s + vfs_handoffs (rd_stats r) \<and>
    (\<forall>k \<in> {TASK_FORK, TASK_EXIT, TASK_EXEC, TASK_RENAME, AFFINITY}. emitted_by_kind c ! unat k = events_of (unat k) s)"
  using observed_counted [OF assms] by (auto simp: counted_def KIND_COUNT_def)

section \<open>A sample run\<close>

text \<open>Thread 2 of the target process 1 waits on a futex, and its thread 3 wakes it.\<close>

definition sample_target :: target where
  "sample_target = \<lparr>tg_root_tgid = 1, tg_start_time_ns = 0\<rparr>"

definition sample_hook :: "uint64 \<Rightarrow> hook" where
  "sample_hook tid =
     \<lparr>hk_current = 4294967296 + tid,
      hk_task = \<lparr>ti_tgid = 1, ti_tid = ucast tid, ti_start_boottime = 10, ti_leader_start = None, ti_comm = []\<rparr>,
      hk_now = 5, hk_emit_ns = 5, hk_ring = 0, hk_update = 0, hk_store = 0\<rparr>"

definition sample_handoff :: bpf_program where
  "sample_handoff = on_futex (sample_hook 3) 64 1 (on_futex (sample_hook 2) 64 0 (new_program 1 sample_target))"

definition idle_reader :: reader where
  "idle_reader = \<lparr>rd_health_fd = 3, rd_futex_fd = 4, rd_vfs_fd = 5, rd_capacity = 512, rd_stats = zero_stats\<lparr>capacity_bytes := 512\<rparr>\<rparr>"

lemma sample_observed: "observed 1 sample_target sample_handoff idle_reader"
  unfolding sample_handoff_def
  by (rule observed.hook [OF observed.hook [OF observed.start hook_step.futex] hook_step.futex]) (simp add: idle_reader_def)

lemma sample_handoff_values:
  "futex_aggregates sample_handoff = [(\<lparr>fk_tgid = 1, fk_tid = 3, fk_peer_tid = 2, fk_start_time_ns = 10, fk_peer_start_time_ns = 10\<rparr>,
     \<lparr>fv_count = 1, fv_last_timestamp_ns = 5\<rparr>)]"
  "pids sample_handoff = [(1, sample_target)]"
  by code_simp+

theorem handoffs_accounted_witness:
  "\<exists>c. health sample_handoff = Some c \<and> emitted_by_kind c ! unat FUTEX = 1"
  using handoffs_accounted [OF sample_observed] sample_handoff_values(1)
  by (auto simp: futex_pending_def idle_reader_def zero_stats_def)

end
