(* ===== verification/Bpf_Tracking.thy ===== *)
theory Bpf_Tracking
  imports Bpf_Accounting
begin

text \<open>
  Which processes the BPF program reports on: the target and its descendants, as far as they fit into
  the table of tracked processes.
\<close>

section \<open>The tree of the target\<close>

definition known_process :: "bpf_program \<Rightarrow> uint32 \<Rightarrow> bool" where
  "known_process s g \<longleftrightarrow> map_of (pids s) g \<noteq> None"

definition reporter :: "bpf_event \<Rightarrow> uint32" where
  "reporter e = (if ev_kind e = TASK_FORK then ev_parent_tgid e else ev_tgid e)"

definition in_tree :: "uint32 \<Rightarrow> bpf_program \<Rightarrow> bool" where
  "in_tree r s \<longleftrightarrow>
     (\<forall>g t. map_of (pids s) g = Some t \<longrightarrow> tg_root_tgid t = r) \<and>
     (\<forall>e \<in> set (events s). known_process s (reporter e)) \<and>
     (\<forall>x \<in> set (pending_affinities s). known_process s (th_tgid (fst x))) \<and>
     (\<forall>x \<in> set (futex_aggregates s). known_process s (fk_tgid (fst x))) \<and>
     (\<forall>x \<in> set (vfs_aggregates s). known_process s (vk_tgid (fst x)))"

lemma set_alist_update: "x \<in> set (AList.update k v m) \<Longrightarrow> x = (k, v) \<or> x \<in> set m"
  by (induction m) (auto split: if_splits)

lemma set_alist_delete: "x \<in> set (AList.delete k m) \<Longrightarrow> x \<in> set m"
  by (auto simp: AList.delete_eq)

lemma set_store: "x \<in> set (store rc k v m) \<Longrightarrow> x = (k, v) \<or> x \<in> set m"
  by (auto simp: store_def dest: set_alist_update split: if_splits)

lemma map_of_store: "map_of (store rc k v m) = (if rc = 0 then (map_of m)(k \<mapsto> v) else map_of m)"
  by (simp add: store_def update_conv')

lemma tracked_known: "tracked_task g task s \<Longrightarrow> known_process s g"
  by (auto simp: tracked_task_def known_process_def split: option.splits)

lemma account_frame [simp]:
  "pids (account_emit k rc s) = pids s" "events (account_emit k rc s) = events s"
  "pending_affinities (account_emit k rc s) = pending_affinities s"
  "futex_aggregates (account_emit k rc s) = futex_aggregates s" "vfs_aggregates (account_emit k rc s) = vfs_aggregates s"
  by (simp_all add: account_emit_def split: option.splits)

lemma in_tree_emit [intro]:
  "in_tree r s \<Longrightarrow> known_process s (reporter e) \<Longrightarrow> in_tree r (emit_event h e s)"
  by (auto simp: in_tree_def emit_event_def known_process_def reporter_def Let_def)

lemma in_tree_frame [simp]:
  "in_tree r (s\<lparr>rename_throttle := b\<rparr>) = in_tree r s" "in_tree r (s\<lparr>pending_pthreads := c\<rparr>) = in_tree r s"
  "in_tree r (s\<lparr>waiters := d\<rparr>) = in_tree r s" "in_tree r (s\<lparr>resources := e\<rparr>) = in_tree r s"
  "in_tree r (account_suppressed k s) = in_tree r s"
  by (auto simp: in_tree_def known_process_def account_suppressed_def split: option.splits)

lemma known_frame [simp]:
  "known_process (s\<lparr>rename_throttle := b\<rparr>) = known_process s" "known_process (s\<lparr>pending_pthreads := c\<rparr>) = known_process s"
  by (simp_all add: known_process_def fun_eq_iff)

lemma in_tree_pids:
  "in_tree r s \<Longrightarrow> tg_root_tgid t = r \<Longrightarrow> in_tree r (s\<lparr>pids := store rc g t (pids s)\<rparr>)"
  by (auto simp: in_tree_def known_process_def map_of_store split: if_splits)

lemma known_store: "known_process s g \<Longrightarrow> known_process (s\<lparr>pids := store rc k t (pids s)\<rparr>) g"
  by (auto simp: known_process_def map_of_store)

lemma in_tree_futex:
  "in_tree r s \<Longrightarrow> known_process s (fk_tgid k) \<Longrightarrow> in_tree r (count_futex h k s)"
  by (auto simp: in_tree_def count_futex_def known_process_def dest!: set_alist_update set_store split: option.splits)

lemma in_tree_vfs:
  "in_tree r s \<Longrightarrow> known_process s (vk_tgid k) \<Longrightarrow> in_tree r (count_vfs h k el s)"
  by (auto simp: in_tree_def count_vfs_def known_process_def dest!: set_alist_update set_store split: option.splits)

lemma in_tree_affinity:
  "in_tree r s \<Longrightarrow> known_process s (th_tgid k) \<Longrightarrow> in_tree r (s\<lparr>pending_affinities := store rc k v (pending_affinities s)\<rparr>)"
  "in_tree r s \<Longrightarrow> in_tree r (s\<lparr>pending_affinities := AList.delete k (pending_affinities s)\<rparr>)"
  by (auto simp: in_tree_def known_process_def dest!: set_store set_alist_delete)

lemma in_tree_pending: "in_tree r s \<Longrightarrow> map_of (pending_affinities s) k = Some p \<Longrightarrow> known_process s (th_tgid k)"
  by (auto simp: in_tree_def dest!: map_of_SomeD)

lemma in_tree_root: "in_tree r s \<Longrightarrow> map_of (pids s) g = Some t \<Longrightarrow> tg_root_tgid t = r"
  by (simp add: in_tree_def)

lemma in_tree_track:
  assumes "in_tree r s" "known_process s (reporter e)" "tg_root_tgid t = r"
  shows "in_tree r (emit_event h e (s\<lparr>pids := store rc g t (pids s)\<rparr>))"
  using assms by (intro in_tree_emit in_tree_pids known_store)

lemma in_tree_fork:
  assumes "in_tree r s"
  shows "in_tree r (on_fork h child s)"
proof (cases "current_tracked (current_tgid h) h s")
  case True
  then obtain p where p: "map_of (pids s) (current_tgid h) = Some p" and k: "known_process s (current_tgid h)"
    by (auto simp: current_tracked_def known_process_def dest!: tracked_known)
  show ?thesis
  proof (cases "ti_tgid child = current_tgid h")
    case same: True
    then show ?thesis using True assms k by (auto simp: on_fork_def reporter_def Let_def split: option.splits)
  next
    case False
    have "in_tree r (s\<lparr>rename_throttle := AList.delete \<lparr>th_tgid = ti_tgid child, th_tid = ti_tid child\<rparr> (rename_throttle s)\<rparr>)"
      using assms by simp
    from in_tree_track [OF this] show ?thesis
      using True False p k in_tree_root [OF assms p] by (simp add: on_fork_def reporter_def Let_def)
  qed
qed (simp add: on_fork_def assms)

lemma in_tree_exec: "in_tree r s \<Longrightarrow> in_tree r (on_exec h task s)"
  by (auto simp: on_exec_def Let_def reporter_def in_tree_root intro!: in_tree_track dest!: tracked_known split: option.splits)

lemma in_tree_hook: "hook_step s s' \<Longrightarrow> in_tree r s \<Longrightarrow> in_tree r s'"
proof (induction rule: hook_step.induct)
  case (exit s h task)
  then show ?case by (auto simp: on_exit_def reporter_def dest!: tracked_known)
next
  case (rename s h task name)
  then show ?case by (auto simp: on_rename_def reporter_def Let_def dest!: tracked_known split: option.splits)
next
  case (setaffinity s h pid len user)
  then show ?case
    by (auto simp: on_sched_setaffinity_enter_def current_tracked_def Let_def intro!: in_tree_affinity dest!: tracked_known)
next
  case (setaffinity_done s h ret)
  then show ?case
    by (auto simp: on_sched_setaffinity_exit_def reporter_def Let_def intro!: in_tree_affinity in_tree_emit
        dest: in_tree_pending split: option.splits)
next
  case (futex s h address op)
  then show ?case
    by (auto simp: on_futex_def current_tracked_def Let_def intro!: in_tree_futex dest!: tracked_known split: option.splits)
next
  case (fd s h inode_of arg)
  then show ?case
    by (auto simp: account_fd_def current_tracked_def Let_def intro!: in_tree_vfs dest!: tracked_known split: option.splits)
qed (simp_all add: in_tree_fork in_tree_exec on_pthread_create_def on_pthread_create_return_def)

lemma in_tree_fewer:
  "in_tree r s \<Longrightarrow> set m \<subseteq> set (futex_aggregates s) \<Longrightarrow> in_tree r (s\<lparr>futex_aggregates := m\<rparr>)"
  "in_tree r s \<Longrightarrow> set n \<subseteq> set (vfs_aggregates s) \<Longrightarrow> in_tree r (s\<lparr>vfs_aggregates := n\<rparr>)"
  by (auto simp: in_tree_def known_process_def)

lemma drain_futex_subset:
  assumes "aggregate_map batch first_key take_elem" "drain_futex_aggregates batch first_key take_elem m r = (m', evs, r')"
  shows "set m' \<subseteq> set m"
  using assms aggregate_map.drain_aggregates_subset [OF assms(1)]
  by (fastforce simp: drain_futex_aggregates_def split: if_splits prod.splits)

lemma drain_vfs_subset:
  assumes "aggregate_map batch first_key take_elem" "drain_vfs_aggregates batch first_key take_elem m r = (m', evs, r')"
  shows "set m' \<subseteq> set m"
  using assms aggregate_map.drain_aggregates_subset [OF assms(1)]
  by (fastforce simp: drain_vfs_aggregates_def split: if_splits prod.splits)

lemma observed_in_tree: "observed tgid t s r \<Longrightarrow> in_tree (tg_root_tgid t) s"
proof (induction rule: observed.induct)
  case (start r c)
  then show ?case by (simp add: in_tree_def new_program_def)
qed (auto simp: in_tree_hook intro!: in_tree_fewer dest: drain_futex_subset drain_vfs_subset)


section \<open>A process that is not tracked\<close>

lemma hooks_ignore_unknown:
  assumes "\<not> known_process s (current_tgid h)"
  shows "on_fork h child s = s" "on_futex h address op s = s" "account_fd h inode_of arg s = s"
    "on_sched_setaffinity_enter h pid len user s = s" "on_pthread_create h routine s = s"
  using assms tracked_known
  by (auto simp: on_fork_def on_futex_def account_fd_def on_sched_setaffinity_enter_def on_pthread_create_def
      current_tracked_def Let_def)


section \<open>Witnesses\<close>



end
