(* ===== verification/Collector.thy ===== *)
theory Collector
  imports Core_Types Cpu_List
begin

text \<open>
  The process collector, \<^verbatim>\<open>src/collector.cpp\<close>: samples of the threads of a process and its pages per
  node, read from \<^verbatim>\<open>/proc\<close>. The files of a task directory are the record \<open>task_files\<close>, with the clock
  at the time of the sample; a file that cannot be opened is empty. A directory that cannot be
  listed has no entries.
\<close>

section \<open>Reading numbers and words\<close>

definition u64_limit :: int where "u64_limit = 18446744073709551616"

text \<open>\<^verbatim>\<open>std::stoull\<close>: as \<^verbatim>\<open>std::stoi\<close>, with the range of 64 bits; a minus sign negates modulo that range.\<close>

definition stoull :: "string \<Rightarrow> uint64 result" where
  "stoull s =
     (let t = dropWhile isspace s;
          neg = (t \<noteq> [] \<and> hd t = CHR ''-'');
          u = (if t \<noteq> [] \<and> (hd t = CHR ''-'' \<or> hd t = CHR ''+'') then tl t else t);
          ds = takeWhile isdigit u
      in if ds = [] then Inl (Invalid_Argument ''stoull'')
         else if u64_limit \<le> digits_value ds then Inl (Out_Of_Range ''stoull'')
         else Inr (if neg then - of_int (digits_value ds) else of_int (digits_value ds)))"

text \<open>
  \<^verbatim>\<open>stream >> n\<close>: nothing to read gives zero, a value out of range the largest number; in both cases
  the stream fails and what follows keeps its value.
\<close>

definition extract_u64 :: "string \<Rightarrow> uint64 \<times> string option" where
  "extract_u64 s =
     (let t = dropWhile isspace s;
          neg = (t \<noteq> [] \<and> hd t = CHR ''-'');
          u = (if t \<noteq> [] \<and> (hd t = CHR ''-'' \<or> hd t = CHR ''+'') then tl t else t);
          ds = takeWhile isdigit u; v = digits_value ds
      in if ds = [] then (0, None)
         else if u64_limit \<le> v then (- 1, None)
         else (if neg then - of_int v else of_int v, Some (drop (length ds) u)))"

definition read_schedstat :: "string \<Rightarrow> uint64 \<times> uint64" where
  "read_schedstat s =
     (case extract_u64 s of
        (a, None) \<Rightarrow> (a, 0)
      | (a, Some r) \<Rightarrow> (a, fst (extract_u64 r)))"

text \<open>\<^verbatim>\<open>while (stream >> word)\<close>.\<close>

function stream_words :: "string \<Rightarrow> string list" where
  "stream_words s =
     (let t = dropWhile isspace s in
      if t = [] then [] else takeWhile (\<lambda>c. \<not> isspace c) t # stream_words (dropWhile (\<lambda>c. \<not> isspace c) t))"
  by pat_completeness auto
termination
proof (relation "measure length", goal_cases)
  case (2 s t)
  then obtain a r where t: "t = a # r" by (meson neq_Nil_conv)
  have "\<not> isspace a" using 2 t hd_dropWhile [of isspace s] by (metis list.sel(1))
  then have "length (dropWhile (\<lambda>c. \<not> isspace c) t) < length t"
    using t by (simp add: le_imp_less_Suc length_dropWhile_le)
  moreover have "length t \<le> length s" using 2 length_dropWhile_le by simp
  ultimately show ?case by simp
qed simp

declare stream_words.simps [simp del]

text \<open>\<^verbatim>\<open>s.find(c)\<close> and \<^verbatim>\<open>s.rfind(c)\<close>.\<close>

definition find_char :: "char \<Rightarrow> string \<Rightarrow> nat option" where
  "find_char c s = (if c \<in> set s then Some (length (takeWhile (\<lambda>x. x \<noteq> c) s)) else None)"

definition rfind_char :: "char \<Rightarrow> string \<Rightarrow> nat option" where
  "rfind_char c s =
     (if c \<in> set s then Some (length s - 1 - length (takeWhile (\<lambda>x. x \<noteq> c) (rev s))) else None)"

section \<open>A thread\<close>

record task_files =
  tf_stat :: string
  tf_schedstat :: string
  tf_status :: string
  tf_cgroup :: string
  tf_now :: uint64

abbreviation lines_of :: "string \<Rightarrow> string list" where
  "lines_of s \<equiv> getline_parts (CHR 0x0A) s"

definition new_sample :: "thread_identity \<Rightarrow> thread_sample" where
  "new_sample i =
     \<lparr>ts_identity = i, timestamp_ns = 0, runtime_ns = 0, runqueue_ns = 0, voluntary_switches = 0,
      involuntary_switches = 0, recent_cpu = - 1, ts_state = CHR ''?'', comm = [], cgroups = [], allowed_cpus = [],
      parent_tid = - 1, start_routine = 0, start_symbol = []\<rparr>"

text \<open>The name between the parentheses: its length is a \<^verbatim>\<open>size_t\<close>, so an inverted pair takes the rest.\<close>

definition stat_comm :: "nat \<Rightarrow> nat \<Rightarrow> string \<Rightarrow> string" where
  "stat_comm from to line = (if from < to then take (to - from - 1) (drop (from + 1) line) else drop (from + 1) line)"

definition read_status_line :: "string \<Rightarrow> thread_sample \<Rightarrow> thread_sample result" where
  "read_status_line line x =
     (case find_char (CHR '':'') line of
        None \<Rightarrow> Inr x
      | Some colon \<Rightarrow>
          (let key = take colon line; body = drop (colon + 1) line in
           if key = ''voluntary_ctxt_switches'' then rbind (stoull body) (\<lambda>n. Inr (x\<lparr>voluntary_switches := n\<rparr>))
           else if key = ''nonvoluntary_ctxt_switches'' then rbind (stoull body) (\<lambda>n. Inr (x\<lparr>involuntary_switches := n\<rparr>))
           else if key = ''Cpus_allowed_list''
           then (case parse_cpu_list body of Inl e \<Rightarrow> Inr x | Inr m \<Rightarrow> Inr (x\<lparr>allowed_cpus := m\<rparr>))
           else Inr x))"

definition read_cgroups :: "string \<Rightarrow> string list" where
  "read_cgroups s =
     concat (map (\<lambda>line. case rfind_char (CHR '':'') line of None \<Rightarrow> [] | Some colon \<Rightarrow> [drop (colon + 1) line]) (lines_of s))"

definition sample_task :: "int \<Rightarrow> int \<Rightarrow> task_files \<Rightarrow> thread_sample option result" where
  "sample_task g t f =
     (case lines_of (tf_stat f) of
        [] \<Rightarrow> Inr None
      | line # _ \<Rightarrow>
          (case (find_char (CHR ''('') line, rfind_char (CHR '')'') line) of
             (Some from, Some to) \<Rightarrow>
               if length line \<le> to + 2 then Inr None
               else
                 (let values = stream_words (drop (to + 2) line) in
                  if length values < 37 then Inr None
                  else
                    rbind (stoull (values ! 19)) (\<lambda>start.
                    rbind (stoi (values ! 36)) (\<lambda>cpu.
                    let (run, queue) = read_schedstat (tf_schedstat f);
                        x = (new_sample (Identity g t start))\<lparr>comm := stat_comm from to line, ts_state := hd (values ! 0),
                              recent_cpu := cpu, timestamp_ns := tf_now f, runtime_ns := run, runqueue_ns := queue\<rparr>
                    in rbind (rfold read_status_line (lines_of (tf_status f)) x) (\<lambda>x'.
                       Inr (Some (x'\<lparr>cgroups := read_cgroups (tf_cgroup f)\<rparr>))))))
           | _ \<Rightarrow> Inr None))"

section \<open>A process\<close>

text \<open>\<open>entries\<close>: the names in the task directory with their files. A name that is no number is skipped.\<close>

definition sample_entry :: "int \<Rightarrow> string \<times> task_files \<Rightarrow> thread_sample list result" where
  "sample_entry g e =
     (case stoi (fst e) of
        Inl x \<Rightarrow> Inr []
      | Inr t \<Rightarrow> rbind (sample_task g t (snd e)) (\<lambda>r. Inr (case r of None \<Rightarrow> [] | Some x \<Rightarrow> [x])))"

definition sample :: "int \<Rightarrow> (string \<times> task_files) list \<Rightarrow> thread_sample list result" where
  "sample g entries =
     rbind (rmap (sample_entry g) entries) (\<lambda>xs. Inr (sort_key (\<lambda>x. tid (ts_identity x)) (concat xs)))"

definition count_token :: "string \<Rightarrow> (int, uint64) omap \<Rightarrow> (int, uint64) omap" where
  "count_token w m =
     (if length w < 4 \<or> hd w \<noteq> CHR ''N'' then m
      else case find_char (CHR ''='') w of
        None \<Rightarrow> m
      | Some eq \<Rightarrow>
          (case (stoi (take (eq - 1) (drop 1 w)), stoull (drop (eq + 1) w)) of
             (Inr node, Inr pages) \<Rightarrow> madd node pages m
           | _ \<Rightarrow> m))"

definition numa_pages :: "string \<Rightarrow> (int, uint64) omap" where
  "numa_pages s = fold count_token (concat (map stream_words (lines_of s))) []"

section \<open>What a sample says\<close>

lemma stream_words_Nil [simp]: "stream_words [] = []"
  by (simp add: stream_words.simps)

lemma stream_words_append:
  assumes "w \<noteq> []" "list_all (\<lambda>c. \<not> isspace c) w" "isspace b"
  shows "stream_words (w @ b # r) = w # stream_words r"
proof -
  have t: "dropWhile isspace (w @ b # r) = w @ b # r" using assms(1,2) by (cases w) auto
  have "takeWhile (\<lambda>c. \<not> isspace c) (w @ b # r) = w" "dropWhile (\<lambda>c. \<not> isspace c) (w @ b # r) = b # r"
    using assms(2,3) by (auto simp: list_all_iff takeWhile_append2 dropWhile_append2)
  moreover have "stream_words (b # r) = stream_words r"
    using assms(3) by (simp add: stream_words.simps [of "b # r"] stream_words.simps [of r])
  ultimately show ?thesis using t by (simp add: stream_words.simps [of "w @ b # r"])
qed

lemma stream_words_last:
  assumes "w \<noteq> []" "list_all (\<lambda>c. \<not> isspace c) w"
  shows "stream_words w = [w]"
proof -
  have "dropWhile isspace w = w" using assms by (cases w) auto
  moreover have "takeWhile (\<lambda>c. \<not> isspace c) w = w" using assms(2) by (simp add: list_all_iff)
  moreover have "dropWhile (\<lambda>c. \<not> isspace c) w = []" using assms(2) by (simp add: list_all_iff)
  then have "stream_words (dropWhile (\<lambda>c. \<not> isspace c) w) = []" by (simp only: stream_words_Nil)
  ultimately show ?thesis using assms(1) by (simp add: stream_words.simps [of w])
qed

lemma isspace_chars [simp]: "isspace (CHR '' '')" "isspace (CHR 0x0A)"
  by (simp_all add: isspace_def)

fun spaced :: "string list \<Rightarrow> string" where
  "spaced [] = []"
| "spaced [w] = w"
| "spaced (w # ws) = w @ CHR '' '' # spaced ws"

definition plain_word :: "string \<Rightarrow> bool" where
  "plain_word w \<longleftrightarrow> w \<noteq> [] \<and> list_all (\<lambda>c. \<not> isspace c \<and> c \<noteq> CHR '')'') w"

lemma plain_word_facts:
  assumes "plain_word w"
  shows "w \<noteq> []" "list_all (\<lambda>c. \<not> isspace c) w" "CHR '')'' \<notin> set w" "CHR 0x0A \<notin> set w"
proof -
  have *: "\<forall>c \<in> set w. \<not> isspace c \<and> c \<noteq> CHR '')''" using assms by (simp add: plain_word_def list_all_iff)
  show "w \<noteq> []" using assms by (simp add: plain_word_def)
  show "list_all (\<lambda>c. \<not> isspace c) w" using * by (simp add: list_all_iff)
  show "CHR '')'' \<notin> set w" using * by blast
  show "CHR 0x0A \<notin> set w" using * isspace_chars(2) by blast
qed

lemma stream_words_spaced: "list_all plain_word ws \<Longrightarrow> stream_words (spaced ws) = ws"
proof (induction ws rule: spaced.induct)
  case (2 w)
  then show ?case using stream_words_last plain_word_facts by simp
next
  case (3 w v vs)
  then have "stream_words (w @ CHR '' '' # spaced (v # vs)) = w # stream_words (spaced (v # vs))"
    using plain_word_facts [of w] by (intro stream_words_append) simp_all
  then show ?case using 3 by simp
qed simp

lemma spaced_plain: "list_all plain_word ws \<Longrightarrow> CHR '')'' \<notin> set (spaced ws) \<and> CHR 0x0A \<notin> set (spaced ws)"
  by (induction ws rule: spaced.induct) (simp_all add: plain_word_facts)

text \<open>The line the kernel writes: the thread number, the name in parentheses, then the fields.\<close>

definition stat_line :: "string \<Rightarrow> string \<Rightarrow> string list \<Rightarrow> string" where
  "stat_line n name vs = n @ '' ('' @ name @ '') '' @ spaced vs"

lemma stat_line_find:
  assumes "CHR ''('' \<notin> set n"
  shows "find_char (CHR ''('') (stat_line n name vs) = Some (length n + 1)"
proof -
  have "takeWhile (\<lambda>x. x \<noteq> CHR ''('') (n @ CHR '' '' # CHR ''('' # r) = n @ '' ''" for r
    using assms by (subst takeWhile_append2) auto
  then show ?thesis by (simp add: find_char_def stat_line_def)
qed

lemma stat_line_rfind:
  assumes "list_all plain_word vs"
  shows "rfind_char (CHR '')'') (stat_line n name vs) = Some (length n + 2 + length name)"
proof -
  have "CHR '')'' \<notin> set (rev (spaced vs))" using spaced_plain [OF assms] by simp
  then have "takeWhile (\<lambda>x. x \<noteq> CHR '')'') (rev (spaced vs) @ CHR '' '' # CHR '')'' # r) = rev (spaced vs) @ '' ''" for r
    by (subst takeWhile_append2) auto
  then show ?thesis by (simp add: rfind_char_def stat_line_def)
qed

lemma new_sample_identity: "ts_identity (new_sample i) = i"
  by (simp add: new_sample_def)

lemma read_status_line_keeps:
  assumes "read_status_line l x = Inr y"
  shows "ts_identity y = ts_identity x \<and> comm y = comm x \<and> ts_state y = ts_state x \<and> recent_cpu y = recent_cpu x"
  using assms by (auto simp: read_status_line_def Let_def rbind_def split: option.splits if_splits sum.splits)

lemma read_status_keeps:
  "rfold read_status_line ls x = Inr y \<Longrightarrow>
   ts_identity y = ts_identity x \<and> comm y = comm x \<and> ts_state y = ts_state x \<and> recent_cpu y = recent_cpu x"
proof (induction ls arbitrary: x)
  case (Cons l ls)
  then obtain z where "read_status_line l x = Inr z" "rfold read_status_line ls z = Inr y"
    by (cases "read_status_line l x") (simp_all add: rbind_def)
  then show ?case using Cons.IH read_status_line_keeps by metis
qed simp


definition sample_fields :: "string list" where
  "sample_fields = ''S'' # replicate 18 ''0'' @ ''907'' # replicate 16 ''0'' @ [''3'']"

definition sample_files :: task_files where
  "sample_files = \<lparr>tf_stat = stat_line ''42'' ''a) (b'' sample_fields, tf_schedstat = ''10 20 3'', tf_status = [],
     tf_cgroup = [], tf_now = 99\<rparr>"


end
