(* ===== verification/Domain_Replay.thy ===== *)
theory Domain_Replay
  imports Runtime_Windows Domain_Safety
begin

text \<open>
  The offline driver of the domain solver, \<^verbatim>\<open>src/affinity_domain_replay.cpp\<close>: it reads the windows of a
  runtime log, replays them through a fresh solver twice and compares the results. The JSON library
  is not part of the repository: its calls are the record \<open>json\<close>, an argument of the reader.
\<close>

section \<open>Frames and results\<close>

record replay_frame =
  rf_window_id :: string
  rf_timestamp_ns :: uint64
  rf_planned :: bool
  relation_input_complete :: bool
  rf_threads :: "thread_demand list"
  rf_edges :: "relation_edge list"
  rf_allowed_masks :: "(int, cpu_mask) omap"

definition new_frame :: "string \<Rightarrow> replay_frame" where
  "new_frame w =
     \<lparr>rf_window_id = w, rf_timestamp_ns = 0, rf_planned = False, relation_input_complete = True, rf_threads = [],
      rf_edges = [], rf_allowed_masks = []\<rparr>"

record frame_result =
  fr_window_id :: string
  fr_ready :: bool
  fr_valid :: bool
  solve_ms :: double
  fr_families :: "family_metric list"
  fr_family_pairs :: "family_pair_metric list"
  fr_domains :: "numa_domain list"

fun json_escape :: "string \<Rightarrow> string" where
  "json_escape [] = []"
| "json_escape (c # cs) =
     (if c = CHR 0x22 \<or> c = CHR 0x5C then [CHR 0x5C, c]
      else if c = CHR 0x0A then [CHR 0x5C, CHR ''n'']
      else if 32 \<le> (of_char c :: nat) then [c] else []) @ json_escape cs"

section \<open>Reading the log\<close>

text \<open>
  \<^verbatim>\<open>read_json\<close>, \<^verbatim>\<open>get<T>(path)\<close> for each type, which throws when there is no value of that type, and the
  conversions of the children of a path, if it exists. \<^verbatim>\<open>get(path, default)\<close> does not throw.
\<close>

record 'p json =
  read_json :: "string \<Rightarrow> 'p result"
  get_string :: "'p \<Rightarrow> string \<Rightarrow> string result"
  get_int :: "'p \<Rightarrow> string \<Rightarrow> int result"
  get_u64 :: "'p \<Rightarrow> string \<Rightarrow> uint64 result"
  get_double :: "'p \<Rightarrow> string \<Rightarrow> double result"
  get_bool :: "'p \<Rightarrow> string \<Rightarrow> bool result"
  get_children :: "'p \<Rightarrow> string \<Rightarrow> int result list option"

definition get_or :: "'a result \<Rightarrow> 'a \<Rightarrow> 'a" where
  "get_or x d = (case x of Inl e \<Rightarrow> d | Inr v \<Rightarrow> v)"

fun all_values :: "'a result list \<Rightarrow> 'a list result" where
  "all_values [] = Inr []"
| "all_values (x # xs) = rbind x (\<lambda>v. rbind (all_values xs) (\<lambda>vs. Inr (v # vs)))"

definition read_int_array :: "'p json \<Rightarrow> 'p \<Rightarrow> string \<Rightarrow> int list result" where
  "read_int_array j item path = (case get_children j item path of None \<Rightarrow> Inr [] | Some xs \<Rightarrow> all_values xs)"

record log_state =
  ls_hardware :: hardware_graph
  ls_frames :: "replay_frame list"
  frame_index :: "(string, nat) omap"

definition frame_for :: "string \<Rightarrow> log_state \<Rightarrow> nat \<times> log_state" where
  "frame_for w s =
     (case map_of (frame_index s) w of
        Some i \<Rightarrow> (i, s)
      | None \<Rightarrow>
          (length (ls_frames s),
           s\<lparr>frame_index := mput w (length (ls_frames s)) (frame_index s), ls_frames := ls_frames s @ [new_frame w]\<rparr>))"

definition in_frame :: "string \<Rightarrow> (replay_frame \<Rightarrow> replay_frame result) \<Rightarrow> log_state \<Rightarrow> log_state result" where
  "in_frame w f s =
     (case frame_for w s of (i, s') \<Rightarrow>
        rbind (f (ls_frames s' ! i)) (\<lambda>x. Inr (s'\<lparr>ls_frames := (ls_frames s')[i := x]\<rparr>)))"

definition read_thread :: "'p json \<Rightarrow> 'p \<Rightarrow> replay_frame \<Rightarrow> replay_frame result" where
  "read_thread j item fr =
     rbind (get_int j item ''tgid'') (\<lambda>g.
     rbind (get_int j item ''tid'') (\<lambda>t.
     rbind (get_u64 j item ''starttime'') (\<lambda>st.
     rbind (get_string j item ''group'') (\<lambda>gr.
     rbind (get_double j item ''demand'') (\<lambda>d.
     rbind (get_double j item ''confidence'') (\<lambda>cf.
     rbind (get_int j item ''current_cpu'') (\<lambda>cpu.
     rbind (read_int_array j item ''allowed_cpus'') (\<lambda>m.
     Inr (fr\<lparr>rf_threads := rf_threads fr @
              [\<lparr>td_identity = Identity g t st, group = gr, demand = d, confidence = cf, current_cpu = cpu\<rparr>],
            rf_allowed_masks := mput t m (rf_allowed_masks fr)\<rparr>)))))))))"

definition read_edge :: "'p json \<Rightarrow> 'p \<Rightarrow> replay_frame \<Rightarrow> replay_frame result" where
  "read_edge j item fr =
     rbind (get_int j item ''from_tid'') (\<lambda>a.
     rbind (get_int j item ''to_tid'') (\<lambda>b.
     rbind (get_double j item ''score'') (\<lambda>sc.
     Inr (fr\<lparr>rf_edges := rf_edges fr @
              [\<lparr>from_tid = a, to_tid = b, activity = get_or (get_double j item ''activity'') 0,
                sync = get_or (get_double j item ''sync'') 0, share = get_or (get_double j item ''share'') 0,
                stability = get_or (get_double j item ''stability'') 0, score = sc, handoff_rate = 0,
                shared_vfs_seconds = 0, active_overlap = 0, observation_count = 0, coverage = 0,
                coefficient_of_variation = 0\<rparr>]\<rparr>))))"

definition read_item :: "'p json \<Rightarrow> 'p \<Rightarrow> log_state \<Rightarrow> log_state result" where
  "read_item j item s =
     (let type = get_or (get_string j item ''type'') []; hw = ls_hardware s;
          window = (\<lambda>f. rbind (get_string j item ''window_id'') (\<lambda>w. in_frame w f s)) in
      if type = ''topology_cpu'' \<and> get_or (get_bool j item ''in_envelope'') True
      then rbind (get_int j item ''cpu'') (\<lambda>c. rbind (get_int j item ''node'') (\<lambda>n.
           Inr (s\<lparr>ls_hardware := hw\<lparr>cpus := cpus hw @
             [\<lparr>cpu_id = c, cpu_node = n, online = get_or (get_bool j item ''online'') True\<rparr>]\<rparr>\<rparr>)))
      else if type = ''topology_edge''
      then rbind (get_int j item ''from_node'') (\<lambda>a. rbind (get_int j item ''to_node'') (\<lambda>b.
           Inr (s\<lparr>ls_hardware := hw\<lparr>node_distance :=
             mput (a, b) (get_or (get_double j item ''numa_distance'') 0) (node_distance hw)\<rparr>\<rparr>)))
      else if type = ''solve_window_begin''
      then window (\<lambda>fr. rbind (get_u64 j item ''timestamp_ns'') (\<lambda>t. Inr (fr\<lparr>rf_timestamp_ns := t\<rparr>)))
      else if type = ''thread_window'' then window (read_thread j item)
      else if type = ''relation_edge_summary''
      then window (\<lambda>fr. Inr (fr\<lparr>relation_input_complete := \<not> get_or (get_bool j item ''truncated'') False\<rparr>))
      else if type = ''relation_edge'' then window (read_edge j item)
      else if type = ''plan'' \<and> get_or (get_string j item ''strategy_id'') [] = ''numa-domain-v1''
      then window (\<lambda>fr. Inr (fr\<lparr>rf_planned := True\<rparr>))
      else Inr s)"

fun what :: "exn \<Rightarrow> string" where
  "what (Runtime_Error m) = m"
| "what (Logic_Error m) = m"
| "what (Invalid_Argument m) = m"
| "what (Out_Of_Range m) = m"

definition read_line :: "'p json \<Rightarrow> nat \<times> string \<Rightarrow> log_state \<Rightarrow> log_state result" where
  "read_line j x s =
     (case x of (n, line) \<Rightarrow>
        if line = [] then Inr s
        else case read_json j line of
          Inl e \<Rightarrow> Inl (Runtime_Error (''invalid runtime JSON at line '' @ show_nat n @ '': '' @ what e))
        | Inr item \<Rightarrow> read_item j item s)"

text \<open>
  \<^verbatim>\<open>std::sort\<close> by number, then \<^verbatim>\<open>std::unique\<close>: of the records of a CPU one stays. Which one is not
  specified when they differ; here it is the first.
\<close>

fun unique_cpus :: "cpu list \<Rightarrow> cpu list" where
  "unique_cpus (a # b # r) = (if cpu_id a = cpu_id b then unique_cpus (a # r) else a # unique_cpus (b # r))"
| "unique_cpus xs = xs"

definition new_log_state :: log_state where
  "new_log_state =
     \<lparr>ls_hardware = \<lparr>cpus = [], cpu_latency = [], node_distance = [], node_calibrations = []\<rparr>, ls_frames = [], frame_index = []\<rparr>"

definition read_runtime_log ::
  "'p json \<Rightarrow> string \<Rightarrow> string option \<Rightarrow> (hardware_graph \<times> replay_frame list) result" where
  "read_runtime_log j path file =
     (case file of
        None \<Rightarrow> Inl (Runtime_Error (''cannot open runtime log: '' @ path))
      | Some text \<Rightarrow>
          rbind (rfold (read_line j) (enumerate 1 (getline_parts (CHR 0x0A) text)) new_log_state) (\<lambda>s.
          let hw = (ls_hardware s)\<lparr>cpus := unique_cpus (sort_key cpu_id (cpus (ls_hardware s)))\<rparr>;
              frames = filter rf_planned (ls_frames s)
          in if cpus hw = [] then Inl (Runtime_Error ''runtime log has no topology'')
             else if frames = [] then Inl (Runtime_Error ''runtime log has no NUMA domain plans'')
             else case List.find (\<lambda>fr. \<not> relation_input_complete fr) frames of
               Some fr \<Rightarrow> Inl (Runtime_Error (''runtime log truncates relation edges for window '' @ rf_window_id fr @
                                              ''; exact selector replay is invalid''))
             | None \<Rightarrow> Inr (hw, frames)))"

section \<open>The replay\<close>

definition domain_options :: "config \<Rightarrow> numa_domain_options" where
  "domain_options c =
     \<lparr>family_minimum_demand = cfg_family_minimum_demand c,
      family_minimum_internal_relation = cfg_family_minimum_internal_relation c,
      family_minimum_self_containment = cfg_family_minimum_self_containment c,
      family_minimum_relative_internal = cfg_family_minimum_relative_internal c,
      domain_merge_ratio = cfg_domain_merge_ratio c, family_edges_per_family = nat (cfg_family_edges_per_family c),
      family_stability_confirmations = cfg_family_stability_confirmations c,
      domain_stability_confirmations = cfg_domain_stability_confirmations c,
      plan_confirmations = cfg_domain_plan_confirmations c,
      maximum_threads_per_domain = nat (cfg_maximum_threads_per_domain c),
      capacity_ratio = cfg_domain_capacity_ratio c, expand_ratio = cfg_domain_expand_ratio c,
      opt_expand_confirmations = cfg_domain_expand_confirmations c, shrink_ratio = cfg_domain_shrink_ratio c,
      opt_shrink_confirmations = cfg_domain_shrink_confirmations c,
      minimum_dwell_ns = of_int (cfg_domain_minimum_dwell_seconds c) * 1000000000\<rparr>"

definition acts :: "numa_domain_proposal \<Rightarrow> numa_domain_solver \<Rightarrow> bool" where
  "acts p d \<longleftrightarrow>
     \<not> np_valid p \<or> ready p \<and> (np_actions p \<noteq> [] \<or> released_tids p \<noteq> [] \<or> planned_masks p \<noteq> placement d)"

text \<open>\<open>ms\<close>: the measured time of each frame.\<close>

definition replay_one ::
  "hardware_graph \<Rightarrow> numa_domain_options \<Rightarrow> double \<Rightarrow> replay_frame \<Rightarrow> numa_domain_solver \<Rightarrow>
   (numa_domain_solver \<times> frame_result) result" where
  "replay_one hw opts ms fr d =
     rbind (propose hw (rf_threads fr) (rf_edges fr) (rf_allowed_masks fr) opts (rf_timestamp_ns fr) d) (\<lambda>(d', p).
     rbind (if acts p d' then commit p (rf_timestamp_ns fr) [] d' else Inr (discard p d')) (\<lambda>d''.
     Inr (d'', \<lparr>fr_window_id = rf_window_id fr, fr_ready = ready p, fr_valid = np_valid p, solve_ms = ms,
                fr_families = np_families p, fr_family_pairs = family_pairs p, fr_domains = np_domains p\<rparr>)))"

fun replay_frames ::
  "hardware_graph \<Rightarrow> numa_domain_options \<Rightarrow> (nat \<Rightarrow> double) \<Rightarrow> replay_frame list \<Rightarrow> numa_domain_solver \<Rightarrow>
   (numa_domain_solver \<times> frame_result list) result" where
  "replay_frames hw opts ms [] d = Inr (d, [])"
| "replay_frames hw opts ms (fr # frs) d =
     rbind (replay_one hw opts (ms 0) fr d) (\<lambda>(d', x).
     rbind (replay_frames hw opts (ms \<circ> Suc) frs d') (\<lambda>(d'', xs). Inr (d'', x # xs)))"

definition replay ::
  "hardware_graph \<Rightarrow> replay_frame list \<Rightarrow> numa_domain_options \<Rightarrow> (nat \<Rightarrow> double) \<Rightarrow> frame_result list result" where
  "replay hw frs opts ms = rbind (replay_frames hw opts ms frs new_domain_solver) (\<lambda>x. Inr (snd x))"

section \<open>Comparing and reporting\<close>

definition same_family :: "family_metric \<Rightarrow> family_metric \<Rightarrow> bool" where
  "same_family a b \<longleftrightarrow>
     fm_name a = fm_name b \<and> anchor a = anchor b \<and> cohesive_anchor a = cohesive_anchor b \<and>
     cross_seed a = cross_seed b \<and> cross_pending a = cross_pending b \<and> fm_confirmation a = fm_confirmation b \<and>
     seed_confirmation a = seed_confirmation b"

definition same_pair :: "family_pair_metric \<Rightarrow> family_pair_metric \<Rightarrow> bool" where
  "same_pair a b \<longleftrightarrow>
     fp_left a = fp_left b \<and> fp_right a = fp_right b \<and> cross_relation a = cross_relation b \<and>
     merge_ratio a = merge_ratio b \<and> qualifies a = qualifies b \<and> fp_confirmation a = fp_confirmation b \<and>
     confirmed a = confirmed b"

definition same_domain :: "numa_domain \<Rightarrow> numa_domain \<Rightarrow> bool" where
  "same_domain a b \<longleftrightarrow>
     nd_id a = nd_id b \<and> families a = families b \<and> tids a = tids b \<and> target_nodes a = target_nodes b \<and>
     target_mask a = target_mask b \<and> nd_valid a = nd_valid b"

definition same_frame :: "frame_result \<Rightarrow> frame_result \<Rightarrow> bool" where
  "same_frame a b \<longleftrightarrow>
     fr_window_id a = fr_window_id b \<and> fr_ready a = fr_ready b \<and> fr_valid a = fr_valid b \<and>
     list_all2 same_family (fr_families a) (fr_families b) \<and> list_all2 same_pair (fr_family_pairs a) (fr_family_pairs b) \<and>
     list_all2 same_domain (fr_domains a) (fr_domains b)"

definition same_results :: "frame_result list \<Rightarrow> frame_result list \<Rightarrow> bool" where
  "same_results l r \<longleftrightarrow> list_all2 same_frame l r"

definition percentile :: "double list \<Rightarrow> double \<Rightarrow> double" where
  "percentile xs q = (if xs = [] then 0 else sort xs ! nat (\<lceil>q * real (length xs)\<rceil> - 1))"

definition solve_p95 :: "frame_result list \<Rightarrow> double" where
  "solve_p95 xs = percentile (map solve_ms xs) (95 / 100)"

text \<open>The command line: the paths of the log, the configuration and the output.\<close>

fun replay_args :: "string list \<Rightarrow> string \<times> string \<times> string \<Rightarrow> (string \<times> string \<times> string) option" where
  "replay_args [] (l, c, out) = (if l = [] \<or> c = [] \<or> out = [] then None else Some (l, c, out))"
| "replay_args (a # v # r) (l, c, out) =
     (if a = ''--runtime-log'' then replay_args r (v, c, out)
      else if a = ''--config'' then replay_args r (l, v, out)
      else if a = ''--output'' then replay_args r (l, c, v) else None)"
| "replay_args [a] x = None"

text \<open>
  The result that \<^verbatim>\<open>write_result\<close> prints, with its flag \<^verbatim>\<open>deterministic\<close>. \<open>load\<close> is \<^verbatim>\<open>load_config\<close>,
  \<open>files\<close> the files by name, \<open>ms\<close> and \<open>ms'\<close> the times of the two replays.
\<close>

definition replay_usage :: exn where
  "replay_usage = Runtime_Error ''usage: affinity-domain-replay --runtime-log FILE --config FILE --output FILE''"

definition domain_replay_main ::
  "'p json \<Rightarrow> (string \<Rightarrow> config result) \<Rightarrow> (string \<Rightarrow> string option) \<Rightarrow> (nat \<Rightarrow> double) \<Rightarrow> (nat \<Rightarrow> double) \<Rightarrow>
   string list \<Rightarrow> (string \<times> frame_result list \<times> bool) result" where
  "domain_replay_main j load files ms ms' argv =
     (case replay_args argv ([], [], []) of
        None \<Rightarrow> Inl replay_usage
      | Some (l, c, out) \<Rightarrow>
          rbind (load c) (\<lambda>cfg.
          rbind (read_runtime_log j l (files l)) (\<lambda>(hw, frs).
          rbind (replay hw frs (domain_options cfg) ms) (\<lambda>results.
          rbind (replay hw frs (domain_options cfg) ms') (\<lambda>repeated.
          Inr (out, results, same_results results repeated))))))"

section \<open>The replay follows the supervisor\<close>

lemma domain_options_same: "domain_options c = domain_options_of c"
  by (simp add: domain_options_def domain_options_of_def seconds_ns_def)

text \<open>A supervisor in plan mode whose BPF reader is healthy, between two windows.\<close>

definition planning :: "hardware_graph \<Rightarrow> config \<Rightarrow> 's runtime \<Rightarrow> bool" where
  "planning hw c s \<longleftrightarrow>
     rt_hardware s = hw \<and> rt_config s = c \<and> cfg_mode c = Plan \<and> has_bpf_reader s \<and> bpf_healthy s \<and>
     outstanding (rt_domain_solver s) = None"

abbreviation live_window ::
  "('s \<Rightarrow> int \<Rightarrow> cpu_mask) \<Rightarrow> ('s \<Rightarrow> int \<Rightarrow> cpu_mask \<Rightarrow> 's \<times> int option) \<Rightarrow> replay_frame \<Rightarrow> ('s runtime, unit) action" where
  "live_window get put fr \<equiv>
     solve_numa_domains get put (rf_threads fr) (rf_edges fr) (rf_allowed_masks fr) (rf_timestamp_ns fr)"

lemma discard_idle: "outstanding d = Some p \<Longrightarrow> outstanding (discard p d) = None"
  by (simp add: discard_def)

lemma commit_idle:
  assumes "outstanding d = Some p"
  obtains d' where "commit p now done' d = Inr d'" "outstanding d' = None"
  using assms commit_when [of d p now done'] commit_result(1) by (auto simp: pending_id_def)

lemma replay_one_window:
  assumes "planning hw c s"
  obtains s' x where "live_window get put fr s = (Returned (), s')"
    "replay_one hw (domain_options c) ms fr (rt_domain_solver s) = Inr (rt_domain_solver s', x)"
    "planning hw c s'" "world s' = world s" "fr_window_id x = rf_window_id fr" "solve_ms x = ms"
proof -
  note i = assms [unfolded planning_def]
  obtain d p where p: "propose hw (rf_threads fr) (rf_edges fr) (rf_allowed_masks fr) (domain_options c) (rf_timestamp_ns fr)
      (rt_domain_solver s) = Inr (d, p)"
    using propose_succeeds i by blast
  note out = propose_keeps(1) [OF p]
  obtain d' where c: "commit p (rf_timestamp_ns fr) [] d = Inr d'" "outstanding d' = None"
    by (rule commit_idle [OF out])
  have gate: "has_bpf_reader s \<and> bpf_healthy s" using i by simp
  let ?r = "snd (live_window get put fr s)"
  have "live_window get put fr s = (Returned (), ?r) \<and>
      rt_domain_solver ?r = (if acts p d then d' else discard p d) \<and>
      rt_hardware ?r = rt_hardware s \<and> rt_config ?r = rt_config s \<and> has_bpf_reader ?r = has_bpf_reader s \<and>
      bpf_healthy ?r = bpf_healthy s \<and> world ?r = world s"
    using i p c
    by (simp add: solve_numa_domains_def invalid_window_def discard_domains_def commit_domains_def domain_options_same
        acts_def bpf_healthy_def modify_def)
  then show thesis
    using that [of ?r] i p c discard_idle [OF out] by (auto simp: replay_one_def planning_def rbind_def split: if_splits)
qed

lemma replay_windows:
  assumes "planning hw c s"
  shows "\<exists>s' xs. each (live_window get put) frs s = (Returned (), s') \<and>
    replay_frames hw (domain_options c) ms frs (rt_domain_solver s) = Inr (rt_domain_solver s', xs) \<and>
    planning hw c s' \<and> world s' = world s \<and> map fr_window_id xs = map rf_window_id frs"
  using assms
proof (induction frs arbitrary: s ms)
  case Nil
  then show ?case by (simp add: give_def)
next
  case (Cons fr frs)
  obtain t x where t: "live_window get put fr s = (Returned (), t)"
    "replay_one hw (domain_options c) (ms 0) fr (rt_domain_solver s) = Inr (rt_domain_solver t, x)"
    "planning hw c t" "world t = world s" "fr_window_id x = rf_window_id fr"
    by (rule replay_one_window [OF Cons.prems, of get put fr "ms 0"])
  obtain s' xs where "each (live_window get put) frs t = (Returned (), s')"
    "replay_frames hw (domain_options c) (ms \<circ> Suc) frs (rt_domain_solver t) = Inr (rt_domain_solver s', xs)"
    "planning hw c s'" "world s' = world t" "map fr_window_id xs = map rf_window_id frs"
    using Cons.IH [OF t(3)] by blast
  then show ?case using t by (intro exI [of _ s'] exI [of _ "x # xs"]) (simp add: seq_def rbind_def)
qed


definition plan_runtime :: "'s \<Rightarrow> 's runtime" where
  "plan_runtime w = (projr (new_runtime (new_config\<lparr>cfg_mode := Plan\<rparr>) 1 True False sample_hardware None 5 w))
     \<lparr>bpf_health := \<lparr>hs_valid = True, hs_error = 0, hs_counters = zero_counters\<rparr>, bpf_window_ready := True\<rparr>"

lemma plan_runtime_fields:
  "rt_hardware (plan_runtime w) = sample_hardware" "cfg_mode (rt_config (plan_runtime w)) = Plan"
  "has_bpf_reader (plan_runtime w)" "bpf_healthy (plan_runtime w)" "rt_domain_solver (plan_runtime w) = new_domain_solver"
  "world (plan_runtime w) = w"
  by (simp_all add: plan_runtime_def new_runtime_def effective_config_def bpf_healthy_def new_config_def Let_def)

definition sample_frame :: "string \<Rightarrow> uint64 \<Rightarrow> replay_frame" where
  "sample_frame w t =
     (new_frame w)\<lparr>rf_timestamp_ns := t, rf_planned := True, rf_threads := sample_threads, rf_edges := [sample_edge 10 11 2],
       rf_allowed_masks := sample_allowed\<rparr>"


section \<open>Determinism\<close>

lemma same_frame_refl: "same_frame x (x\<lparr>solve_ms := m\<rparr>)"
  by (simp add: same_frame_def same_family_def same_pair_def same_domain_def list_all2_refl)

lemma replay_one_clock:
  "replay_one hw opts ms fr d = Inr (d', x) \<Longrightarrow> replay_one hw opts ms' fr d = Inr (d', x\<lparr>solve_ms := ms'\<rparr>)"
  by (auto simp: replay_one_def rbind_def split: sum.splits prod.splits if_splits)

lemma replay_frames_clock:
  assumes "replay_frames hw opts ms frs d = Inr (d', xs)"
  shows "\<exists>ys. replay_frames hw opts ms' frs d = Inr (d', ys) \<and> same_results xs ys"
  using assms
proof (induction frs arbitrary: d ms ms' xs)
  case Nil
  then show ?case by (simp add: same_results_def)
next
  case (Cons fr frs)
  then obtain e x zs where e: "replay_one hw opts (ms 0) fr d = Inr (e, x)"
    "replay_frames hw opts (ms \<circ> Suc) frs e = Inr (d', zs)" "xs = x # zs"
    by (auto simp: rbind_def split: sum.splits prod.splits)
  obtain ys where "replay_frames hw opts (ms' \<circ> Suc) frs e = Inr (d', ys)" "same_results zs ys"
    using Cons.IH [OF e(2)] by blast
  then show ?case
    using replay_one_clock [OF e(1), of "ms' 0"] e(3) same_frame_refl by (simp add: rbind_def same_results_def)
qed

lemma replay_total: "\<exists>d xs. replay_frames hw opts ms frs d0 = Inr (d, xs) \<and> map fr_window_id xs = map rf_window_id frs"
  if "outstanding d0 = None"
  using that
proof (induction frs arbitrary: d0 ms)
  case (Cons fr frs)
  obtain d p where p: "propose hw (rf_threads fr) (rf_edges fr) (rf_allowed_masks fr) opts (rf_timestamp_ns fr) d0 = Inr (d, p)"
    using propose_succeeds Cons.prems by blast
  note out = propose_keeps(1) [OF p]
  obtain d' where c: "commit p (rf_timestamp_ns fr) [] d = Inr d'" "outstanding d' = None"
    by (rule commit_idle [OF out])
  obtain e where e: "outstanding e = None" "(if acts p d then commit p (rf_timestamp_ns fr) [] d else Inr (discard p d)) = Inr e"
    using c discard_idle [OF out] by (cases "acts p d") auto
  obtain f xs where "replay_frames hw opts (ms \<circ> Suc) frs e = Inr (f, xs)" "map fr_window_id xs = map rf_window_id frs"
    using Cons.IH [OF e(1)] by blast
  then show ?case using p e(2) by (simp add: replay_one_def rbind_def)
qed simp

text \<open>
  With readable inputs the tool succeeds, whatever the clock says: it has one result per frame, in
  order, and reports the replay as deterministic.
\<close>

lemma replay_tool_succeeds:
  assumes "replay_args argv ([], [], []) = Some (l, c, out)" "load c = Inr cfg" "read_runtime_log j l (files l) = Inr (hw, frs)"
  shows "\<exists>xs. domain_replay_main j load files ms ms' argv = Inr (out, xs, True) \<and> map fr_window_id xs = map rf_window_id frs"
proof -
  have "outstanding new_domain_solver = None" by (simp add: new_domain_solver_def)
  then obtain d xs where xs: "replay_frames hw (domain_options cfg) ms frs new_domain_solver = Inr (d, xs)"
    "map fr_window_id xs = map rf_window_id frs"
    using replay_total by blast
  then obtain ys where "replay_frames hw (domain_options cfg) ms' frs new_domain_solver = Inr (d, ys)" "same_results xs ys"
    using replay_frames_clock by blast
  then show ?thesis using assms xs by (simp add: domain_replay_main_def replay_def rbind_def)
qed

section \<open>The report\<close>

lemma percentile_member:
  assumes "xs \<noteq> []" "0 < q" "q \<le> 1"
  shows "percentile xs q \<in> set xs"
proof -
  have "0 < q * real (length xs)" "q * real (length xs) \<le> real (length xs)" using assms by (simp_all add: mult_left_le_one_le)
  then have "1 \<le> \<lceil>q * real (length xs)\<rceil>" "\<lceil>q * real (length xs)\<rceil> \<le> int (length xs)" by linarith+
  then have "nat (\<lceil>q * real (length xs)\<rceil> - 1) < length (sort xs)"
    unfolding length_sort by (subst nat_less_iff) linarith+
  from nth_mem [OF this] show ?thesis using assms(1) by (simp add: percentile_def)
qed

text \<open>The reported time is one of the measured times, so it is never read past the end.\<close>

lemma solve_p95_measured: "xs \<noteq> [] \<Longrightarrow> solve_p95 xs \<in> set (map solve_ms xs)"
  unfolding solve_p95_def by (rule percentile_member) simp_all

text \<open>
  A JSON reader that undoes the escapes gets the string back without its control characters, of which
  only the line feed is kept.
\<close>

fun json_unescape :: "string \<Rightarrow> string" where
  "json_unescape (c # d # cs) =
     (if c = CHR 0x5C then (if d = CHR ''n'' then CHR 0x0A else d) # json_unescape cs else c # json_unescape (d # cs))"
| "json_unescape cs = cs"

lemma json_unescape_plain: "c \<noteq> CHR 0x5C \<Longrightarrow> json_unescape (c # cs) = c # json_unescape cs"
  by (cases cs) simp_all

lemma json_unescape_escape:
  "json_unescape (json_escape s) = filter (\<lambda>c. c = CHR 0x0A \<or> 32 \<le> (of_char c :: nat)) s"
  by (induction s) (auto simp: json_unescape_plain)

section \<open>What the reader accepts\<close>

text \<open>The index names each frame by its window, so a window has one frame.\<close>

definition indexed :: "log_state \<Rightarrow> bool" where
  "indexed s \<longleftrightarrow>
     (\<forall>w i. map_of (frame_index s) w = Some i \<longleftrightarrow> i < length (ls_frames s) \<and> rf_window_id (ls_frames s ! i) = w)"

lemma indexed_distinct:
  assumes "indexed s"
  shows "distinct (map rf_window_id (ls_frames s))"
proof -
  have "i = k" if "i < length (ls_frames s)" "k < length (ls_frames s)"
    "rf_window_id (ls_frames s ! i) = rf_window_id (ls_frames s ! k)" for i k
    using assms that unfolding indexed_def by (metis option.inject)
  then show ?thesis by (auto simp: distinct_conv_nth)
qed

lemma frame_for_indexed:
  assumes "indexed s" "frame_for w s = (i, s')"
  shows "indexed s'" "i < length (ls_frames s')" "rf_window_id (ls_frames s' ! i) = w"
proof -
  have "indexed s' \<and> i < length (ls_frames s') \<and> rf_window_id (ls_frames s' ! i) = w"
  proof (cases "map_of (frame_index s) w")
    case (Some k)
    then show ?thesis using assms by (auto simp: frame_for_def indexed_def)
  next
    case None
    then have i: "i = length (ls_frames s)" "s' = s\<lparr>frame_index := mput w i (frame_index s), ls_frames := ls_frames s @ [new_frame w]\<rparr>"
      using assms(2) by (auto simp: frame_for_def)
    have no: "\<not> (k < length (ls_frames s) \<and> rf_window_id (ls_frames s ! k) = w)" for k
      using assms(1) None unfolding indexed_def by (metis option.distinct(1))
    show ?thesis
      using assms(1) no unfolding i indexed_def by (auto simp: nth_append new_frame_def less_Suc_eq)
  qed
  then show "indexed s'" "i < length (ls_frames s')" "rf_window_id (ls_frames s' ! i) = w" by auto
qed

lemma in_frame_indexed:
  assumes "indexed s" "in_frame w f s = Inr s'" "\<And>x y. f x = Inr y \<Longrightarrow> rf_window_id y = rf_window_id x"
  shows "indexed s'"
proof -
  obtain i t where t: "frame_for w s = (i, t)" by fastforce
  note ft = frame_for_indexed [OF assms(1) t]
  obtain x where x: "f (ls_frames t ! i) = Inr x" "s' = t\<lparr>ls_frames := (ls_frames t)[i := x]\<rparr>"
    using assms(2) t by (auto simp: in_frame_def rbind_def split: sum.splits)
  show ?thesis using ft(1,2) assms(3) [OF x(1)] unfolding x(2) indexed_def by (auto simp: nth_list_update)
qed

lemma read_item_indexed:
  assumes "indexed s" "read_item j item s = Inr s'"
  shows "indexed s'"
proof -
  have thread: "rf_window_id y = rf_window_id x" if "read_thread j item x = Inr y" for x y
    using that by (auto simp: read_thread_def rbind_def split: sum.splits)
  have edge: "rf_window_id y = rf_window_id x" if "read_edge j item x = Inr y" for x y
    using that by (auto simp: read_edge_def rbind_def split: sum.splits)
  have window: "indexed s'" if "in_frame w f s = Inr s'" "\<forall>x y. f x = Inr y \<longrightarrow> rf_window_id y = rf_window_id x" for w f
    using in_frame_indexed [OF assms(1) that(1)] that(2) by blast
  have hardware: "indexed (s\<lparr>ls_hardware := h\<rparr>)" for h
    using assms(1) by (simp add: indexed_def)
  show ?thesis
    using assms hardware thread edge unfolding read_item_def Let_def
    by (auto simp: rbind_def split: if_splits sum.splits dest!: window split: sum.splits)
qed

lemma read_line_indexed: "indexed s \<Longrightarrow> read_line j x s = Inr s' \<Longrightarrow> indexed s'"
  by (auto simp: read_line_def read_item_indexed split: prod.splits if_splits sum.splits)

lemma unique_cpus_sorted:
  "sorted (map cpu_id xs) \<Longrightarrow> sorted_wrt (<) (map cpu_id (unique_cpus xs)) \<and> set (map cpu_id (unique_cpus xs)) = set (map cpu_id xs)"
proof (induction xs rule: unique_cpus.induct)
  case (1 a b r)
  then show ?case by (cases "cpu_id a = cpu_id b") (auto simp: order.strict_iff_order)
qed simp_all

text \<open>
  An accepted log gives a topology with at least one CPU, its CPUs in strictly ascending order, and
  at least one frame; every frame has a plan of the domain strategy and its complete relations, and
  no two frames are of the same window.
\<close>

lemma accepted_log:
  assumes "read_runtime_log j path file = Inr (hw, frs)"
  shows "cpus hw \<noteq> [] \<and> sorted_wrt (<) (map cpu_id (cpus hw)) \<and> frs \<noteq> [] \<and>
    list_all (\<lambda>fr. rf_planned fr \<and> relation_input_complete fr) frs \<and> distinct (map rf_window_id frs)"
proof -
  obtain content s where s: "rfold (read_line j) (enumerate 1 (getline_parts (CHR 0x0A) content)) new_log_state = Inr s"
    "hw = (ls_hardware s)\<lparr>cpus := unique_cpus (sort_key cpu_id (cpus (ls_hardware s)))\<rparr>" "cpus hw \<noteq> []"
    "frs = filter rf_planned (ls_frames s)" "frs \<noteq> []" "List.find (\<lambda>fr. \<not> relation_input_complete fr) frs = None"
    using assms by (auto simp: read_runtime_log_def rbind_def Let_def split: option.splits sum.splits if_splits)
  have "indexed new_log_state" by (simp add: indexed_def new_log_state_def)
  then have "indexed s" by (rule rfold_inv [OF s(1)]) (rule read_line_indexed)
  then have "distinct (map rf_window_id frs)" unfolding s(4) by (intro distinct_map_filter indexed_distinct)
  moreover have "list_all (\<lambda>fr. rf_planned fr \<and> relation_input_complete fr) frs"
    using s(4,6) by (auto simp: find_None_iff list_all_iff)
  ultimately show ?thesis using s(2,3,5) unique_cpus_sorted [of "sort_key cpu_id (cpus (ls_hardware s))"] by simp
qed

end
