(* ===== verification/Launcher_Session.thy ===== *)
theory Launcher_Session
  imports Runtime_State Collector Bpf_Reader
begin

text \<open>
  The launcher, \<^verbatim>\<open>src/affinity_run.cpp\<close>, first part: its arguments, the identity the target runs
  under, and the session with the BPF library. The kernel and the libraries are a function \<open>os\<close> from
  the calls made so far to the result of the next call (the value it returns, and \<^verbatim>\<open>errno\<close> or the
  value it stores); every call the launcher makes is recorded with its result.
\<close>

section \<open>Calls\<close>

datatype pipe_end = Start_Read | Start_Write | Exec_Read | Exec_Write

datatype os_call =
    Get_Euid
  | Get_Egid
  | Init_Groups string nat
  | Keep_Caps bool
  | Set_Gid nat
  | Set_Uid nat
  | Cap_Set "uint32 list"
  | Create_Log_Directory string
  | Chown_Log_Directory string nat nat
  | Dl_Open string
  | Open_Object string
  | Load_Object
  | Attach_Program nat
  | Map_Fd string
  | Attach_Uprobe nat string uint64 bool
  | Destroy_Link int
  | Close_Object
  | Update_Pids int int
  | Make_Pipe
  | Set_Subreaper
  | Fork
  | Set_Pgid int
  | Close_End pipe_end
  | Install_Handlers
  | Kill_Group int
  | Write_Release
  | Read_Release
  | Exec "string list"
  | Write_Exec_Error int
  | Read_Exec_Error
  | Set_Mask int cpu_mask
  | Wait int
  | Wait_Any
  | Sleep

type_synonym os_log = "(os_call \<times> int \<times> int) list"
type_synonym os = "os_log \<Rightarrow> os_call \<Rightarrow> int \<times> int"

text \<open>
  \<^verbatim>\<open>BpfSession\<close>. A program is named by its position in the object, a link by the positive number the
  library returns for it (zero or less is a null pointer or an error).
\<close>

record bpf_session =
  object_open :: bool
  pthread_entry :: "nat option"
  pthread_return :: "nat option"
  links :: "int list"
  pids_fd :: int
  events_fd :: int
  health_fd :: int
  futex_aggregates_fd :: int
  vfs_aggregates_fd :: int

definition new_session :: bpf_session where
  "new_session =
     \<lparr>object_open = False, pthread_entry = None, pthread_return = None, links = [], pids_fd = - 1, events_fd = - 1,
      health_fd = - 1, futex_aggregates_fd = - 1, vfs_aggregates_fd = - 1\<rparr>"

record launch =
  calls :: os_log
  session :: bpf_session
  child_process_group :: int

definition new_launch :: launch where
  "new_launch = \<lparr>calls = [], session = new_session, child_process_group = - 1\<rparr>"

definition call :: "os \<Rightarrow> os_call \<Rightarrow> (launch, int \<times> int) action" where
  "call os c s = (let r = os (calls s) c in (Returned r, s\<lparr>calls := calls s @ [(c, r)]\<rparr>))"

text \<open>
  What the launcher reads besides: the user database, the environment, files and their contents. The
  memory map of the target is read again at every attempt.
\<close>

record launch_env =
  le_getpwnam :: "string \<Rightarrow> (nat \<times> nat \<times> string) option"
  le_getpwuid :: "nat \<Rightarrow> string option"
  le_getenv :: "string \<Rightarrow> string option"
  le_strerror :: "int \<Rightarrow> string"
  le_affinity :: "(int \<Rightarrow> bool) option"
  le_exists :: "string \<Rightarrow> bool"
  le_symbol :: "string \<Rightarrow> bool"
  le_sections :: "string list"
  le_target_maps :: "os_log \<Rightarrow> string"
  le_symbol_address :: "string \<Rightarrow> uint64 option"
  le_self_maps :: "string \<Rightarrow> string"

section \<open>Arguments\<close>

record arguments =
  arg_action :: string
  arg_config :: string
  arg_bpf_object :: string
  arg_user :: string
  arg_thread_profile :: string
  arg_profile_output :: string
  arg_experiment_id :: string
  arg_test_id :: string
  arg_cpus :: string
  arg_command :: "string list"

definition set_option :: "string \<Rightarrow> string \<Rightarrow> arguments \<Rightarrow> arguments option" where
  "set_option a v x =
     (if a = ''--config'' then Some (x\<lparr>arg_config := v\<rparr>)
      else if a = ''--bpf-object'' then Some (x\<lparr>arg_bpf_object := v\<rparr>)
      else if a = ''--user'' then Some (x\<lparr>arg_user := v\<rparr>)
      else if a = ''--thread-profile'' then Some (x\<lparr>arg_thread_profile := v\<rparr>)
      else if a = ''--profile-output'' then Some (x\<lparr>arg_profile_output := v\<rparr>)
      else if a = ''--experiment-id'' then Some (x\<lparr>arg_experiment_id := v\<rparr>)
      else if a = ''--test-id'' then Some (x\<lparr>arg_test_id := v\<rparr>)
      else if a = ''--cpus'' then Some (x\<lparr>arg_cpus := v\<rparr>)
      else None)"

fun parse_options :: "string list \<Rightarrow> arguments \<Rightarrow> arguments result" where
  "parse_options [] x = Inr x"
| "parse_options (a # r) x =
     (if a = ''--'' then Inr (x\<lparr>arg_command := r\<rparr>)
      else case r of
        [] \<Rightarrow> Inl (Runtime_Error (''unknown or incomplete option: '' @ a))
      | v # r' \<Rightarrow>
          (case set_option a v x of
             None \<Rightarrow> Inl (Runtime_Error (''unknown or incomplete option: '' @ a))
           | Some x' \<Rightarrow> parse_options r' x'))"

definition run_usage :: exn where
  "run_usage = Runtime_Error ''usage: affinity-run preflight|run --config PATH [--cpus LIST] [--thread-profile PATH] [--profile-output PATH] [--experiment-id ID] [--test-id ID] [--bpf-object PATH] [--user USER] [-- command ...]''"

definition parse_arguments :: "string list \<Rightarrow> arguments result" where
  "parse_arguments argv =
     (case argv of
        [] \<Rightarrow> Inl run_usage
      | a # r \<Rightarrow>
          rbind (parse_options r \<lparr>arg_action = a, arg_config = [], arg_bpf_object = [], arg_user = [], arg_thread_profile = [],
                   arg_profile_output = [], arg_experiment_id = [], arg_test_id = [], arg_cpus = [], arg_command = []\<rparr>)
            (\<lambda>x. if arg_config x = [] then Inl (Runtime_Error ''--config is required'') else Inr x))"

definition current_envelope :: "launch_env \<Rightarrow> int list result" where
  "current_envelope e =
     (case le_affinity e of
        None \<Rightarrow> Inl (Runtime_Error ''sched_getaffinity failed'')
      | Some m \<Rightarrow> Inr (filter m [0..1023]))"

definition cpus_subset :: "int list \<Rightarrow> int list \<Rightarrow> bool" where
  "cpus_subset wanted available \<longleftrightarrow> list_all (\<lambda>c. c \<in> set available) wanted"

section \<open>Identity\<close>

record run_identity =
  ri_uid :: nat
  ri_gid :: nat
  ri_name :: string

text \<open>\<^verbatim>\<open>std::stoul\<close>, converted to the 32 bits of a user or group number.\<close>

definition stoul :: "string \<Rightarrow> uint64 result" where
  "stoul s = (case stoull s of Inl (Invalid_Argument _) \<Rightarrow> Inl (Invalid_Argument ''stoul'')
              | Inl _ \<Rightarrow> Inl (Out_Of_Range ''stoul'') | Inr n \<Rightarrow> Inr n)"

definition id_number :: "uint64 \<Rightarrow> nat" where
  "id_number n = unat (ucast n :: uint32)"

definition resolve_identity :: "os \<Rightarrow> launch_env \<Rightarrow> string \<Rightarrow> (launch, run_identity) action" where
  "resolve_identity os e user =
     (if user \<noteq> []
      then (case le_getpwnam e user of
              None \<Rightarrow> raise (Runtime_Error (''unknown run user: '' @ user))
            | Some (u, g, n) \<Rightarrow> give \<lparr>ri_uid = u, ri_gid = g, ri_name = n\<rparr>)
      else
        seq (call os Get_Euid) (\<lambda>(euid, _).
        if euid \<noteq> 0
        then seq (call os Get_Egid) (\<lambda>(egid, _).
             give \<lparr>ri_uid = nat euid, ri_gid = nat egid,
                   ri_name = (case le_getpwuid e (nat euid) of None \<Rightarrow> [] | Some n \<Rightarrow> n)\<rparr>)
        else case (le_getenv e ''SUDO_UID'', le_getenv e ''SUDO_GID'') of
          (Some u, Some g) \<Rightarrow>
            seq (from_result (stoul u)) (\<lambda>uid.
            seq (from_result (stoul g)) (\<lambda>gid.
            give \<lparr>ri_uid = id_number uid, ri_gid = id_number gid,
                  ri_name = (case le_getpwuid e (id_number uid) of None \<Rightarrow> [] | Some n \<Rightarrow> n)\<rparr>))
        | _ \<Rightarrow> raise (Runtime_Error ''root bootstrap requires --user outside sudo'')))"

abbreviation CAP_SYS_PTRACE :: nat where "CAP_SYS_PTRACE \<equiv> 19"
abbreviation CAP_SYS_NICE :: nat where "CAP_SYS_NICE \<equiv> 23"

text \<open>The capability words, effective and permitted alike.\<close>

definition add_capability :: "nat \<Rightarrow> uint32 list \<Rightarrow> uint32 list" where
  "add_capability c ws = ws[c div 32 := (ws ! (c div 32)) OR push_bit (c mod 32) 1]"

definition capability_words :: "bool \<Rightarrow> bool \<Rightarrow> uint32 list" where
  "capability_words sys_nice sys_ptrace =
     (let ws = (if sys_nice then add_capability CAP_SYS_NICE [0, 0] else [0, 0])
      in if sys_ptrace then add_capability CAP_SYS_PTRACE ws else ws)"

definition must :: "os \<Rightarrow> os_call \<Rightarrow> (int \<Rightarrow> exn) \<Rightarrow> (launch, unit) action" where
  "must os c err = seq (call os c) (\<lambda>(r, x). if r \<noteq> 0 then raise (err x) else give ())"

definition drop_identity ::
  "os \<Rightarrow> launch_env \<Rightarrow> run_identity \<Rightarrow> bool \<Rightarrow> bool \<Rightarrow> (launch, bool) action" where
  "drop_identity os e i sys_nice sys_ptrace =
     seq (call os Get_Euid) (\<lambda>(euid, _).
     if euid \<noteq> 0 then give False
     else
       seq (if ri_name i \<noteq> []
            then must os (Init_Groups (ri_name i) (ri_gid i)) (\<lambda>x. Runtime_Error (''initgroups failed: '' @ le_strerror e x))
            else give ()) (\<lambda>_.
       seq (if sys_nice \<or> sys_ptrace then must os (Keep_Caps True) (\<lambda>_. Runtime_Error ''cannot retain supervisor capabilities'')
            else give ()) (\<lambda>_.
       seq (must os (Set_Gid (ri_gid i)) (\<lambda>_. Runtime_Error ''failed to drop bootstrap privileges'')) (\<lambda>_.
       seq (must os (Set_Uid (ri_uid i)) (\<lambda>_. Runtime_Error ''failed to drop bootstrap privileges'')) (\<lambda>_.
       seq (if sys_nice \<or> sys_ptrace
            then seq (must os (Cap_Set (capability_words sys_nice sys_ptrace))
                        (\<lambda>_. Runtime_Error ''cannot configure supervisor capabilities'')) (\<lambda>_.
                 must os (Keep_Caps False) (\<lambda>_. Runtime_Error ''cannot configure supervisor capabilities''))
            else give ()) (\<lambda>_.
       give sys_nice))))))"

section \<open>The BPF session\<close>

definition libbpf_symbols :: "string list" where
  "libbpf_symbols =
     [''bpf_object__open_file'', ''bpf_object__load'', ''bpf_object__close'', ''bpf_object__next_program'',
      ''bpf_program__section_name'', ''bpf_program__attach'', ''bpf_program__attach_uprobe_opts'',
      ''bpf_link__destroy'', ''bpf_object__find_map_by_name'', ''bpf_map__fd'', ''libbpf_get_error'']"

text \<open>The calls return whether they succeeded, with the reason.\<close>

definition open_api :: "os \<Rightarrow> launch_env \<Rightarrow> (launch, bool \<times> string) action" where
  "open_api os e =
     seq (call os (Dl_Open ''libbpf.so.1'')) (\<lambda>(h, _).
     if h = 0 then give (False, ''libbpf.so.1 unavailable'')
     else case List.find (\<lambda>n. \<not> le_symbol e n) libbpf_symbols of
       Some n \<Rightarrow> give (False, ''libbpf is missing '' @ n)
     | None \<Rightarrow> give (True, []))"

definition in_session :: "(bpf_session \<Rightarrow> bpf_session) \<Rightarrow> (launch, unit) action" where
  "in_session f = modify (\<lambda>s. s\<lparr>session := f (session s)\<rparr>)"

definition add_link :: "int \<Rightarrow> bpf_session \<Rightarrow> bpf_session" where
  "add_link l b = b\<lparr>links := links b @ [l]\<rparr>"

fun attach_programs :: "os \<Rightarrow> (nat \<times> string) list \<Rightarrow> (launch, string option) action" where
  "attach_programs os [] = give None"
| "attach_programs os ((i, sec) # ps) =
     (if sec = ''uprobe'' then seq (in_session (\<lambda>b. b\<lparr>pthread_entry := Some i\<rparr>)) (\<lambda>_. attach_programs os ps)
      else if sec = ''uretprobe'' then seq (in_session (\<lambda>b. b\<lparr>pthread_return := Some i\<rparr>)) (\<lambda>_. attach_programs os ps)
      else
        seq (call os (Attach_Program i)) (\<lambda>(l, _).
        if l \<le> 0 then give (Some (''cannot attach BPF section '' @ sec))
        else seq (in_session (add_link l)) (\<lambda>_. attach_programs os ps)))"

definition find_maps :: "os \<Rightarrow> (launch, bool) action" where
  "find_maps os =
     seq (call os (Map_Fd ''pids'')) (\<lambda>(p, _).
     seq (call os (Map_Fd ''events'')) (\<lambda>(ev, _).
     seq (call os (Map_Fd ''health'')) (\<lambda>(h, _).
     seq (call os (Map_Fd ''futex_aggregates'')) (\<lambda>(f, _).
     seq (call os (Map_Fd ''vfs_aggregates'')) (\<lambda>(v, _).
     seq (in_session (\<lambda>b. b\<lparr>pids_fd := p, events_fd := ev, health_fd := h, futex_aggregates_fd := f, vfs_aggregates_fd := v\<rparr>)) (\<lambda>_.
     give (\<not> (p < 0 \<or> ev < 0 \<or> h < 0 \<or> f < 0 \<or> v < 0))))))))"

definition load_object :: "os \<Rightarrow> launch_env \<Rightarrow> string \<Rightarrow> (launch, bool \<times> string) action" where
  "load_object os e path =
     seq (open_api os e) (\<lambda>(ok, reason).
     if \<not> ok then give (False, reason)
     else
       seq (call os (Open_Object path)) (\<lambda>(h, _).
       if h \<le> 0 then give (False, ''cannot open BPF object'')
       else
         seq (in_session (\<lambda>b. b\<lparr>object_open := True\<rparr>)) (\<lambda>_.
         seq (call os Load_Object) (\<lambda>(r, _).
         if r \<noteq> 0 then give (False, ''cannot load BPF object'')
         else
           seq (attach_programs os (enumerate 0 (le_sections e))) (\<lambda>failed.
           case failed of
             Some why \<Rightarrow> give (False, why)
           | None \<Rightarrow>
               seq (find_maps os) (\<lambda>found.
               give (if found then (True, ''CO-RE programs loaded and attached with libbpf'')
                     else (False, ''BPF object is missing required data maps''))))))))"

definition add_target :: "os \<Rightarrow> int \<Rightarrow> (launch, bool) action" where
  "add_target os pid =
     seq (ask (\<lambda>s. pids_fd (session s))) (\<lambda>fd.
     if fd < 0 then give False else seq (call os (Update_Pids fd pid)) (\<lambda>(r, _). give (r = 0)))"

definition destroy_link :: "os \<Rightarrow> int \<Rightarrow> (launch, unit) action" where
  "destroy_link os l = seq (call os (Destroy_Link l)) (\<lambda>_. give ())"

definition reset_session :: "os \<Rightarrow> (launch, unit) action" where
  "reset_session os =
     seq (ask session) (\<lambda>b.
     seq (each (destroy_link os) (rev (links b))) (\<lambda>_.
     seq (if object_open b then seq (call os Close_Object) (\<lambda>_. give ()) else give ()) (\<lambda>_.
     in_session (\<lambda>_. new_session))))"

definition bpf_available :: "os \<Rightarrow> launch_env \<Rightarrow> string \<Rightarrow> (launch, bool \<times> string) action" where
  "bpf_available os e obj =
     (if \<not> le_exists e ''/sys/kernel/btf/vmlinux'' then give (False, ''kernel BTF is missing'')
      else if obj = [] \<or> \<not> le_exists e obj then give (False, ''compiled CO-RE object is missing'')
      else
        seq (call os Get_Euid) (\<lambda>(euid, _).
        if euid \<noteq> 0 then give (False, ''bootstrap is not root'')
        else seq (call os (Dl_Open ''libbpf.so.1'')) (\<lambda>(h, _).
             if h = 0 then give (False, ''libbpf.so.1 is missing'')
             else give (True, ''CO-RE object, kernel BTF, privilege, and libbpf available''))))"

section \<open>The pthread probe\<close>

definition ishex :: "char \<Rightarrow> bool" where
  "ishex c \<longleftrightarrow> isdigit c \<or> (let n = (of_char c :: nat) in 97 \<le> n \<and> n \<le> 102 \<or> 65 \<le> n \<and> n \<le> 70)"

definition hex_value :: "char \<Rightarrow> int" where
  "hex_value c = (let n = int (of_char c) in if isdigit c then n - 48 else if 97 \<le> n then n - 87 else n - 55)"

definition hexes_value :: "string \<Rightarrow> int" where
  "hexes_value s = foldl (\<lambda>a c. 16 * a + hex_value c) 0 s"

text \<open>\<^verbatim>\<open>std::stoull(text, nullptr, 16)\<close>, which accepts a prefix \<^verbatim>\<open>0x\<close>.\<close>

definition skip_0x :: "string \<Rightarrow> string" where
  "skip_0x s =
     (case s of
        a # b # c # r \<Rightarrow> if a = CHR ''0'' \<and> (b = CHR ''x'' \<or> b = CHR ''X'') \<and> ishex c then c # r else s
      | _ \<Rightarrow> s)"

definition stoull16 :: "string \<Rightarrow> uint64 result" where
  "stoull16 s =
     (let t = dropWhile isspace s;
          neg = (t \<noteq> [] \<and> hd t = CHR ''-'');
          u = skip_0x (if t \<noteq> [] \<and> (hd t = CHR ''-'' \<or> hd t = CHR ''+'') then tl t else t);
          ds = takeWhile ishex u
      in if ds = [] then Inl (Invalid_Argument ''stoull'')
         else if u64_limit \<le> hexes_value ds then Inl (Out_Of_Range ''stoull'')
         else Inr (if neg then - of_int (hexes_value ds) else of_int (hexes_value ds)))"

definition find_from :: "char \<Rightarrow> nat \<Rightarrow> string \<Rightarrow> nat option" where
  "find_from c pos s = map_option (\<lambda>i. pos + i) (find_char c (drop pos s))"

definition skip_spaces :: "nat \<Rightarrow> string \<Rightarrow> nat" where
  "skip_spaces pos s = pos + length (takeWhile (\<lambda>c. c = CHR '' '') (drop pos s))"

text \<open>One line of the memory map: the offset of the address in the file, if the line maps it from that path.\<close>

definition maps_line :: "uint64 \<Rightarrow> string \<Rightarrow> string \<Rightarrow> uint64 option result" where
  "maps_line target path line =
     (case find_char (CHR ''-'') line of
        None \<Rightarrow> Inr None
      | Some dash \<Rightarrow>
          (case find_from (CHR '' '') dash line of
             None \<Rightarrow> Inr None
           | Some space \<Rightarrow>
               rbind (stoull16 (take dash line)) (\<lambda>start.
               rbind (stoull16 (take (space - dash - 1) (drop (dash + 1) line))) (\<lambda>stop.
               if target < start \<or> stop \<le> target then Inr None
               else case find_char (CHR ''/'') line of
                 None \<Rightarrow> Inr None
               | Some slash \<Rightarrow>
                   if drop slash line \<noteq> path then Inr None
                   else
                     (case find_from (CHR '' '') (skip_spaces (space + 1) line) line of
                        None \<Rightarrow> Inr None
                      | Some perm_end \<Rightarrow>
                          (let pos = skip_spaces (perm_end + 1) line in
                           case find_from (CHR '' '') pos line of
                             None \<Rightarrow> Inr None
                           | Some off_end \<Rightarrow>
                               rbind (stoull16 (take (off_end - pos) (drop pos line))) (\<lambda>off.
                               Inr (Some (target - start + off)))))))))"

fun first_offset :: "uint64 \<Rightarrow> string \<Rightarrow> string list \<Rightarrow> uint64 result" where
  "first_offset target path [] = Inr 0"
| "first_offset target path (l # ls) =
     rbind (maps_line target path l) (\<lambda>x. case x of Some off \<Rightarrow> Inr off | None \<Rightarrow> first_offset target path ls)"

definition resolve_symbol_offset :: "launch_env \<Rightarrow> string \<Rightarrow> uint64 result" where
  "resolve_symbol_offset e path =
     (case le_symbol_address e path of
        None \<Rightarrow> Inr 0
      | Some target \<Rightarrow> first_offset target path (lines_of (le_self_maps e path)))"

fun occurs :: "string \<Rightarrow> string \<Rightarrow> bool" where
  "occurs p [] \<longleftrightarrow> p = []"
| "occurs p (c # s) \<longleftrightarrow> take (length p) (c # s) = p \<or> occurs p s"

definition add_candidate :: "string \<Rightarrow> string list \<Rightarrow> string list" where
  "add_candidate line cs =
     (case find_char (CHR ''/'') line of
        None \<Rightarrow> cs
      | Some slash \<Rightarrow>
          (let path = drop slash line in
           if \<not> occurs ''libc.so'' path \<and> \<not> occurs ''libpthread.so'' path then cs
           else if path \<in> set cs then cs else cs @ [path]))"

fun attach_candidates :: "os \<Rightarrow> launch_env \<Rightarrow> nat \<Rightarrow> nat \<Rightarrow> string list \<Rightarrow> (launch, string) action" where
  "attach_candidates os e entry ret [] = give ''unavailable: pthread_create symbol not attachable''"
| "attach_candidates os e entry ret (path # ps) =
     seq (from_result (resolve_symbol_offset e path)) (\<lambda>off.
     seq (call os (Attach_Uprobe entry path off False)) (\<lambda>(first, _).
     if first \<le> 0 then attach_candidates os e entry ret ps
     else
       seq (call os (Attach_Uprobe ret path off True)) (\<lambda>(second, _).
       if second \<le> 0 then seq (call os (Destroy_Link first)) (\<lambda>_. attach_candidates os e entry ret ps)
       else
         seq (in_session (\<lambda>b. add_link second (add_link first b))) (\<lambda>_.
         give (''attached:'' @ path @ (if off \<noteq> 0 then '' (resolved offset)'' else '' (symbol name)''))))))"

definition attach_pthread_uprobe :: "os \<Rightarrow> launch_env \<Rightarrow> (launch, string) action" where
  "attach_pthread_uprobe os e =
     seq (ask (\<lambda>s. (pthread_entry (session s), pthread_return (session s)))) (\<lambda>probes.
     case probes of
       (Some entry, Some ret) \<Rightarrow>
         seq (ask (\<lambda>s. fold add_candidate (lines_of (le_target_maps e (calls s))) [])) (\<lambda>cs.
         if cs = [] then give ''pending: libc not mapped'' else attach_candidates os e entry ret cs)
     | _ \<Rightarrow> give ''unavailable: programs not loaded'')"

end
