(* ===== verification/Launcher.thy ===== *)
theory Launcher
  imports Launcher_Session
begin

text \<open>
  The launcher, \<^verbatim>\<open>src/affinity_run.cpp\<close>, second part: the child before it becomes the target, the
  preflight check, and the parent that holds the child until it is registered with the BPF program,
  releases it and supervises it. Loops that retry an interrupted call have a bound \<open>fuel\<close>; a call that
  is interrupted more often counts as one that never returns.
\<close>

section \<open>The child\<close>

datatype child_end = Executed | Exited int

text \<open>A failed \<^verbatim>\<open>execvp\<close> returns with \<^verbatim>\<open>errno\<close>; a successful one does not return to the code below.\<close>

definition child_process :: "os \<Rightarrow> launch_env \<Rightarrow> run_identity \<Rightarrow> string list \<Rightarrow> (launch, child_end) action" where
  "child_process os e i command =
     seq (call os (Close_End Start_Write)) (\<lambda>_.
     seq (call os (Close_End Exec_Read)) (\<lambda>_.
     seq (call os (Set_Pgid 0)) (\<lambda>_.
     seq (call os Read_Release) (\<lambda>(n, _).
     if n \<noteq> 1 then give (Exited 126)
     else
       seq (call os (Close_End Start_Read)) (\<lambda>_.
       seq (catching (seq (drop_identity os e i False False) (\<lambda>_. call os (Exec command))) (\<lambda>_. give (- 1, EPERM))) (\<lambda>(r, err).
       if r = 0 then give Executed
       else seq (call os (Write_Exec_Error err)) (\<lambda>_. give (Exited 127))))))))"

section \<open>Starting the supervisor\<close>

text \<open>
  What the reader and the constructor of the supervisor need besides: the ring buffer's description,
  \<^verbatim>\<open>/sys\<close>, the calibration and profile files, the directory and file of the log, the clock, and the
  bound of the retry loops.
\<close>

record start_env = launch_env +
  se_ring :: "(nat \<times> uint32) option"
  se_consumer :: bool
  se_producer :: bool
  se_reason :: string
  se_sys :: sys_tree
  se_calibration_file :: string
  se_calibration :: "string list option"
  se_profile :: "string option"
  se_open_log :: "unit result"
  se_clock :: uint64
  se_fuel :: nat

definition hardware_of :: "start_env \<Rightarrow> config \<Rightarrow> hardware_graph result" where
  "hardware_of e c =
     rbind (discover (se_sys e) (cfg_cpus c)) (\<lambda>hw.
     load_calibration (cfg_calibration_path c) (se_calibration_file e) (se_calibration e) hw)"

definition start_runtime :: "start_env \<Rightarrow> config \<Rightarrow> int \<Rightarrow> bool \<Rightarrow> bool \<Rightarrow> unit runtime result" where
  "start_runtime e c child reader loaded =
     rbind (hardware_of e c) (\<lambda>hw.
     rbind (se_open_log e) (\<lambda>_.
     new_runtime c child reader (\<not> loaded) hw (se_profile e) (se_clock e) ()))"

definition start_supervisor :: "start_env \<Rightarrow> config \<Rightarrow> int \<Rightarrow> bool \<Rightarrow> bpf_session \<Rightarrow> unit runtime result" where
  "start_supervisor e c child loaded b =
     rbind (if loaded
            then make_bpf_reader (events_fd b) (health_fd b) (futex_aggregates_fd b) (vfs_aggregates_fd b)
                   (se_ring e) (se_consumer e) (se_producer e) (se_reason e)
            else Inr None) (\<lambda>reader.
     start_runtime e c child (reader \<noteq> None) loaded)"

section \<open>Preflight\<close>

definition with_profile :: "arguments \<Rightarrow> config \<Rightarrow> config" where
  "with_profile a c = (if arg_thread_profile a \<noteq> [] then c\<lparr>cfg_thread_profile_path := arg_thread_profile a\<rparr> else c)"

text \<open>The destructor of the session runs on every way out of the block.\<close>

definition with_session :: "os \<Rightarrow> (launch, 'a) action \<Rightarrow> (launch, 'a) action" where
  "with_session os m =
     seq (catching m (\<lambda>x. seq (reset_session os) (\<lambda>_. raise x))) (\<lambda>v.
     seq (reset_session os) (\<lambda>_. give v))"

definition profile_check :: "start_env \<Rightarrow> config \<Rightarrow> bool \<times> bool" where
  "profile_check e c =
     (if cfg_thread_profile_path c = [] then (True, False)
      else case load_thread_profile (se_profile e) (cfg_thread_profile_path c) (cfg_cpus c) of
        Inl x \<Rightarrow> (False, False)
      | Inr p \<Rightarrow> (True, placements p \<noteq> [] \<and> (\<not> cfg_dynamic c \<or> \<not> dyn_enabled (pf_dynamic p))))"

definition preflight :: "os \<Rightarrow> start_env \<Rightarrow> arguments \<Rightarrow> config \<Rightarrow> (launch, int) action" where
  "preflight os e a c0 =
     (let c = with_profile a c0; (profile_ok, static) = profile_check e c in
      seq (from_result (current_envelope (launch_env.truncate e))) (\<lambda>available.
      seq (if \<not> cpus_subset (cfg_cpus c) available then give False
           else seq (from_result (hardware_of e c)) (\<lambda>_. give True)) (\<lambda>cpus_ok.
      seq (bpf_available os (launch_env.truncate e) (arg_bpf_object a)) (\<lambda>(available, _).
      seq (if \<not> available then give False
           else with_session os (seq (load_object os (launch_env.truncate e) (arg_bpf_object a)) (\<lambda>(ok, _). give ok))) (\<lambda>bpf.
      let sampling_ok = (cfg_sample_interval_seconds c \<noteq> 0 \<or> static);
          ok = (profile_ok \<and> cpus_ok \<and> sampling_ok \<and> \<not> (cfg_bpf_required c \<and> \<not> bpf))
      in give (if ok then 0 else 1))))))"

section \<open>Supervising a target\<close>

definition run_config :: "arguments \<Rightarrow> config \<Rightarrow> config" where
  "run_config a c0 =
     (let c1 = with_profile a c0;
          c2 = (if arg_profile_output a \<noteq> [] then c1\<lparr>cfg_profile_output_path := arg_profile_output a\<rparr> else c1);
          c3 = (if arg_experiment_id a \<noteq> [] then c2\<lparr>cfg_experiment_id := arg_experiment_id a\<rparr> else c2)
      in if arg_test_id a \<noteq> [] then c3\<lparr>cfg_test_id := arg_test_id a\<rparr> else c3)"

definition prepare_log :: "os \<Rightarrow> start_env \<Rightarrow> config \<Rightarrow> run_identity \<Rightarrow> (launch, unit) action" where
  "prepare_log os e c i =
     (if cfg_log_directory c = [] then give ()
      else
        seq (must os (Create_Log_Directory (cfg_log_directory c))
               (\<lambda>x. Runtime_Error (''cannot create log directory '' @ cfg_log_directory c @ '': '' @ le_strerror e x))) (\<lambda>_.
        seq (call os Get_Euid) (\<lambda>(euid, _).
        if euid = 0
        then must os (Chown_Log_Directory (cfg_log_directory c) (ri_uid i) (ri_gid i))
               (\<lambda>x. Runtime_Error (''cannot chown log directory '' @ cfg_log_directory c @ '': '' @ le_strerror e x))
        else give ())))"

definition prepare_bpf :: "os \<Rightarrow> start_env \<Rightarrow> config \<Rightarrow> string \<Rightarrow> (launch, bool) action" where
  "prepare_bpf os e c obj =
     seq (bpf_available os (launch_env.truncate e) obj) (\<lambda>(available, why).
     seq (if available then load_object os (launch_env.truncate e) obj else give (False, why)) (\<lambda>(loaded, reason).
     if loaded then give True
     else seq (reset_session os) (\<lambda>_.
          if cfg_bpf_required c then raise (Runtime_Error (''required BPF unavailable: '' @ reason)) else give False)))"

definition EINTR :: int where "EINTR = 4"


text \<open>\<^verbatim>\<open>while (call < 0 && errno == EINTR)\<close>.\<close>

fun retry :: "os \<Rightarrow> nat \<Rightarrow> os_call \<Rightarrow> (launch, int \<times> int) action" where
  "retry os 0 c = (\<lambda>s. (Blocked, s))"
| "retry os (Suc n) c =
     seq (call os c) (\<lambda>(r, x). if r < 0 \<and> x = EINTR then retry os n c else give (r, x))"

text \<open>From the fork until the target runs: its number.\<close>

definition release_target :: "os \<Rightarrow> start_env \<Rightarrow> bool \<Rightarrow> (launch, int) action" where
  "release_target os e loaded =
     seq (must os Make_Pipe (\<lambda>_. Runtime_Error ''cannot create child synchronization pipes'')) (\<lambda>_.
     seq (must os Make_Pipe (\<lambda>_. Runtime_Error ''cannot create child synchronization pipes'')) (\<lambda>_.
     seq (call os Set_Subreaper) (\<lambda>_.
     seq (call os Fork) (\<lambda>(child, _).
     if child < 0 then raise (Runtime_Error ''fork failed'')
     else
       seq (call os (Close_End Start_Read)) (\<lambda>_.
       seq (call os (Close_End Exec_Write)) (\<lambda>_.
       seq (call os (Set_Pgid child)) (\<lambda>_.
       seq (modify (\<lambda>s. s\<lparr>child_process_group := child\<rparr>)) (\<lambda>_.
       seq (call os Install_Handlers) (\<lambda>_.
       seq (if loaded then add_target os child else give True) (\<lambda>registered.
       if \<not> registered
       then seq (call os (Kill_Group child)) (\<lambda>_. raise (Runtime_Error ''cannot initialize target TGID map''))
       else
         seq (call os Write_Release) (\<lambda>(n, _).
         if n \<noteq> 1 then seq (call os (Kill_Group child)) (\<lambda>_. raise (Runtime_Error ''cannot release target child''))
         else
           seq (call os (Close_End Start_Write)) (\<lambda>_.
           seq (retry os (se_fuel e) Read_Exec_Error) (\<lambda>(r, err).
           seq (call os (Close_End Exec_Read)) (\<lambda>_.
           if r > 0
           then seq (call os (Wait child)) (\<lambda>_. raise (Runtime_Error (''target exec failed: '' @ le_strerror e err)))
           else give child))))))))))))))"

fun attach_attempts :: "os \<Rightarrow> launch_env \<Rightarrow> nat \<Rightarrow> string \<Rightarrow> (launch, string) action" where
  "attach_attempts os e 0 st = give st"
| "attach_attempts os e (Suc n) st =
     seq (attach_pthread_uprobe os e) (\<lambda>st'.
     if take 9 st' = ''attached:'' \<or> take 8 st' \<noteq> ''pending:'' then give st'
     else seq (call os Sleep) (\<lambda>_. attach_attempts os e n st'))"

definition attach_uprobes :: "os \<Rightarrow> start_env \<Rightarrow> config \<Rightarrow> bool \<Rightarrow> (launch, string) action" where
  "attach_uprobes os e c loaded =
     (let st = (if cfg_pthread_uprobe c then ''unavailable: BPF disabled'' else ''off'') in
      if loaded \<and> cfg_pthread_uprobe c then attach_attempts os (launch_env.truncate e) 100 st else give st)"

text \<open>The handler of \<^verbatim>\<open>catch (...)\<close>, which throws the exception again.\<close>

definition kill_target :: "os \<Rightarrow> start_env \<Rightarrow> int \<Rightarrow> exn \<Rightarrow> (launch, 'a) action" where
  "kill_target os e child x =
     seq (call os (Kill_Group child)) (\<lambda>_.
     seq (retry os (se_fuel e) (Wait child)) (\<lambda>_.
     seq (modify (\<lambda>s. s\<lparr>child_process_group := - 1\<rparr>)) (\<lambda>_. raise x)))"

text \<open>
  Dropping the privileges, and the check that the affinity of the target can be written. \<open>tmask\<close> is what
  the backend reads for the target at that time.
\<close>

definition take_authority ::
  "os \<Rightarrow> start_env \<Rightarrow> config \<Rightarrow> run_identity \<Rightarrow> (os_log \<Rightarrow> cpu_mask) \<Rightarrow> int \<Rightarrow> (launch, bool) action" where
  "take_authority os e c i tmask child =
     catching
       (seq (drop_identity os (launch_env.truncate e) i (cfg_mode c = Active) True) (\<lambda>cap.
        if cfg_mode c = Active
        then seq (ask (\<lambda>s. tmask (calls s))) (\<lambda>original.
             if original = []
             then raise (Runtime_Error (''active supervisor affinity authority check failed: '' @ le_strerror e ESRCH))
             else seq (call os (Set_Mask child original)) (\<lambda>(r, err).
                  if r = 0 then give cap
                  else raise (Runtime_Error (''active supervisor affinity authority check failed: '' @
                                le_strerror e (if err \<noteq> 0 then err else ESRCH)))))
        else give cap))
       (kill_target os e child)"

text \<open>Reaping the descendants until there are none.\<close>

fun reap_all :: "os \<Rightarrow> nat \<Rightarrow> (launch, unit) action" where
  "reap_all os 0 = (\<lambda>s. (Blocked, s))"
| "reap_all os (Suc n) =
     seq (call os Wait_Any) (\<lambda>(r, x). if r > 0 \<or> r < 0 \<and> x = EINTR then reap_all os n else give ())"

text \<open>\<^verbatim>\<open>WIFEXITED\<close>, \<^verbatim>\<open>WEXITSTATUS\<close>, \<^verbatim>\<open>WIFSIGNALED\<close>, \<^verbatim>\<open>WTERMSIG\<close>.\<close>

definition exit_code :: "int \<Rightarrow> int" where
  "exit_code status =
     (if status mod 128 = 0 then status div 256 mod 256
      else if status mod 128 \<noteq> 127 then 128 + status mod 128 else 1)"

definition await_target :: "os \<Rightarrow> start_env \<Rightarrow> int \<Rightarrow> (launch, int) action" where
  "await_target os e child =
     seq (retry os (se_fuel e) (Wait child)) (\<lambda>(_, status).
     seq (reap_all os (se_fuel e)) (\<lambda>_.
     seq (modify (\<lambda>s. s\<lparr>child_process_group := - 1\<rparr>)) (\<lambda>_.
     give (exit_code status))))"

definition launch_target ::
  "os \<Rightarrow> start_env \<Rightarrow> config \<Rightarrow> run_identity \<Rightarrow> (os_log \<Rightarrow> cpu_mask) \<Rightarrow> bool \<Rightarrow> (launch, int) action" where
  "launch_target os e c i tmask loaded =
     seq (release_target os e loaded) (\<lambda>child.
     seq (attach_uprobes os e c loaded) (\<lambda>_.
     seq (take_authority os e c i tmask child) (\<lambda>_.
     seq (ask session) (\<lambda>b.
     seq (from_result (start_supervisor e c child loaded b)) (\<lambda>_.
     await_target os e child)))))"

definition supervise ::
  "os \<Rightarrow> start_env \<Rightarrow> arguments \<Rightarrow> config \<Rightarrow> (os_log \<Rightarrow> cpu_mask) \<Rightarrow> (launch, int) action" where
  "supervise os e a c0 tmask =
     (let c = run_config a c0 in
      seq (from_result (current_envelope (launch_env.truncate e))) (\<lambda>available.
      if \<not> cpus_subset (cfg_cpus c) available
      then raise (Runtime_Error ''configured CPU envelope exceeds startup/cgroup affinity'')
      else if arg_command a = [] then raise (Runtime_Error ''run requires -- command ...'')
      else
        seq (resolve_identity os (launch_env.truncate e) (arg_user a)) (\<lambda>i.
        seq (prepare_log os e c i) (\<lambda>_.
        with_session os
          (seq (prepare_bpf os e c (arg_bpf_object a)) (\<lambda>loaded. launch_target os e c i tmask loaded))))))"

text \<open>\<open>load\<close> is \<^verbatim>\<open>load_config\<close> with its two arguments; an exception ends with code two.\<close>

definition run_main ::
  "os \<Rightarrow> start_env \<Rightarrow> (string \<Rightarrow> string \<Rightarrow> config result) \<Rightarrow> (os_log \<Rightarrow> cpu_mask) \<Rightarrow> string list \<Rightarrow> (launch, int) action" where
  "run_main os e load tmask argv =
     catching
       (seq (from_result (parse_arguments argv)) (\<lambda>a.
        if arg_action a = ''preflight''
        then seq (from_result (load (arg_config a) (arg_cpus a))) (\<lambda>c. preflight os e a c)
        else if arg_action a \<noteq> ''run'' then raise (Runtime_Error ''action must be preflight or run'')
        else seq (from_result (load (arg_config a) (arg_cpus a))) (\<lambda>c. supervise os e a c tmask)))
       (\<lambda>_. give 2)"

end
