(* ===== verification/Launcher_Properties.thy ===== *)
theory Launcher_Properties
  imports Launcher "HOL-Library.Multiset"
begin

text \<open>
  What the launcher guarantees, whatever the system answers: which calls precede which, that the
  target runs as the requested user and only after its release, that no link of the BPF library
  outlives it, that preflight predicts the run, and the case where a target is left behind.
\<close>

section \<open>What the calls say\<close>

text \<open>
  \<open>emits Q m\<close>: when \<open>m\<close> returns \<open>r\<close>, the calls it made are a list \<open>xs\<close> with \<open>Q r xs\<close>.
\<close>

definition emits :: "('a \<Rightarrow> os_log \<Rightarrow> bool) \<Rightarrow> (launch, 'a) action \<Rightarrow> bool" where
  "emits Q m \<longleftrightarrow> (\<forall>s r s'. m s = (Returned r, s') \<longrightarrow> (\<exists>xs. calls s' = calls s @ xs \<and> Q r xs))"

named_theorems emits_rules "the calls an operation makes, by its structure"

lemma emitsD: "emits Q m \<Longrightarrow> m s = (Returned r, s') \<Longrightarrow> \<exists>xs. calls s' = calls s @ xs \<and> Q r xs"
  by (simp add: emits_def)

lemma emits_mono: "emits P m \<Longrightarrow> (\<And>r xs. P r xs \<Longrightarrow> Q r xs) \<Longrightarrow> emits Q m"
  unfolding emits_def by blast

lemma emits_give [emits_rules]: "emits (\<lambda>r xs. r = x \<and> xs = []) (give x)"
  by (simp add: emits_def give_def)

lemma emits_raise [emits_rules]: "emits (\<lambda>r xs. False) (raise e)"
  by (simp add: emits_def raise_def)

lemma emits_ask [emits_rules]: "emits (\<lambda>r xs. xs = []) (ask f)"
  by (simp add: emits_def ask_def)

lemma emits_from_result [emits_rules]: "emits (\<lambda>r xs. x = Inr r \<and> xs = []) (from_result x)"
  by (cases x) (simp_all add: emits_def from_result_def)

lemma emits_in_session [emits_rules]: "emits (\<lambda>r xs. xs = []) (in_session f)"
  by (simp add: emits_def in_session_def modify_def)

lemma emits_group [emits_rules]: "emits (\<lambda>r xs. xs = []) (modify (\<lambda>s. s\<lparr>child_process_group := p\<rparr>))"
  by (simp add: emits_def modify_def)

lemma emits_call [emits_rules]: "emits (\<lambda>r xs. xs = [(c, r)]) (call os c)"
  by (simp add: emits_def call_def Let_def)

lemma emits_seq [emits_rules]:
  assumes "emits P m" "\<And>a. emits (Q a) (f a)"
  shows "emits (\<lambda>r xs. \<exists>a ys zs. xs = ys @ zs \<and> P a ys \<and> Q a r zs) (seq m f)"
  unfolding emits_def
proof (intro allI impI)
  fix s r s' assume "seq m f s = (Returned r, s')"
  then obtain a t where "m s = (Returned a, t)" "f a t = (Returned r, s')" by (auto simp: seq_returned)
  then obtain ys zs where "calls t = calls s @ ys" "P a ys" "calls s' = calls t @ zs" "Q a r zs"
    using assms emitsD by metis
  then show "\<exists>xs. calls s' = calls s @ xs \<and> (\<exists>a ys zs. xs = ys @ zs \<and> P a ys \<and> Q a r zs)" by auto
qed

lemma emits_if [emits_rules]:
  "(b \<Longrightarrow> emits P m) \<Longrightarrow> (\<not> b \<Longrightarrow> emits Q n) \<Longrightarrow> emits (\<lambda>r xs. if b then P r xs else Q r xs) (if b then m else n)"
  by simp

lemma emits_prod [emits_rules]:
  "(\<And>a b. emits (Q a b) (f a b)) \<Longrightarrow> emits (\<lambda>r xs. \<exists>a b. x = (a, b) \<and> Q a b r xs) (case x of (a, b) \<Rightarrow> f a b)"
  by (cases x) (simp add: emits_def)

lemma emits_must [emits_rules]: "emits (\<lambda>r xs. \<exists>x. xs = [(c, 0, x)]) (must os c err)"
  unfolding must_def by (rule emits_mono, (rule emits_rules)+) (auto split: if_splits)

lemma emits_retry [emits_rules]: "emits (\<lambda>r xs. list_all (\<lambda>y. fst y = c) xs) (retry os n c)"
proof (induction n)
  case (Suc n)
  show ?case
    by (simp only: retry.simps, rule emits_mono, (rule emits_rules Suc.IH)+) (auto split: if_splits)
qed (simp add: emits_def)

text \<open>\<open>grows m\<close>: no call is forgotten, however \<open>m\<close> ends.\<close>

definition grows :: "(launch, 'a) action \<Rightarrow> bool" where
  "grows m \<longleftrightarrow> (\<forall>t. keeps (\<lambda>s. \<exists>xs. calls s = t @ xs) m)"

named_theorems grows_rules "operations that only add calls"

lemma growsD: "grows m \<Longrightarrow> \<exists>xs. calls (snd (m s)) = calls s @ xs"
  unfolding grows_def keeps_def by (metis append_Nil2)

lemma grows_call [grows_rules]: "grows (call os c)"
  by (auto simp: grows_def keeps_def call_def Let_def)

lemma grows_basic [grows_rules]:
  "grows (give x)" "grows (raise e)" "grows (ask f)" "grows (from_result y)" "grows (in_session g)"
  "grows (modify (\<lambda>s. s\<lparr>child_process_group := p\<rparr>))"
  by (auto simp: grows_def in_session_def intro!: keeps_rules)

lemma grows_seq [grows_rules]: "grows m \<Longrightarrow> (\<And>x. grows (f x)) \<Longrightarrow> grows (seq m f)"
  by (auto simp: grows_def intro!: keeps_rules)

lemma grows_catching [grows_rules]: "grows m \<Longrightarrow> (\<And>e. grows (h e)) \<Longrightarrow> grows (catching m h)"
  by (auto simp: grows_def intro!: keeps_rules)

lemma grows_if [grows_rules]: "grows m \<Longrightarrow> grows n \<Longrightarrow> grows (if b then m else n)"
  by simp

lemma grows_prod [grows_rules]: "(\<And>a b. grows (f a b)) \<Longrightarrow> grows (case x of (a, b) \<Rightarrow> f a b)"
  by (cases x) simp

lemma grows_must [grows_rules]: "grows (must os c err)"
  unfolding must_def by (intro grows_rules)

text \<open>A handler that only gives a value.\<close>

lemma emits_catching:
  assumes "emits P m" "grows m" "\<And>xs. P x xs"
  shows "emits P (catching m (\<lambda>_. give x))"
  unfolding emits_def
proof (intro allI impI)
  fix s r s' assume *: "catching m (\<lambda>_. give x) s = (Returned r, s')"
  obtain o' t where m: "m s = (o', t)" by fastforce
  show "\<exists>xs. calls s' = calls s @ xs \<and> P r xs"
  proof (cases o')
    case (Thrown e)
    then show ?thesis using * m assms(3) growsD [OF assms(2), of s] by (auto simp: catching_def give_def)
  qed (use * m emitsD [OF assms(1)] in \<open>auto simp: catching_def\<close>)
qed

section \<open>The child\<close>

definition unprivileged :: "run_identity \<Rightarrow> os_log \<Rightarrow> bool" where
  "unprivileged i xs \<longleftrightarrow>
     (\<exists>r z. (Get_Euid, r, z) \<in> set xs \<and> r \<noteq> 0) \<or>
     (\<exists>u v. (Set_Gid (ri_gid i), 0, u) \<in> set xs \<and> (Set_Uid (ri_uid i), 0, v) \<in> set xs)"

lemma unprivileged_Cons: "unprivileged i xs \<Longrightarrow> unprivileged i (x # xs)"
  by (auto simp: unprivileged_def)

lemma emits_drop_identity [emits_rules]:
  "emits (\<lambda>r xs. unprivileged i xs) (drop_identity os e i sys_nice sys_ptrace)"
  unfolding drop_identity_def
  by (rule emits_mono, (rule emits_rules)+) (auto simp: unprivileged_def split: if_splits)

lemma emits_exec:
  "emits (\<lambda>r xs. fst r = 0 \<longrightarrow> (\<exists>post y. xs = post @ [(Exec command, 0, y)] \<and> unprivileged i post))
     (catching (seq (drop_identity os e i False False) (\<lambda>_. call os (Exec command))) (\<lambda>_. give (- 1, EPERM)))"
proof (rule emits_catching)
  show "emits (\<lambda>r xs. fst r = 0 \<longrightarrow> (\<exists>post y. xs = post @ [(Exec command, 0, y)] \<and> unprivileged i post))
     (seq (drop_identity os e i False False) (\<lambda>_. call os (Exec command)))"
    by (rule emits_mono, (rule emits_rules)+) (metis prod.collapse)
  show "grows (seq (drop_identity os e i False False) (\<lambda>_. call os (Exec command)))"
    unfolding drop_identity_def by (intro grows_rules)
qed simp

text \<open>
  C22. The target only runs after the parent released it, and as the requested user: when the child
  becomes the target, it has read the release byte before, and between that and the execution it
  either found that it is not root or has set the group and the user successfully.
\<close>

theorem target_runs_unprivileged:
  assumes "child_process os e i command s = (Returned Executed, s')"
  shows "\<exists>pre x post y. calls s' = calls s @ pre @ (Read_Release, 1, x) # post @ [(Exec command, 0, y)] \<and>
    ((\<exists>r z. (Get_Euid, r, z) \<in> set post \<and> r \<noteq> 0) \<or>
     (\<exists>u v. (Set_Gid (ri_gid i), 0, u) \<in> set post \<and> (Set_Uid (ri_uid i), 0, v) \<in> set post))"
proof -
  have "emits (\<lambda>r xs. r = Executed \<longrightarrow> (\<exists>a b c x d post y. xs = a # b # c # (Read_Release, 1, x) # d # post @ [(Exec command, 0, y)] \<and>
      unprivileged i post)) (child_process os e i command)"
    unfolding child_process_def
    by (rule emits_mono, (rule emits_exec emits_rules)+) (auto split: if_splits)
  from emitsD [OF this assms] obtain a b c x d post y where
    "calls s' = calls s @ [a, b, c] @ (Read_Release, 1, x) # (d # post) @ [(Exec command, 0, y)]" "unprivileged i (d # post)"
    using unprivileged_Cons by auto
  then show ?thesis unfolding unprivileged_def by blast
qed

section \<open>The parent\<close>

definition spares :: "int \<Rightarrow> os_log \<Rightarrow> bool" where
  "spares child xs \<longleftrightarrow> list_all (\<lambda>y. fst y \<noteq> Kill_Group child \<and> fst y \<noteq> Wait child) xs"

lemma spares_simps [simp]:
  "spares child []" "spares child (y # xs) \<longleftrightarrow> fst y \<noteq> Kill_Group child \<and> fst y \<noteq> Wait child \<and> spares child xs"
  "spares child (xs @ ys) \<longleftrightarrow> spares child xs \<and> spares child ys"
  by (simp_all add: spares_def)

lemma spares_same: "list_all (\<lambda>y. fst y = c) xs \<Longrightarrow> c \<noteq> Kill_Group child \<Longrightarrow> c \<noteq> Wait child \<Longrightarrow> spares child xs"
  by (auto simp: spares_def list_all_iff)

lemma emits_add_target [emits_rules]:
  "emits (\<lambda>r xs. r \<longrightarrow> (\<exists>fd x. xs = [(Update_Pids fd child, 0, x)])) (add_target os child)"
  unfolding add_target_def by (rule emits_mono, (rule emits_rules)+) (auto split: if_splits)

lemma emits_release_target:
  "emits (\<lambda>child xs. (\<exists>x. (Write_Release, 1, x) \<in> set xs) \<and> spares child xs \<and>
      (loaded \<longrightarrow> (\<exists>fd x. (Update_Pids fd child, 0, x) \<in> set (takeWhile (\<lambda>y. fst y \<noteq> Write_Release) xs))))
     (release_target os e loaded)"
  unfolding release_target_def
  by (rule emits_mono, (rule emits_rules)+) (auto split: if_splits dest: spares_same)

lemma emits_option [emits_rules]:
  "emits P m \<Longrightarrow> (\<And>v. emits (Q v) (f v)) \<Longrightarrow>
   emits (\<lambda>r xs. case x of None \<Rightarrow> P r xs | Some v \<Rightarrow> Q v r xs) (case x of None \<Rightarrow> m | Some v \<Rightarrow> f v)"
  by (cases x) simp_all

lemma emits_attach_candidates [emits_rules]: "emits (\<lambda>r xs. spares child xs) (attach_candidates os e entry ret ps)"
proof (induction ps)
  case Nil
  show ?case by (simp only: attach_candidates.simps, rule emits_mono, (rule emits_rules)+) simp
next
  case (Cons p ps)
  show ?case
    by (simp only: attach_candidates.simps, rule emits_mono, (rule Cons.IH emits_rules)+) (auto split: if_splits)
qed

lemma emits_attach_pthread_uprobe [emits_rules]: "emits (\<lambda>r xs. spares child xs) (attach_pthread_uprobe os e)"
  unfolding attach_pthread_uprobe_def
  by (rule emits_mono, (rule emits_rules)+) (auto split: if_splits option.splits)

lemma emits_attach_attempts [emits_rules]: "emits (\<lambda>r xs. spares child xs) (attach_attempts os e n st)"
proof (induction n arbitrary: st)
  case 0
  show ?case by (simp only: attach_attempts.simps, rule emits_mono, (rule emits_rules)+) simp
next
  case (Suc n)
  show ?case
    by (simp only: attach_attempts.simps, rule emits_mono, (rule Suc.IH emits_rules)+) (auto split: if_splits)
qed

lemma emits_attach_uprobes: "emits (\<lambda>r xs. spares child xs) (attach_uprobes os e c loaded)"
  unfolding attach_uprobes_def Let_def by (rule emits_mono, (rule emits_rules)+) (auto split: if_splits)

text \<open>A handler that always throws.\<close>

lemma emits_rethrow:
  assumes "emits P m" "\<And>e. emits (\<lambda>_ _. False) (h e)"
  shows "emits P (catching m h)"
  using assms unfolding emits_def catching_def by (auto split: prod.splits outcome.splits)

lemma emits_drop_spares [emits_rules]: "emits (\<lambda>r xs. spares child xs) (drop_identity os e i sys_nice sys_ptrace)"
  unfolding drop_identity_def
  by (rule emits_mono, (rule emits_give emits_raise emits_call emits_seq emits_if emits_prod emits_must)+) (auto split: if_splits)

lemma emits_take_authority: "emits (\<lambda>r xs. spares child xs) (take_authority os e c i tmask child)"
  unfolding take_authority_def
proof (rule emits_rethrow)
  show "emits (\<lambda>_ _. False) (kill_target os e child x)" for x
    unfolding kill_target_def by (rule emits_mono, (rule emits_rules)+) simp
qed (rule emits_mono, (rule emits_drop_spares emits_rules)+, auto split: if_splits)

text \<open>
  C40. A supervisor that cannot be started leaves its target running: once the target was released and
  the privileges are dropped, an exception from opening the ring buffer or from the constructor of the
  supervisor ends the launcher without killing the target or waiting for it.
\<close>

theorem failed_start_abandons_target:
  assumes "release_target os e loaded s = (Returned child, s1)" "attach_uprobes os e c loaded s1 = (Returned st, s2)"
    "take_authority os e c i tmask child s2 = (Returned cap, s3)" "start_supervisor e c child loaded (session s3) = Inl err"
  shows "launch_target os e c i tmask loaded s = (Thrown err, s3) \<and>
    (\<exists>xs. calls s3 = calls s @ xs \<and> (\<exists>x. (Write_Release, 1, x) \<in> set xs) \<and>
       list_all (\<lambda>y. fst y \<noteq> Kill_Group child \<and> fst y \<noteq> Wait child) xs)"
proof -
  obtain xs ys zs where "calls s1 = calls s @ xs" "\<exists>x. (Write_Release, 1, x) \<in> set xs" "spares child xs"
    "calls s2 = calls s1 @ ys" "spares child ys" "calls s3 = calls s2 @ zs" "spares child zs"
    using emitsD [OF emits_release_target assms(1)] emitsD [OF emits_attach_uprobes assms(2)]
      emitsD [OF emits_take_authority assms(3)] by blast
  then have "calls s3 = calls s @ (xs @ ys @ zs)" "\<exists>x. (Write_Release, 1, x) \<in> set (xs @ ys @ zs)" "spares child (xs @ ys @ zs)"
    by auto
  moreover have "launch_target os e c i tmask loaded s = (Thrown err, s3)"
    using assms by (simp add: launch_target_def seq_def ask_def from_result_def)
  ultimately show ?thesis unfolding spares_def by blast
qed

text \<open>A failed authority check, by contrast, kills the target and waits for it.\<close>

lemma grows_retry [grows_rules]: "grows (retry os n c)"
proof (induction n)
  case 0
  show ?case by (simp add: grows_def keeps_def)
next
  case (Suc n)
  then show ?case by (simp only: retry.simps) (intro grows_rules)
qed

lemma call_recorded:
  assumes "\<And>r. grows (f r)"
  shows "(c, os (calls s) c) \<in> set (calls (snd (seq (call os c) f s)))"
proof -
  have "snd (seq (call os c) f s) = snd (f (os (calls s) c) (s\<lparr>calls := calls s @ [(c, os (calls s) c)]\<rparr>))"
    by (simp add: seq_def call_def Let_def)
  then show ?thesis using growsD [OF assms, of "os (calls s) c" "s\<lparr>calls := calls s @ [(c, os (calls s) c)]\<rparr>"] by auto
qed

lemma catching_thrown: "catching m h s = (Thrown e, s') \<Longrightarrow> \<exists>x t. h x t = (Thrown e, s')"
  by (auto simp: catching_def split: prod.splits outcome.splits)

lemma failed_authority_kills_target:
  assumes "take_authority os e c i tmask child s = (Thrown err, s')" "0 < se_fuel e"
  shows "\<exists>x y. (Kill_Group child, x) \<in> set (calls s') \<and> (Wait child, y) \<in> set (calls s')"
proof -
  obtain n where n: "se_fuel e = Suc n" using assms(2) by (cases "se_fuel e") auto
  obtain t x where t: "s' = snd (kill_target os e child x t :: bool outcome \<times> launch)"
    using catching_thrown [OF assms(1) [unfolded take_authority_def]] by (metis snd_conv)
  let ?rest = "\<lambda>_. seq (modify (\<lambda>s. s\<lparr>child_process_group := - 1\<rparr>)) (\<lambda>_. raise x) :: (launch, bool) action"
  let ?wait = "seq (retry os (Suc n) (Wait child)) ?rest"
  have "(Kill_Group child, os (calls t) (Kill_Group child)) \<in> set (calls s')"
    unfolding t kill_target_def by (rule call_recorded) (intro grows_rules)
  moreover have "(Wait child, os (calls u) (Wait child)) \<in> set (calls (snd (?wait u)))" for u
    unfolding retry.simps seq_assoc by (rule call_recorded) (intro grows_rules)
  moreover have "\<exists>u. s' = snd (?wait u)"
    unfolding t kill_target_def n by (auto simp: seq_def [of "call os (Kill_Group child)"] call_def Let_def)
  ultimately show ?thesis by blast
qed

section \<open>Preflight and run\<close>

lemma give_returned: "give x s = (Returned y, s') \<longleftrightarrow> y = x \<and> s' = s"
  by (auto simp: give_def)

lemma from_result_returned: "from_result x s = (Returned y, s') \<longleftrightarrow> x = Inr y \<and> s' = s"
  by (cases x) (auto simp: from_result_def)

lemma run_config_fields:
  "cfg_cpus (run_config a c) = cfg_cpus (with_profile a c)"
  "cfg_calibration_path (run_config a c) = cfg_calibration_path (with_profile a c)"
  "cfg_thread_profile_path (run_config a c) = cfg_thread_profile_path (with_profile a c)"
  "cfg_sample_interval_seconds (run_config a c) = cfg_sample_interval_seconds (with_profile a c)"
  "cfg_dynamic (run_config a c) = cfg_dynamic (with_profile a c)"
  by (simp_all add: run_config_def Let_def)

lemma new_runtime_starts:
  assumes "cfg_sample_interval_seconds c \<noteq> 0 \<or> snd (profile_check e c)" "fst (profile_check e c)"
  shows "\<exists>rt. new_runtime c child reader degraded hw (se_profile e) t w = Inr rt"
  using assms
  by (auto simp: new_runtime_def Let_def static_profile_effective_def load_profile_def profile_check_def effective_config_def
      split: if_splits sum.splits)

text \<open>
  C26. Preflight predicts the run: when it ends with code zero, a run with the same arguments and
  configuration passes the check of its CPUs, and the constructor of the supervisor succeeds, with or
  without a BPF reader, as soon as the log can be opened.
\<close>

theorem preflight_predicts_start:
  assumes "preflight os e a c0 s = (Returned 0, s')" "se_open_log e = Inr ()"
  shows "\<exists>available. current_envelope (launch_env.truncate e) = Inr available \<and>
    cpus_subset (cfg_cpus (run_config a c0)) available \<and>
    (\<exists>rt. start_runtime e (run_config a c0) child reader loaded = Inr rt)"
proof -
  let ?c = "with_profile a c0"
  obtain available hw where p: "current_envelope (launch_env.truncate e) = Inr available" "cpus_subset (cfg_cpus ?c) available"
    "hardware_of e ?c = Inr hw" "fst (profile_check e ?c)" "cfg_sample_interval_seconds ?c \<noteq> 0 \<or> snd (profile_check e ?c)"
    using assms(1) unfolding preflight_def Let_def case_prod_beta seq_returned give_returned from_result_returned
    by (auto simp: give_returned seq_returned from_result_returned split: if_splits)
  note c = run_config_fields [of a c0]
  have "profile_check e (run_config a c0) = profile_check e ?c" "hardware_of e (run_config a c0) = hardware_of e ?c"
    by (simp_all add: profile_check_def hardware_of_def c split: sum.split)
  then have "\<exists>rt. new_runtime (run_config a c0) child reader (\<not> loaded) hw (se_profile e) (se_clock e) () = Inr rt"
    using p(4,5) c(4) by (intro new_runtime_starts) simp_all
  then have "\<exists>rt. start_runtime e (run_config a c0) child reader loaded = Inr rt"
    using p(3) assms(2) \<open>hardware_of e (run_config a c0) = _\<close> by (simp add: start_runtime_def rbind_def)
  then show ?thesis using p(1,2) c(1) by simp
qed

section \<open>The links of the session\<close>

fun is_attach :: "os_call \<Rightarrow> bool" where
  "is_attach (Attach_Program _) = True"
| "is_attach (Attach_Uprobe _ _ _ _) = True"
| "is_attach _ = False"

fun is_destroy :: "os_call \<Rightarrow> bool" where
  "is_destroy (Destroy_Link _) = True"
| "is_destroy _ = False"

definition attached :: "os_log \<Rightarrow> int multiset" where
  "attached xs = mset (map (fst \<circ> snd) (filter (\<lambda>y. is_attach (fst y) \<and> 0 < fst (snd y)) xs))"

definition destroyed :: "os_log \<Rightarrow> int multiset" where
  "destroyed xs = mset (concat (map (\<lambda>y. case fst y of Destroy_Link l \<Rightarrow> [l] | _ \<Rightarrow> []) xs))"

lemma link_simps [simp]:
  "attached [] = {#}" "attached (y # xs) = (if is_attach (fst y) \<and> 0 < fst (snd y) then {#fst (snd y)#} else {#}) + attached xs"
  "attached (xs @ ys) = attached xs + attached ys"
  "destroyed [] = {#}" "destroyed (y # xs) = (case fst y of Destroy_Link l \<Rightarrow> {#l#} | _ \<Rightarrow> {#}) + destroyed xs"
  "destroyed (xs @ ys) = destroyed xs + destroyed ys"
  by (auto simp: attached_def destroyed_def split: os_call.split)

text \<open>A link that was attached is held by the session or destroyed.\<close>

definition balanced :: "launch \<Rightarrow> bool" where
  "balanced s \<longleftrightarrow> attached (calls s) = mset (links (session s)) + destroyed (calls s)"

named_theorems balanced_rules "operations that keep the links balanced"

lemmas [balanced_rules] = keeps_give keeps_raise keeps_ask keeps_from_result keeps_seq keeps_catching keeps_if keeps_option keeps_prod

lemma balanced_call: "\<not> is_attach c \<Longrightarrow> \<not> is_destroy c \<Longrightarrow> keeps balanced (call os c)"
  by (cases c) (auto simp: keeps_def call_def balanced_def Let_def)

lemma balanced_group [balanced_rules]: "keeps balanced (modify (\<lambda>s. s\<lparr>child_process_group := p\<rparr>))"
  by (simp add: keeps_def modify_def balanced_def)

lemma balanced_in_session: "(\<And>b. links (f b) = links b) \<Longrightarrow> keeps balanced (in_session f)"
  by (simp add: keeps_def in_session_def modify_def balanced_def)

lemma balanced_must: "\<not> is_attach c \<Longrightarrow> \<not> is_destroy c \<Longrightarrow> keeps balanced (must os c err)"
  unfolding must_def by (intro balanced_rules balanced_call) simp_all

lemma balanced_retry: "\<not> is_attach c \<Longrightarrow> \<not> is_destroy c \<Longrightarrow> keeps balanced (retry os n c)"
proof (induction n)
  case 0
  show ?case by (simp add: keeps_def)
next
  case (Suc n)
  then show ?case unfolding retry.simps by (intro balanced_rules balanced_call) simp_all
qed

lemma balanced_attach_link:
  assumes "is_attach c" "\<And>l. 0 < l \<Longrightarrow> keeps balanced (g l)" "\<And>l. l \<le> 0 \<Longrightarrow> keeps balanced (h l)"
  shows "keeps balanced (seq (call os c) (\<lambda>(l, _). if l \<le> 0 then h l else seq (in_session (add_link l)) (\<lambda>_. g l)))"
proof (rule keepsI)
  fix s assume b: "balanced s"
  obtain l x where l: "os (calls s) c = (l, x)" by fastforce
  let ?t = "s\<lparr>calls := calls s @ [(c, l, x)]\<rparr>"
  have d: "\<not> is_destroy c" using assms(1) by (cases c) simp_all
  show "balanced (snd (seq (call os c) (\<lambda>(l, _). if l \<le> 0 then h l else seq (in_session (add_link l)) (\<lambda>_. g l)) s))"
  proof (cases "l \<le> 0")
    case True
    then have "balanced ?t" using b d by (cases c) (auto simp: balanced_def)
    then show ?thesis using True l keepsD [OF assms(3) [OF True]] by (simp add: seq_def call_def Let_def)
  next
    case False
    then have "balanced (?t\<lparr>session := add_link l (session s)\<rparr>)"
      using b d assms(1) by (cases c) (auto simp: balanced_def add_link_def)
    then show ?thesis
      using False l keepsD [OF assms(2)] by (simp add: seq_def [of "call os c"] call_def Let_def in_session_def)
  qed
qed

lemma balanced_attach_programs [balanced_rules]: "keeps balanced (attach_programs os ps)"
proof (induction ps)
  case (Cons p ps)
  have other: "keeps balanced (seq (call os (Attach_Program i)) (\<lambda>(l, _). if l \<le> 0 then give (Some (''cannot attach BPF section '' @ sec))
      else seq (in_session (add_link l)) (\<lambda>_. attach_programs os ps)))" for i sec
    by (rule balanced_attach_link) (simp_all add: Cons.IH keeps_give)
  obtain i sec where "p = (i, sec)" by fastforce
  then show ?case using other by (auto intro!: keeps_seq balanced_in_session Cons.IH)
qed (simp add: keeps_give)

lemma balanced_probe_pair:
  assumes "keeps balanced g" "keeps balanced h"
  shows "keeps balanced (seq (call os (Attach_Uprobe entry path off False)) (\<lambda>(first, _).
     if first \<le> 0 then g
     else seq (call os (Attach_Uprobe ret path off True)) (\<lambda>(second, _).
       if second \<le> 0 then seq (call os (Destroy_Link first)) (\<lambda>_. g)
       else seq (in_session (\<lambda>b. add_link second (add_link first b))) (\<lambda>_. h))))"
  (is "keeps balanced ?m")
proof (rule keepsI)
  fix s assume b: "balanced s"
  obtain l x where l: "os (calls s) (Attach_Uprobe entry path off False) = (l, x)" by fastforce
  let ?t = "s\<lparr>calls := calls s @ [(Attach_Uprobe entry path off False, l, x)]\<rparr>"
  obtain k y where k: "os (calls ?t) (Attach_Uprobe ret path off True) = (k, y)" by fastforce
  let ?u = "?t\<lparr>calls := calls ?t @ [(Attach_Uprobe ret path off True, k, y)]\<rparr>"
  let ?v = "?u\<lparr>calls := calls ?u @ [(Destroy_Link l, os (calls ?u) (Destroy_Link l))]\<rparr>"
  let ?w = "?u\<lparr>session := add_link k (add_link l (session s))\<rparr>"
  consider "l \<le> 0" | "0 < l" "k \<le> 0" | "0 < l" "0 < k" by linarith
  then show "balanced (snd (?m s))"
  proof cases
    case 1
    then have "balanced ?t" using b by (simp add: balanced_def)
    then show ?thesis using 1 l keepsD [OF assms(1)] by (simp add: seq_def call_def Let_def)
  next
    case 2
    then have "balanced ?v" using b by (simp add: balanced_def)
    then show ?thesis using 2 l k keepsD [OF assms(1)] by (simp add: seq_def call_def Let_def)
  next
    case 3
    then have "balanced ?w" using b by (simp add: balanced_def add_link_def)
    then show ?thesis using 3 l k keepsD [OF assms(2)] by (simp add: seq_def call_def Let_def in_session_def modify_def)
  qed
qed

lemma balanced_attach_candidates [balanced_rules]: "keeps balanced (attach_candidates os e entry ret ps)"
proof (induction ps)
  case (Cons p ps)
  then show ?case unfolding attach_candidates.simps by (intro keeps_seq keeps_from_result balanced_probe_pair keeps_give)
qed (simp add: keeps_give)

lemma destroy_link_eval:
  "destroy_link os l s = (Returned (), s\<lparr>calls := calls s @ [(Destroy_Link l, os (calls s) (Destroy_Link l))]\<rparr>)"
  by (simp add: destroy_link_def seq_def call_def give_def Let_def)

lemma each_destroy:
  "\<exists>zs. each (destroy_link os) ls s = (Returned (), s\<lparr>calls := calls s @ zs\<rparr>) \<and>
     attached zs = {#} \<and> destroyed zs = mset ls"
proof (induction ls arbitrary: s)
  case Nil
  show ?case by (intro exI [of _ "[]"]) (simp add: give_def)
next
  case (Cons l ls)
  let ?t = "s\<lparr>calls := calls s @ [(Destroy_Link l, os (calls s) (Destroy_Link l))]\<rparr>"
  obtain zs where "each (destroy_link os) ls ?t = (Returned (), ?t\<lparr>calls := calls ?t @ zs\<rparr>)"
    "attached zs = {#}" "destroyed zs = mset ls"
    using Cons.IH by blast
  then show ?case
    by (intro exI [of _ "(Destroy_Link l, os (calls s) (Destroy_Link l)) # zs"])
      (simp add: seq_def destroy_link_eval [of os l s])
qed

lemma reset_session_balanced:
  assumes "balanced s" "reset_session os s = (r, s')"
  shows "balanced s'" "links (session s') = []"
proof -
  obtain zs where zs: "each (destroy_link os) (rev (links (session s))) s =
      (Returned (), s\<lparr>calls := calls s @ zs\<rparr>)" "attached zs = {#}" "destroyed zs = mset (links (session s))"
    using each_destroy [of os "rev (links (session s))" s] by auto
  then have "balanced s' \<and> links (session s') = []"
    using assms
    by (auto simp: reset_session_def seq_def ask_def call_def give_def in_session_def modify_def Let_def balanced_def
        new_session_def split: if_splits)
  then show "balanced s'" "links (session s') = []" by auto
qed

lemma reset_session_returns: "\<exists>s'. reset_session os s = (Returned (), s')"
  using each_destroy [of os "rev (links (session s))" s]
  by (auto simp: reset_session_def seq_def ask_def call_def give_def in_session_def modify_def Let_def)

lemma with_session_releases:
  assumes "keeps balanced m" "balanced s" "with_session os m s = (r, s')" "r \<noteq> Blocked"
  shows "attached (calls s') = destroyed (calls s')"
proof -
  obtain t o' where m: "m s = (o', t)" by fastforce
  then have t: "balanced t" using assms(1,2) keepsD by fastforce
  obtain u x where u: "reset_session os t = (x, u)" by fastforce
  have "x = Returned ()" using u reset_session_returns [of os t] by simp
  then have "s' = u" using assms(3,4) m u
    by (cases o') (auto simp: with_session_def seq_def catching_def raise_def give_def)
  then show ?thesis using reset_session_balanced [OF t u] by (simp add: balanced_def)
qed

lemma balanced_load_object [balanced_rules]: "keeps balanced (load_object os e path)"
  unfolding load_object_def open_api_def find_maps_def
  by (intro balanced_rules balanced_call balanced_in_session) simp_all

lemma balanced_attach_attempts [balanced_rules]: "keeps balanced (attach_attempts os e n st)"
proof (induction n arbitrary: st)
  case (Suc n)
  then show ?case unfolding attach_attempts.simps attach_pthread_uprobe_def
    by (intro balanced_rules balanced_call) simp_all
qed (simp add: keeps_give)

lemma balanced_reset [balanced_rules]: "keeps balanced (reset_session os)"
  by (rule keepsI) (metis reset_session_balanced(1) prod.collapse)

lemma balanced_prepare_bpf: "keeps balanced (prepare_bpf os e c obj)"
  unfolding prepare_bpf_def bpf_available_def by (intro balanced_rules balanced_call) simp_all

lemma balanced_release_target: "keeps balanced (release_target os e loaded)"
  unfolding release_target_def add_target_def
  by (intro balanced_rules balanced_call balanced_must balanced_retry) simp_all

lemma balanced_take_authority: "keeps balanced (take_authority os e c i tmask child)"
  unfolding take_authority_def kill_target_def drop_identity_def
  by (intro balanced_rules balanced_call balanced_must balanced_retry) simp_all

lemma balanced_await_target: "keeps balanced (await_target os e child)"
proof -
  have "keeps balanced (reap_all os n)" for n
  proof (induction n)
    case 0
    show ?case by (simp add: keeps_def)
  next
    case (Suc n)
    then show ?case unfolding reap_all.simps by (intro balanced_rules balanced_call) simp_all
  qed
  then show ?thesis unfolding await_target_def by (intro balanced_rules balanced_call balanced_retry) simp_all
qed

lemma balanced_launch_target: "keeps balanced (launch_target os e c i tmask loaded)"
  unfolding launch_target_def attach_uprobes_def Let_def
  by (intro balanced_rules balanced_release_target balanced_take_authority balanced_await_target)

text \<open>\<open>idle\<close>: the session holds no link. \<open>tidy m\<close>: started so, \<open>m\<close> ends with every link destroyed.\<close>

definition idle :: "launch \<Rightarrow> bool" where
  "idle s \<longleftrightarrow> balanced s \<and> links (session s) = []"

definition tidy :: "(launch, 'a) action \<Rightarrow> bool" where
  "tidy m \<longleftrightarrow> (\<forall>s. idle s \<longrightarrow> fst (m s) \<noteq> Blocked \<longrightarrow> attached (calls (snd (m s))) = destroyed (calls (snd (m s))))"

lemma idle_call: "\<not> is_attach c \<Longrightarrow> \<not> is_destroy c \<Longrightarrow> keeps idle (call os c)"
  using balanced_call [of c os] by (simp add: keeps_def idle_def call_def Let_def)

lemma idle_must: "\<not> is_attach c \<Longrightarrow> \<not> is_destroy c \<Longrightarrow> keeps idle (must os c err)"
  unfolding must_def by (intro keeps_rules idle_call)

lemma idle_setup: "keeps idle (resolve_identity os e user)" "keeps idle (prepare_log os e' c i)"
  unfolding resolve_identity_def prepare_log_def
  by (intro keeps_rules idle_call idle_must; simp)+

lemma idle_released: "idle s \<Longrightarrow> attached (calls s) = destroyed (calls s)"
  by (simp add: idle_def balanced_def)

lemma tidy_seq: "keeps idle m \<Longrightarrow> (\<And>x. tidy (f x)) \<Longrightarrow> tidy (seq m f)"
proof -
  assume m: "keeps idle m" and f: "\<And>x. tidy (f x)"
  show "tidy (seq m f)"
    unfolding tidy_def
  proof (intro allI impI)
    fix s assume s: "idle s" "fst (seq m f s) \<noteq> Blocked"
    obtain o' t where t: "m s = (o', t)" by fastforce
    then have "idle t" using keepsD [OF m s(1)] by simp
    then show "attached (calls (snd (seq m f s))) = destroyed (calls (snd (seq m f s)))"
      using s(2) t f idle_released by (cases o') (simp_all add: seq_def tidy_def)
  qed
qed

lemma tidy_if: "tidy m \<Longrightarrow> tidy n \<Longrightarrow> tidy (if b then m else n)"
  by simp

lemma tidy_keeps: "keeps idle m \<Longrightarrow> tidy m"
  by (simp add: keeps_def tidy_def idle_def balanced_def)

lemma tidy_with_session: "keeps balanced m \<Longrightarrow> tidy (with_session os m)"
  using with_session_releases unfolding tidy_def idle_def by (metis prod.collapse)

text \<open>
  No link outlives the launcher: when a run ends, by returning or by an exception, every link that
  was attached has been destroyed, as often as it was attached.
\<close>

theorem links_released:
  assumes "supervise os e a c0 tmask new_launch = (r, s')" "r \<noteq> Blocked"
  shows "attached (calls s') = destroyed (calls s')"
proof -
  have "tidy (supervise os e a c0 tmask)"
    unfolding supervise_def Let_def
    by (intro tidy_seq tidy_if tidy_keeps [OF keeps_raise] tidy_with_session keeps_from_result idle_setup keeps_seq
        balanced_prepare_bpf balanced_launch_target)
  moreover have "idle new_launch" by (simp add: idle_def balanced_def new_launch_def new_session_def)
  ultimately show ?thesis using assms unfolding tidy_def by (metis fst_conv snd_conv)
qed

section \<open>Examples\<close>

text \<open>A system where every call succeeds, for a launcher started as root, without a BPF object.\<close>

fun sample_os :: os where
  "sample_os xs Fork = (100, 0)"
| "sample_os xs Write_Release = (1, 0)"
| "sample_os xs Read_Release = (1, 0)"
| "sample_os xs (Wait p) = (p, 256)"
| "sample_os xs Wait_Any = (- 1, 10)"
| "sample_os xs c = (0, 0)"

definition root_env :: start_env where
  "root_env =
     \<lparr>le_getpwnam = (\<lambda>_. None), le_getpwuid = (\<lambda>_. None), le_getenv = (\<lambda>_. Some ''1000''), le_strerror = (\<lambda>_. []),
      le_affinity = Some (\<lambda>c. c < 4), le_exists = (\<lambda>_. False), le_symbol = (\<lambda>_. True), le_sections = [],
      le_target_maps = (\<lambda>_. []), le_symbol_address = (\<lambda>_. None), le_self_maps = (\<lambda>_. []), se_ring = None,
      se_consumer = True, se_producer = True, se_reason = [], se_sys = sample_sys, se_calibration_file = [],
      se_calibration = None, se_profile = None, se_open_log = Inr (), se_clock = 5, se_fuel = 1\<rparr>"

abbreviation sample_launch_config :: "int \<Rightarrow> config" where
  "sample_launch_config n \<equiv> new_config\<lparr>cfg_cpus := [0, 1, 2, 3], cfg_sample_interval_seconds := n\<rparr>"

abbreviation sample_identity :: run_identity where
  "sample_identity \<equiv> \<lparr>ri_uid = 1000, ri_gid = 1000, ri_name = []\<rparr>"

abbreviation sample_args :: arguments where
  "sample_args \<equiv> \<lparr>arg_action = ''run'', arg_config = ''c'', arg_bpf_object = [], arg_user = [], arg_thread_profile = [],
     arg_profile_output = [], arg_experiment_id = [], arg_test_id = [], arg_cpus = [], arg_command = [''app'']\<rparr>"

lemmas run_steps = seq_def call_def give_def raise_def ask_def modify_def from_result_def catching_def must_def Let_def

lemma sample_child:
  "\<exists>s'. child_process sample_os (launch_env.truncate root_env) sample_identity [''app''] new_launch = (Returned Executed, s')"
  by (simp add: child_process_def drop_identity_def run_steps)

theorem target_runs_unprivileged_witness:
  "\<exists>s' pre x post y. child_process sample_os (launch_env.truncate root_env) sample_identity [''app''] new_launch = (Returned Executed, s') \<and>
     calls s' = calls new_launch @ pre @ (Read_Release, 1, x) # post @ [(Exec [''app''], 0, y)]"
  using sample_child target_runs_unprivileged [of sample_os "launch_env.truncate root_env" sample_identity "[''app'']" new_launch]
  by blast

lemma sample_hardware_of: "hardware_of root_env (sample_launch_config n) = Inr sample_hardware"
  by (simp add: hardware_of_def root_env_def sample_discover load_calibration_def rbind_def new_config_def)

lemma sample_release:
  "\<exists>s1 s2 s3. release_target sample_os root_env False new_launch = (Returned 100, s1) \<and>
     attach_uprobes sample_os root_env (sample_launch_config 0) False s1 = (Returned ''unavailable: BPF disabled'', s2) \<and>
     take_authority sample_os root_env (sample_launch_config 0) sample_identity (\<lambda>_. [0]) 100 s2 = (Returned False, s3)"
  by (simp add: release_target_def attach_uprobes_def take_authority_def drop_identity_def run_steps root_env_def
      new_config_def numeral_2_eq_2)

theorem failed_start_abandons_target_witness:
  "\<exists>err s3. launch_target sample_os root_env (sample_launch_config 0) sample_identity (\<lambda>_. [0]) False new_launch = (Thrown err, s3) \<and>
     list_all (\<lambda>y. fst y \<noteq> Kill_Group 100 \<and> fst y \<noteq> Wait 100) (calls s3)"
proof -
  obtain s1 s2 s3 where s: "release_target sample_os root_env False new_launch = (Returned 100, s1)"
    "attach_uprobes sample_os root_env (sample_launch_config 0) False s1 = (Returned ''unavailable: BPF disabled'', s2)"
    "take_authority sample_os root_env (sample_launch_config 0) sample_identity (\<lambda>_. [0]) 100 s2 = (Returned False, s3)"
    using sample_release by blast
  have "\<exists>err. start_supervisor root_env (sample_launch_config 0) 100 False (session s3) = Inl err"
    by (simp add: start_supervisor_def start_runtime_def sample_hardware_of rbind_def)
      (simp add: root_env_def new_runtime_def static_profile_effective_def load_profile_def new_config_def Let_def)
  then obtain err where "start_supervisor root_env (sample_launch_config 0) 100 False (session s3) = Inl err" ..
  from failed_start_abandons_target [OF s this] show ?thesis by (auto simp: new_launch_def)
qed

lemma sample_launch_fields:
  "cfg_cpus (sample_launch_config n) = [0, 1, 2, 3]" "cfg_thread_profile_path (sample_launch_config n) = []"
  "cfg_sample_interval_seconds (sample_launch_config n) = n" "\<not> cfg_bpf_required (sample_launch_config n)"
  "run_config sample_args (sample_launch_config n) = sample_launch_config n"
  "with_profile sample_args (sample_launch_config n) = sample_launch_config n"
  "cfg_mode (sample_launch_config n) = Observe" "cfg_pthread_uprobe (sample_launch_config n)"
  by (simp_all add: new_config_def run_config_def with_profile_def)

lemma root_env_fields:
  "\<not> le_exists (launch_env.truncate root_env) p" "se_open_log root_env = Inr ()" "se_fuel root_env = Suc 0"
  "\<exists>av. current_envelope (launch_env.truncate root_env) = Inr av \<and> cpus_subset [0, 1, 2, 3] av"
  by (simp_all add: root_env_def launch_env.truncate_def current_envelope_def cpus_subset_def)

lemma sample_preflight:
  "\<exists>s'. preflight sample_os root_env sample_args (sample_launch_config 1) new_launch = (Returned 0, s')"
proof -
  obtain av where "current_envelope (launch_env.truncate root_env) = Inr av" "cpus_subset [0, 1, 2, 3] av"
    using root_env_fields(4) by blast
  then show ?thesis
    by (simp add: preflight_def sample_launch_fields profile_check_def sample_hardware_of bpf_available_def
        root_env_fields(1-3) run_steps)
qed

theorem preflight_predicts_start_witness:
  "\<exists>s' rt. preflight sample_os root_env sample_args (sample_launch_config 1) new_launch = (Returned 0, s') \<and>
     start_runtime root_env (run_config sample_args (sample_launch_config 1)) 100 True True = Inr rt"
proof -
  have "se_open_log root_env = Inr ()" by (simp add: root_env_def)
  then show ?thesis using sample_preflight preflight_predicts_start by blast
qed

lemma sample_identity_resolved:
  "resolve_identity sample_os (launch_env.truncate root_env) [] s =
     (Returned sample_identity, s\<lparr>calls := calls s @ [(Get_Euid, 0, 0)]\<rparr>)"
proof -
  have "stoul ''1000'' = Inr 1000" "id_number 1000 = 1000" by code_simp+
  then show ?thesis by (simp add: resolve_identity_def root_env_def launch_env.truncate_def run_steps)
qed

lemma sample_started: "\<exists>rt. start_supervisor root_env (sample_launch_config 1) 100 False b = Inr rt"
  by (simp add: start_supervisor_def start_runtime_def sample_hardware_of rbind_def root_env_fields(2))
    (simp add: new_runtime_def Let_def sample_launch_fields)

lemma sample_launch:
  "\<exists>s'. launch_target sample_os root_env (sample_launch_config 1) sample_identity (\<lambda>_. [0]) False s = (Returned 1, s')"
proof -
  have "exit_code 256 = 1" by code_simp
  moreover obtain rt where "start_supervisor root_env (sample_launch_config 1) 100 False (session s) = Inr rt"
    using sample_started by blast
  ultimately show ?thesis
    by (simp add: launch_target_def release_target_def attach_uprobes_def take_authority_def drop_identity_def await_target_def
        run_steps root_env_fields(1-3) sample_launch_fields EINTR_def)
qed

lemma with_session_returned:
  assumes "m s = (Returned v, t)"
  shows "\<exists>s'. with_session os m s = (Returned v, s')"
  using reset_session_returns [of os t] assms by (auto simp: with_session_def seq_def catching_def give_def)

lemma sample_prepared: "\<exists>t. prepare_bpf sample_os root_env (sample_launch_config n) [] s = (Returned False, t)"
  using reset_session_returns [of sample_os s]
  by (auto simp: prepare_bpf_def bpf_available_def root_env_fields(1) sample_launch_fields run_steps)

lemma seq_returns: "\<exists>u. m s = (Returned a, u) \<Longrightarrow> (\<And>u. \<exists>t. f a u = (Returned r, t)) \<Longrightarrow> \<exists>t. seq m f s = (Returned r, t)"
  by (auto simp: seq_returned)

lemma with_session_returns: "\<exists>t. m s = (Returned v, t) \<Longrightarrow> \<exists>s'. with_session os m s = (Returned v, s')"
  by (erule exE) (rule with_session_returned)

lemma sample_logged: "\<exists>t. prepare_log sample_os root_env (sample_launch_config 1) sample_identity s = (Returned (), t)"
  by (simp add: prepare_log_def run_steps)

lemma sample_supervise:
  "\<exists>s'. supervise sample_os root_env sample_args (sample_launch_config 1) (\<lambda>_. [0]) new_launch = (Returned 1, s')"
proof -
  obtain av where av: "current_envelope (launch_env.truncate root_env) = Inr av" "cpus_subset [0, 1, 2, 3] av"
    using root_env_fields(4) by blast
  have id: "\<exists>u. resolve_identity sample_os (launch_env.truncate root_env) (arg_user sample_args) s = (Returned sample_identity, u)" for s
    using sample_identity_resolved by simp
  have obj: "arg_bpf_object sample_args = []" "arg_command sample_args \<noteq> []" by simp_all
  show ?thesis
    unfolding supervise_def Let_def sample_launch_fields(5) av(1) seq_from_result sample_launch_fields(1) obj(1)
    using av(2) obj(2)
    by (simp only: if_False simp_thms)
      (intro seq_returns [OF id] seq_returns [OF sample_logged] with_session_returns seq_returns [OF sample_prepared] sample_launch)
qed

theorem links_released_witness:
  "\<exists>s'. supervise sample_os root_env sample_args (sample_launch_config 1) (\<lambda>_. [0]) new_launch = (Returned 1, s') \<and>
     attached (calls s') = destroyed (calls s')"
  using sample_supervise links_released by blast

end
