(* ===== verification/Control_Client.thy ===== *)
theory Control_Client
  imports Runtime_Windows
begin

text \<open>
  The control client, \<^verbatim>\<open>src/affinityctl.cpp\<close>, and how the supervisor reads what it sends. The socket calls
  are the record \<open>ctl_os\<close>: whether the socket can be created, connected to a path and written to, the
  pieces read from it, and whether reading ended with the end of the stream or an error.
\<close>

record ctl_os =
  co_socket :: bool
  co_connect :: "string \<Rightarrow> bool"
  co_write :: "string \<Rightarrow> bool"
  co_answer :: "string list"
  co_complete :: bool

record ctl_result =
  cr_code :: int
  cr_sent :: "(string \<times> string) option"
  cr_output :: string

definition ctl_commands :: "string list" where
  "ctl_commands = [''status'', ''pause'', ''resume'', ''dump'']"

text \<open>\<^verbatim>\<open>sizeof(address.sun_path)\<close> is 108.\<close>

definition ctl_path :: "string list \<Rightarrow> string" where
  "ctl_path options = (case options of [a, v] \<Rightarrow> if a = ''--socket'' then v else ''/tmp/affinitygraph.sock''
                       | _ \<Rightarrow> ''/tmp/affinitygraph.sock'')"

definition ctl_main :: "ctl_os \<Rightarrow> string list \<Rightarrow> ctl_result" where
  "ctl_main os argv =
     (let stop = (\<lambda>n. \<lparr>cr_code = n, cr_sent = None, cr_output = []\<rparr>) in
      case argv of
        [] \<Rightarrow> stop 2
      | command # options \<Rightarrow>
          if 2 < length options \<or> command \<notin> set ctl_commands then stop 2
          else if \<not> co_socket os then stop 1
          else
            (let path = ctl_path options; request = command @ [CHR 0x0A] in
             if 108 \<le> length path then stop 2
             else if \<not> co_connect os path then stop 1
             else if \<not> co_write os request then stop 1
             else \<lparr>cr_code = (if co_complete os then 0 else 1), cr_sent = Some (path, request), cr_output = concat (co_answer os)\<rparr>))"

text \<open>The 31 bytes the supervisor reads of a request.\<close>

definition request_read :: "string \<Rightarrow> string" where
  "request_read text' = take 31 text'"

text \<open>
  The supervisor reads every request of the client completely and does what it names: pausing and
  resuming change the state, the other two only answer.
\<close>

theorem request_understood:
  assumes "cr_sent (ctl_main os argv) = Some (path, request)"
  shows "request_read request = request \<and> length path < 108 \<and>
    (service_control_socket put (Some request) = locked (give ()) \<or>
     service_control_socket put (Some request) = seq (pause put) (\<lambda>_. locked (give ())) \<or>
     service_control_socket put (Some request) = seq resume (\<lambda>_. locked (give ()))) \<and>
    (hd argv = ''pause'' \<longrightarrow> service_control_socket put (Some request) = seq (pause put) (\<lambda>_. locked (give ()))) \<and>
    (hd argv = ''resume'' \<longrightarrow> service_control_socket put (Some request) = seq resume (\<lambda>_. locked (give ())))"
proof -
  obtain command where c: "command \<in> set ctl_commands" "request = command @ [CHR 0x0A]" "hd argv = command" "length path < 108"
    using assms by (auto simp: ctl_main_def Let_def split: list.splits if_splits)
  then consider "command = ''status''" | "command = ''pause''" | "command = ''resume''" | "command = ''dump''"
    by (auto simp: ctl_commands_def)
  then show ?thesis
    using c by cases (simp_all add: service_control_socket_def request_read_def isspace_def Let_def)
qed

end
