(* ===== verification/Strategy_Replay.thy ===== *)
theory Strategy_Replay
  imports Legacy_Solver Incremental_Solver Collector Domain_Replay
begin

text \<open>
  The offline driver of the other two solvers, \<^verbatim>\<open>src/affinity_replay.cpp\<close>: it reads a strategy file and
  either one snapshot, which it solves once and grades, or a sequence of snapshots, which it feeds to
  an incremental solver. The JSON library is the argument \<open>json\<close> of \<open>Domain_Replay\<close>, with a call for
  the items below a path.
\<close>

section \<open>The strategy file\<close>

record strategy = solve_options +
  st_initial_node_thread_slack_ratio :: double
  st_hotspot_edges_per_thread :: int
  st_hotspot_edge_quantile :: double
  st_hotspot_component_boost :: double
  st_maximum_managed_threads :: int
  st_managed_thread_hysteresis_ratio :: double
  st_hotspot_replan_growth_ratio :: double
  st_hotspot_replan_min_threads :: int
  st_hotspot_stability_threshold :: double
  st_hotspot_stability_confirmations :: int
  st_seed :: uint64

definition new_strategy :: strategy where
  "new_strategy =
     \<lparr>maximum_migrated_active_threads_ratio = 25 / 100, active_threshold = 5 / 100, inactive_threshold = 0,
      minimum_confidence = 8 / 10, strategy_id = ''legacy-v1'', demand_floor = 0, max_threads_per_cpu = - 1,
      slot_slack = 2, count_penalty = 0, low_demand_spread = 0, same_cpu_contention_penalty = 0,
      group_spread_penalty = 0, thread_count_tie_break = False, fm_passes = 4, lpt_refinement_passes = 0,
      st_initial_node_thread_slack_ratio = 5 / 10, st_hotspot_edges_per_thread = 4, st_hotspot_edge_quantile = 95 / 100,
      st_hotspot_component_boost = 4, st_maximum_managed_threads = 32, st_managed_thread_hysteresis_ratio = 1,
      st_hotspot_replan_growth_ratio = 25 / 100, st_hotspot_replan_min_threads = 8,
      st_hotspot_stability_threshold = 65 / 100, st_hotspot_stability_confirmations = 3, st_seed = 0\<rparr>"

definition loose_unquote :: "string \<Rightarrow> string" where
  "loose_unquote value =
     (let v = trim value in
      if 2 \<le> length v \<and> hd v = CHR 0x22 \<and> last v = CHR 0x22 then butlast (tl v) else v)"

datatype strategy_setting =
    Text "string \<Rightarrow> strategy \<Rightarrow> strategy"
  | Real "double \<Rightarrow> strategy \<Rightarrow> strategy"
  | Whole "int \<Rightarrow> strategy \<Rightarrow> strategy"
  | Unsigned "uint64 \<Rightarrow> strategy \<Rightarrow> strategy"

definition strategy_settings :: "(string \<times> strategy_setting) list" where
  "strategy_settings =
     [(''id'', Text (\<lambda>v. strategy_id_update (\<lambda>_. v))),
      (''demand_floor'', Real (\<lambda>v. demand_floor_update (\<lambda>_. v))),
      (''max_threads_per_cpu'', Whole (\<lambda>v. max_threads_per_cpu_update (\<lambda>_. v))),
      (''slot_slack'', Whole (\<lambda>v. slot_slack_update (\<lambda>_. v))),
      (''count_penalty'', Real (\<lambda>v. count_penalty_update (\<lambda>_. v))),
      (''low_demand_spread'', Real (\<lambda>v. low_demand_spread_update (\<lambda>_. v))),
      (''same_cpu_contention_penalty'', Real (\<lambda>v. same_cpu_contention_penalty_update (\<lambda>_. v))),
      (''group_spread_penalty'', Real (\<lambda>v. group_spread_penalty_update (\<lambda>_. v))),
      (''tie_break_policy'', Text (\<lambda>v. thread_count_tie_break_update (\<lambda>_. v = ''thread_count''))),
      (''fm_passes'', Whole (\<lambda>v. fm_passes_update (\<lambda>_. v))),
      (''initial_node_thread_slack_ratio'', Real (\<lambda>v. st_initial_node_thread_slack_ratio_update (\<lambda>_. v))),
      (''lpt_refinement_passes'', Whole (\<lambda>v. lpt_refinement_passes_update (\<lambda>_. v))),
      (''hotspot_edges_per_thread'', Whole (\<lambda>v. st_hotspot_edges_per_thread_update (\<lambda>_. v))),
      (''hotspot_edge_quantile'', Real (\<lambda>v. st_hotspot_edge_quantile_update (\<lambda>_. v))),
      (''hotspot_component_boost'', Real (\<lambda>v. st_hotspot_component_boost_update (\<lambda>_. v))),
      (''maximum_managed_threads'', Whole (\<lambda>v. st_maximum_managed_threads_update (\<lambda>_. v))),
      (''managed_thread_hysteresis_ratio'', Real (\<lambda>v. st_managed_thread_hysteresis_ratio_update (\<lambda>_. v))),
      (''hotspot_replan_growth_ratio'', Real (\<lambda>v. st_hotspot_replan_growth_ratio_update (\<lambda>_. v))),
      (''hotspot_replan_min_threads'', Whole (\<lambda>v. st_hotspot_replan_min_threads_update (\<lambda>_. v))),
      (''hotspot_stability_threshold'', Real (\<lambda>v. st_hotspot_stability_threshold_update (\<lambda>_. v))),
      (''hotspot_stability_confirmations'', Whole (\<lambda>v. st_hotspot_stability_confirmations_update (\<lambda>_. v))),
      (''seed'', Unsigned (\<lambda>v. st_seed_update (\<lambda>_. v))),
      (''maximum_migrated_active_threads_ratio'', Real (\<lambda>v. maximum_migrated_active_threads_ratio_update (\<lambda>_. v))),
      (''maximum_migrated_threads_ratio'', Real (\<lambda>v. maximum_migrated_active_threads_ratio_update (\<lambda>_. v))),
      (''active_threshold'', Real (\<lambda>v. active_threshold_update (\<lambda>_. v))),
      (''inactive_threshold'', Real (\<lambda>v. inactive_threshold_update (\<lambda>_. v))),
      (''minimum_confidence'', Real (\<lambda>v. minimum_confidence_update (\<lambda>_. v)))]"

definition strategy_value :: "string \<Rightarrow> string \<Rightarrow> strategy \<Rightarrow> strategy result" where
  "strategy_value key value o' =
     (if key = ''schema''
      then (if loose_unquote value \<noteq> ''affinitygraph.strategy.v1'' then Inl (Runtime_Error ''unsupported strategy schema'') else Inr o')
      else case map_of strategy_settings key of
        None \<Rightarrow> Inl (Runtime_Error (''unapproved strategy key: '' @ key))
      | Some (Text f) \<Rightarrow> Inr (f (loose_unquote value) o')
      | Some (Real f) \<Rightarrow> rbind (stod value) (\<lambda>v. Inr (f v o'))
      | Some (Whole f) \<Rightarrow> rbind (stoi value) (\<lambda>v. Inr (f v o'))
      | Some (Unsigned f) \<Rightarrow> rbind (stoull value) (\<lambda>v. Inr (f v o')))"

text \<open>One line; the state has the keys seen so far.\<close>

definition strategy_line :: "string \<Rightarrow> string oset \<times> strategy \<Rightarrow> (string oset \<times> strategy) result" where
  "strategy_line text' st =
     (let line = trim (takeWhile (\<lambda>c. c \<noteq> CHR ''#'') text') in
      if line = [] \<or> hd line = CHR ''['' then Inr st
      else case find_char (CHR ''='') line of
        None \<Rightarrow> Inl (Runtime_Error (''invalid strategy line: '' @ line))
      | Some eq \<Rightarrow>
          (let key = trim (take eq line); value = trim (drop (eq + 1) line) in
           if key \<in> set (fst st) then Inl (Runtime_Error (''duplicate strategy key: '' @ key))
           else rbind (strategy_value key value (snd st)) (\<lambda>o'. Inr (sput key (fst st), o'))))"

definition strategy_refused :: "strategy \<Rightarrow> bool" where
  "strategy_refused o' \<longleftrightarrow>
     demand_floor o' < 0 \<or> 1 < demand_floor o' \<or> max_threads_per_cpu o' < - 1 \<or> slot_slack o' < 0 \<or>
     maximum_migrated_active_threads_ratio o' < 0 \<or> 1 < maximum_migrated_active_threads_ratio o' \<or> fm_passes o' < 0 \<or>
     minimum_confidence o' < 0 \<or> 1 < minimum_confidence o' \<or> inactive_threshold o' < 0 \<or>
     active_threshold o' < inactive_threshold o' \<or> st_initial_node_thread_slack_ratio o' < 0 \<or>
     1 < st_initial_node_thread_slack_ratio o' \<or> st_hotspot_edges_per_thread o' < 1 \<or> st_hotspot_edge_quantile o' < 0 \<or>
     1 < st_hotspot_edge_quantile o' \<or> st_hotspot_component_boost o' < 0 \<or> st_maximum_managed_threads o' < 0 \<or>
     st_managed_thread_hysteresis_ratio o' < 0 \<or> st_hotspot_replan_growth_ratio o' < 0 \<or>
     1 < st_hotspot_replan_growth_ratio o' \<or> st_hotspot_replan_min_threads o' < 1 \<or>
     st_hotspot_stability_threshold o' < 0 \<or> 1 < st_hotspot_stability_threshold o' \<or>
     st_hotspot_stability_confirmations o' < 1"

definition read_strategy :: "string \<Rightarrow> string option \<Rightarrow> strategy result" where
  "read_strategy path file =
     (case file of
        None \<Rightarrow> Inl (Runtime_Error (''cannot open strategy: '' @ path))
      | Some text' \<Rightarrow>
          rbind (rfold strategy_line (getline_parts (CHR 0x0A) text') ([], new_strategy)) (\<lambda>(seen, o').
          if strategy_id o' = [] then Inl (Runtime_Error ''strategy id is required'')
          else if strategy_refused o' then Inl (Runtime_Error ''strategy value outside approved range'')
          else Inr o'))"

section \<open>Snapshots\<close>

text \<open>\<^verbatim>\<open>required\<close>: a missing or ill-typed value names its path.\<close>

definition required :: "'a result \<Rightarrow> string \<Rightarrow> 'a result" where
  "required x path = (case x of Inl e \<Rightarrow> Inl (Runtime_Error (''snapshot missing '' @ path)) | Inr v \<Rightarrow> Inr v)"

record 'p snapshot_json = "'p json" +
  get_items :: "'p \<Rightarrow> string \<Rightarrow> 'p list result"
  get_unsigned :: "'p \<Rightarrow> string \<Rightarrow> nat result"

record snapshot =
  sn_window_id :: string
  sn_hardware :: hardware_graph
  sn_threads :: "thread_demand list"
  sn_edges :: "relation_edge list"

definition snapshot_cpu :: "'p snapshot_json \<Rightarrow> 'p \<Rightarrow> cpu result" where
  "snapshot_cpu j item =
     rbind (required (get_int j item ''id'') ''id'') (\<lambda>i.
     rbind (required (get_int j item ''node'') ''node'') (\<lambda>n.
     Inr \<lparr>cpu_id = i, cpu_node = n, online = get_or (get_bool j item ''online'') True\<rparr>))"

definition snapshot_distance ::
  "'p snapshot_json \<Rightarrow> string \<Rightarrow> string \<Rightarrow> string \<Rightarrow> 'p \<Rightarrow> (int \<times> int, double) omap \<Rightarrow> (int \<times> int, double) omap result" where
  "snapshot_distance j from to value item m =
     rbind (required (get_double j item value) value) (\<lambda>d.
     rbind (required (get_int j item from) from) (\<lambda>a.
     rbind (required (get_int j item to) to) (\<lambda>b.
     Inr (mput (a, b) d m))))"

definition snapshot_thread :: "'p snapshot_json \<Rightarrow> 'p \<Rightarrow> thread_demand result" where
  "snapshot_thread j item =
     rbind (required (get_int j item ''tgid'') ''tgid'') (\<lambda>g.
     rbind (required (get_int j item ''tid'') ''tid'') (\<lambda>t.
     rbind (required (get_u64 j item ''starttime'') ''starttime'') (\<lambda>st.
     rbind (required (get_string j item ''group'') ''group'') (\<lambda>gr.
     rbind (required (get_double j item ''demand'') ''demand'') (\<lambda>d.
     rbind (required (get_double j item ''confidence'') ''confidence'') (\<lambda>cf.
     rbind (required (get_int j item ''current_cpu'') ''current_cpu'') (\<lambda>c.
     Inr \<lparr>td_identity = Identity g t st, group = gr, demand = d, confidence = cf, current_cpu = c\<rparr>)))))))"

definition snapshot_edge :: "'p snapshot_json \<Rightarrow> 'p \<Rightarrow> relation_edge result" where
  "snapshot_edge j item =
     rbind (required (get_int j item ''from_tid'') ''from_tid'') (\<lambda>a.
     rbind (required (get_int j item ''to_tid'') ''to_tid'') (\<lambda>b.
     rbind (required (get_double j item ''score'') ''score'') (\<lambda>sc.
     Inr \<lparr>from_tid = a, to_tid = b, activity = get_or (get_double j item ''activity'') 0,
          sync = get_or (get_double j item ''sync'') 0, share = get_or (get_double j item ''share'') 0,
          stability = get_or (get_double j item ''stability'') 0, score = sc,
          handoff_rate = get_or (get_double j item ''handoff_rate'') 0,
          shared_vfs_seconds = get_or (get_double j item ''shared_vfs_seconds'') 0,
          active_overlap = get_or (get_double j item ''active_overlap'') 0,
          observation_count = get_or (get_unsigned j item ''observation_count'') 0,
          coverage = get_or (get_double j item ''coverage'') 0,
          coefficient_of_variation = get_or (get_double j item ''cv'') 0\<rparr>)))"

text \<open>\<open>doc\<close> is what \<^verbatim>\<open>read_json\<close> returns for the file. Missing optional parts have no items.\<close>

definition read_snapshot :: "'p snapshot_json \<Rightarrow> 'p result \<Rightarrow> snapshot result" where
  "read_snapshot j doc =
     rbind doc (\<lambda>root.
     rbind (required (get_string j root ''schema'') ''schema'') (\<lambda>schema.
     if schema \<noteq> ''affinitygraph.snapshot.v1'' then Inl (Runtime_Error ''unsupported snapshot schema'')
     else
       rbind (required (get_string j root ''window_id'') ''window_id'') (\<lambda>w.
       rbind (get_items j root ''topology.cpus'') (\<lambda>cs.
       rbind (rmap (snapshot_cpu j) cs) (\<lambda>cpus'.
       rbind (rfold (snapshot_distance j ''from_cpu'' ''to_cpu'' ''latency'') (get_or (get_items j root ''topology.cpu_latencies'') []) []) (\<lambda>lat.
       rbind (rfold (snapshot_distance j ''from_node'' ''to_node'' ''distance'') (get_or (get_items j root ''topology.node_distances'') []) []) (\<lambda>dist.
       rbind (get_items j root ''threads'') (\<lambda>ts.
       rbind (rmap (snapshot_thread j) ts) (\<lambda>threads.
       rbind (rmap (snapshot_edge j) (get_or (get_items j root ''edges'') [])) (\<lambda>es.
       if cpus' = [] then Inl (Runtime_Error ''snapshot has empty CPU envelope'')
       else Inr \<lparr>sn_window_id = w,
                 sn_hardware = \<lparr>cpus = cpus', cpu_latency = lat, node_distance = dist, node_calibrations = []\<rparr>,
                 sn_threads = threads, sn_edges = es\<rparr>))))))))))"

section \<open>Grading a placement\<close>

definition cpu_nodes :: "hardware_graph \<Rightarrow> (int, int) omap" where
  "cpu_nodes hw = fold (\<lambda>c. mput (cpu_id c) (cpu_node c)) (cpus hw) []"

record tally =
  tl_counts :: "(int, int) omap"
  tl_cpu_demand :: "(int, double) omap"
  tl_node_demand :: "(int, double) omap"
  tl_active :: nat
  tl_active_migrations :: nat
  tl_inactive_migrations :: nat
  tl_distance :: double
  tl_group_cpus :: "(string, int oset) omap"

definition new_tally :: "hardware_graph \<Rightarrow> tally" where
  "new_tally hw =
     \<lparr>tl_counts = fold (\<lambda>c. mput (cpu_id c) 0) (cpus hw) [], tl_cpu_demand = fold (\<lambda>c. mput (cpu_id c) 0) (cpus hw) [],
      tl_node_demand = [], tl_active = 0, tl_active_migrations = 0, tl_inactive_migrations = 0, tl_distance = 0,
      tl_group_cpus = []\<rparr>"

definition tally_thread :: "hardware_graph \<Rightarrow> strategy \<Rightarrow> (int, int) omap \<Rightarrow> thread_demand \<Rightarrow> tally \<Rightarrow> tally" where
  "tally_thread hw o' placed t l =
     (case map_of placed (td_tid t) of
        None \<Rightarrow> l
      | Some c \<Rightarrow>
          (let moved = (c \<noteq> current_cpu t); active = (active_threshold o' \<le> demand t) in
           l\<lparr>tl_counts := madd c 1 (tl_counts l), tl_cpu_demand := madd c (demand t) (tl_cpu_demand l),
             tl_node_demand := madd (mgetd 0 (cpu_nodes hw) c) (demand t) (tl_node_demand l),
             tl_group_cpus := mput (group t) (sput c (mgetd [] (tl_group_cpus l) (group t))) (tl_group_cpus l),
             tl_active := (if active then tl_active l + 1 else tl_active l),
             tl_active_migrations := (if active \<and> moved then tl_active_migrations l + 1 else tl_active_migrations l),
             tl_inactive_migrations := (if \<not> active \<and> moved then tl_inactive_migrations l + 1 else tl_inactive_migrations l),
             tl_distance := (if moved then tl_distance l + latency hw (current_cpu t) c else tl_distance l)\<rparr>))"

text \<open>The weight of the edges within a group, and of those within a node. A thread without a CPU throws.\<close>

definition group_edge ::
  "hardware_graph \<Rightarrow> (int, thread_demand) omap \<Rightarrow> (int, int) omap \<Rightarrow> relation_edge \<Rightarrow> double \<times> double \<Rightarrow> (double \<times> double) result" where
  "group_edge hw index placed e w =
     (case (map_of index (from_tid e), map_of index (to_tid e)) of
        (Some a, Some b) \<Rightarrow>
          if group a \<noteq> group b then Inr w
          else (case (map_of placed (from_tid e), map_of placed (to_tid e)) of
                  (Some c, Some d) \<Rightarrow>
                    Inr (fst w + score e,
                         if mgetd 0 (cpu_nodes hw) c = mgetd 0 (cpu_nodes hw) d then snd w + score e else snd w)
                | _ \<Rightarrow> Inl (Out_Of_Range ''map::at''))
      | _ \<Rightarrow> Inr w)"

record grade =
  gd_complete :: bool
  gd_inside :: bool
  gd_overload_zero :: bool
  gd_node_overload_zero :: bool
  gd_slot_limit :: bool
  gd_active_budget :: bool
  gd_deterministic :: bool
  gd_below_1s :: bool
  gd_passed :: bool
  gd_max_threads :: int
  gd_p95_threads :: double
  gd_count_cv :: double
  gd_count_gini :: double
  gd_max_demand :: double
  gd_active_migrations :: nat
  gd_inactive_migrations :: nat
  gd_migration_distance :: double
  gd_group_locality :: double
  gd_group_nonlocality :: double
  gd_group_spread :: double
  gd_node_overload :: double

definition mean :: "double list \<Rightarrow> double" where
  "mean xs = sum_list xs / real (length xs)"

definition count_cv :: "double list \<Rightarrow> double" where
  "count_cv xs =
     (let m = mean xs; variance = sum_list (map (\<lambda>x. (x - m) * (x - m)) xs)
      in if 0 < m then sqrt (variance / real (length xs)) / m else 0)"

definition count_gini :: "double list \<Rightarrow> double" where
  "count_gini xs =
     (let m = mean xs; total = sum_list (concat (map (\<lambda>a. map (\<lambda>b. \<bar>a - b\<bar>) xs) xs))
      in if 0 < m then total / (2 * real (length xs) * real (length xs) * m) else 0)"

definition largest :: "'a::linorder list \<Rightarrow> 'a" where
  "largest xs = fold max (tl xs) (hd xs)"

text \<open>\<open>ms\<close> is the measured time and \<open>same\<close> whether the repeated solution agrees.\<close>

definition grade_placement ::
  "strategy \<Rightarrow> hardware_graph \<Rightarrow> thread_demand list \<Rightarrow> relation_edge list \<Rightarrow> solver_placement \<Rightarrow> double \<Rightarrow> bool \<Rightarrow> grade result" where
  "grade_placement o' hw ts es p ms same =
     (let placed = assigned_cpu p;
          index = fold (\<lambda>t. mput (td_tid t) t) ts [];
          l = fold (tally_thread hw o' placed) ts (new_tally hw);
          counts = map (real_of_int \<circ> snd) (tl_counts l);
          demands = map (\<lambda>(c, _). mgetd 0 (tl_cpu_demand l) c) (tl_counts l);
          cap = cpu_cap hw ts (solve_options.truncate o');
          max_count = (if tl_counts l = [] then 0 else largest (map snd (tl_counts l)));
          node_over = sum_list (map (\<lambda>(n, load). max 0 (load - real (length (cpus_in_node hw n)))) (tl_node_demand l));
          complete = (length placed = length ts);
          inside = list_all (\<lambda>(_, c). c \<in> cpu_id ` set (cpus hw)) placed;
          budget = (tl_active l = 0 \<or>
            real (tl_active_migrations l) / real (tl_active l) \<le> maximum_migrated_active_threads_ratio o' + 1 / 10 ^ 12)
      in rbind (rfold (group_edge hw index placed) es (0, 0)) (\<lambda>(weight, local_weight).
         if \<not> list_all (\<lambda>(t, _). mhas index t) placed then Inl (Out_Of_Range ''map::at'')
         else
           Inr \<lparr>gd_complete = complete, gd_inside = inside, gd_overload_zero = (overload p \<le> 1 / 10 ^ 12),
                gd_node_overload_zero = (node_over \<le> 1 / 10 ^ 12), gd_slot_limit = (max_count \<le> cap),
                gd_active_budget = budget, gd_deterministic = same, gd_below_1s = (ms < 1000),
                gd_passed = (complete \<and> inside \<and> overload p \<le> 1 / 10 ^ 12 \<and> node_over \<le> 1 / 10 ^ 12 \<and> max_count \<le> cap \<and>
                  budget \<and> same \<and> ms < 1000),
                gd_max_threads = max_count, gd_p95_threads = percentile counts (95 / 100), gd_count_cv = count_cv counts,
                gd_count_gini = count_gini counts, gd_max_demand = largest demands,
                gd_active_migrations = tl_active_migrations l, gd_inactive_migrations = tl_inactive_migrations l,
                gd_migration_distance = tl_distance l,
                gd_group_locality = (if 0 < weight then local_weight / weight else 1),
                gd_group_nonlocality = (if 0 < weight then 1 - local_weight / weight else 0),
                gd_group_spread = (let spread = sum_list (map (\<lambda>(_, cs). real (length cs)) (tl_group_cpus l))
                                   in if tl_group_cpus l \<noteq> [] then spread / real (length (tl_group_cpus l)) else spread),
                gd_node_overload = node_over\<rparr>))"

definition same_placement :: "solver_placement \<Rightarrow> solver_placement \<Rightarrow> bool" where
  "same_placement a b \<longleftrightarrow>
     assigned_cpu b = assigned_cpu a \<and> overload b = overload a \<and> relation_cost b = relation_cost a \<and>
     migration_cost b = migration_cost a"

definition replay_snapshot :: "strategy \<Rightarrow> double \<Rightarrow> snapshot \<Rightarrow> (solver_placement \<times> grade) result" where
  "replay_snapshot o' ms sn =
     (let run = solve (sn_hardware sn) (sn_threads sn) (sn_edges sn) (solve_options.truncate o') in
      rbind run (\<lambda>p. rbind run (\<lambda>repeated.
      rbind (grade_placement o' (sn_hardware sn) (sn_threads sn) (sn_edges sn) p ms (same_placement p repeated)) (\<lambda>g.
      Inr (p, g)))))"

section \<open>Replaying a sequence\<close>

record sequence_frame =
  sf_timestamp_ns :: uint64
  sf_window_id :: string
  sf_phase :: string
  sf_demand_active :: nat
  sf_managed :: nat
  sf_retained_managed :: nat
  sf_replaced_managed :: nat
  sf_managed_jaccard :: double
  sf_internal_coverage :: double
  sf_incident_coverage :: double
  sf_eligible :: nat
  sf_pinned :: nat
  sf_dirty :: nat
  sf_candidates :: nat
  sf_budget :: nat
  sf_actions :: nat
  sf_cpu_slot_cap :: int
  sf_maximum_cpu_threads :: int
  sf_predicted_demand_threads :: nat
  sf_relation_edges_input :: nat
  sf_hotspot_edges :: nat
  sf_hotspot_similarity :: double
  sf_hotspot_stability_confirmation :: int
  sf_hotspot_replan_triggered :: bool
  sf_relation_node_locality :: double
  sf_p95_relation_node_locality :: double
  sf_same_cpu_relation_ratio :: double
  sf_hotspot_node_locality :: double
  sf_hotspot_same_cpu_ratio :: double
  sf_cross_node_hotspot_weight :: double
  sf_minimum_node_utilization :: double
  sf_maximum_node_utilization :: double
  sf_generation :: uint64
  sf_effective :: bool
  sf_solve_ms :: double
  sf_placement :: "(int, int) omap"

definition sequence_options :: "strategy \<Rightarrow> incremental_options" where
  "sequence_options o' =
     default_incremental_options
       \<lparr>maximum_migrated_threads_ratio := maximum_migrated_active_threads_ratio o', proposal_confirmations := 3,
        initial_node_passes := fm_passes o', initial_node_thread_slack_ratio := st_initial_node_thread_slack_ratio o',
        maximum_threads_per_cpu := (if 0 < max_threads_per_cpu o' then max_threads_per_cpu o' else 0),
        thread_slot_slack := slot_slack o', hotspot_edges_per_thread := nat (st_hotspot_edges_per_thread o'),
        hotspot_edge_quantile := st_hotspot_edge_quantile o', hotspot_component_boost := st_hotspot_component_boost o',
        maximum_managed_threads := st_maximum_managed_threads o',
        managed_thread_hysteresis_ratio := st_managed_thread_hysteresis_ratio o',
        hotspot_replan_growth_ratio := st_hotspot_replan_growth_ratio o',
        hotspot_replan_min_threads := nat (st_hotspot_replan_min_threads o'),
        hotspot_stability_threshold := st_hotspot_stability_threshold o',
        opt_hotspot_stability_confirmations := st_hotspot_stability_confirmations o'\<rparr>"

record sequence_state =
  sq_solver :: incremental_solver
  sq_cohort :: "int oset"
  sq_topology :: "cpu list"

definition sequence_candidates :: "strategy \<Rightarrow> int oset \<Rightarrow> thread_demand list \<Rightarrow> thread_demand list" where
  "sequence_candidates o' cohort ts =
     filter (\<lambda>t. \<not> confidence t < minimum_confidence o' \<and>
                 (active_threshold o' \<le> demand t \<or> td_tid t \<in> set cohort \<and> inactive_threshold o' \<le> demand t)) ts"

text \<open>The score of the edges with a property; a share of a total that is not positive has a default.\<close>

definition weight :: "(relation_edge \<Rightarrow> bool) \<Rightarrow> relation_edge list \<Rightarrow> double" where
  "weight P es = sum_list (map score (filter P es))"

definition share_of :: "double \<Rightarrow> double \<Rightarrow> double \<Rightarrow> double" where
  "share_of d part whole = (if 0 < whole then part / whole else d)"

definition index_tids :: "thread_demand list \<Rightarrow> (int, thread_demand) omap" where
  "index_tids ts = fold (\<lambda>t. mput (td_tid t) t) ts []"

definition jaccard :: "int oset \<Rightarrow> int oset \<Rightarrow> double" where
  "jaccard a b =
     (let both = filter (\<lambda>t. t \<in> set b) a; all = sfrom (a @ b)
      in if all = [] then 1 else real (length both) / real (length all))"

text \<open>The most threads on a CPU, and the demand of each node per online CPU.\<close>

definition most_threads :: "(int, int) omap \<Rightarrow> int" where
  "most_threads placed = fold max (map (\<lambda>(_, c). int (length (filter (\<lambda>(_, d). d = c) placed))) placed) 0"

definition utilizations :: "hardware_graph \<Rightarrow> (int, int) omap \<Rightarrow> thread_demand list \<Rightarrow> double list" where
  "utilizations hw placed ts =
     (let node_cpus = fold (\<lambda>c m. if online c then madd (cpu_node c) (1::int) m else m) (cpus hw) [];
          node_demand = fold (\<lambda>t m. case map_of placed (td_tid t) of None \<Rightarrow> m
                                    | Some c \<Rightarrow> madd (mgetd 0 (cpu_nodes hw) c) (demand t) m) ts []
      in map (\<lambda>(n, k). mgetd 0 node_demand n / real_of_int k) node_cpus)"

definition placed_edge :: "(int, int) omap \<Rightarrow> relation_edge \<Rightarrow> bool" where
  "placed_edge placed e \<longleftrightarrow> mhas placed (from_tid e) \<and> mhas placed (to_tid e)"

definition same_cpu_edge :: "(int, int) omap \<Rightarrow> relation_edge \<Rightarrow> bool" where
  "same_cpu_edge placed e \<longleftrightarrow> mgetd 0 placed (from_tid e) = mgetd 0 placed (to_tid e)"

definition local_edge :: "hardware_graph \<Rightarrow> (int, int) omap \<Rightarrow> relation_edge \<Rightarrow> bool" where
  "local_edge hw placed e \<longleftrightarrow>
     mgetd 0 (cpu_nodes hw) (mgetd 0 placed (from_tid e)) = mgetd 0 (cpu_nodes hw) (mgetd 0 placed (to_tid e))"

definition frame_report ::
  "strategy \<Rightarrow> snapshot \<Rightarrow> uint64 \<Rightarrow> double \<Rightarrow> int oset \<Rightarrow> thread_demand list \<Rightarrow> thread_demand list \<Rightarrow>
   solver_proposal \<Rightarrow> incremental_solver \<Rightarrow> sequence_frame" where
  "frame_report o' sn now ms cohort candidates managed q v =
     (let hw = sn_hardware sn; es = sn_edges sn; opts = sequence_options o'; placed = is_placement v;
          next' = sfrom (map td_tid managed); retained = filter (\<lambda>t. t \<in> set next') cohort;
          hot = select_hotspot_edges es (index_tids candidates) opts;
          hot_total = weight (\<lambda>_. True) hot;
          related = filter (\<lambda>e. placed_edge placed e \<and> 0 < score e) es;
          p95 = percentile (map score related) (95 / 100);
          whole = weight (\<lambda>_. True) related;
          strong = filter (\<lambda>e. p95 \<le> score e + 1 / 10 ^ 12) related;
          chosen = filter (placed_edge placed) (select_hotspot_edges es (index_tids managed) opts);
          chosen_total = weight (\<lambda>_. True) chosen;
          use = utilizations hw placed managed
      in \<lparr>sf_timestamp_ns = now, sf_window_id = sn_window_id sn, sf_phase = incremental_phase_name (phase v),
          sf_demand_active = length candidates, sf_managed = length managed, sf_retained_managed = length retained,
          sf_replaced_managed = length cohort - length retained, sf_managed_jaccard = jaccard cohort next',
          sf_internal_coverage = share_of 1 (weight (\<lambda>e. from_tid e \<in> set next' \<and> to_tid e \<in> set next') hot) hot_total,
          sf_incident_coverage = share_of 1 (weight (\<lambda>e. from_tid e \<in> set next' \<or> to_tid e \<in> set next') hot) hot_total,
          sf_eligible = eligible_threads q, sf_pinned = length (pinned v), sf_dirty = dirty_threads q,
          sf_candidates = candidate_threads q, sf_budget = sp_migration_budget q, sf_actions = length (sp_actions q),
          sf_cpu_slot_cap = sp_cpu_slot_cap q, sf_maximum_cpu_threads = most_threads placed,
          sf_predicted_demand_threads = predicted_demand_threads q, sf_relation_edges_input = relation_edges_input q,
          sf_hotspot_edges = hotspot_edges q, sf_hotspot_similarity = hotspot_similarity q,
          sf_hotspot_stability_confirmation = sp_hotspot_stability_confirmation q,
          sf_hotspot_replan_triggered = hotspot_replan_triggered q,
          sf_relation_node_locality = share_of 1 (weight (local_edge hw placed) related) whole,
          sf_p95_relation_node_locality = share_of 1 (weight (local_edge hw placed) strong) (weight (\<lambda>_. True) strong),
          sf_same_cpu_relation_ratio = share_of 0 (weight (same_cpu_edge placed) related) whole,
          sf_hotspot_node_locality = share_of 1 (weight (local_edge hw placed) chosen) chosen_total,
          sf_hotspot_same_cpu_ratio = share_of 0 (weight (same_cpu_edge placed) chosen) chosen_total,
          sf_cross_node_hotspot_weight = weight (\<lambda>e. \<not> local_edge hw placed e) chosen,
          sf_minimum_node_utilization = (if use = [] then 0 else fold min (tl use) (hd use)),
          sf_maximum_node_utilization = fold max use 0,
          sf_generation = is_generation v, sf_effective = inc_effective v, sf_solve_ms = ms, sf_placement = placed\<rparr>)"

definition sequence_step ::
  "strategy \<Rightarrow> double \<Rightarrow> uint64 \<times> snapshot \<Rightarrow> sequence_state \<Rightarrow> (sequence_state \<times> sequence_frame) result" where
  "sequence_step o' ms fr st =
     (case fr of (now, sn) \<Rightarrow>
        if sq_topology st \<noteq> [] \<and> cpus (sn_hardware sn) \<noteq> sq_topology st
        then Inl (Runtime_Error ''sequence changes CPU topology'')
        else
          (let opts = sequence_options o'; cohort = sq_cohort st;
               candidates = sequence_candidates o' cohort (sn_threads sn);
               managed = select_managed_threads candidates (sn_edges sn) cohort opts;
               next' = sfrom (map td_tid managed);
               cooled = filter (\<lambda>t. t \<notin> set next') cohort;
               v0 = fold inc_remove_thread cooled (sq_solver st)
           in case inc_propose (sn_hardware sn) managed (sn_edges sn) opts now None v0 of (r, v1) \<Rightarrow>
                rbind r (\<lambda>q.
                let v = (if sp_ready q then inc_commit q now [] v1 else v1)
                in Inr (\<lparr>sq_solver = v, sq_cohort = next', sq_topology = cpus (sn_hardware sn)\<rparr>,
                        frame_report o' sn now ms cohort candidates managed q v))))"

definition parent_path :: "string \<Rightarrow> string" where
  "parent_path path =
     (case rfind_char (CHR ''/'') path of
        None \<Rightarrow> []
      | Some i \<Rightarrow> (let d = rev (dropWhile (\<lambda>c. c = CHR ''/'') (rev (take i path))) in if d = [] then ''/'' else d))"

definition resolve_path :: "string \<Rightarrow> string \<Rightarrow> string" where
  "resolve_path base path =
     (if path \<noteq> [] \<and> hd path = CHR ''/'' then path
      else if base = [] \<or> last base = CHR ''/'' then base @ path else base @ ''/'' @ path)"

definition read_frame :: "'p snapshot_json \<Rightarrow> (string \<Rightarrow> 'p result) \<Rightarrow> string \<Rightarrow> 'p \<Rightarrow> (uint64 \<times> snapshot) result" where
  "read_frame j docs base item =
     rbind (required (get_u64 j item ''timestamp_ns'') ''timestamp_ns'') (\<lambda>t.
     rbind (required (get_string j item ''snapshot'') ''snapshot'') (\<lambda>path.
     rbind (read_snapshot j (docs (resolve_path base path))) (\<lambda>sn. Inr (t, sn))))"

text \<open>
  \<open>docs\<close> gives what \<^verbatim>\<open>read_json\<close> returns for a path. The frames are read one by one, so that an error
  in a later one comes after the steps before it.
\<close>

fun run_frames ::
  "'p snapshot_json \<Rightarrow> (string \<Rightarrow> 'p result) \<Rightarrow> string \<Rightarrow> strategy \<Rightarrow> (nat \<Rightarrow> double) \<Rightarrow> 'p list \<Rightarrow> sequence_state \<Rightarrow>
   sequence_frame list result" where
  "run_frames j docs base o' ms [] st = Inr []"
| "run_frames j docs base o' ms (item # items) st =
     rbind (read_frame j docs base item) (\<lambda>fr.
     rbind (sequence_step o' (ms 0) fr st) (\<lambda>(st', x).
     rbind (run_frames j docs base o' (ms \<circ> Suc) items st') (\<lambda>xs. Inr (x # xs))))"

definition run_sequence ::
  "'p snapshot_json \<Rightarrow> (string \<Rightarrow> 'p result) \<Rightarrow> string \<Rightarrow> strategy \<Rightarrow> (nat \<Rightarrow> double) \<Rightarrow> sequence_frame list result" where
  "run_sequence j docs path o' ms =
     rbind (docs path) (\<lambda>root.
     rbind (required (get_string j root ''schema'') ''schema'') (\<lambda>schema.
     if schema \<noteq> ''affinitygraph.replay-sequence.v1'' then Inl (Runtime_Error ''unsupported replay sequence schema'')
     else
       rbind (get_items j root ''frames'') (\<lambda>items.
       rbind (run_frames j docs (parent_path path) o' ms items
                \<lparr>sq_solver = new_incremental_solver True, sq_cohort = [], sq_topology = []\<rparr>) (\<lambda>xs.
       if xs = [] then Inl (Runtime_Error ''replay sequence has no frames'') else Inr xs))))"

definition same_sequence_frame :: "sequence_frame \<Rightarrow> sequence_frame \<Rightarrow> bool" where
  "same_sequence_frame a b \<longleftrightarrow>
     sf_timestamp_ns a = sf_timestamp_ns b \<and> sf_phase a = sf_phase b \<and> sf_actions a = sf_actions b \<and>
     sf_generation a = sf_generation b \<and> sf_effective a = sf_effective b \<and> sf_placement a = sf_placement b"

definition same_sequence :: "sequence_frame list \<Rightarrow> sequence_frame list \<Rightarrow> bool" where
  "same_sequence a b \<longleftrightarrow> list_all2 same_sequence_frame a b"

section \<open>The command\<close>

record replay_paths =
  rp_snapshot :: string
  rp_sequence :: string
  rp_strategy :: string
  rp_output :: string

definition strategy_usage :: exn where
  "strategy_usage = Runtime_Error ''usage: affinity-replay (--snapshot FILE | --sequence FILE) --strategy FILE --output FILE''"

fun strategy_args :: "string list \<Rightarrow> replay_paths \<Rightarrow> replay_paths option" where
  "strategy_args [] x =
     (if (rp_snapshot x = []) = (rp_sequence x = []) \<or> rp_strategy x = [] \<or> rp_output x = [] then None else Some x)"
| "strategy_args (a # v # r) x =
     (if a = ''--snapshot'' then strategy_args r (x\<lparr>rp_snapshot := v\<rparr>)
      else if a = ''--sequence'' then strategy_args r (x\<lparr>rp_sequence := v\<rparr>)
      else if a = ''--strategy'' then strategy_args r (x\<lparr>rp_strategy := v\<rparr>)
      else if a = ''--output'' then strategy_args r (x\<lparr>rp_output := v\<rparr>) else None)"
| "strategy_args [a] x = None"

text \<open>What is written: the frames with the flag \<^verbatim>\<open>deterministic\<close>, or the placement with its grade.\<close>

datatype replay_output = Sequence_Result "sequence_frame list" bool | Snapshot_Result string solver_placement grade

definition strategy_replay_main ::
  "'p snapshot_json \<Rightarrow> (string \<Rightarrow> 'p result) \<Rightarrow> (string \<Rightarrow> string option) \<Rightarrow> (nat \<Rightarrow> double) \<Rightarrow> (nat \<Rightarrow> double) \<Rightarrow>
   string list \<Rightarrow> replay_output result" where
  "strategy_replay_main j docs files ms ms' argv =
     (case strategy_args argv \<lparr>rp_snapshot = [], rp_sequence = [], rp_strategy = [], rp_output = []\<rparr> of
        None \<Rightarrow> Inl strategy_usage
      | Some x \<Rightarrow>
          rbind (read_strategy (rp_strategy x) (files (rp_strategy x))) (\<lambda>o'.
          if rp_sequence x \<noteq> []
          then rbind (run_sequence j docs (rp_sequence x) o' ms) (\<lambda>xs.
               rbind (run_sequence j docs (rp_sequence x) o' ms') (\<lambda>ys. Inr (Sequence_Result xs (same_sequence xs ys))))
          else rbind (read_snapshot j (docs (rp_snapshot x))) (\<lambda>sn.
               rbind (replay_snapshot o' (ms 0) sn) (\<lambda>(p, g). Inr (Snapshot_Result (sn_window_id sn) p g)))))"

section \<open>What a passing grade means\<close>

definition threads_on :: "(int, int) omap \<Rightarrow> int \<Rightarrow> thread_demand list \<Rightarrow> nat" where
  "threads_on placed c ts = length (filter (\<lambda>t. map_of placed (td_tid t) = Some c) ts)"

definition moved_active :: "strategy \<Rightarrow> (int, int) omap \<Rightarrow> thread_demand list \<Rightarrow> nat" where
  "moved_active o' placed ts =
     length (filter (\<lambda>t. active_threshold o' \<le> demand t \<and> map_of placed (td_tid t) \<notin> {None, Some (current_cpu t)}) ts)"

definition placed_active :: "strategy \<Rightarrow> (int, int) omap \<Rightarrow> thread_demand list \<Rightarrow> nat" where
  "placed_active o' placed ts = length (filter (\<lambda>t. active_threshold o' \<le> demand t \<and> map_of placed (td_tid t) \<noteq> None) ts)"

lemma tally_counts:
  "mgetd 0 (tl_counts (fold (tally_thread hw o' placed) ts l)) c = mgetd 0 (tl_counts l) c + int (threads_on placed c ts)"
proof (induction ts arbitrary: l)
  case (Cons t ts)
  show ?case by (simp add: Cons.IH tally_thread_def [of hw o' placed t l] threads_on_def madd_def Let_def split: option.split)
qed (simp add: threads_on_def)

lemma tally_keys: "mhas (tl_counts l) c \<Longrightarrow> mhas (tl_counts (fold (tally_thread hw o' placed) ts l)) c"
proof (induction ts arbitrary: l)
  case (Cons t ts)
  have "mhas (tl_counts (tally_thread hw o' placed t l)) c"
    using Cons.prems by (auto simp: tally_thread_def mhas_def madd_def Let_def split: option.split)
  then show ?case using Cons.IH by simp
qed simp

lemma tally_active:
  "tl_active (fold (tally_thread hw o' placed) ts l) = tl_active l + placed_active o' placed ts"
  "tl_active_migrations (fold (tally_thread hw o' placed) ts l) = tl_active_migrations l + moved_active o' placed ts"
proof (induction ts arbitrary: l)
  case (Cons t ts)
  { case 1 show ?case by (auto simp: Cons.IH tally_thread_def [of hw o' placed t l] placed_active_def Let_def split: option.split)
  next
    case 2 show ?case by (auto simp: Cons.IH tally_thread_def [of hw o' placed t l] moved_active_def Let_def split: option.split) }
qed (simp_all add: placed_active_def moved_active_def)

lemma largest_ge: "x \<in> set xs \<Longrightarrow> x \<le> largest xs"
  by (cases xs) (simp_all add: largest_def Max.set_eq_fold [symmetric])

lemma zero_counts: "c \<in> cpu_id ` set cs \<Longrightarrow> mhas (fold (\<lambda>c. mput (cpu_id c) (0::int)) cs m) c"
proof (induction cs arbitrary: m)
  case (Cons a cs)
  have keep: "mhas m c \<Longrightarrow> mhas (fold (\<lambda>c. mput (cpu_id c) (0::int)) cs m) c" for m
    by (induction cs arbitrary: m) (auto simp: mhas_def)
  show ?case
  proof (cases "c = cpu_id a")
    case True
    then show ?thesis using keep by (simp add: mhas_def)
  next
    case False
    then show ?thesis using Cons by simp
  qed
qed simp

lemma zero_counts_value: "mgetd 0 m c = 0 \<Longrightarrow> mgetd 0 (fold (\<lambda>c. mput (cpu_id c) (0::int)) cs m) c = 0"
  by (induction cs arbitrary: m) simp_all

lemma mhas_index: "mhas (fold (\<lambda>t. mput (td_tid t) t) ts m) k \<longleftrightarrow> k \<in> td_tid ` set ts \<or> mhas m k"
  by (induction ts arbitrary: m) (auto simp: mhas_def)

text \<open>
  A placement that passes the gates is what the gates name: every thread has a CPU of the topology,
  no CPU has more threads than the cap, and the active threads that move are within the budget.
\<close>

theorem passing_grade_sound:
  assumes "grade_placement o' hw ts es p ms same = Inr g" "gd_passed g"
    and "distinct (map fst (assigned_cpu p))" "distinct (map td_tid ts)"
  shows "(\<forall>t \<in> set ts. \<exists>c \<in> cpu_id ` set (cpus hw). map_of (assigned_cpu p) (td_tid t) = Some c) \<and>
    (\<forall>c \<in> cpu_id ` set (cpus hw). int (threads_on (assigned_cpu p) c ts) \<le> cpu_cap hw ts (solve_options.truncate o')) \<and>
    real (moved_active o' (assigned_cpu p) ts) \<le>
      (maximum_migrated_active_threads_ratio o' + 1 / 10 ^ 12) * real (placed_active o' (assigned_cpu p) ts) \<and>
    same \<and> ms < 1000"
proof -
  let ?m = "assigned_cpu p" and ?l = "fold (tally_thread hw o' (assigned_cpu p)) ts (new_tally hw)"
  let ?cap = "cpu_cap hw ts (solve_options.truncate o')"
  have g: "list_all (\<lambda>(t, _). mhas (fold (\<lambda>t. mput (td_tid t) t) ts []) t) ?m" "length ?m = length ts"
    "list_all (\<lambda>(_, c). c \<in> cpu_id ` set (cpus hw)) ?m"
    "tl_counts ?l \<noteq> [] \<longrightarrow> largest (map snd (tl_counts ?l)) \<le> ?cap"
    "tl_active ?l = 0 \<or> real (tl_active_migrations ?l) / real (tl_active ?l) \<le> maximum_migrated_active_threads_ratio o' + 1 / 10 ^ 12"
    "same" "ms < 1000"
    using assms(1,2) unfolding grade_placement_def Let_def by (auto simp: rbind_def split: sum.splits prod.splits if_splits)
  have "fst ` set ?m \<subseteq> td_tid ` set ts" using g(1) by (auto simp: list_all_iff mhas_index mhas_def [of "[]"])
  moreover have "card (fst ` set ?m) = card (td_tid ` set ts)"
    using g(2) assms(3,4) by (metis distinct_card length_map set_map)
  ultimately have eq: "fst ` set ?m = td_tid ` set ts" by (simp add: card_subset_eq)
  have a: "\<exists>c \<in> cpu_id ` set (cpus hw). map_of ?m (td_tid t) = Some c" if "t \<in> set ts" for t
  proof -
    have "td_tid t \<in> dom (map_of ?m)" using that eq by (simp add: dom_map_of_conv_image_fst)
    then obtain c where c: "map_of ?m (td_tid t) = Some c" by blast
    then have "c \<in> cpu_id ` set (cpus hw)" using g(3) map_of_SomeD [OF c] by (auto simp: list_all_iff)
    then show ?thesis using c by blast
  qed
  have b: "int (threads_on ?m c ts) \<le> ?cap" if c: "c \<in> cpu_id ` set (cpus hw)" for c
  proof -
    have "mhas (tl_counts ?l) c" using zero_counts [OF c] by (intro tally_keys) (simp add: new_tally_def)
    then obtain n where n: "map_of (tl_counts ?l) c = Some n" by (auto simp: mhas_def)
    moreover have "mgetd 0 (tl_counts ?l) c = int (threads_on ?m c ts)"
      by (simp add: tally_counts new_tally_def zero_counts_value)
    ultimately have "n = int (threads_on ?m c ts)" by (simp add: mgetd_def)
    moreover have "n \<in> set (map snd (tl_counts ?l))" using map_of_SomeD [OF n] by force
    ultimately show ?thesis using largest_ge g(4) by fastforce
  qed
  have "real (moved_active o' ?m ts) \<le> (maximum_migrated_active_threads_ratio o' + 1 / 10 ^ 12) * real (placed_active o' ?m ts)"
  proof (cases "placed_active o' ?m ts = 0")
    case True
    then have "moved_active o' ?m ts = 0" by (auto simp: placed_active_def moved_active_def filter_empty_conv)
    then show ?thesis using True by simp
  next
    case False
    then show ?thesis using g(5) by (simp add: tally_active new_tally_def field_simps)
  qed
  then show ?thesis using a b g(6,7) by blast
qed

section \<open>Determinism\<close>

lemma frame_report_clock:
  "same_sequence_frame (frame_report o' sn now ms cohort candidates managed q v) (frame_report o' sn now ms' cohort candidates managed q v)"
  by (simp add: same_sequence_frame_def frame_report_def Let_def)

lemma sequence_step_clock:
  assumes "sequence_step o' ms fr st = Inr (st', x)"
  shows "\<exists>y. sequence_step o' ms' fr st = Inr (st', y) \<and> same_sequence_frame x y"
  using assms frame_report_clock unfolding sequence_step_def rbind_def Let_def
  by (auto split: prod.splits sum.splits if_split_asm)

lemma run_frames_clock:
  assumes "run_frames j docs base o' ms items st = Inr xs"
  shows "\<exists>ys. run_frames j docs base o' ms' items st = Inr ys \<and> same_sequence xs ys"
  using assms
proof (induction items arbitrary: st ms ms' xs)
  case Nil
  then show ?case by (simp add: same_sequence_def)
next
  case (Cons item items)
  then obtain fr st' x zs where z: "read_frame j docs base item = Inr fr" "sequence_step o' (ms 0) fr st = Inr (st', x)"
    "run_frames j docs base o' (ms \<circ> Suc) items st' = Inr zs" "xs = x # zs"
    by (auto simp: rbind_def split: sum.splits prod.splits)
  obtain y where "sequence_step o' (ms' 0) fr st = Inr (st', y)" "same_sequence_frame x y"
    using sequence_step_clock [OF z(2)] by blast
  moreover obtain ys where "run_frames j docs base o' (ms' \<circ> Suc) items st' = Inr ys" "same_sequence zs ys"
    using Cons.IH [OF z(3)] by blast
  ultimately show ?case using z(1,4) by (simp add: rbind_def same_sequence_def)
qed

text \<open>A sequence that is replayed once is replayed again with the same result, whatever the clock says.\<close>

lemma sequence_deterministic:
  assumes "run_sequence j docs path o' ms = Inr xs"
  shows "\<exists>ys. run_sequence j docs path o' ms' = Inr ys \<and> same_sequence xs ys"
proof -
  obtain root items where r: "docs path = Inr root"
    "required (get_string j root ''schema'') ''schema'' = Inr ''affinitygraph.replay-sequence.v1''"
    "get_items j root ''frames'' = Inr items"
    "run_frames j docs (parent_path path) o' ms items
       \<lparr>sq_solver = new_incremental_solver True, sq_cohort = [], sq_topology = []\<rparr> = Inr xs" "xs \<noteq> []"
    using assms by (auto simp: run_sequence_def rbind_def split: sum.splits if_splits)
  obtain ys where ys: "run_frames j docs (parent_path path) o' ms' items
       \<lparr>sq_solver = new_incremental_solver True, sq_cohort = [], sq_topology = []\<rparr> = Inr ys" "same_sequence xs ys"
    using run_frames_clock [OF r(4)] by blast
  then have "ys \<noteq> []" using r(5) by (auto simp: same_sequence_def)
  then show ?thesis using r(1-3) ys by (simp add: run_sequence_def rbind_def)
qed

section \<open>Metrics\<close>

lemma weight_le: "(\<And>e. e \<in> set es \<Longrightarrow> 0 \<le> score e) \<Longrightarrow> 0 \<le> weight P es \<and> weight P es \<le> weight (\<lambda>_. True) es"
proof (induction es)
  case (Cons a es)
  then have "0 \<le> score a" "0 \<le> weight P es \<and> weight P es \<le> weight (\<lambda>_. True) es" by simp_all
  then show ?case by (simp add: weight_def)
qed (simp add: weight_def)

lemma share_bounded:
  "(\<And>e. e \<in> set es \<Longrightarrow> 0 \<le> score e) \<Longrightarrow> d \<in> {0..1} \<Longrightarrow> share_of d (weight P es) (weight (\<lambda>_. True) es) \<in> {0..1}"
  using weight_le [of es P] by (simp add: share_of_def)

lemma jaccard_bounds:
  assumes "distinct a"
  shows "jaccard a b \<in> {0..1}"
proof -
  have "length (filter (\<lambda>t. t \<in> set b) a) = card (set a \<inter> set b)"
    using distinct_card [of "filter (\<lambda>t. t \<in> set b) a"] assms by (simp add: Int_def)
  also have "\<dots> \<le> card (set (sfrom (a @ b)))" by (rule card_mono) auto
  also have "\<dots> \<le> length (sfrom (a @ b))" by (rule card_length)
  finally show ?thesis by (simp add: jaccard_def Let_def divide_le_eq)
qed

text \<open>The shares of relations that a frame reports are between zero and one.\<close>

lemma relation_shares_bounded:
  "sf_relation_node_locality (frame_report o' sn now ms cohort candidates managed q v) \<in> {0..1}"
  "sf_p95_relation_node_locality (frame_report o' sn now ms cohort candidates managed q v) \<in> {0..1}"
  "sf_same_cpu_relation_ratio (frame_report o' sn now ms cohort candidates managed q v) \<in> {0..1}"
  unfolding frame_report_def Let_def sequence_frame.select_convs by (rule share_bounded; auto)+

text \<open>With the thresholds of a configuration the candidates are those of the supervisor.\<close>

lemma sequence_candidates_live:
  assumes "minimum_confidence o' = cfg_minimum_confidence c" "active_threshold o' = cfg_active_demand_threshold c"
    "inactive_threshold o' = cfg_inactive_demand_threshold c"
  shows "sequence_candidates o' cohort ts = active_candidates c cohort ts"
  using assms by (simp add: sequence_candidates_def active_candidates_def conj_commute)

text \<open>A thread that stays where it is passes.\<close>

definition kept_placement :: solver_placement where
  "kept_placement = empty_placement\<lparr>assigned_cpu := [(10, 1)]\<rparr>"

lemma kept_placement_passes:
  "\<exists>g. grade_placement new_strategy sample_hardware [sample_thread_on 10 (1 / 2) 1] [] kept_placement 1 True = Inr g \<and> gd_passed g"
  by (simp add: grade_placement_def kept_placement_def empty_placement_def new_strategy_def sample_hardware_def sample_thread_on_def
      tally_thread_def new_tally_def cpu_nodes_def cpus_in_node_def madd_def mgetd_def mhas_def largest_def cpu_cap_def
      solve_options.truncate_def rbind_def Let_def)

lemma index_range: "map_of (fold (\<lambda>t. mput (td_tid t) t) ts []) k = Some v \<Longrightarrow> k \<in> td_tid ` set ts"
  using mhas_index [of ts "[]" k] by (simp add: mhas_def)

lemma group_edges_total:
  assumes "td_tid ` set ts \<subseteq> dom (map_of placed)"
  shows "\<exists>w'. rfold (group_edge hw (fold (\<lambda>t. mput (td_tid t) t) ts []) placed) es w = Inr w'"
proof (induction es arbitrary: w)
  case (Cons e es)
  have "\<exists>w'. group_edge hw (fold (\<lambda>t. mput (td_tid t) t) ts []) placed e w = Inr w'"
    using assms by (auto simp: group_edge_def split: option.splits dest!: index_range)
  then show ?case using Cons.IH by auto
qed simp

lemma grade_total:
  assumes "dom (map_of (assigned_cpu p)) = td_tid ` set ts"
  shows "\<exists>g. grade_placement o' hw ts es p ms same = Inr g \<and> gd_deterministic g = same \<and>
    (gd_inside g \<longleftrightarrow> list_all (\<lambda>(_, c). c \<in> cpu_id ` set (cpus hw)) (assigned_cpu p))"
proof -
  obtain w where w: "rfold (group_edge hw (fold (\<lambda>t. mput (td_tid t) t) ts []) (assigned_cpu p)) es (0, 0) = Inr w"
    using group_edges_total [of ts "assigned_cpu p"] assms by blast
  have "list_all (\<lambda>(t, _). mhas (fold (\<lambda>t. mput (td_tid t) t) ts []) t) (assigned_cpu p)"
    using assms by (force simp: list_all_iff mhas_index dom_map_of_conv_image_fst)
  then show ?thesis using w by (cases w) (simp add: grade_placement_def Let_def rbind_def)
qed

text \<open>
  On a topology whose nodes all have an online CPU, a snapshot with threads is solved and graded
  without an exception: the placement has exactly the threads of the snapshot, all on CPUs of the
  topology, and the repeated solution agrees.
\<close>

lemma snapshot_replay_succeeds:
  assumes "sn_threads sn \<noteq> []" "cpus (sn_hardware sn) \<noteq> []"
    "\<forall>n \<in> set (nodes (sn_hardware sn)). cpus_in_node (sn_hardware sn) n \<noteq> []"
  shows "\<exists>p g. replay_snapshot o' ms sn = Inr (p, g) \<and> dom (map_of (assigned_cpu p)) = td_tid ` set (sn_threads sn) \<and>
    ran (map_of (assigned_cpu p)) \<subseteq> cpu_id ` set (cpus (sn_hardware sn)) \<and> gd_deterministic g"
proof -
  obtain p where p: "solve (sn_hardware sn) (sn_threads sn) (sn_edges sn) (solve_options.truncate o') = Inr p"
    "dom (map_of (assigned_cpu p)) = td_tid ` set (sn_threads sn)"
    "ran (map_of (assigned_cpu p)) \<subseteq> cpu_id ` set (cpus (sn_hardware sn))"
    using solve_places [OF assms] by blast
  obtain g where "grade_placement o' (sn_hardware sn) (sn_threads sn) (sn_edges sn) p ms True = Inr g" "gd_deterministic g"
    using grade_total [OF p(2)] by blast
  moreover have "same_placement p p" by (simp add: same_placement_def)
  ultimately show ?thesis using p by (simp add: replay_snapshot_def Let_def rbind_def)
qed

end
