(* ===== verification/Window_Log.thy ===== *)
theory Window_Log
  imports Domain_Replay
begin

text \<open>
  What the supervisor logs of a solve window (\<^verbatim>\<open>Runtime::maybe_solve\<close> and \<^verbatim>\<open>solve_numa_domains\<close>,
  \<^verbatim>\<open>src/runtime.cpp\<close>) and how the replay tool reads it back. A log line is the list of its fields; the
  JSON library is described by what it gives back for a line that carries such fields.
\<close>

section \<open>Log lines\<close>

datatype log_value =
    Log_Int int
  | Log_U64 uint64
  | Log_Real double
  | Log_Text string
  | Log_Bool bool
  | Log_Ints "int list"

type_synonym log_fields = "(string \<times> log_value) list"

text \<open>\<^verbatim>\<open>Runtime::log\<close>: the time, the type, then the fields of the event.\<close>

definition log_line :: "uint64 \<Rightarrow> string \<Rightarrow> log_fields \<Rightarrow> log_fields" where
  "log_line t type fs = (''timestamp_ns'', Log_U64 t) # (''type'', Log_Text type) # fs"

text \<open>
  \<^verbatim>\<open>std::to_string\<close> of a number with a fraction has six decimals, an exact half rounded to the even
  neighbour. A string comes back without the control characters that \<^verbatim>\<open>json_escape\<close> drops.
\<close>

definition half_even :: "double \<Rightarrow> int" where
  "half_even x =
     (let f = \<lfloor>x\<rfloor>; d = x - of_int f in
      if d < 1 / 2 then f else if 1 / 2 < d then f + 1 else if even f then f else f + 1)"

definition six_decimals :: "double \<Rightarrow> double" where
  "six_decimals x = of_int (half_even (x * 10 ^ 6)) / 10 ^ 6"

definition log_text :: "string \<Rightarrow> log_value" where
  "log_text s = Log_Text (json_unescape (json_escape s))"

abbreviation log_real :: "double \<Rightarrow> log_value" where
  "log_real x \<equiv> Log_Real (six_decimals x)"

section \<open>The log of a window\<close>

definition mode_name :: "mode \<Rightarrow> string" where
  "mode_name m = (case m of Active \<Rightarrow> ''active'' | Plan \<Rightarrow> ''plan'' | Observe \<Rightarrow> ''observe'')"

definition begin_fields :: "string \<Rightarrow> nat \<Rightarrow> mode \<Rightarrow> log_fields" where
  "begin_fields w n m = [(''window_id'', Log_Text w), (''sequence'', Log_Int (int n)), (''mode'', Log_Text (mode_name m))]"

definition thread_fields :: "string \<Rightarrow> thread_window_record \<Rightarrow> log_fields" where
  "thread_fields w r =
     [(''window_id'', Log_Text w), (''tgid'', Log_Int (tgid (tw_identity r))), (''tid'', Log_Int (tid (tw_identity r))),
      (''starttime'', Log_U64 (starttime (tw_identity r))), (''comm'', log_text (tw_comm r)),
      (''parent_tid'', Log_Int (tw_parent_tid r)), (''start_routine'', Log_U64 (tw_start_routine r)),
      (''start_symbol'', log_text (tw_start_symbol r)), (''group'', log_text (tw_group r)),
      (''demand'', log_real (tw_demand r)), (''confidence'', log_real (tw_confidence r)),
      (''current_cpu'', Log_Int (tw_current_cpu r)), (''allowed_cpus'', Log_Ints (tw_allowed_cpus r)),
      (''state'', Log_Text [tw_state r]), (''sample_count'', Log_Int (int (sample_count r))),
      (''runtime_delta_ns'', Log_U64 (runtime_delta_ns r)), (''runqueue_delta_ns'', Log_U64 (runqueue_delta_ns r)),
      (''voluntary_switches_delta'', Log_U64 (voluntary_switches_delta r)),
      (''involuntary_switches_delta'', Log_U64 (involuntary_switches_delta r))]"

abbreviation relation_log_limit :: nat where "relation_log_limit \<equiv> 4096"

text \<open>The strongest edges, by score, then by the two threads.\<close>

definition logged_edges :: "relation_edge list \<Rightarrow> relation_edge list" where
  "logged_edges es = take (min relation_log_limit (length es)) (sort_key (\<lambda>e. (- score e, from_tid e, to_tid e)) es)"

definition summary_fields :: "string \<Rightarrow> relation_edge list \<Rightarrow> log_fields" where
  "summary_fields w es =
     [(''window_id'', Log_Text w), (''total'', Log_Int (int (length es))),
      (''logged'', Log_Int (int (min relation_log_limit (length es)))),
      (''truncated'', Log_Bool (min relation_log_limit (length es) < length es))]"

definition edge_fields :: "string \<Rightarrow> relation_edge \<Rightarrow> log_fields" where
  "edge_fields w e =
     [(''window_id'', Log_Text w), (''from_tid'', Log_Int (from_tid e)), (''to_tid'', Log_Int (to_tid e)),
      (''activity'', log_real (activity e)), (''sync'', log_real (sync e)), (''share'', log_real (share e)),
      (''stability'', log_real (stability e)), (''score'', log_real (score e)), (''handoff_rate'', log_real (handoff_rate e)),
      (''shared_vfs_seconds'', log_real (shared_vfs_seconds e)), (''active_overlap'', log_real (active_overlap e)),
      (''observation_count'', Log_Int (int (observation_count e))), (''coverage'', log_real (coverage e)),
      (''cv'', log_real (coefficient_of_variation e))]"

text \<open>
  The lines of a window that reaches a plan of the domain strategy. \<open>clock\<close> is the time of each line;
  the fields of the selector's lines that the replay does not read are \<open>input\<close>, \<open>output\<close> and \<open>details\<close>.
\<close>

definition window_events ::
  "string \<Rightarrow> nat \<Rightarrow> mode \<Rightarrow> thread_window_record list \<Rightarrow> relation_edge list \<Rightarrow> log_fields \<Rightarrow> log_fields \<Rightarrow> log_fields \<Rightarrow>
   (string \<times> log_fields) list" where
  "window_events w n m rs es input output details =
     (''solve_window_begin'', begin_fields w n m) # map (\<lambda>r. (''thread_window'', thread_fields w r)) rs @
     [(''relation_edge_summary'', summary_fields w es)] @ map (\<lambda>e. (''relation_edge'', edge_fields w e)) (logged_edges es) @
     [(''selector_input'', (''window_id'', Log_Text w) # (''strategy_id'', Log_Text ''numa-domain-v1'') # input),
      (''selector_output'', (''window_id'', Log_Text w) # (''strategy_id'', Log_Text ''numa-domain-v1'') # output),
      (''plan'', (''window_id'', Log_Text w) # (''strategy_id'', Log_Text ''numa-domain-v1'') # details)]"

fun stamped :: "(nat \<Rightarrow> uint64) \<Rightarrow> (string \<times> log_fields) list \<Rightarrow> log_fields list" where
  "stamped clock [] = []"
| "stamped clock ((type, fs) # evs) = log_line (clock 0) type fs # stamped (clock \<circ> Suc) evs"

section \<open>Reading it back\<close>

text \<open>What the JSON library gives for an object with such fields.\<close>

fun gives :: "'p json \<Rightarrow> 'p \<Rightarrow> string \<Rightarrow> log_value \<Rightarrow> bool" where
  "gives j p k (Log_Int n) \<longleftrightarrow> get_int j p k = Inr n"
| "gives j p k (Log_U64 n) \<longleftrightarrow> get_u64 j p k = Inr n"
| "gives j p k (Log_Real x) \<longleftrightarrow> get_double j p k = Inr x"
| "gives j p k (Log_Text s) \<longleftrightarrow> get_string j p k = Inr s"
| "gives j p k (Log_Bool b) \<longleftrightarrow> get_bool j p k = Inr b"
| "gives j p k (Log_Ints ns) \<longleftrightarrow> get_children j p k = Some (map Inr ns)"

definition carries :: "'p json \<Rightarrow> 'p \<Rightarrow> log_fields \<Rightarrow> bool" where
  "carries j p fs \<longleftrightarrow> list_all (\<lambda>(k, v). gives j p k v) fs"

definition prints :: "'p json \<Rightarrow> string \<Rightarrow> log_fields \<Rightarrow> bool" where
  "prints j line fs \<longleftrightarrow> line \<noteq> [] \<and> (\<exists>p. read_json j line = Inr p \<and> carries j p fs)"

text \<open>The frame that the lines of a window become.\<close>

definition logged_thread :: "thread_window_record \<Rightarrow> thread_demand" where
  "logged_thread r =
     \<lparr>td_identity = tw_identity r, group = json_unescape (json_escape (tw_group r)), demand = six_decimals (tw_demand r),
      confidence = six_decimals (tw_confidence r), current_cpu = tw_current_cpu r\<rparr>"

definition logged_edge :: "relation_edge \<Rightarrow> relation_edge" where
  "logged_edge e =
     \<lparr>from_tid = from_tid e, to_tid = to_tid e, activity = six_decimals (activity e), sync = six_decimals (sync e),
      share = six_decimals (share e), stability = six_decimals (stability e), score = six_decimals (score e),
      handoff_rate = 0, shared_vfs_seconds = 0, active_overlap = 0, observation_count = 0, coverage = 0,
      coefficient_of_variation = 0\<rparr>"

definition logged_frame :: "string \<Rightarrow> uint64 \<Rightarrow> thread_window_record list \<Rightarrow> relation_edge list \<Rightarrow> replay_frame" where
  "logged_frame w t rs es =
     \<lparr>rf_window_id = w, rf_timestamp_ns = t, rf_planned = True, relation_input_complete = (length es \<le> relation_log_limit),
      rf_threads = map logged_thread rs, rf_edges = map logged_edge (logged_edges es),
      rf_allowed_masks = fold (\<lambda>r. mput (tid (tw_identity r)) (tw_allowed_cpus r)) rs []\<rparr>"

text \<open>The state while the lines of the new window \<open>w\<close> are read: \<open>fr\<close> is its frame so far.\<close>

definition with_frame :: "log_state \<Rightarrow> string \<Rightarrow> replay_frame \<Rightarrow> log_state" where
  "with_frame s w fr =
     s\<lparr>frame_index := mput w (length (ls_frames s)) (frame_index s), ls_frames := ls_frames s @ [fr]\<rparr>"

lemma in_frame_new: "map_of (frame_index s) w = None \<Longrightarrow> in_frame w f s = rbind (f (new_frame w)) (\<lambda>x. Inr (with_frame s w x))"
  by (simp add: in_frame_def frame_for_def with_frame_def)

lemma in_frame_again: "in_frame w f (with_frame s w fr) = rbind (f fr) (\<lambda>x. Inr (with_frame s w x))"
  by (simp add: in_frame_def frame_for_def with_frame_def)

lemma all_values_Inr: "all_values (map Inr ns) = Inr ns"
  by (induction ns) (simp_all add: rbind_def)

lemma carries_Cons [simp]: "carries j p ((k, v) # fs) \<longleftrightarrow> gives j p k v \<and> carries j p fs"
  by (simp add: carries_def)

lemma carries_Nil [simp]: "carries j p []"
  by (simp add: carries_def)

lemma read_begin:
  "carries j p (log_line t ''solve_window_begin'' (begin_fields w n m)) \<Longrightarrow> map_of (frame_index s) w = None \<Longrightarrow>
   read_item j p s = Inr (with_frame s w ((new_frame w)\<lparr>rf_timestamp_ns := t\<rparr>))"
  by (simp add: log_line_def begin_fields_def read_item_def get_or_def Let_def rbind_def in_frame_new)

lemma read_thread_line:
  "carries j p (log_line t ''thread_window'' (thread_fields w r)) \<Longrightarrow>
   read_item j p (with_frame s w fr) =
     Inr (with_frame s w (fr\<lparr>rf_threads := rf_threads fr @ [logged_thread r],
       rf_allowed_masks := mput (tid (tw_identity r)) (tw_allowed_cpus r) (rf_allowed_masks fr)\<rparr>))"
  by (cases "tw_identity r")
    (simp add: log_line_def thread_fields_def log_text_def read_item_def get_or_def Let_def rbind_def in_frame_again read_thread_def
      read_int_array_def all_values_Inr logged_thread_def)

lemma read_summary_line:
  "carries j p (log_line t ''relation_edge_summary'' (summary_fields w es)) \<Longrightarrow>
   read_item j p (with_frame s w fr) = Inr (with_frame s w (fr\<lparr>relation_input_complete := (length es \<le> relation_log_limit)\<rparr>))"
  by (simp add: log_line_def summary_fields_def read_item_def get_or_def Let_def rbind_def in_frame_again min_def not_less)

lemma read_edge_line:
  "carries j p (log_line t ''relation_edge'' (edge_fields w e)) \<Longrightarrow>
   read_item j p (with_frame s w fr) = Inr (with_frame s w (fr\<lparr>rf_edges := rf_edges fr @ [logged_edge e]\<rparr>))"
  by (simp add: log_line_def edge_fields_def read_item_def get_or_def Let_def rbind_def in_frame_again read_edge_def logged_edge_def)

lemma read_selector_line:
  "type \<in> {''selector_input'', ''selector_output''} \<Longrightarrow> carries j p (log_line t type fs) \<Longrightarrow> read_item j p s = Inr s"
  by (auto simp: log_line_def read_item_def get_or_def Let_def)

lemma read_plan_line:
  "carries j p (log_line t ''plan'' ((''window_id'', Log_Text w) # (''strategy_id'', Log_Text ''numa-domain-v1'') # fs)) \<Longrightarrow>
   read_item j p (with_frame s w fr) = Inr (with_frame s w (fr\<lparr>rf_planned := True\<rparr>))"
  by (simp add: log_line_def read_item_def get_or_def Let_def rbind_def in_frame_again)

text \<open>Reading any lines that print the events \<open>evs\<close> takes the reader from \<open>s\<close> to \<open>s'\<close>.\<close>

definition reads :: "'p json \<Rightarrow> (string \<times> log_fields) list \<Rightarrow> log_state \<Rightarrow> log_state \<Rightarrow> bool" where
  "reads j evs s s' \<longleftrightarrow>
     (\<forall>clock k lines. list_all2 (prints j) lines (stamped clock evs) \<longrightarrow> rfold (read_line j) (enumerate k lines) s = Inr s')"

lemma read_printed:
  "prints j line fs \<Longrightarrow> (\<And>p. carries j p fs \<Longrightarrow> read_item j p s = Inr s') \<Longrightarrow> read_line j (k, line) s = Inr s'"
  by (auto simp: prints_def read_line_def)

lemma reads_Nil: "reads j [] s s"
  by (simp add: reads_def)

lemma reads_Cons:
  assumes "\<And>t p. carries j p (log_line t type fs) \<Longrightarrow> read_item j p s = Inr s1" "reads j evs s1 s'"
  shows "reads j ((type, fs) # evs) s s'"
  using assms(2) read_printed [OF _ assms(1)] by (fastforce simp: reads_def list_all2_Cons2)

lemma reads_threads:
  "reads j evs (with_frame s w (fr\<lparr>rf_threads := rf_threads fr @ map logged_thread rs,
       rf_allowed_masks := fold (\<lambda>r. mput (tid (tw_identity r)) (tw_allowed_cpus r)) rs (rf_allowed_masks fr)\<rparr>)) s' \<Longrightarrow>
   reads j (map (\<lambda>r. (''thread_window'', thread_fields w r)) rs @ evs) (with_frame s w fr) s'"
  by (induction rs arbitrary: fr) (auto intro!: reads_Cons read_thread_line)

lemma reads_edges:
  "reads j evs (with_frame s w (fr\<lparr>rf_edges := rf_edges fr @ map logged_edge es\<rparr>)) s' \<Longrightarrow>
   reads j (map (\<lambda>e. (''relation_edge'', edge_fields w e)) es @ evs) (with_frame s w fr) s'"
  by (induction es arbitrary: fr) (auto intro!: reads_Cons read_edge_line)

lemma reads_selector:
  "type \<in> {''selector_input'', ''selector_output''} \<Longrightarrow> reads j evs s s' \<Longrightarrow> reads j ((type, fs) # evs) s s'"
  by (rule reads_Cons) (rule read_selector_line)

lemma reads_plan:
  "fr\<lparr>rf_planned := True\<rparr> = fr' \<Longrightarrow>
   reads j [(''selector_input'', a), (''selector_output'', b),
     (''plan'', (''window_id'', Log_Text w) # (''strategy_id'', Log_Text ''numa-domain-v1'') # details)]
     (with_frame s w fr) (with_frame s w fr')"
  by (rule reads_selector, simp, rule reads_selector, simp, rule reads_Cons, erule read_plan_line) (simp add: reads_Nil)

text \<open>
  C16. The lines the supervisor logs for a window that reaches a plan of the domain strategy read back
  as one frame of the replay: its time is that of the first line, its threads and allowed masks are
  those of the thread records and its edges the strongest 4096 relations, in the order of the log;
  it is complete exactly when no relation was left out. Numbers with a fraction come back rounded to
  six decimals. The JSON library is only asked to return the fields that the lines carry.
\<close>

theorem logged_window_reads_back:
  assumes "map_of (frame_index s) w = None"
    "list_all2 (prints j) lines (stamped clock (window_events w n m rs es input output details))"
  shows "rfold (read_line j) (enumerate k lines) s = Inr (with_frame s w (logged_frame w (clock 0) rs es))"
proof -
  define evs where "evs = tl (window_events w n m rs es input output details)"
  obtain line rest where l: "lines = line # rest" "prints j line (log_line (clock 0) ''solve_window_begin'' (begin_fields w n m))"
    "list_all2 (prints j) rest (stamped (clock \<circ> Suc) evs)"
    using assms(2) by (auto simp: window_events_def evs_def list_all2_Cons2)
  have "reads j evs (with_frame s w ((new_frame w)\<lparr>rf_timestamp_ns := clock 0\<rparr>)) (with_frame s w (logged_frame w (clock 0) rs es))"
    unfolding evs_def window_events_def list.sel append.simps
    by (rule reads_threads, rule reads_Cons, erule read_summary_line, rule reads_edges, rule reads_plan)
      (simp add: logged_frame_def new_frame_def)
  then show ?thesis
    using read_printed [OF l(2) read_begin [OF _ assms(1)]] l(3) by (simp add: l(1) reads_def)
qed

text \<open>A JSON library that reads the n-th line of a log as its fields, where line n has n characters.\<close>

definition field_value :: "(log_value \<Rightarrow> 'a option) \<Rightarrow> log_fields \<Rightarrow> string \<Rightarrow> 'a result" where
  "field_value f fs k =
     (case map_of fs k of None \<Rightarrow> Inl (Runtime_Error ''no such node'')
      | Some v \<Rightarrow> (case f v of None \<Rightarrow> Inl (Runtime_Error ''conversion failed'') | Some x \<Rightarrow> Inr x))"

definition sample_json :: "log_fields list \<Rightarrow> log_fields json" where
  "sample_json entries =
     \<lparr>read_json = (\<lambda>line. Inr (entries ! (length line - 1))),
      get_string = field_value (\<lambda>v. case v of Log_Text t \<Rightarrow> Some t | _ \<Rightarrow> None),
      get_int = field_value (\<lambda>v. case v of Log_Int n \<Rightarrow> Some n | _ \<Rightarrow> None),
      get_u64 = field_value (\<lambda>v. case v of Log_U64 n \<Rightarrow> Some n | _ \<Rightarrow> None),
      get_double = field_value (\<lambda>v. case v of Log_Real x \<Rightarrow> Some x | _ \<Rightarrow> None),
      get_bool = field_value (\<lambda>v. case v of Log_Bool b \<Rightarrow> Some b | _ \<Rightarrow> None),
      get_children = (\<lambda>fs k. case map_of fs k of Some (Log_Ints ns) \<Rightarrow> Some (map Inr ns) | _ \<Rightarrow> None)\<rparr>"

definition sample_log_record :: thread_window_record where
  "sample_log_record =
     \<lparr>tw_identity = Identity 9 10 1, tw_comm = ''c'', tw_parent_tid = 9, tw_start_routine = 0,
      tw_start_symbol = [], tw_group = ''g'', tw_demand = 1 / 2, tw_confidence = 1, tw_current_cpu = 0, tw_allowed_cpus = [0, 1],
      tw_state = CHR ''R'', sample_count = 2, runtime_delta_ns = 5, runqueue_delta_ns = 0, voluntary_switches_delta = 0,
      involuntary_switches_delta = 0\<rparr>"

abbreviation sample_events :: "(string \<times> log_fields) list" where
  "sample_events \<equiv> window_events ''1-2-3'' 3 Plan [sample_log_record] [sample_edge 10 11 (1 / 3)] [] [] []"

abbreviation sample_log :: "log_fields list" where
  "sample_log \<equiv> stamped (\<lambda>n. 100 + of_nat n) sample_events"

abbreviation sample_lines :: "string list" where
  "sample_lines \<equiv> map (\<lambda>n. replicate (Suc n) CHR ''x'') [0..<7]"

lemma sample_lines_print: "list_all2 (prints (sample_json sample_log)) sample_lines sample_log"
proof -
  let ?j = "sample_json sample_log"
  have "list_all2 (\<lambda>line fs. line \<noteq> [] \<and> read_json ?j line = Inr fs \<and> carries ?j fs fs) sample_lines sample_log"
    by code_simp
  then show ?thesis by (rule list_all2_mono) (auto simp: prints_def)
qed

theorem logged_window_reads_back_witness:
  "rfold (read_line (sample_json sample_log)) (enumerate 1 sample_lines) new_log_state =
     Inr (with_frame new_log_state ''1-2-3'' (logged_frame ''1-2-3'' 100 [sample_log_record] [sample_edge 10 11 (1 / 3)])) \<and>
   map score (rf_edges (logged_frame ''1-2-3'' 100 [sample_log_record] [sample_edge 10 11 (1 / 3)])) = [333333 / 1000000]"
proof
  have "map_of (frame_index new_log_state) ''1-2-3'' = None" by (simp add: new_log_state_def)
  then show "rfold (read_line (sample_json sample_log)) (enumerate 1 sample_lines) new_log_state =
     Inr (with_frame new_log_state ''1-2-3'' (logged_frame ''1-2-3'' 100 [sample_log_record] [sample_edge 10 11 (1 / 3)]))"
    using logged_window_reads_back [OF _ sample_lines_print, of new_log_state 1] by simp
  show "map score (rf_edges (logged_frame ''1-2-3'' 100 [sample_log_record] [sample_edge 10 11 (1 / 3)])) = [333333 / 1000000]"
    by code_simp
qed

end
