(* ===== verification/Spec2Isabelle.thy ===== *)
theory Spec2Isabelle
  imports Cpu_List Actuator Domain_Lifecycle Graph_Properties Legacy_Solver Incremental_Properties
    Incremental_Node_Plan Runtime_Control Runtime_Buffers Bpf_Ring Bpf_Tracking Collector Domain_Replay
    Launcher_Properties Control_Client Strategy_Replay Window_Log
begin

section \<open>AffinityGraph\<close>

text \<open>
  AffinityGraph is a Linux supervisor that watches the threads of a target process through BPF and
  \<^verbatim>\<open>/proc\<close>, keeps a sliding graph of their demand and their relations, plans CPU affinities with
  one of two strategies, and applies them with \<^verbatim>\<open>sched_setaffinity\<close> so that everything can be
  undone. This development models the C and C++ implementation under \<^verbatim>\<open>src/\<close> (paths below are
  relative to it) and proves what each part promises.

  \<^bold>\<open>Parts and how they interact.\<close> The BPF program (\<^verbatim>\<open>bpf/affinitygraph.bpf.c\<close>) counts handoffs in two
  maps and emits lifecycle events into a ring buffer. The reader (\<^verbatim>\<open>src/bpf_reader.cpp\<close>) drains them
  on the BPF thread, which merges them into bounded pending buffers of the supervisor
  (\<^verbatim>\<open>src/runtime.cpp\<close>). The main thread takes the buffers over, samples \<^verbatim>\<open>/proc\<close> (\<^verbatim>\<open>src/collector.cpp\<close>),
  feeds the graph window (\<^verbatim>\<open>src/graph.cpp\<close>) and, once per solve interval, asks the NUMA-domain solver
  (\<^verbatim>\<open>src/domain_solver.cpp\<close>) or the incremental solver (\<^verbatim>\<open>src/solver.cpp\<close>) for a proposal on the
  discovered hardware (\<^verbatim>\<open>src/topology.cpp\<close>). The actuator (\<^verbatim>\<open>src/actuator.cpp\<close>) writes the masks,
  rolls failed batches back and restores on pause, failure and exit. The configuration
  (\<^verbatim>\<open>src/config.cpp\<close>) and thread profiles (\<^verbatim>\<open>src/thread_profile.cpp\<close>) parametrise all of this.

  \<^bold>\<open>Theories.\<close>

  \<^item> \<open>Prelude\<close>: ordered maps and sets as sorted lists (\<^verbatim>\<open>std::map\<close>, \<^verbatim>\<open>std::set\<close>), results with
    exceptions as values, the named collections, the contract \<open>best_scan\<close> of minimum searches.
  \<^item> \<open>Core_Types\<close>: the structures of \<^verbatim>\<open>include/affinitygraph/core.hpp\<close> that the components exchange.
  \<^item> \<open>Cpu_List\<close> (\<^verbatim>\<open>parse_cpu_list\<close>, \<^verbatim>\<open>format_cpu_list\<close>): the printer and the parser are inverse.
  \<^item> \<open>Configuration\<close> (\<^verbatim>\<open>load_config\<close>): which configurations load, and that the solver options derived
    from them are in range.
  \<^item> \<open>Thread_Profile\<close>: the profile file, its matching and assignment, its writer.
  \<^item> \<open>Topology\<close>: discovery and calibration; each CPU of the envelope is in exactly one node.
  \<^item> \<open>Actuator\<close>: batches, rollback and restore over any backend that meets the contract
    \<open>affinity_backend\<close>, interpreted on the Linux backend over a kernel (\<open>linux_kernel\<close>) and on the
    backend of the unit tests; commits, undone failures, complete restores, and two cases that are
    not restored.
  \<^item> \<open>Node_Planner\<close>, \<open>Union_Find\<close>, \<open>Domain_Solver\<close>, \<open>Domain_Safety\<close>, \<open>Domain_Lifecycle\<close>,
    \<open>Proposal_Protocol\<close>: the NUMA-domain solver. The enumeration of node sets finds the optimum of
    the documented rule; the components are the connected components of the confirmed pairs;
    proposing is total; planned masks are safe; only confirmed plans act; a complete commit
    installs exactly the plan.
  \<^item> \<open>Graph_Window\<close>, \<open>Graph_Invariant\<close>, \<open>Graph_Delta\<close>, \<open>Graph_Properties\<close>: the sliding window. Cached
    demands and incremental sums equal a computation from the histories; scores are bounded; a
    consumer of the deltas holds the emitted graph.
  \<^item> \<open>Legacy_Solver\<close>: the one-shot solver places every thread on a CPU of the graph.
  \<^item> \<open>Hotspots\<close>, \<open>Hotspot_Properties\<close>: selection of hot edges and of the managed cohort.
  \<^item> \<open>Incremental_Solver\<close>, \<open>Incremental_Planning\<close>, \<open>Incremental_Invariant\<close>, \<open>Incremental_Pinning\<close>,
    \<open>Incremental_Moves\<close>, \<open>Incremental_Run\<close>, \<open>Incremental_Properties\<close>, \<open>Incremental_Node_Plan\<close>: the
    incremental solver; slots are respected, moves stay in their budget, node plans cover the
    threads.
  \<^item> \<open>Bpf_Events\<close>, \<open>Bpf_Reader\<close>, \<open>Bpf_Ring\<close>: shared structures and the reader; a drain of the ring
    delivers each complete event once, byte for byte.
  \<^item> \<open>Bpf_Program\<close>, \<open>Bpf_Aggregates\<close>, \<open>Bpf_Accounting\<close>, \<open>Bpf_Tracking\<close>: the BPF program and its runs
    with the reader. Every counted handoff is in a map or drained, every counted event is in the
    ring, and only processes of the target's tree are reported on, as far as they fit the table.
  \<^item> \<open>Collector\<close>: sampling threads and pages from \<^verbatim>\<open>/proc\<close>, whose files are arguments; the main loop
    takes these samples as its argument \<open>tk_proc\<close>. A stat line is read back whatever the name of
    the thread contains.
  \<^item> \<open>Domain_Replay\<close>: the offline replay of logged windows through the domain solver, over any JSON
    library. It follows the supervisor in plan mode, is deterministic, and accepts only logs with a
    topology and complete windows.
  \<^item> \<open>Launcher_Session\<close>, \<open>Launcher\<close>, \<open>Launcher_Properties\<close>: the command that starts a target and its
    supervisor, over any sequence of answers of the system. The target runs unprivileged and only
    after its release, links are destroyed, preflight predicts the run; a failed start of the
    supervisor abandons the target. \<open>Control_Client\<close>: the client and the requests it sends.
  \<^item> \<open>Strategy_Replay\<close>: the offline replay of snapshots through the other two solvers. A passing grade
    means what its gates name, sequences replay deterministically, reported shares are shares.
  \<^item> \<open>Window_Log\<close>: the log lines of a solve window. The replay tool reads them back as the window's
    input, with fractions rounded to six decimals and at most 4096 relations.
  \<^item> \<open>Runtime_Actions\<close>, \<open>Runtime_State\<close>, \<open>Runtime_Events\<close>, \<open>Runtime_Windows\<close>: the supervisor as
    actions on a record of its members. An action returns, throws, or blocks forever.
  \<^item> \<open>Runtime_Invariant\<close>, \<open>Runtime_Control\<close>, \<open>Runtime_Buffers\<close>: what holds in every state the
    supervisor reaches. Observe and plan mode never write; a pause restores; a returned window
    has installed what it reports; dropped events are fatal; the health window is exact; and four
    situations in which the code does less than its documentation says.

  \<^bold>\<open>Conventions.\<close> \<^verbatim>\<open>double\<close> is \<open>real\<close>, so rounding is not modelled; 32- and 64-bit unsigned
  numbers are words and wrap; \<^verbatim>\<open>int\<close> is \<open>int\<close>, with the range checks of \<^verbatim>\<open>stoi\<close> written out.
  \<^verbatim>\<open>operator[]\<close> of a map that may insert is \<open>mgetd\<close> with the default; \<^verbatim>\<open>at\<close> is a lookup that can throw.
  \<^verbatim>\<open>std::sort\<close> is a stable sort; where the comparison leaves ties open the code's order among them
  is not determined and neither do the theorems depend on it. \<^verbatim>\<open>unordered_map\<close> is iterated in a
  fixed order. The kernel, the clock, files and system calls are arguments; what the development
  relies on about them is a locale with an interpretation on a concrete kernel. \<^verbatim>\<open>std::mutex\<close> is a
  flag: a second lock by the thread that holds it blocks.

  \<^bold>\<open>Loops.\<close> Loops over data are structural, and passes are bounded by the counts the code has
  (\<open>run_passes\<close>, \<open>refine_managed\<close>). Four loops run on fuel: \<open>find_root\<close> with the length of the parent
  map plus one (chains have no cycle, \<open>Union_Find\<close>), \<open>order_loop\<close> with the number of threads (each
  step takes one off, \<open>Incremental_Node_Plan\<close>), \<open>grow_managed\<close> with the size limit of the cohort (each
  step adds one, \<open>Hotspot_Properties\<close>) and \<open>repair_node\<close> with the threads a node is short of (each
  step adds one). The batch loop of the reader has its drain limit as a measure. The loop over the
  ring is a partial function: a garbled ring near the end of the 64-bit range could keep it
  running, and \<open>drain_returns\<close> gives the bound below which it returns.

  \<^bold>\<open>Not modelled.\<close> The text of the other log lines, of the status answer and of the replay reports (output only: the values they
  print are modelled); the declarations of the BPF library; tests, scripts and generated headers.
\<close>

end
